(* ===== verification/Prelude.thy ===== *)
theory Prelude
  imports Main "HOL-Library.Word" "HOL-Library.Monad_Syntax"
begin

text \<open>
  Shared vocabulary of the picoJava-II simulator model: the C integer types as words of their
  width, the host's byte order, status codes, and the lemmas on words, bytes and lists the
  components share. The simulator refuses to start unless the host is big-endian with 32-bit
  ints (initPico in iam/src/iam.c), so a 32-bit int is a word and byte 0 of it is its most
  significant byte. A C function that may call exit or assert, or that may leave the defined
  part of the language (an access outside its array or block), is modelled with an option
  result: None stands for "the process does not continue".
\<close>

unbundle bit_operations_syntax

type_synonym u8 = "8 word"
type_synonym u16 = "16 word"
type_synonym u32 = "32 word"
type_synonym u64 = "64 word"

text \<open>DSV_FAIL and DSV_SUCCESS of dsv.h, the status of every memory and cache routine.\<close>

datatype dsv = DSV_FAIL | DSV_SUCCESS

text \<open>Hint collections: field arithmetic, bytes of words, and effects on memories.\<close>

named_theorems field_simps_c \<open>arithmetic of address fields\<close>
named_theorems byte_simps \<open>bytes of 32-bit words\<close>
named_theorems store_simps \<open>reads after writes\<close>

section \<open>Bytes of a word on the big-endian host\<close>

lemma take_bit_small: "unat (w :: u32) < 2 ^ k \<Longrightarrow> take_bit k w = w"
proof -
  assume "unat w < 2 ^ k"
  then have "unat (take_bit k w) = unat w" by (simp add: unsigned_take_bit_eq take_bit_nat_eq_self)
  then show ?thesis by (simp add: word_unat_eq_iff)
qed

definition be_bytes :: "u32 \<Rightarrow> u8 list" where
  "be_bytes w = [ucast (drop_bit 24 w), ucast (drop_bit 16 w), ucast (drop_bit 8 w), ucast w]"

fun be_word :: "u8 list \<Rightarrow> u32" where
  "be_word [] = 0"
| "be_word (b # bs) = push_bit (8 * length bs) (ucast b) OR be_word bs"

lemma length_be_bytes [simp]: "length (be_bytes w) = 4"
  by (simp add: be_bytes_def)

lemma bit_u8_beyond [simp]: "8 \<le> n \<Longrightarrow> bit (w :: u8) n \<longleftrightarrow> False"
  using bit_imp_le_length [of w n] by auto

lemma bit_u32_beyond: "32 \<le> n \<Longrightarrow> bit (w :: u32) n \<longleftrightarrow> False"
  using bit_imp_le_length [of w n] by auto

lemma be_word_be_bytes [simp, byte_simps]: "be_word (be_bytes w) = w"
proof (rule bit_word_eqI)
  fix n assume "n < LENGTH(32)"
  then consider "n < 8" | "8 \<le> n" "n < 16" | "16 \<le> n" "n < 24" | "24 \<le> n" "n < 32"
    by fastforce
  then show "bit (be_word (be_bytes w)) n \<longleftrightarrow> bit w n"
    by cases (auto simp: be_bytes_def bit_simps less_diff_conv2)
qed

lemma be_bytes_be_word [byte_simps]:
  "length bs = 4 \<Longrightarrow> be_bytes (be_word bs) = bs"
proof -
  assume "length bs = 4"
  then obtain a b c d where bs: "bs = [a, b, c, d]"
    by (auto simp: length_Suc_conv numeral_eq_Suc)
  show ?thesis
    unfolding bs by (simp add: be_bytes_def) (auto intro!: bit_word_eqI simp: bit_simps)
qed

lemma be_bytes_inject [simp]: "be_bytes v = be_bytes w \<longleftrightarrow> v = w"
  by (metis be_word_be_bytes)

text \<open>Byte i of a word, as the code's cptr[i] on a pointer to it.\<close>

definition byte_at :: "u32 \<Rightarrow> nat \<Rightarrow> u8" where
  "byte_at w i = be_bytes w ! i"

section \<open>Lists updated in place\<close>

text \<open>Overwriting the elements from position i on, as memcpy into an array does.\<close>

definition blit :: "'a list \<Rightarrow> nat \<Rightarrow> 'a list \<Rightarrow> 'a list" where
  "blit xs i ys = take i xs @ ys @ drop (i + length ys) xs"

lemma length_blit [simp]: "i + length ys \<le> length xs \<Longrightarrow> length (blit xs i ys) = length xs"
  by (simp add: blit_def)

lemma nth_blit:
  assumes "i + length ys \<le> length xs" and "k < length xs"
  shows "blit xs i ys ! k = (if i \<le> k \<and> k < i + length ys then ys ! (k - i) else xs ! k)"
  using assms by (auto simp: blit_def nth_append)

lemma slice_blit_same:
  assumes "i + length ys \<le> length xs"
  shows "take (length ys) (drop i (blit xs i ys)) = ys"
  using assms by (simp add: blit_def)

lemma slice_blit_other:
  assumes "i + length ys \<le> length xs" and "j + n \<le> length xs"
    and "j + n \<le> i \<or> i + length ys \<le> j"
  shows "take n (drop j (blit xs i ys)) = take n (drop j xs)"
  using assms by (auto intro!: nth_equalityI simp: nth_blit)

section \<open>Words as addresses\<close>

definition aligned :: "u32 \<Rightarrow> bool" where
  "aligned a \<longleftrightarrow> a AND 3 = 0"

definition word_align :: "u32 \<Rightarrow> u32" where
  "word_align a = a AND 0xFFFFFFFC"

lemma bit_3_word: "bit (3 :: 'a::len word) n \<longleftrightarrow> n < 2 \<and> n < LENGTH('a)"
proof -
  have "(3 :: 'a word) = mask 2" by (simp add: mask_eq_exp_minus_1)
  then have "bit (3 :: 'a word) n \<longleftrightarrow> bit (mask 2 :: 'a word) n" by (rule arg_cong)
  then show ?thesis by (auto simp: bit_mask_iff)
qed

lemma bit_3_int: "bit (3 :: int) n \<longleftrightarrow> n < 2"
proof -
  have "(3 :: int) = mask 2" by (simp add: mask_eq_exp_minus_1)
  then have "bit (3 :: int) n \<longleftrightarrow> bit (mask 2 :: int) n" by (rule arg_cong)
  then show ?thesis by (auto simp: bit_mask_iff)
qed

lemma word_align_mask: "word_align a = a AND NOT (mask 2)"
proof -
  have "(0xFFFFFFFC :: u32) = NOT (mask 2)" by (simp add: mask_eq_exp_minus_1)
  then show ?thesis by (simp only: word_align_def)
qed

lemma bit_word_align: "bit (word_align a) n \<longleftrightarrow> 2 \<le> n \<and> bit a n"
  by (auto simp: word_align_mask bit_simps dest: bit_imp_le_length)

lemma aligned_bits: "aligned a \<longleftrightarrow> (\<forall>n<2. \<not> bit a n)"
proof -
  have "aligned a \<longleftrightarrow> a AND mask 2 = 0"
    by (simp add: aligned_def mask_eq_exp_minus_1)
  also have "\<dots> \<longleftrightarrow> (\<forall>n<2. \<not> bit a n)"
  proof
    assume h: "a AND mask 2 = 0"
    show "\<forall>n<2. \<not> bit a n"
    proof (intro allI impI)
      fix n :: nat assume "n < 2"
      moreover have "\<not> bit (a AND mask 2) n" by (simp only: h) simp
      ultimately show "\<not> bit a n" by (simp add: bit_simps)
    qed
  next
    assume "\<forall>n<2. \<not> bit a n"
    then show "a AND mask 2 = 0" by (intro bit_word_eqI) (auto simp: bit_simps)
  qed
  finally show ?thesis .
qed

lemma aligned_word_align [simp]: "aligned (word_align a)"
  by (simp add: aligned_bits bit_word_align)

lemma word_align_aligned [simp]: "aligned a \<Longrightarrow> word_align a = a"
  by (rule bit_word_eqI) (metis aligned_bits bit_word_align not_le)

text \<open>Adding a byte offset to an aligned address only sets its two low bits.\<close>

lemma small_bits:
  assumes "i < (4 :: u32)" and "2 \<le> n"
  shows "\<not> bit i n"
proof -
  have "i AND mask 2 = i" using assms(1) by (simp add: mask_eq_iff word_less_def)
  then have "take_bit 2 i = i" by (simp add: take_bit_eq_mask)
  then have "bit i n \<longleftrightarrow> bit (take_bit 2 i) n" by simp
  then show ?thesis using assms(2) by (simp add: bit_simps)
qed

lemma aligned_plus_or:
  assumes "aligned a" and "i < 4"
  shows "a + i = a OR i"
proof -
  have "a AND i = 0"
  proof (rule bit_word_eqI)
    fix n
    show "bit (a AND i) n \<longleftrightarrow> bit (0 :: u32) n"
      using assms small_bits [OF assms(2), of n] by (cases "n < 2") (auto simp: aligned_bits bit_simps)
  qed
  then show ?thesis by (rule disjunctive_add_eq_or)
qed

lemma word_align_plus:
  assumes "aligned a" and "i < 4"
  shows "word_align (a + i) = a"
proof (rule bit_word_eqI)
  fix n
  show "bit (word_align (a + i)) n \<longleftrightarrow> bit a n"
    using assms small_bits [OF assms(2), of n]
    by (cases "n < 2") (auto simp: aligned_plus_or bit_word_align aligned_bits bit_simps)
qed

lemma aligned_plus_inject:
  "aligned a \<Longrightarrow> aligned b \<Longrightarrow> i < 4 \<Longrightarrow> j < 4 \<Longrightarrow> a + i = b + j \<Longrightarrow> a = b"
  by (metis word_align_plus)

text \<open>The four bytes of two different aligned words do not meet.\<close>

lemma aligned_bytes_disjoint:
  assumes "aligned a" "aligned b" "a \<noteq> b" "i \<in> {0, 1, 2, 3}" "j \<in> {0, 1, 2, 3}"
  shows "a + i \<noteq> b + j"
proof -
  have "i < 4" "j < 4" using assms(4,5) by auto
  with assms(1-3) show ?thesis by (metis aligned_plus_inject)
qed

section \<open>C arithmetic\<close>

text \<open>Signed division and remainder of C round towards zero.\<close>

definition c_div :: "int \<Rightarrow> int \<Rightarrow> int" where
  "c_div a b = sgn a * sgn b * (\<bar>a\<bar> div \<bar>b\<bar>)"

definition c_mod :: "int \<Rightarrow> int \<Rightarrow> int" where
  "c_mod a b = a - c_div a b * b"

lemma c_div_nonneg: "0 \<le> a \<Longrightarrow> 0 < b \<Longrightarrow> c_div a b = a div b"
  by (cases "a = 0") (simp_all add: c_div_def)

lemma c_div_neg: "a < 0 \<Longrightarrow> 0 < b \<Longrightarrow> c_div a b = - ((- a) div b)"
  by (simp add: c_div_def)

end
