(* ===== verification/Store_Interface.thy ===== *)
theory Store_Interface
  imports Prelude
begin

text \<open>
  The contract between a level of the memory hierarchy and its users: a word store. The common
  memory (ldr/src/cm.c) provides it to the data cache (cache/src/cache.c), and the data cache
  over the memory provides it to the loads and stores of the processor. A level is described by
  the addresses it serves (ok), its invariant (inv), the value a program sees at an address
  (get) and its load and store operations. The definitions here are generic in the operations;
  the lemmas in the locale are what a client of any level may use.
\<close>

datatype access = Load u32 | Store u32 u32

fun access_addr :: "access \<Rightarrow> u32" where
  "access_addr (Load a) = a"
| "access_addr (Store a d) = a"

text \<open>The reference behaviour: a flat array of words.\<close>

fun run_flat :: "(u32 \<Rightarrow> u32) \<Rightarrow> access list \<Rightarrow> u32 list \<times> (u32 \<Rightarrow> u32)" where
  "run_flat f [] = ([], f)"
| "run_flat f (Load a # xs) = (let (vs, g) = run_flat f xs in (f a # vs, g))"
| "run_flat f (Store a d # xs) = run_flat (f(a := d)) xs"

text \<open>A sequence of accesses run against the operations of a level; the loaded words in order.\<close>

fun run_accesses :: "('s \<Rightarrow> u32 \<Rightarrow> (u32 \<times> 's) option) \<Rightarrow> ('s \<Rightarrow> u32 \<Rightarrow> u32 \<Rightarrow> 's option) \<Rightarrow>
    's \<Rightarrow> access list \<Rightarrow> (u32 list \<times> 's) option" where
  "run_accesses ld st s [] = Some ([], s)"
| "run_accesses ld st s (Load a # xs) =
     do { (v, s) \<leftarrow> ld s a; (vs, s) \<leftarrow> run_accesses ld st s xs; Some (v # vs, s) }"
| "run_accesses ld st s (Store a d # xs) =
     do { s \<leftarrow> st s a d; run_accesses ld st s xs }"

text \<open>Consecutive words, as the line fill and write-back loops move them.\<close>

fun load_words :: "('s \<Rightarrow> u32 \<Rightarrow> (u32 \<times> 's) option) \<Rightarrow> 's \<Rightarrow> u32 \<Rightarrow> nat \<Rightarrow> (u32 list \<times> 's) option" where
  "load_words ld s a 0 = Some ([], s)"
| "load_words ld s a (Suc n) =
     do { (v, s) \<leftarrow> ld s a; (vs, s) \<leftarrow> load_words ld s (a + 4) n; Some (v # vs, s) }"

fun store_words :: "('s \<Rightarrow> u32 \<Rightarrow> u32 \<Rightarrow> 's option) \<Rightarrow> 's \<Rightarrow> u32 \<Rightarrow> u32 list \<Rightarrow> 's option" where
  "store_words st s a [] = Some s"
| "store_words st s a (w # ws) = do { s \<leftarrow> st s a w; store_words st s (a + 4) ws }"

fun upd_block :: "(u32 \<Rightarrow> u32) \<Rightarrow> u32 \<Rightarrow> u32 list \<Rightarrow> u32 \<Rightarrow> u32" where
  "upd_block f a [] = f"
| "upd_block f a (w # ws) = upd_block (f(a := w)) (a + 4) ws"

fun block_addrs :: "u32 \<Rightarrow> nat \<Rightarrow> u32 list" where
  "block_addrs a 0 = []"
| "block_addrs a (Suc n) = a # block_addrs (a + 4) n"

lemma upd_block_cong:
  "\<forall>b. ok b \<longrightarrow> f b = g b \<Longrightarrow> ok b \<Longrightarrow> upd_block f a ws b = upd_block g a ws b"
proof (induction ws arbitrary: f g a)
  case Nil
  then show ?case by simp
next
  case (Cons w ws)
  have "\<forall>b. ok b \<longrightarrow> (f(a := w)) b = (g(a := w)) b" using Cons.prems(1) by simp
  then show ?case using Cons.prems(2) by (simp only: upd_block.simps Cons.IH)
qed

lemma upd_block_outside:
  "b \<notin> set (block_addrs a (length ws)) \<Longrightarrow> upd_block f a ws b = f b"
  by (induction ws arbitrary: f a) auto

lemma run_flat_cong:
  assumes "\<forall>b. ok b \<longrightarrow> f b = g b" and "\<forall>x\<in>set xs. ok (access_addr x)"
  shows "fst (run_flat f xs) = fst (run_flat g xs) \<and>
    (\<forall>b. ok b \<longrightarrow> snd (run_flat f xs) b = snd (run_flat g xs) b)"
  using assms
proof (induction xs arbitrary: f g)
  case Nil
  then show ?case by simp
next
  case (Cons x xs)
  show ?case
  proof (cases x)
    case (Load a)
    from Cons.prems have "\<forall>x\<in>set xs. ok (access_addr x)" by simp
    from Cons.IH [OF Cons.prems(1) this] Load Cons.prems show ?thesis
      by (simp add: case_prod_beta)
  next
    case (Store a d)
    have "\<forall>b. ok b \<longrightarrow> (f(a := d)) b = (g(a := d)) b" using Cons.prems(1) by simp
    moreover from Cons.prems have "\<forall>x\<in>set xs. ok (access_addr x)" by simp
    ultimately have "fst (run_flat (f(a := d)) xs) = fst (run_flat (g(a := d)) xs) \<and>
        (\<forall>b. ok b \<longrightarrow> snd (run_flat (f(a := d)) xs) b = snd (run_flat (g(a := d)) xs) b)"
      by (rule Cons.IH)
    then show ?thesis unfolding Store by simp
  qed
qed

locale word_store =
  fixes inv :: "'s \<Rightarrow> bool"
    and ok :: "u32 \<Rightarrow> bool"
    and get :: "'s \<Rightarrow> u32 \<Rightarrow> u32"
    and ld :: "'s \<Rightarrow> u32 \<Rightarrow> (u32 \<times> 's) option"
    and st :: "'s \<Rightarrow> u32 \<Rightarrow> u32 \<Rightarrow> 's option"
  assumes load_law: "inv s \<Longrightarrow> ok a \<Longrightarrow>
      \<exists>s'. ld s a = Some (get s a, s') \<and> inv s' \<and> (\<forall>b. ok b \<longrightarrow> get s' b = get s b)"
    and store_law: "inv s \<Longrightarrow> ok a \<Longrightarrow>
      \<exists>s'. st s a d = Some s' \<and> inv s' \<and> (\<forall>b. ok b \<longrightarrow> get s' b = (if b = a then d else get s b))"
begin

lemma load_words_law:
  assumes "inv s" and "\<forall>b\<in>set (block_addrs a n). ok b"
  shows "\<exists>s'. load_words ld s a n = Some (map (get s) (block_addrs a n), s') \<and> inv s' \<and>
    (\<forall>b. ok b \<longrightarrow> get s' b = get s b)"
  using assms
proof (induction n arbitrary: s a)
  case 0
  then show ?case by simp
next
  case (Suc n)
  from Suc.prems obtain s1 where 1: "ld s a = Some (get s a, s1)" "inv s1"
      "\<forall>b. ok b \<longrightarrow> get s1 b = get s b"
    using load_law [of s a] by auto
  from Suc.prems(2) 1(2) Suc.IH [of s1 "a + 4"] obtain s2 where
      2: "load_words ld s1 (a + 4) n = Some (map (get s1) (block_addrs (a + 4) n), s2)" "inv s2"
      "\<forall>b. ok b \<longrightarrow> get s2 b = get s1 b"
    by auto
  have "map (get s1) (block_addrs (a + 4) n) = map (get s) (block_addrs (a + 4) n)"
    using 1(3) Suc.prems(2) by simp
  with 1 2 show ?case by simp
qed

lemma store_words_law:
  assumes "inv s" and "\<forall>b\<in>set (block_addrs a (length ws)). ok b"
  shows "\<exists>s'. store_words st s a ws = Some s' \<and> inv s' \<and>
    (\<forall>b. ok b \<longrightarrow> get s' b = upd_block (get s) a ws b)"
  using assms
proof (induction ws arbitrary: s a)
  case Nil
  then show ?case by simp
next
  case (Cons w ws)
  from Cons.prems obtain s1 where 1: "st s a w = Some s1" "inv s1"
      "\<forall>b. ok b \<longrightarrow> get s1 b = ((get s)(a := w)) b"
    using store_law [of s a w] by auto
  from Cons.prems(2) 1(2) Cons.IH [of s1 "a + 4"] obtain s2 where
      2: "store_words st s1 (a + 4) ws = Some s2" "inv s2"
      "\<forall>b. ok b \<longrightarrow> get s2 b = upd_block (get s1) (a + 4) ws b"
    by auto
  have "upd_block (get s1) (a + 4) ws b = upd_block ((get s)(a := w)) (a + 4) ws b" if "ok b" for b
    using 1(3) that by (rule upd_block_cong)
  with 1 2 show ?case by simp
qed

text \<open>Any program of loads and stores sees the flat array.\<close>

lemma run_accesses_flat:
  assumes "inv s" and "\<forall>x\<in>set xs. ok (access_addr x)"
  shows "\<exists>s'. run_accesses ld st s xs = Some (fst (run_flat (get s) xs), s') \<and> inv s' \<and>
    (\<forall>b. ok b \<longrightarrow> get s' b = snd (run_flat (get s) xs) b)"
  using assms
proof (induction xs arbitrary: s)
  case Nil
  then show ?case by simp
next
  case (Cons x xs)
  show ?case
  proof (cases x)
    case (Load a)
    from Cons.prems Load obtain s1 where 1: "ld s a = Some (get s a, s1)" "inv s1"
        "\<forall>b. ok b \<longrightarrow> get s1 b = get s b"
      using load_law [of s a] by auto
    from Cons.prems have oks: "\<forall>x\<in>set xs. ok (access_addr x)" by simp
    from Cons.IH [OF 1(2) oks] obtain s2 where
        2: "run_accesses ld st s1 xs = Some (fst (run_flat (get s1) xs), s2)" "inv s2"
        "\<forall>b. ok b \<longrightarrow> get s2 b = snd (run_flat (get s1) xs) b"
      by auto
    from run_flat_cong [of ok "get s1" "get s" xs, OF 1(3) oks] 1(1) 2 Load
    show ?thesis by (simp add: case_prod_beta)
  next
    case (Store a d)
    from Cons.prems Store obtain s1 where 1: "st s a d = Some s1" "inv s1"
        "\<forall>b. ok b \<longrightarrow> get s1 b = ((get s)(a := d)) b"
      using store_law [of s a d] by auto
    from Cons.prems have oks: "\<forall>x\<in>set xs. ok (access_addr x)" by simp
    from Cons.IH [OF 1(2) oks] obtain s2 where
        2: "run_accesses ld st s1 xs = Some (fst (run_flat (get s1) xs), s2)" "inv s2"
        "\<forall>b. ok b \<longrightarrow> get s2 b = snd (run_flat (get s1) xs) b"
      by auto
    from run_flat_cong [of ok "get s1" "(get s)(a := d)" xs, OF 1(3) oks] 1(1) 2 Store
    show ?thesis by simp
  qed
qed

end

end
