(* ===== verification/Common_Memory.thy ===== *)
theory Common_Memory
  imports Store_Interface
begin

text \<open>
  The common memory of ldr/src/cm.c: the main block of CM\_SIZE bytes, the scratch area around
  the I/O region, the console register and the system call register, with the word, short and
  byte accesses, the debugger's peek and poke, and the loader's bump allocator. A pointer into
  a block is an address plus the block it was computed from; an access outside the block the
  code selected is undefined behaviour, hence None.
\<close>

section \<open>State\<close>

definition SCRATCH_START :: u32 where "SCRATCH_START = 0x2fff0000"
definition SCRATCH_SIZE :: u32 where "SCRATCH_SIZE = 0x20000"
definition SYSCALL_MAGIC_ADDR :: u32 where "SYSCALL_MAGIC_ADDR = 0xffe8"
definition BAD_MEMORY_START :: u32 where "BAD_MEMORY_START = 0x2fffbad0"
definition BAD_IO_START :: u32 where "BAD_IO_START = 0x3000bad0"
definition BAD_SIZE :: u32 where "BAD_SIZE = 16"
definition CONSOLE_ADDR :: u32 where "CONSOLE_ADDR = 0x2f0000c0"

lemmas cm_consts = SCRATCH_START_def SCRATCH_SIZE_def SYSCALL_MAGIC_ADDR_def
  BAD_MEMORY_START_def BAD_IO_START_def BAD_SIZE_def CONSOLE_ADDR_def

text \<open>
  inputBuffer holds the bytes before the terminating NUL. syscall\_handler is the handler of
  the dynamically loaded system call library (p\_syscall\_handler\_fn), which is not part of the
  repository: it may rewrite the main block.
\<close>

record cmem =
  CM_SIZE :: u32
  commonMemory :: "u32 \<Rightarrow> u8"
  scratchMemory :: "u32 \<Rightarrow> u8"
  startingAddress :: u32
  currentAddress :: u32
  inputBuffer :: "u8 list"
  iBufferReadIndex :: nat
  stdin :: "u8 list"
  stdout :: "u8 list"
  syscall_handler :: "((u32 \<Rightarrow> u8) \<Rightarrow> (u32 \<Rightarrow> u8)) option"

datatype block = MainBlock | ScratchBlock

text \<open>
  The tests that precede every access: which block the pointer is computed from, None for
  "Not in the correct region". Both upper bounds are the code's, one byte too generous.
\<close>

definition cm_block :: "cmem \<Rightarrow> u32 \<Rightarrow> block option" where
  "cm_block m addr =
     (if CM_SIZE m < addr then
        (if addr < SCRATCH_START \<or> SCRATCH_START + SCRATCH_SIZE < addr then None
         else Some ScratchBlock)
      else Some MainBlock)"

definition in_bad_area :: "u32 \<Rightarrow> bool" where
  "in_bad_area addr \<longleftrightarrow>
     (BAD_MEMORY_START \<le> addr \<and> addr < BAD_MEMORY_START + BAD_SIZE) \<or>
     (BAD_IO_START \<le> addr \<and> addr < BAD_IO_START + BAD_SIZE)"

definition block_get :: "cmem \<Rightarrow> block \<Rightarrow> u32 \<Rightarrow> u8 option" where
  "block_get m blk a =
     (case blk of
        MainBlock \<Rightarrow> (if a < CM_SIZE m then Some (commonMemory m a) else None)
      | ScratchBlock \<Rightarrow>
          (if a - SCRATCH_START < SCRATCH_SIZE then Some (scratchMemory m a) else None))"

definition block_put :: "cmem \<Rightarrow> block \<Rightarrow> u32 \<Rightarrow> u8 \<Rightarrow> cmem option" where
  "block_put m blk a b =
     (case blk of
        MainBlock \<Rightarrow>
          (if a < CM_SIZE m then Some (m\<lparr>commonMemory := (commonMemory m)(a := b)\<rparr>) else None)
      | ScratchBlock \<Rightarrow>
          (if a - SCRATCH_START < SCRATCH_SIZE
           then Some (m\<lparr>scratchMemory := (scratchMemory m)(a := b)\<rparr>) else None))"

definition block_get_word :: "cmem \<Rightarrow> block \<Rightarrow> u32 \<Rightarrow> u32 option" where
  "block_get_word m blk a =
     do { b0 \<leftarrow> block_get m blk a; b1 \<leftarrow> block_get m blk (a + 1);
          b2 \<leftarrow> block_get m blk (a + 2); b3 \<leftarrow> block_get m blk (a + 3);
          Some (be_word [b0, b1, b2, b3]) }"

definition block_put_word :: "cmem \<Rightarrow> block \<Rightarrow> u32 \<Rightarrow> u32 \<Rightarrow> cmem option" where
  "block_put_word m blk a d =
     do { m \<leftarrow> block_put m blk a (byte_at d 0); m \<leftarrow> block_put m blk (a + 1) (byte_at d 1);
          m \<leftarrow> block_put m blk (a + 2) (byte_at d 2); block_put m blk (a + 3) (byte_at d 3) }"

section \<open>The console and the system call register\<close>

text \<open>fgets into a buffer: at most n bytes, up to and including a newline.\<close>

fun fgets_take :: "nat \<Rightarrow> u8 list \<Rightarrow> u8 list \<times> u8 list" where
  "fgets_take 0 xs = ([], xs)"
| "fgets_take (Suc n) [] = ([], [])"
| "fgets_take (Suc n) (x # xs) =
     (if x = 10 then ([x], xs) else (let (l, r) = fgets_take n xs in (x # l, r)))"

text \<open>
  fgets leaves the buffer as it was at end of file. The bytes 0xa0 and NUL are then stored at
  strlen and strlen + 1, inside the array of 128 bytes only if strlen + 1 is.
\<close>

definition console_refill :: "cmem \<Rightarrow> cmem option" where
  "console_refill m =
     (let (l, rest) = fgets_take 126 (stdin m);
          buf = (if l = [] then inputBuffer m else takeWhile (\<lambda>b. b \<noteq> 0) l)
      in if length buf + 1 < 128
         then Some (m\<lparr>stdin := rest, inputBuffer := buf @ [0xa0], iBufferReadIndex := 0\<rparr>)
         else None)"

definition console_getc :: "cmem \<Rightarrow> (u8 \<times> cmem) option" where
  "console_getc m =
     do { m \<leftarrow> (if iBufferReadIndex m < length (inputBuffer m) then Some m else console_refill m);
          Some (inputBuffer m ! iBufferReadIndex m,
                m\<lparr>iBufferReadIndex := iBufferReadIndex m + 1\<rparr>) }"

definition console_put :: "cmem \<Rightarrow> u32 \<Rightarrow> nat \<Rightarrow> cmem" where
  "console_put m data sz =
     (if sz = 0 then m\<lparr>stdout := stdout m @ [byte_at data 0]\<rparr>
      else if sz = 1 then m\<lparr>stdout := stdout m @ [byte_at data 1]\<rparr>
      else if sz = 2 then m\<lparr>stdout := stdout m @ [byte_at data 3]\<rparr>
      else m)"

definition handle_syscall :: "cmem \<Rightarrow> cmem" where
  "handle_syscall m =
     (case syscall_handler m of
        None \<Rightarrow> m
      | Some h \<Rightarrow> m\<lparr>commonMemory := h (commonMemory m)\<rparr>)"

section \<open>Accesses\<close>

text \<open>
  data is the word the caller passed a pointer to; an access that fails leaves it alone. A
  short at offset 3 would move a byte past the end of that word.
\<close>

definition cmMemoryRead :: "cmem \<Rightarrow> u32 \<Rightarrow> u32 \<Rightarrow> nat \<Rightarrow> (dsv \<times> u32 \<times> cmem) option" where
  "cmMemoryRead m addr data sz =
     (if addr OR 0x20000000 = CONSOLE_ADDR then
        do { (c, m) \<leftarrow> console_getc m; Some (DSV_SUCCESS, push_bit 24 (ucast c), m) }
      else case cm_block m addr of
        None \<Rightarrow> Some (DSV_FAIL, data, m)
      | Some blk \<Rightarrow>
          if blk = ScratchBlock \<and> in_bad_area addr then Some (DSV_FAIL, data, m)
          else
            (let i = unat (addr AND 3) in
             if sz = 0 then
               do { b \<leftarrow> block_get m blk addr;
                    Some (DSV_SUCCESS, be_word ((be_bytes 0)[i := b]), m) }
             else if sz = 1 then
               (if i = 3 then None
                else do { b0 \<leftarrow> block_get m blk addr; b1 \<leftarrow> block_get m blk (addr + 1);
                          Some (DSV_SUCCESS, be_word ((be_bytes 0)[i := b0, Suc i := b1]), m) })
             else if sz = 2 then
               do { w \<leftarrow> block_get_word m blk addr; Some (DSV_SUCCESS, w, m) }
             else Some (DSV_FAIL, 0, m)))"

definition cmMemoryWrite :: "cmem \<Rightarrow> u32 \<Rightarrow> u32 \<Rightarrow> nat \<Rightarrow> (dsv \<times> cmem) option" where
  "cmMemoryWrite m addr data sz =
     (if addr OR 0x20000000 = CONSOLE_ADDR then Some (DSV_SUCCESS, console_put m data sz)
      else case cm_block m addr of
        None \<Rightarrow> Some (DSV_FAIL, m)
      | Some blk \<Rightarrow>
          if blk = ScratchBlock \<and> in_bad_area addr then Some (DSV_FAIL, m)
          else
            (let i = unat (addr AND 3) in
             if sz = 0 then
               do { m \<leftarrow> block_put m blk addr (byte_at data i);
                    Some (DSV_SUCCESS, if addr = SYSCALL_MAGIC_ADDR then handle_syscall m else m) }
             else if sz = 1 then
               (if i = 3 then None
                else do { m \<leftarrow> block_put m blk addr (byte_at data i);
                          m \<leftarrow> block_put m blk (addr + 1) (byte_at data (Suc i));
                          Some (DSV_SUCCESS, m) })
             else if sz = 2 then
               do { m \<leftarrow> block_put_word m blk addr data; Some (DSV_SUCCESS, m) }
             else Some (DSV_FAIL, m)))"

text \<open>The debugger's accesses: no console, no bad areas; DSV\_FAIL is the number 0.\<close>

definition cmPeek :: "cmem \<Rightarrow> u32 \<Rightarrow> u32 option" where
  "cmPeek m addr =
     (let a = addr AND 0xfffffffc in
      case cm_block m a of None \<Rightarrow> Some 0 | Some blk \<Rightarrow> block_get_word m blk a)"

definition cmPoke :: "cmem \<Rightarrow> u32 \<Rightarrow> u32 \<Rightarrow> (dsv \<times> cmem) option" where
  "cmPoke m addr value =
     (let a = addr AND 0xfffffffc in
      case cm_block m a of
        None \<Rightarrow> Some (DSV_FAIL, m)
      | Some blk \<Rightarrow> do { m \<leftarrow> block_put_word m blk a value; Some (DSV_SUCCESS, m) })"

definition cmMemoryDirectWrite :: "cmem \<Rightarrow> u32 \<Rightarrow> u8 \<Rightarrow> (dsv \<times> cmem) option" where
  "cmMemoryDirectWrite m addr value =
     (case cm_block m addr of
        None \<Rightarrow> Some (DSV_FAIL, m)
      | Some blk \<Rightarrow> do { m \<leftarrow> block_put m blk addr value; Some (DSV_SUCCESS, m) })"

definition addressCheck :: "cmem \<Rightarrow> u32 \<Rightarrow> dsv" where
  "addressCheck m addr = (if cm_block m addr = None then DSV_FAIL else DSV_SUCCESS)"

section \<open>The loader's allocator\<close>

text \<open>
  A failed request still moves currentAddress. The comparison with CM\_SIZE is unsigned, and
  the sum wraps around.
\<close>

definition cmCalloc :: "cmem \<Rightarrow> u32 \<Rightarrow> u32 \<Rightarrow> u32 option \<times> cmem" where
  "cmCalloc m n sz =
     (let cptr = currentAddress m; cur = currentAddress m + n * sz
      in (if CM_SIZE m < cur then None else Some cptr, m\<lparr>currentAddress := cur\<rparr>))"

definition cmMalloc :: "cmem \<Rightarrow> u32 \<Rightarrow> u32 option \<times> cmem" where
  "cmMalloc m sz =
     (let sz = (sz + 3) AND 0xfffffffc;
          cptr = currentAddress m; cur = currentAddress m + sz
      in (if CM_SIZE m < cur then None else Some cptr, m\<lparr>currentAddress := cur\<rparr>))"

definition cmRewind :: "cmem \<Rightarrow> cmem" where
  "cmRewind m = m\<lparr>currentAddress := startingAddress m\<rparr>"

section \<open>The memory as a store of words\<close>

text \<open>
  plain\_word n a: the aligned word at a lies inside ordinary storage of a memory of n bytes:
  not the console register, not the injected-error areas. cm\_word is the word stored there.
\<close>

definition plain_word :: "u32 \<Rightarrow> u32 \<Rightarrow> bool" where
  "plain_word n a \<longleftrightarrow> aligned a \<and> a OR 0x20000000 \<noteq> CONSOLE_ADDR \<and>
     (if n < a
      then SCRATCH_START \<le> a \<and> a < SCRATCH_START + SCRATCH_SIZE \<and> \<not> in_bad_area a
      else a < n \<and> a + 1 < n \<and> a + 2 < n \<and> a + 3 < n)"

definition cm_word :: "cmem \<Rightarrow> u32 \<Rightarrow> u32" where
  "cm_word m a =
     (let f = (if CM_SIZE m < a then scratchMemory m else commonMemory m)
      in be_word [f a, f (a + 1), f (a + 2), f (a + 3)])"

definition upd_word :: "(u32 \<Rightarrow> u8) \<Rightarrow> u32 \<Rightarrow> u32 \<Rightarrow> u32 \<Rightarrow> u8" where
  "upd_word f a d = f(a := byte_at d 0, a + 1 := byte_at d 1, a + 2 := byte_at d 2,
     a + 3 := byte_at d 3)"

definition cm_put :: "cmem \<Rightarrow> u32 \<Rightarrow> u32 \<Rightarrow> cmem" where
  "cm_put m a d =
     (if CM_SIZE m < a then m\<lparr>scratchMemory := upd_word (scratchMemory m) a d\<rparr>
      else m\<lparr>commonMemory := upd_word (commonMemory m) a d\<rparr>)"

lemma CM_SIZE_cm_put [simp]: "CM_SIZE (cm_put m a d) = CM_SIZE m"
  by (simp add: cm_put_def)

lemma word_of_upd_same:
  "be_word [upd_word f a d a, upd_word f a d (a + 1), upd_word f a d (a + 2),
     upd_word f a d (a + 3)] = d"
proof -
  have "be_word (be_bytes d) = d" by simp
  moreover have "be_bytes d = [byte_at d 0, byte_at d 1, byte_at d 2, byte_at d 3]"
    by (simp add: byte_at_def be_bytes_def)
  ultimately show ?thesis by (simp add: upd_word_def)
qed

lemma upd_word_other:
  assumes "aligned a" "aligned b" "a \<noteq> b" "i \<in> {0, 1, 2, 3}"
  shows "upd_word f a d (b + i) = f (b + i)"
proof -
  have "a + j \<noteq> b + i" if "j \<in> {0, 1, 2, 3}" for j
    using aligned_bytes_disjoint [OF assms(1-3)] that assms(4) by blast
  from this [of 0] this [of 1] this [of 2] this [of 3] show ?thesis
    by (auto simp: upd_word_def)
qed

lemma cm_word_cm_put:
  assumes "aligned a" "aligned b"
  shows "cm_word (cm_put m a d) b = (if b = a then d else cm_word m b)"
proof (cases "b = a")
  case True
  then show ?thesis by (simp add: cm_word_def cm_put_def word_of_upd_same del: be_word.simps)
next
  case False
  then have "upd_word f a d b = f b" "upd_word f a d (b + 1) = f (b + 1)"
    "upd_word f a d (b + 2) = f (b + 2)" "upd_word f a d (b + 3) = f (b + 3)" for f
    using upd_word_other [OF assms, of _ f d] False upd_word_other [OF assms, of 0 f d] by auto
  with False show ?thesis by (simp add: cm_word_def cm_put_def Let_def del: be_word.simps)
qed

lemma aligned_offset_in_scratch:
  assumes "aligned a" and "SCRATCH_START \<le> a" and "a < SCRATCH_START + SCRATCH_SIZE"
    and "i \<in> {0, 1, 2, 3}"
  shows "a + i - SCRATCH_START < SCRATCH_SIZE"
proof -
  have lt: "a < 0x30010000" using assms(3) by (simp add: cm_consts)
  have ge: "0x2fff0000 \<le> a" using assms(2) by (simp add: cm_consts)
  have "unat a mod 4 = 0"
  proof -
    have "take_bit 2 a = 0" using assms(1) by (simp add: aligned_def take_bit_eq_mask mask_eq_exp_minus_1)
    then have "take_bit 2 (unat a) = 0"
      by (simp flip: unsigned_take_bit_eq)
    then show ?thesis by (simp add: take_bit_eq_mod)
  qed
  with lt ge have "unat a + 3 < 0x30010000" by (simp add: word_less_nat_alt) presburger
  with ge assms(4) show ?thesis
    by (auto simp: cm_consts word_less_nat_alt word_le_nat_alt unat_sub_if' unat_word_ariths)
qed

lemma cmMemoryRead_plain:
  assumes "plain_word (CM_SIZE m) a"
  shows "cmMemoryRead m a data 2 = Some (DSV_SUCCESS, cm_word m a, m)"
proof -
  have "a AND 3 = 0" using assms by (simp add: plain_word_def aligned_def)
  then show ?thesis
    using assms aligned_offset_in_scratch [of a 0] aligned_offset_in_scratch [of a 1]
      aligned_offset_in_scratch [of a 2] aligned_offset_in_scratch [of a 3]
    by (auto simp: cmMemoryRead_def plain_word_def cm_block_def block_get_word_def block_get_def
        cm_word_def Let_def simp del: be_word.simps split: if_splits)
qed

lemma cmMemoryWrite_plain:
  assumes "plain_word (CM_SIZE m) a"
  shows "cmMemoryWrite m a d 2 = Some (DSV_SUCCESS, cm_put m a d)"
  using assms aligned_offset_in_scratch [of a 0] aligned_offset_in_scratch [of a 1]
    aligned_offset_in_scratch [of a 2] aligned_offset_in_scratch [of a 3]
  by (auto simp: cmMemoryWrite_def plain_word_def cm_block_def block_put_word_def block_put_def
      cm_put_def upd_word_def Let_def split: if_splits)

lemma cmPeek_plain:
  assumes "plain_word (CM_SIZE m) a"
  shows "cmPeek m a = Some (cm_word m a)"
proof -
  have "a AND 0xfffffffc = a" using assms word_align_aligned [of a] by (simp add: plain_word_def word_align_def)
  then show ?thesis
    using assms aligned_offset_in_scratch [of a 0] aligned_offset_in_scratch [of a 1]
      aligned_offset_in_scratch [of a 2] aligned_offset_in_scratch [of a 3]
    by (auto simp: cmPeek_def plain_word_def cm_block_def block_get_word_def block_get_def
        cm_word_def Let_def simp del: be_word.simps split: if_splits)
qed

definition cm_load :: "cmem \<Rightarrow> u32 \<Rightarrow> (u32 \<times> cmem) option" where
  "cm_load m a = (case cmMemoryRead m a 0 2 of
     Some (DSV_SUCCESS, v, m') \<Rightarrow> Some (v, m') | _ \<Rightarrow> None)"

definition cm_store :: "cmem \<Rightarrow> u32 \<Rightarrow> u32 \<Rightarrow> cmem option" where
  "cm_store m a d = (case cmMemoryWrite m a d 2 of
     Some (DSV_SUCCESS, m') \<Rightarrow> Some m' | _ \<Rightarrow> None)"

interpretation cms: word_store "\<lambda>m :: cmem. CM_SIZE m = n" "plain_word n" cm_word cm_load cm_store for n
proof
  fix s :: cmem and a
  assume "CM_SIZE s = n" and "plain_word n a"
  then show "\<exists>s'. cm_load s a = Some (cm_word s a, s') \<and> CM_SIZE s' = n \<and>
      (\<forall>b. plain_word n b \<longrightarrow> cm_word s' b = cm_word s b)"
    by (simp add: cm_load_def cmMemoryRead_plain)
next
  fix s :: cmem and a d
  assume "CM_SIZE s = n" and "plain_word n a"
  then show "\<exists>s'. cm_store s a d = Some s' \<and> CM_SIZE s' = n \<and>
      (\<forall>b. plain_word n b \<longrightarrow> cm_word s' b = (if b = a then d else cm_word s b))"
    by (auto simp: cm_store_def cmMemoryWrite_plain cm_word_cm_put plain_word_def)
qed

end
