(* ===== verification/Cache_Geometry.thy ===== *)
theory Cache_Geometry
  imports Common_Memory
begin

text \<open>
  Address fields of the caches: cache/src/util.c. The field positions are chosen by icacheInit
  and dcacheInit of cache/src/cache.c: a data cache line has 16 bytes (DINDEX\_R = 4), the index
  runs from bit DINDEX\_R to bit DINDEX\_L and the tag from DRTAG = DINDEX\_L + 1 to bit 31.
\<close>

definition LTAG :: nat where "LTAG = 31"
definition DINDEX_R :: nat where "DINDEX_R = 4"

definition getFieldValue :: "u32 \<Rightarrow> nat \<Rightarrow> nat \<Rightarrow> u32" where
  "getFieldValue value left right =
     (let range = left - right + 1;
          mask = push_bit right (push_bit range 1 - 1)
      in drop_bit right (value AND mask))"

text \<open>makeDAddr and makeIAddr differ in the global they shift the tag by, here rtag.\<close>

definition makeAddr :: "nat \<Rightarrow> u32 \<Rightarrow> u32 \<Rightarrow> nat \<Rightarrow> u32" where
  "makeAddr rtag tag index shift = push_bit rtag tag OR push_bit shift index"

section \<open>Fields as bit slices\<close>

lemma getFieldValue_slice [field_simps_c]:
  "getFieldValue v l r = take_bit (l - r + 1) (drop_bit r v)"
proof -
  have "push_bit (l - r + 1) 1 - 1 = (mask (l - r + 1) :: u32)"
    by (simp add: mask_eq_decr_exp push_bit_eq_mult)
  then show ?thesis
    by (intro bit_word_eqI) (auto simp: getFieldValue_def Let_def bit_simps dest: bit_imp_le_length)
qed

lemma bit_getFieldValue:
  "bit (getFieldValue v l r) n \<longleftrightarrow> n < l - r + 1 \<and> bit v (r + n)"
  by (auto simp: getFieldValue_slice bit_simps)

lemma bit_makeAddr:
  "bit (makeAddr rt t i s) n \<longleftrightarrow> n < 32 \<and> (rt \<le> n \<and> bit t (n - rt) \<or> s \<le> n \<and> bit i (n - s))"
  by (auto simp: makeAddr_def bit_simps)

text \<open>The line address: the offset bits below the index cleared.\<close>

definition line_addr :: "nat \<Rightarrow> u32 \<Rightarrow> u32" where
  "line_addr r a = push_bit r (drop_bit r a)"

lemma bit_line_addr: "bit (line_addr r a) n \<longleftrightarrow> r \<le> n \<and> bit a n"
  by (auto simp: line_addr_def bit_simps dest: bit_imp_le_length)

text \<open>Tag and index of an address put together again give its line address.\<close>

lemma makeAddr_fields:
  assumes "r \<le> l" "l < 31"
  shows "makeAddr (l + 1) (getFieldValue a LTAG (l + 1)) (getFieldValue a l r) r = line_addr r a"
proof (rule bit_word_eqI)
  fix n assume "n < LENGTH(32)"
  then show "bit (makeAddr (l + 1) (getFieldValue a LTAG (l + 1)) (getFieldValue a l r) r) n \<longleftrightarrow>
      bit (line_addr r a) n"
    using assms
    by (auto simp: bit_makeAddr bit_getFieldValue bit_line_addr LTAG_def)
qed

text \<open>Two addresses with the same tag and index lie in the same line, and conversely.\<close>

lemma line_addr_eq_iff:
  assumes "r \<le> l" "l < 31"
  shows "line_addr r a = line_addr r b \<longleftrightarrow>
    getFieldValue a LTAG (l + 1) = getFieldValue b LTAG (l + 1) \<and>
    getFieldValue a l r = getFieldValue b l r"
proof
  assume "line_addr r a = line_addr r b"
  then have "r \<le> n \<Longrightarrow> bit a n \<longleftrightarrow> bit b n" for n
    by (metis bit_line_addr)
  then show "getFieldValue a LTAG (l + 1) = getFieldValue b LTAG (l + 1) \<and>
      getFieldValue a l r = getFieldValue b l r"
    using assms by (auto intro!: bit_word_eqI simp: bit_getFieldValue)
qed (metis assms makeAddr_fields)

lemma line_addr_idem [simp]: "line_addr r (line_addr r a) = line_addr r a"
  by (rule bit_word_eqI) (simp add: bit_line_addr)

lemma getFieldValue_line_addr:
  assumes "r \<le> l" "l < 31"
  shows "getFieldValue (line_addr r a) LTAG (l + 1) = getFieldValue a LTAG (l + 1)"
    and "getFieldValue (line_addr r a) l r = getFieldValue a l r"
  using line_addr_eq_iff [OF assms, of "line_addr r a" a] by simp_all

lemma unat_getFieldValue_less: "unat (getFieldValue v l r) < 2 ^ (l - r + 1)"
  using take_bit_nat_less_exp [of "l - r + 1" "unat (drop_bit r v)"]
  by (simp add: getFieldValue_slice unsigned_take_bit_eq)

lemma getFieldValue_align:
  assumes "2 \<le> r"
  shows "getFieldValue (word_align a) l r = getFieldValue a l r"
  by (rule bit_word_eqI) (use assms in \<open>auto simp: bit_getFieldValue bit_word_align\<close>)

section \<open>The words of a 16-byte line\<close>

text \<open>offset is the byte position in the line of the word that holds an address.\<close>

definition line_offset :: "u32 \<Rightarrow> nat" where
  "line_offset a = unat (getFieldValue (word_align a) (DINDEX_R - 1) 0)"

lemma line_offset_slice: "line_offset a = unat (take_bit 4 (word_align a))"
  by (simp add: line_offset_def getFieldValue_slice DINDEX_R_def)

lemma line_split:
  assumes "aligned a"
  shows "line_addr 4 a + of_nat (line_offset a) = a"
proof -
  have t: "word_of_nat (line_offset a) = take_bit 4 a"
    using assms by (simp add: line_offset_slice)
  have "line_addr 4 a AND take_bit 4 a = 0"
    by (rule bit_word_eqI) (auto simp: bit_line_addr bit_simps)
  then have "line_addr 4 a + take_bit 4 a = line_addr 4 a OR take_bit 4 a"
    by (rule disjunctive_add_eq_or)
  also have "\<dots> = a"
    by (rule bit_word_eqI) (auto simp: bit_line_addr bit_simps)
  finally show ?thesis using t by simp
qed

lemma line_offset_cases: "line_offset a \<in> {0, 4, 8, 12}"
proof -
  have "take_bit 2 (line_offset a) = 0"
  proof -
    have "take_bit 2 (take_bit 4 (word_align a)) = 0"
      by (rule bit_word_eqI) (auto simp: bit_simps bit_word_align)
    then show ?thesis
      unfolding line_offset_slice by (metis unsigned_0 unsigned_take_bit_eq)
  qed
  moreover have "line_offset a < 16"
    using take_bit_nat_less_exp [of 4 "unat (word_align a)"]
    by (simp add: line_offset_slice unsigned_take_bit_eq)
  ultimately have "line_offset a mod 4 = 0" "line_offset a < 16" by (simp_all add: take_bit_eq_mod)
  then show ?thesis by simp presburger
qed

lemma line_addr_aligned: "2 \<le> r \<Longrightarrow> aligned (line_addr r a)"
  by (simp add: aligned_bits bit_line_addr)

lemma line_addr_plus:
  assumes "i < 16"
  shows "line_addr 4 (line_addr 4 a + i) = line_addr 4 a"
proof -
  have b: "\<not> bit i n" if "4 \<le> n" for n
  proof -
    have "i AND mask 4 = i" using assms by (simp add: mask_eq_iff word_less_def)
    then have "bit i n \<longleftrightarrow> bit (i AND mask 4) n" by simp
    then show ?thesis using that by (simp add: bit_simps)
  qed
  have "line_addr 4 a AND i = 0"
  proof (rule bit_word_eqI)
    fix n
    show "bit (line_addr 4 a AND i) n \<longleftrightarrow> bit (0 :: u32) n"
      using b [of n] by (cases "4 \<le> n") (auto simp: bit_simps bit_line_addr)
  qed
  then have "line_addr 4 a + i = line_addr 4 a OR i" by (rule disjunctive_add_eq_or)
  then show ?thesis
    by (intro bit_word_eqI) (auto simp: bit_line_addr bit_simps b)
qed

end
