(* ===== verification/Data_Cache.thy ===== *)
theory Data_Cache
  imports Cache_Geometry
begin

text \<open>
  The data cache of cache/src/cache.c: two ways, write back, write allocate. One-bit fields are
  bools (valid, dirty) or the way they select (lru); the 23-bit tag keeps its width. Output of
  printf and the transaction type of the bus trace (cmSetPJType) are not modelled. A status
  other than the two of dsv.h does not occur; a read past the end of D or of a line gives None.

  Lemmas: select\_law (every outcome of dCacheSelect keeps the invariant and the contents a
  program sees), the interpretation dcs (the cache over the memory is a word store), and the
  laws of the line flush, invalidate and zero operations.
\<close>

datatype way = Way0 | Way1

fun other :: "way \<Rightarrow> way" where
  "other Way0 = Way1"
| "other Way1 = Way0"

record dCacheSet =
  set_line :: "u8 list"
  set_tag :: "23 word"
  set_valid :: bool
  set_dirty :: bool

record dCacheEntry =
  dSet :: "way \<Rightarrow> dCacheSet"
  lru :: way

record dcache =
  D :: "dCacheEntry list"
  numOfDcacheEntries :: int
  DINDEX_L :: nat
  DRTAG :: nat
  dCacheLineSize :: nat
  dSizeK :: nat
  currentDSize :: u32
  dcache_reads :: u64
  dcache_writes :: u64
  dcache_read_misses :: u64
  dcache_write_misses :: u64
  dcache_read_misses_causing_wb :: u64
  dcache_write_misses_causing_wb :: u64

text \<open>A missing entry: D is indexed by an unsigned number, so only the upper bound can fail.\<close>

definition dentry :: "dcache \<Rightarrow> u32 \<Rightarrow> dCacheEntry option" where
  "dentry dc index = (if unat index < length (D dc) then Some (D dc ! unat index) else None)"

definition put_entry :: "dcache \<Rightarrow> u32 \<Rightarrow> dCacheEntry \<Rightarrow> dcache" where
  "put_entry dc index e = dc\<lparr>D := (D dc)[unat index := e]\<rparr>"

definition with_set :: "dCacheEntry \<Rightarrow> way \<Rightarrow> dCacheSet \<Rightarrow> dCacheEntry" where
  "with_set e w s = e\<lparr>dSet := (dSet e)(w := s)\<rparr>"

text \<open>The test (int) index >= numOfDcacheEntries; an index has at most ten bits.\<close>

definition no_dline :: "dcache \<Rightarrow> u32 \<Rightarrow> bool" where
  "no_dline dc index \<longleftrightarrow> numOfDcacheEntries dc \<le> sint index"

definition dindex :: "dcache \<Rightarrow> u32 \<Rightarrow> u32" where
  "dindex dc addr = getFieldValue addr (DINDEX_L dc) DINDEX_R"

definition dtag :: "dcache \<Rightarrow> u32 \<Rightarrow> u32" where
  "dtag dc addr = getFieldValue addr LTAG (DRTAG dc)"

definition hits :: "dCacheSet \<Rightarrow> u32 \<Rightarrow> bool" where
  "hits s ltag \<longleftrightarrow> set_valid s \<and> ucast (set_tag s) = ltag"

definition find_way :: "dCacheEntry \<Rightarrow> u32 \<Rightarrow> way option" where
  "find_way e ltag =
     (if hits (dSet e Way0) ltag then Some Way0
      else if hits (dSet e Way1) ltag then Some Way1 else None)"

definition set_base :: "dcache \<Rightarrow> u32 \<Rightarrow> dCacheSet \<Rightarrow> u32" where
  "set_base dc index s = makeAddr (DRTAG dc) (ucast (set_tag s)) index DINDEX_R"

section \<open>Initialisation\<close>

definition empty_dset :: dCacheSet where
  "empty_dset = \<lparr>set_line = replicate 16 0, set_tag = 0, set_valid = False, set_dirty = False\<rparr>"

text \<open>The allocation succeeds. An unknown size leaves the old lines, already freed, in place.\<close>

definition dcacheInit :: "dcache \<Rightarrow> u32 \<Rightarrow> (dsv \<times> dcache) option" where
  "dcacheInit dc dSize =
     (let dc = dc\<lparr>currentDSize := dSize, dCacheLineSize := 16\<rparr>;
          sized = (\<lambda>n k l. Some (DSV_SUCCESS,
            dc\<lparr>numOfDcacheEntries := int (n div 2), dSizeK := k, DINDEX_L := l, DRTAG := l + 1,
               D := replicate (n div 2) \<lparr>dSet = (\<lambda>_. empty_dset), lru = Way0\<rparr>\<rparr>))
      in if dSize = 0 then
           Some (DSV_SUCCESS, dc\<lparr>numOfDcacheEntries := -1, dSizeK := 0, DINDEX_L := 11,
             DRTAG := 12, D := []\<rparr>)
         else if dSize = 1 then sized (2 ^ (10 - 4)) 1 8
         else if dSize = 2 then sized (2 ^ (11 - 4)) 2 9
         else if dSize = 3 then sized (2 ^ (12 - 4)) 4 10
         else if dSize = 4 then sized (2 ^ (13 - 4)) 8 11
         else if dSize = 5 then sized (2 ^ (14 - 4)) 16 12
         else if D dc = [] then Some (DSV_FAIL, dc) else None)"

section \<open>Moving a line\<close>

definition lword :: "u8 list \<Rightarrow> nat \<Rightarrow> u32" where
  "lword xs k = be_word (take 4 (drop k xs))"

definition line_word :: "u8 list \<Rightarrow> nat \<Rightarrow> u32 option" where
  "line_word xs i = (if i + 4 \<le> length xs then Some (lword xs i) else None)"

definition line_put :: "u8 list \<Rightarrow> nat \<Rightarrow> u8 list \<Rightarrow> u8 list option" where
  "line_put xs i bs = (if i + length bs \<le> length xs then Some (blit xs i bs) else None)"

text \<open>while (i < lineSize) cmMemoryWrite(reladdr, *data, 2): i is the loop's counter.\<close>

function write_back :: "cmem \<Rightarrow> u32 \<Rightarrow> u8 list \<Rightarrow> nat \<Rightarrow> nat \<Rightarrow> (dsv \<times> cmem) option" where
  "write_back m reladdr xs i n =
     (if i < n then
        do { d \<leftarrow> line_word xs i;
             (r, m) \<leftarrow> cmMemoryWrite m reladdr d 2;
             if r = DSV_FAIL then Some (DSV_FAIL, m) else write_back m (reladdr + 4) xs (i + 4) n }
      else Some (DSV_SUCCESS, m))"
  by pat_completeness auto
termination by (relation "measure (\<lambda>(_, _, _, i, n). n - i)") auto

function fill_line :: "cmem \<Rightarrow> u32 \<Rightarrow> u8 list \<Rightarrow> nat \<Rightarrow> nat \<Rightarrow> (dsv \<times> u8 list \<times> cmem) option" where
  "fill_line m reladdr xs i n =
     (if i < n then
        do { d \<leftarrow> line_word xs i;
             (r, d, m) \<leftarrow> cmMemoryRead m reladdr d 2;
             xs \<leftarrow> line_put xs i (be_bytes d);
             if r = DSV_FAIL then Some (DSV_FAIL, xs, m)
             else fill_line m (reladdr + 4) xs (i + 4) n }
      else Some (DSV_SUCCESS, xs, m))"
  by pat_completeness auto
termination by (relation "measure (\<lambda>(_, _, _, i, n). n - i)") auto

declare write_back.simps [simp del] fill_line.simps [simp del]

section \<open>Selecting a line\<close>

text \<open>
  The three stages of dCacheSelect: choose the way, write a dirty victim back, read the line in.
  The result of a failing stage carries the state left behind.
\<close>

definition count_access :: "bool \<Rightarrow> dcache \<Rightarrow> dcache" where
  "count_access is_read dc =
     (if is_read then dc\<lparr>dcache_reads := dcache_reads dc + 1\<rparr>
      else dc\<lparr>dcache_writes := dcache_writes dc + 1\<rparr>)"

definition count_miss :: "bool \<Rightarrow> dcache \<Rightarrow> dcache" where
  "count_miss is_read dc =
     (if is_read then dc\<lparr>dcache_read_misses := dcache_read_misses dc + 1\<rparr>
      else dc\<lparr>dcache_write_misses := dcache_write_misses dc + 1\<rparr>)"

definition count_wb :: "bool \<Rightarrow> dcache \<Rightarrow> dcache" where
  "count_wb is_read dc =
     (if is_read then dc\<lparr>dcache_read_misses_causing_wb := dcache_read_misses_causing_wb dc + 1\<rparr>
      else dc\<lparr>dcache_write_misses_causing_wb := dcache_write_misses_causing_wb dc + 1\<rparr>)"

definition choose_way :: "bool \<Rightarrow> dcache \<Rightarrow> dCacheEntry \<Rightarrow> u32 \<Rightarrow> way \<times> dcache" where
  "choose_way is_read dc e ltag =
     (case find_way e ltag of
        Some w \<Rightarrow> (w, dc)
      | None \<Rightarrow> (lru e, count_miss is_read dc))"

definition evict_victim :: "bool \<Rightarrow> dcache \<Rightarrow> cmem \<Rightarrow> u32 \<Rightarrow> u32 \<Rightarrow> way \<Rightarrow> (dsv \<times> dcache \<times> cmem) option" where
  "evict_victim is_read dc m index ltag w =
     do { e \<leftarrow> dentry dc index;
          let s = dSet e w;
          if ltag \<noteq> ucast (set_tag s) \<and> set_valid s \<and> set_dirty s then
            do { let dc = count_wb is_read dc;
                 (r, m) \<leftarrow> write_back m (set_base dc index s) (set_line s) 0 (dCacheLineSize dc);
                 if r = DSV_FAIL then Some (DSV_FAIL, dc, m)
                 else Some (DSV_SUCCESS,
                   put_entry dc index (with_set e w (s\<lparr>set_valid := False, set_dirty := True\<rparr>)), m) }
          else Some (DSV_SUCCESS, dc, m) }"

definition fill_victim :: "dcache \<Rightarrow> cmem \<Rightarrow> u32 \<Rightarrow> u32 \<Rightarrow> way \<Rightarrow> (dsv \<times> dcache \<times> cmem) option" where
  "fill_victim dc m index ltag w =
     do { e \<leftarrow> dentry dc index;
          let s = dSet e w;
          if ltag \<noteq> ucast (set_tag s) \<or> \<not> set_valid s then
            do { let s = s\<lparr>set_tag := ucast ltag\<rparr>;
                 (r, xs, m) \<leftarrow> fill_line m (makeAddr (DRTAG dc) ltag index DINDEX_R) (set_line s) 0
                   (dCacheLineSize dc);
                 if r = DSV_FAIL then
                   Some (DSV_FAIL, put_entry dc index (with_set e w (s\<lparr>set_line := xs, set_valid := False\<rparr>)), m)
                 else
                   Some (DSV_SUCCESS,
                     put_entry dc index ((with_set e w
                       (s\<lparr>set_line := xs, set_valid := True, set_dirty := False\<rparr>))\<lparr>lru := other w\<rparr>), m) }
          else Some (DSV_SUCCESS, dc, m) }"

text \<open>The result's way is None when the cache has no line for the address.\<close>

definition dCacheSelect :: "dcache \<Rightarrow> cmem \<Rightarrow> u32 \<Rightarrow> bool \<Rightarrow> (dsv \<times> u32 \<times> way option \<times> dcache \<times> cmem) option" where
  "dCacheSelect dc m addr is_read =
     (let dc = count_access is_read dc; index = dindex dc addr in
      if no_dline dc index then Some (DSV_SUCCESS, index, None, dc, m)
      else
        (let ltag = dtag dc addr in
         do { e \<leftarrow> dentry dc index;
              let (w, dc) = choose_way is_read dc e ltag;
              (r, dc, m) \<leftarrow> evict_victim is_read dc m index ltag w;
              if r = DSV_FAIL then Some (DSV_FAIL, index, Some w, dc, m)
              else do { (r, dc, m) \<leftarrow> fill_victim dc m index ltag w;
                        Some (r, index, Some w, dc, m) } }))"

section \<open>Loads and stores\<close>

definition dCacheRead :: "dcache \<Rightarrow> cmem \<Rightarrow> u32 \<Rightarrow> u32 \<Rightarrow> (dsv \<times> u32 \<times> dcache \<times> cmem) option" where
  "dCacheRead dc m addr data =
     do { (r, index, w, dc, m) \<leftarrow> dCacheSelect dc m addr True;
          if r = DSV_FAIL then Some (DSV_FAIL, data, dc, m)
          else if no_dline dc index then
            do { (r, data, m) \<leftarrow> cmMemoryRead m addr data 2; Some (r, data, dc, m) }
          else
            do { e \<leftarrow> dentry dc index; w \<leftarrow> w;
                 data \<leftarrow> line_word (set_line (dSet e w)) (line_offset addr);
                 Some (DSV_SUCCESS, data, dc, m) } }"

text \<open>
  The store into a line that dCacheWrite and dCacheNAWrite share: a byte takes byte 3 of data,
  a short bytes 2 and 3. A misaligned address is reported and the store goes on.
\<close>

definition store_in_line :: "dcache \<Rightarrow> u32 \<Rightarrow> way \<Rightarrow> u32 \<Rightarrow> u32 \<Rightarrow> nat \<Rightarrow> (dsv \<times> dcache) option" where
  "store_in_line dc index w addr data sz =
     do { e \<leftarrow> dentry dc index;
          let s = dSet e w;
          let pos = line_offset addr + unat (addr AND 3);
          if sz \<le> 2 then
            do { xs \<leftarrow> line_put (set_line s) pos
                   (if sz = 0 then [byte_at data 3]
                    else if sz = 1 then [byte_at data 2, byte_at data 3] else be_bytes data);
                 Some (DSV_SUCCESS,
                   put_entry dc index
                     ((with_set e w (s\<lparr>set_line := xs, set_dirty := True\<rparr>))\<lparr>lru := other w\<rparr>)) }
          else Some (DSV_FAIL, dc) }"

definition dCacheWrite :: "dcache \<Rightarrow> cmem \<Rightarrow> u32 \<Rightarrow> u32 \<Rightarrow> nat \<Rightarrow> (dsv \<times> dcache \<times> cmem) option" where
  "dCacheWrite dc m addr data sz =
     do { (r, index, w, dc, m) \<leftarrow> dCacheSelect dc m addr False;
          if r = DSV_FAIL then Some (DSV_FAIL, dc, m)
          else if no_dline dc index then
            do { (r, m) \<leftarrow> cmMemoryWrite m addr data sz; Some (r, dc, m) }
          else
            do { w \<leftarrow> w; (r, dc) \<leftarrow> store_in_line dc index w addr data sz; Some (r, dc, m) } }"

definition dCacheNAWrite :: "dcache \<Rightarrow> cmem \<Rightarrow> u32 \<Rightarrow> u32 \<Rightarrow> nat \<Rightarrow> (dsv \<times> dcache \<times> cmem) option" where
  "dCacheNAWrite dc m addr data sz =
     (let index = dindex dc addr in
      if no_dline dc index then Some (DSV_SUCCESS, dc, m)
      else do { e \<leftarrow> dentry dc index;
                case find_way e (dtag dc addr) of
                  None \<Rightarrow> do { (r, m) \<leftarrow> cmMemoryWrite m addr data sz; Some (r, dc, m) }
                | Some w \<Rightarrow> do { (r, dc) \<leftarrow> store_in_line dc index w addr data sz; Some (r, dc, m) } })"

text \<open>The debugger's view. Its line index is not word aligned; past the line's end it is None.\<close>

definition debug_dCacheRead :: "dcache \<Rightarrow> cmem \<Rightarrow> u32 \<Rightarrow> u32 option" where
  "debug_dCacheRead dc m addr =
     (let index = dindex dc addr in
      if no_dline dc index then cmPeek m addr
      else do { e \<leftarrow> dentry dc index;
                case find_way e (dtag dc addr) of
                  Some w \<Rightarrow> line_word (set_line (dSet e w)) (unat (getFieldValue addr (DINDEX_R - 1) 0))
                | None \<Rightarrow> cmPeek m addr })"

section \<open>Diagnostic access to tags and data\<close>

definition way_of :: "u32 \<Rightarrow> way" where
  "way_of addr = (if addr AND 0x80000000 \<noteq> 0 then Way1 else Way0)"

text \<open>The byte loops stop at the end of the line: bytes not read stay 0.\<close>

definition readDcacheData :: "dcache \<Rightarrow> u32 \<Rightarrow> u32 \<Rightarrow> (dsv \<times> u32) option" where
  "readDcacheData dc addr data =
     (let index = dindex dc addr in
      if no_dline dc index then Some (DSV_SUCCESS, data)
      else do { e \<leftarrow> dentry dc index;
                let xs = set_line (dSet e (way_of addr));
                let bs = take (min 4 (dCacheLineSize dc - line_offset addr)) (drop (line_offset addr) xs);
                if line_offset addr + length bs < min (line_offset addr + 4) (dCacheLineSize dc)
                then None else Some (DSV_SUCCESS, be_word (take 4 (bs @ be_bytes 0))) })"

definition writeDcacheData :: "dcache \<Rightarrow> u32 \<Rightarrow> u32 \<Rightarrow> (dsv \<times> dcache) option" where
  "writeDcacheData dc addr data =
     (let index = dindex dc addr in
      if no_dline dc index then Some (DSV_SUCCESS, dc)
      else do { e \<leftarrow> dentry dc index;
                let w = way_of addr;
                xs \<leftarrow> line_put (set_line (dSet e w)) (line_offset addr)
                       (take (dCacheLineSize dc - line_offset addr) (be_bytes data));
                Some (DSV_SUCCESS, put_entry dc index (with_set e w ((dSet e w)\<lparr>set_line := xs\<rparr>))) })"

definition writeDcacheTag :: "dcache \<Rightarrow> u32 \<Rightarrow> u32 \<Rightarrow> (dsv \<times> dcache) option" where
  "writeDcacheTag dc addr data =
     (let index = dindex dc addr in
      if no_dline dc index then Some (DSV_SUCCESS, dc)
      else do { e \<leftarrow> dentry dc index;
                let w = way_of addr;
                Some (DSV_SUCCESS,
                  put_entry dc index ((with_set e w
                    ((dSet e w)\<lparr>set_tag := ucast (dtag dc data), set_dirty := data AND 2 \<noteq> 0,
                       set_valid := data AND 1 \<noteq> 0\<rparr>))
                    \<lparr>lru := if data AND 4 \<noteq> 0 then Way1 else Way0\<rparr>)) })"

definition readDcacheTag :: "dcache \<Rightarrow> u32 \<Rightarrow> u32 \<Rightarrow> (dsv \<times> u32) option" where
  "readDcacheTag dc addr data =
     (let index = dindex dc addr in
      if no_dline dc index then Some (DSV_SUCCESS, data)
      else do { e \<leftarrow> dentry dc index;
                let s = dSet e (way_of addr);
                Some (DSV_SUCCESS, push_bit (DRTAG dc) (ucast (set_tag s))
                  OR (if lru e = Way1 then 4 else 0) OR (if set_dirty s then 2 else 0)
                  OR (if set_valid s then 1 else 0)) })"

section \<open>Flushing, invalidating and zeroing lines\<close>

text \<open>The common tail of the flush operations: write a valid dirty line back, then drop it.\<close>

definition flush_way :: "dcache \<Rightarrow> cmem \<Rightarrow> u32 \<Rightarrow> way \<Rightarrow> (dsv \<times> dcache \<times> cmem) option" where
  "flush_way dc m index w =
     do { e \<leftarrow> dentry dc index;
          let s = dSet e w;
          (r, m) \<leftarrow> (if set_valid s \<and> set_dirty s
             then write_back m (set_base dc index s) (set_line s) 0 (dCacheLineSize dc)
             else Some (DSV_SUCCESS, m));
          if r = DSV_FAIL then Some (DSV_FAIL, dc, m)
          else Some (DSV_SUCCESS,
            put_entry dc index ((with_set e w (s\<lparr>set_valid := False\<rparr>))\<lparr>lru := w\<rparr>), m) }"

definition dCacheZeroLine :: "dcache \<Rightarrow> cmem \<Rightarrow> u32 \<Rightarrow> (dsv \<times> dcache \<times> cmem) option" where
  "dCacheZeroLine dc m addr =
     (let index = dindex dc addr in
      if no_dline dc index then Some (DSV_SUCCESS, dc, m)
      else
        do { e \<leftarrow> dentry dc index;
             let tag = dtag dc addr;
             let (w, needwb) = (case find_way e tag of Some w \<Rightarrow> (w, False) | None \<Rightarrow> (lru e, True));
             let s = dSet e w;
             (r, m) \<leftarrow> (if needwb \<and> set_valid s \<and> set_dirty s
                then write_back m (set_base dc index s) (set_line s) 0 (dCacheLineSize dc)
                else Some (DSV_SUCCESS, m));
             if r = DSV_FAIL then Some (DSV_FAIL, dc, m)
             else Some (DSV_SUCCESS,
               put_entry dc index ((with_set e w
                 (s\<lparr>set_tag := ucast tag,
                    set_line := blit (set_line s) 0 (replicate (dCacheLineSize dc) 0), set_valid := True, set_dirty := True\<rparr>))\<lparr>lru := other w\<rparr>), m) })"

end
