(* ===== verification/Cache_Transparency.thy ===== *)
theory Cache_Transparency
  imports Data_Cache
begin

text \<open>
  What the data cache promises: a program cannot see it. dc\_view is the contents a program
  sees, a line of the cache where one holds the address and the memory elsewhere; dc\_inv says
  that the geometry of the cache is one that dcacheInit sets up, that no two ways of an entry
  hold the same line, that clean lines agree with the memory and that valid lines cover plain
  memory only. Every operation keeps dc\_inv, and the theorems say how each changes dc\_view.
\<close>

definition line_ok :: "u32 \<Rightarrow> u32 \<Rightarrow> bool" where
  "line_ok n base \<longleftrightarrow> plain_word n base \<and> plain_word n (base + 4) \<and> plain_word n (base + 8)
     \<and> plain_word n (base + 12)"

definition cacheable :: "u32 \<Rightarrow> u32 \<Rightarrow> bool" where
  "cacheable n a \<longleftrightarrow> aligned a \<and> line_ok n (line_addr 4 a)"

definition dc_view :: "dcache \<Rightarrow> cmem \<Rightarrow> u32 \<Rightarrow> u32" where
  "dc_view dc m a =
     (if no_dline dc (dindex dc a) then cm_word m a
      else (let e = D dc ! unat (dindex dc a) in
        case find_way e (dtag dc a) of
          Some w \<Rightarrow> lword (set_line (dSet e w)) (line_offset a)
        | None \<Rightarrow> cm_word m a))"

definition dc_geom :: "dcache \<Rightarrow> bool" where
  "dc_geom dc \<longleftrightarrow> dCacheLineSize dc = 16 \<and> DINDEX_L dc \<in> {8..12} \<and> DRTAG dc = DINDEX_L dc + 1 \<and>
     (numOfDcacheEntries dc = -1 \<or>
      numOfDcacheEntries dc = 2 ^ (DINDEX_L dc - 3) \<and> length (D dc) = 2 ^ (DINDEX_L dc - 3))"

definition set_ok :: "u32 \<Rightarrow> dcache \<Rightarrow> cmem \<Rightarrow> u32 \<Rightarrow> dCacheSet \<Rightarrow> bool" where
  "set_ok n dc m index s \<longleftrightarrow> length (set_line s) = 16 \<and>
     dtag dc (set_base dc index s) = ucast (set_tag s) \<and>
     (set_valid s \<longrightarrow> line_ok n (set_base dc index s) \<and>
        (\<not> set_dirty s \<longrightarrow> (\<forall>k\<in>{0, 4, 8, 12}.
           lword (set_line s) k = cm_word m (set_base dc index s + of_nat k))))"

definition entry_ok :: "u32 \<Rightarrow> dcache \<Rightarrow> cmem \<Rightarrow> u32 \<Rightarrow> dCacheEntry \<Rightarrow> bool" where
  "entry_ok n dc m index e \<longleftrightarrow> (\<forall>w. set_ok n dc m index (dSet e w)) \<and>
     \<not> (set_valid (dSet e Way0) \<and> set_valid (dSet e Way1) \<and>
        set_tag (dSet e Way0) = set_tag (dSet e Way1))"

definition dc_inv :: "u32 \<Rightarrow> dcache \<Rightarrow> cmem \<Rightarrow> bool" where
  "dc_inv n dc m \<longleftrightarrow> CM_SIZE m = n \<and> dc_geom dc \<and>
     (numOfDcacheEntries dc \<noteq> -1 \<longrightarrow>
        (\<forall>index. unat index < length (D dc) \<longrightarrow> entry_ok n dc m index (D dc ! unat index)))"

section \<open>Addresses of a line\<close>

lemma line_member:
  assumes "aligned b" "line_addr 4 base = base" "k \<in> {0, 4, 8, 12}"
  shows "b = base + of_nat k \<longleftrightarrow> line_addr 4 b = base \<and> line_offset b = k"
proof
  assume b: "b = base + of_nat k"
  have "(of_nat k :: u32) < 16" using assms(3) by auto
  from line_addr_plus [OF this, of base] have l: "line_addr 4 b = base" by (simp add: assms(2) b)
  have "base + of_nat (line_offset b) = base + of_nat k"
    using line_split [OF assms(1)] l b by simp
  then have "(of_nat (line_offset b) :: u32) = of_nat k" by simp
  moreover have "line_offset b \<in> {0, 4, 8, 12}" by (rule line_offset_cases)
  ultimately have "line_offset b = k" using assms(3) by auto
  with l show "line_addr 4 b = base \<and> line_offset b = k" by simp
next
  assume "line_addr 4 b = base \<and> line_offset b = k"
  then show "b = base + of_nat k" using line_split [OF assms(1)] by simp
qed

lemma cacheable_plain: "cacheable n a \<Longrightarrow> plain_word n a"
  using line_split [of a] line_offset_cases [of a] by (auto simp: cacheable_def line_ok_def)

lemma dindex_small: "dc_geom dc \<Longrightarrow> unat (dindex dc a) < 2 ^ (DINDEX_L dc - 3)"
proof -
  assume g: "dc_geom dc"
  then have "DINDEX_L dc - DINDEX_R + 1 = DINDEX_L dc - 3"
    by (auto simp: dc_geom_def DINDEX_R_def)
  then show ?thesis
    using unat_getFieldValue_less [of a "DINDEX_L dc" DINDEX_R] by (simp add: dindex_def)
qed

lemma pow_bound: "dc_geom dc \<Longrightarrow> (2::nat) ^ (DINDEX_L dc - 3) \<le> 512"
proof -
  assume "dc_geom dc"
  then have "DINDEX_L dc - 3 \<le> 9" by (auto simp: dc_geom_def)
  then have "(2::nat) ^ (DINDEX_L dc - 3) \<le> 2 ^ 9" by (rule power_increasing) simp
  then show ?thesis by simp
qed

lemma sint_small: "unat (i :: u32) < 512 \<Longrightarrow> sint i = int (unat i)"
proof -
  assume h: "unat i < 512"
  then have "take_bit 9 i = i" using take_bit_small [of i 9] by simp
  then have "bit i 31 \<longleftrightarrow> bit (take_bit 9 i) 31" by simp
  then have "\<not> bit i 31" by (simp add: bit_simps)
  moreover have "take_bit 31 (uint i) = uint i"
  proof (rule take_bit_int_eq_self)
    have "i < 512" using h by (simp add: word_less_nat_alt)
    then show "uint i < 2 ^ 31" by (simp add: word_less_def)
  qed simp
  ultimately show ?thesis by (simp add: sint_uint signed_take_bit_eq_if_positive bit_simps)
qed

lemma no_dline_iff:
  assumes "dc_geom dc"
  shows "no_dline dc (dindex dc a) \<longleftrightarrow> numOfDcacheEntries dc = -1"
proof -
  have s: "unat (dindex dc a) < 512"
    using dindex_small [OF assms, of a] pow_bound [OF assms] by linarith
  have e: "sint (dindex dc a) = int (unat (dindex dc a))" by (rule sint_small) (rule s)
  have "int (unat (dindex dc a)) < 2 ^ (DINDEX_L dc - 3)"
    using dindex_small [OF assms, of a] by (metis of_nat_less_iff of_nat_numeral of_nat_power)
  moreover have "(0 :: int) < 2 ^ (DINDEX_L dc - 3)" by simp
  ultimately have "0 \<le> sint (dindex dc a)" "sint (dindex dc a) < 2 ^ (DINDEX_L dc - 3)"
    "(-1 :: int) \<noteq> 2 ^ (DINDEX_L dc - 3)" using e by linarith+
  then show ?thesis using assms by (auto simp: no_dline_def dc_geom_def)
qed

lemma dentry_ok:
  assumes "dc_geom dc" "numOfDcacheEntries dc \<noteq> -1"
  shows "unat (dindex dc a) < length (D dc)"
  using assms dindex_small [OF assms(1), of a] by (auto simp: dc_geom_def)

text \<open>The base address of the line that holds an address, and conversely.\<close>

lemma set_base_hit:
  assumes "dc_geom dc" "dtag dc a = ucast (set_tag s)"
  shows "set_base dc (dindex dc a) s = line_addr 4 a"
  using assms makeAddr_fields [of DINDEX_R "DINDEX_L dc" a]
  by (simp add: set_base_def dc_geom_def dindex_def dtag_def DINDEX_R_def)

lemma same_line_iff:
  assumes "dc_geom dc"
  shows "line_addr 4 a = line_addr 4 b \<longleftrightarrow> dtag dc a = dtag dc b \<and> dindex dc a = dindex dc b"
  using assms line_addr_eq_iff [of DINDEX_R "DINDEX_L dc" a b]
  by (simp add: dc_geom_def dindex_def dtag_def DINDEX_R_def)

lemma dindex_set_base:
  assumes "dc_geom dc" "unat index < 2 ^ (DINDEX_L dc - 3)"
  shows "dindex dc (set_base dc index s) = index" "line_addr 4 (set_base dc index s) = set_base dc index s"
proof -
  have L: "8 \<le> DINDEX_L dc" "DINDEX_L dc \<le> 12" "DRTAG dc = DINDEX_L dc + 1"
    using assms(1) by (auto simp: dc_geom_def)
  have "take_bit (DINDEX_L dc - 3) index = index" by (rule take_bit_small) (rule assms(2))
  then have i: "bit index n \<longleftrightarrow> n < DINDEX_L dc - 3 \<and> bit index n" for n
    by (metis bit_take_bit_iff)
  show "dindex dc (set_base dc index s) = index"
  proof (rule bit_word_eqI)
    fix n assume "n < LENGTH(32)"
    then show "bit (dindex dc (set_base dc index s)) n \<longleftrightarrow> bit index n"
      using i [of n] L
      by (auto simp: dindex_def set_base_def bit_getFieldValue bit_makeAddr DINDEX_R_def)
  qed
  show "line_addr 4 (set_base dc index s) = set_base dc index s"
    by (rule bit_word_eqI)
      (use L in \<open>auto simp: set_base_def bit_line_addr bit_makeAddr DINDEX_R_def\<close>)
qed

section \<open>Moving a line\<close>

lemma line_ok_aligned: "line_ok n base \<Longrightarrow> aligned base \<and> aligned (base + 4) \<and> aligned (base + 8)
    \<and> aligned (base + 12)"
  by (simp add: line_ok_def plain_word_def)

lemma write_back_line:
  assumes "line_ok (CM_SIZE m) base" "length xs = 16" "line_addr 4 base = base"
  shows "\<exists>m'. write_back m base xs 0 16 = Some (DSV_SUCCESS, m') \<and> CM_SIZE m' = CM_SIZE m \<and>
    (\<forall>b. aligned b \<longrightarrow> cm_word m' b =
       (if line_addr 4 b = base then lword xs (line_offset b) else cm_word m b))"
proof -
  define m' where "m' = cm_put (cm_put (cm_put (cm_put m base (lword xs 0)) (base + 4) (lword xs 4))
      (base + 8) (lword xs 8)) (base + 12) (lword xs 12)"
  have "write_back m base xs 0 16 = Some (DSV_SUCCESS, m')"
    using assms(1,2)
    by (simp add: write_back.simps line_word_def cmMemoryWrite_plain line_ok_def m'_def add.assoc)
  moreover have "CM_SIZE m' = CM_SIZE m" by (simp add: m'_def)
  moreover have "cm_word m' b = (if line_addr 4 b = base then lword xs (line_offset b) else cm_word m b)"
    if "aligned b" for b
    using line_member [OF that assms(3), of 0] line_member [OF that assms(3), of 4]
      line_member [OF that assms(3), of 8] line_member [OF that assms(3), of 12]
      line_offset_cases [of b] line_ok_aligned [OF assms(1)] that
    by (auto simp: m'_def cm_word_cm_put)
  ultimately show ?thesis by blast
qed

lemma lword_blit_same: "i + 4 \<le> length xs \<Longrightarrow> lword (blit xs i (be_bytes d)) i = d"
  using slice_blit_same [of i "be_bytes d" xs] by (simp add: lword_def)

lemma lword_blit_other:
  "i + 4 \<le> length xs \<Longrightarrow> j + 4 \<le> length xs \<Longrightarrow> j + 4 \<le> i \<or> i + 4 \<le> j \<Longrightarrow>
    lword (blit xs i (be_bytes d)) j = lword xs j"
  using slice_blit_other [of i "be_bytes d" xs j 4] by (simp add: lword_def)

lemma fill_line_line:
  assumes "line_ok (CM_SIZE m) base" "length xs = 16"
  shows "\<exists>ys. fill_line m base xs 0 16 = Some (DSV_SUCCESS, ys, m) \<and> length ys = 16 \<and>
    (\<forall>k\<in>{0, 4, 8, 12}. lword ys k = cm_word m (base + of_nat k))"
proof -
  define ys where "ys = blit (blit (blit (blit xs 0 (be_bytes (cm_word m base)))
      4 (be_bytes (cm_word m (base + 4)))) 8 (be_bytes (cm_word m (base + 8))))
      12 (be_bytes (cm_word m (base + 12)))"
  have "fill_line m base xs 0 16 = Some (DSV_SUCCESS, ys, m)"
    using assms
    by (simp add: fill_line.simps line_word_def line_put_def cmMemoryRead_plain line_ok_def ys_def add.assoc)
  moreover have "length ys = 16" using assms(2) by (simp add: ys_def)
  moreover have "\<forall>k\<in>{0, 4, 8, 12}. lword ys k = cm_word m (base + of_nat k)"
    using assms(2) by (simp add: ys_def lword_blit_same lword_blit_other)
  ultimately show ?thesis by blast
qed

section \<open>Updating an entry\<close>

definition entry_view :: "dcache \<Rightarrow> cmem \<Rightarrow> dCacheEntry \<Rightarrow> u32 \<Rightarrow> u32" where
  "entry_view dc m e a =
     (case find_way e (dtag dc a) of
        Some w \<Rightarrow> lword (set_line (dSet e w)) (line_offset a)
      | None \<Rightarrow> cm_word m a)"

lemma dc_view_cached:
  "dc_geom dc \<Longrightarrow> numOfDcacheEntries dc \<noteq> -1 \<Longrightarrow>
    dc_view dc m a = entry_view dc m (D dc ! unat (dindex dc a)) a"
  by (simp add: dc_view_def no_dline_iff entry_view_def Let_def)

lemma put_entry_simps [simp]:
  "numOfDcacheEntries (put_entry dc index e) = numOfDcacheEntries dc"
  "DINDEX_L (put_entry dc index e) = DINDEX_L dc" "DRTAG (put_entry dc index e) = DRTAG dc"
  "dCacheLineSize (put_entry dc index e) = dCacheLineSize dc"
  "D (put_entry dc index e) = (D dc)[unat index := e]"
  by (simp_all add: put_entry_def)

lemma put_entry_fields [simp]:
  "dindex (put_entry dc index e) = dindex dc" "dtag (put_entry dc index e) = dtag dc"
  "set_base (put_entry dc index e) = set_base dc" "dc_geom (put_entry dc index e) = dc_geom dc"
  "no_dline (put_entry dc index e) = no_dline dc"
  by (auto simp: dindex_def dtag_def set_base_def dc_geom_def no_dline_def fun_eq_iff)

lemma set_ok_put_entry [simp]: "set_ok n (put_entry dc index e) = set_ok n dc"
  by (simp add: set_ok_def fun_eq_iff)

lemma entry_put_entry [simp]:
  "entry_ok n (put_entry dc index e) = entry_ok n dc" "entry_view (put_entry dc index e) = entry_view dc"
  by (simp_all add: entry_ok_def entry_view_def fun_eq_iff)

text \<open>Memory changes inside the lines of one index leave the entries of the others intact.\<close>

definition same_elsewhere :: "dcache \<Rightarrow> u32 \<Rightarrow> cmem \<Rightarrow> cmem \<Rightarrow> bool" where
  "same_elsewhere dc index m m' \<longleftrightarrow>
     (\<forall>b. aligned b \<longrightarrow> dindex dc b \<noteq> index \<longrightarrow> cm_word m' b = cm_word m b)"

lemma same_elsewhere_refl [simp]: "same_elsewhere dc index m m"
  by (simp add: same_elsewhere_def)

lemma set_base_word:
  assumes "dc_geom dc" "unat index < 2 ^ (DINDEX_L dc - 3)" "line_ok n (set_base dc index s)"
    "k \<in> {0, 4, 8, 12}"
  shows "aligned (set_base dc index s + of_nat k)" "dindex dc (set_base dc index s + of_nat k) = index"
    "dtag dc (set_base dc index s + of_nat k) = dtag dc (set_base dc index s)"
proof -
  show al: "aligned (set_base dc index s + of_nat k)"
    using line_ok_aligned [OF assms(3)] assms(4) by auto
  have "line_addr 4 (set_base dc index s + of_nat k) = set_base dc index s"
    using line_member [OF al dindex_set_base(2) [OF assms(1,2), of s] assms(4)] by simp
  then have "line_addr 4 (set_base dc index s + of_nat k) = line_addr 4 (set_base dc index s)"
    by (simp add: dindex_set_base(2) [OF assms(1,2)])
  then show "dindex dc (set_base dc index s + of_nat k) = index"
    "dtag dc (set_base dc index s + of_nat k) = dtag dc (set_base dc index s)"
    using same_line_iff [OF assms(1)] dindex_set_base(1) [OF assms(1,2)] by metis+
qed

lemma set_ok_same_elsewhere:
  assumes "dc_geom dc" "unat i < 2 ^ (DINDEX_L dc - 3)" "set_ok n dc m i s"
    "same_elsewhere dc index m m'" "i \<noteq> index"
  shows "set_ok n dc m' i s"
proof -
  have "cm_word m' (set_base dc i s + of_nat k) = cm_word m (set_base dc i s + of_nat k)"
    if "set_valid s" "k \<in> {0, 4, 8, 12}" for k
    using set_base_word [OF assms(1,2) _ that(2), of n s] that assms(3-5)
    by (auto simp: same_elsewhere_def set_ok_def)
  then show ?thesis using assms(3) by (simp add: set_ok_def)
qed

lemma unat_neq_index: "i \<noteq> index \<Longrightarrow> unat i \<noteq> unat (index :: u32)"
  by (simp add: word_unat_eq_iff)

lemma put_entry_inv:
  assumes "dc_inv n dc m" "numOfDcacheEntries dc \<noteq> -1" "unat index < length (D dc)"
    "entry_ok n dc m' index e" "same_elsewhere dc index m m'" "CM_SIZE m' = n"
  shows "dc_inv n (put_entry dc index e) m'"
proof -
  have g: "dc_geom dc" and l: "length (D dc) = 2 ^ (DINDEX_L dc - 3)"
    using assms(1,2) by (auto simp: dc_inv_def dc_geom_def)
  have "entry_ok n dc m' i ((D dc)[unat index := e] ! unat i)" if "unat i < length (D dc)" for i
  proof (cases "i = index")
    case False
    have "entry_ok n dc m i (D dc ! unat i)" using assms(1,2) that by (simp add: dc_inv_def)
    then have "entry_ok n dc m' i (D dc ! unat i)"
      using set_ok_same_elsewhere [OF g _ _ assms(5) False, of n] that l by (simp add: entry_ok_def)
    then show ?thesis using unat_neq_index [OF False] by simp
  qed (use assms in simp)
  then show ?thesis using g assms(6) by (simp add: dc_inv_def)
qed

lemma put_entry_view:
  assumes "dc_inv n dc m" "numOfDcacheEntries dc \<noteq> -1" "unat index < length (D dc)"
    "same_elsewhere dc index m m'" "aligned a"
  shows "dc_view (put_entry dc index e) m' a =
    (if dindex dc a = index then entry_view dc m' e a else dc_view dc m a)"
proof -
  have g: "dc_geom dc" using assms(1) by (simp add: dc_inv_def)
  have "entry_view dc m' e' a = entry_view dc m e' a" if "dindex dc a \<noteq> index" for e'
    using that assms(4,5) by (simp add: entry_view_def same_elsewhere_def split: option.split)
  then show ?thesis
    using g assms(2,3) unat_neq_index [of "dindex dc a" index]
    by (cases "dindex dc a = index") (simp_all add: dc_view_cached)
qed

section \<open>The stages on one entry\<close>

lemma with_set_simps [simp]:
  "dSet (with_set e w s) w = s" "w' \<noteq> w \<Longrightarrow> dSet (with_set e w s) w' = dSet e w'"
  "lru (with_set e w s) = lru e" "dSet (e\<lparr>lru := x\<rparr>) = dSet e"
  "with_set (with_set e w s) w s' = with_set e w s'"
  by (simp_all add: with_set_def)

lemma other_neq [simp]: "other w \<noteq> w" "w \<noteq> other w"
  by (cases w; simp)+

lemma way_cases: "w' = w \<or> w' = other w"
  by (cases w; cases w') auto

lemma find_way_Some: "find_way e t = Some w \<Longrightarrow> hits (dSet e w) t"
  by (auto simp: find_way_def split: if_splits)

lemma find_way_None: "find_way e t = None \<longleftrightarrow> \<not> hits (dSet e w) t \<and> \<not> hits (dSet e (other w)) t"
  by (cases w) (auto simp: find_way_def)

lemma hits_base: "set_ok n dc m index s \<Longrightarrow> hits s t \<longleftrightarrow>
    set_valid s \<and> dtag dc (set_base dc index s) = t"
  by (auto simp: set_ok_def hits_def)

lemma ucast_tag_inject: "(ucast (a :: 23 word) :: u32) = ucast b \<longleftrightarrow> a = b"
proof
  have u: "ucast (ucast x :: u32) = x" for x :: "23 word" by (rule bit_word_eqI) (simp add: bit_simps)
  assume "(ucast a :: u32) = ucast b"
  then have "(ucast (ucast a :: u32) :: 23 word) = ucast (ucast b :: u32)" by simp
  then show "a = b" by (simp only: u)
qed simp

text \<open>Where both ways of an entry hold different lines, the way that hits is the one found.\<close>

lemma find_way_hit:
  assumes "entry_ok n dc m index e" "hits (dSet e w) t"
  shows "find_way e t = Some w"
  using assms by (cases w) (auto simp: entry_ok_def find_way_def hits_def ucast_tag_inject)

lemma entry_view_hit:
  "entry_ok n dc m index e \<Longrightarrow> hits (dSet e w) (dtag dc a) \<Longrightarrow>
    entry_view dc m e a = lword (set_line (dSet e w)) (line_offset a)"
  by (simp add: entry_view_def find_way_hit)

lemma entry_view_miss:
  "\<not> hits (dSet e w) (dtag dc a) \<Longrightarrow> \<not> hits (dSet e (other w)) (dtag dc a) \<Longrightarrow>
    entry_view dc m e a = cm_word m a"
proof -
  assume "\<not> hits (dSet e w) (dtag dc a)" "\<not> hits (dSet e (other w)) (dtag dc a)"
  then have "find_way e (dtag dc a) = None" by (simp add: find_way_None [of _ _ w])
  then show ?thesis by (simp add: entry_view_def)
qed

lemma entry_lru [simp]:
  "entry_ok n dc m index (e\<lparr>lru := x\<rparr>) = entry_ok n dc m index e"
  "entry_view dc m (e\<lparr>lru := x\<rparr>) = entry_view dc m e"
  by (auto simp: entry_ok_def entry_view_def find_way_def fun_eq_iff)

lemma entry_ok_way:
  "entry_ok n dc m index e \<longleftrightarrow> set_ok n dc m index (dSet e w) \<and> set_ok n dc m index (dSet e (other w)) \<and>
     \<not> (set_valid (dSet e w) \<and> set_valid (dSet e (other w)) \<and>
        set_tag (dSet e w) = set_tag (dSet e (other w)))"
  by (cases w) (auto simp: entry_ok_def split: way.split, (metis way.exhaust)+)

text \<open>The view of an entry one of whose sets changes: by cases on the set that hits.\<close>

lemma entry_view_with_set:
  assumes "entry_ok n dc m' index (with_set e w s)"
  shows "entry_view dc m' (with_set e w s) a =
    (if hits s (dtag dc a) then lword (set_line s) (line_offset a)
     else if hits (dSet e (other w)) (dtag dc a)
     then lword (set_line (dSet e (other w))) (line_offset a)
     else cm_word m' a)"
  using entry_view_hit [OF assms, of w a] entry_view_hit [OF assms, of "other w" a]
    entry_view_miss [of "with_set e w s" w dc a m'] by simp

lemma entry_view_way:
  assumes "entry_ok n dc m index e"
  shows "entry_view dc m e a =
    (if hits (dSet e w) (dtag dc a) then lword (set_line (dSet e w)) (line_offset a)
     else if hits (dSet e (other w)) (dtag dc a)
     then lword (set_line (dSet e (other w))) (line_offset a)
     else cm_word m a)"
  using entry_view_hit [OF assms, of w a] entry_view_hit [OF assms, of "other w" a]
    entry_view_miss [of e w dc a m] by simp

lemma clean_word:
  assumes "dc_geom dc" "set_ok n dc m (dindex dc a) s" "hits s (dtag dc a)" "\<not> set_dirty s" "aligned a"
  shows "lword (set_line s) (line_offset a) = cm_word m a"
proof -
  have b: "set_base dc (dindex dc a) s = line_addr 4 a"
    using assms(1,3) by (simp add: set_base_hit hits_def)
  have "lword (set_line s) (line_offset a) = cm_word m (line_addr 4 a + of_nat (line_offset a))"
    using assms(2-4) line_offset_cases [of a] b by (auto simp: set_ok_def hits_def)
  then show ?thesis by (simp only: line_split [OF assms(5)])
qed

lemma hits_exclusive:
  assumes "entry_ok n dc m index e"
  shows "\<not> (hits (dSet e w) t \<and> hits (dSet e (other w)) t)"
proof
  assume h: "hits (dSet e w) t \<and> hits (dSet e (other w)) t"
  then have "(ucast (set_tag (dSet e w)) :: u32) = ucast (set_tag (dSet e (other w)))"
    by (simp add: hits_def)
  then show False using h assms by (simp add: entry_ok_way [of _ _ _ _ _ w] hits_def ucast_tag_inject)
qed

lemma drop_clean:
  assumes "dc_geom dc" "entry_ok n dc m index e" "\<not> (set_valid (dSet e w) \<and> set_dirty (dSet e w))"
  shows "entry_ok n dc m index (with_set e w ((dSet e w)\<lparr>set_valid := False, set_dirty := d\<rparr>))" (is ?ok)
    and "aligned a \<Longrightarrow> dindex dc a = index \<Longrightarrow>
      entry_view dc m (with_set e w ((dSet e w)\<lparr>set_valid := False, set_dirty := d\<rparr>)) a =
      entry_view dc m e a"
proof -
  show ok: ?ok
    using assms(2) by (simp add: entry_ok_way [of _ _ _ _ _ w]) (simp add: set_ok_def set_base_def)
  assume a: "aligned a" "dindex dc a = index"
  have "set_ok n dc m index (dSet e w)" using assms(2) by (simp add: entry_ok_way [of _ _ _ _ _ w])
  then have "lword (set_line (dSet e w)) (line_offset a) = cm_word m a" if "hits (dSet e w) (dtag dc a)"
    using clean_word [OF assms(1) _ that] that assms(3) a by (auto simp: hits_def)
  with hits_exclusive [OF assms(2), of w] show "entry_view dc m (with_set e w ((dSet e w)\<lparr>set_valid := False, set_dirty := d\<rparr>)) a =
      entry_view dc m e a"
    using entry_view_with_set [OF ok, of a] entry_view_way [OF assms(2), of a w] by (auto simp: hits_def)
qed

text \<open>Writing a dirty line back makes it clean; the view stays.\<close>

lemma write_back_entry:
  assumes "dc_geom dc" "unat index < 2 ^ (DINDEX_L dc - 3)" "entry_ok n dc m index e"
    "set_valid (dSet e w)" "CM_SIZE m = n"
  shows "\<exists>m'. write_back m (set_base dc index (dSet e w)) (set_line (dSet e w)) 0 16 = Some (DSV_SUCCESS, m') \<and>
    CM_SIZE m' = n \<and> same_elsewhere dc index m m' \<and>
    entry_ok n dc m' index (with_set e w ((dSet e w)\<lparr>set_dirty := False\<rparr>)) \<and>
    (\<forall>a. aligned a \<longrightarrow> dindex dc a = index \<longrightarrow>
       entry_view dc m' (with_set e w ((dSet e w)\<lparr>set_dirty := False\<rparr>)) a = entry_view dc m e a) \<and>
    (\<forall>a. aligned a \<longrightarrow> line_addr 4 a \<noteq> set_base dc index (dSet e w) \<longrightarrow> cm_word m' a = cm_word m a)"
proof -
  let ?s = "dSet e w" and ?o = "dSet e (other w)"
  let ?b = "set_base dc index ?s"
  have sok: "set_ok n dc m index ?s" "set_ok n dc m index ?o"
    using assms(3) by (simp_all add: entry_ok_way [of _ _ _ _ _ w])
  then have lok: "line_ok n ?b" "length (set_line ?s) = 16" using assms(4) by (simp_all add: set_ok_def)
  have bb: "dindex dc ?b = index" "line_addr 4 ?b = ?b" using dindex_set_base [OF assms(1,2)] by auto
  obtain m' where m': "write_back m ?b (set_line ?s) 0 16 = Some (DSV_SUCCESS, m')" "CM_SIZE m' = n"
    and w: "\<And>b. aligned b \<Longrightarrow> cm_word m' b =
       (if line_addr 4 b = ?b then lword (set_line ?s) (line_offset b) else cm_word m b)"
    using write_back_line [of m ?b "set_line ?s"] lok bb assms(5) by auto
  have lb: "line_addr 4 b = ?b \<longleftrightarrow> dindex dc b = index \<and> dtag dc b = ucast (set_tag ?s)" for b
    using same_line_iff [OF assms(1), of b ?b] bb sok(1) by (auto simp: set_ok_def)
  have else: "same_elsewhere dc index m m'" using w lb by (simp add: same_elsewhere_def)
  have "set_ok n dc m' index (?s\<lparr>set_dirty := False\<rparr>)"
  proof -
    have "lword (set_line ?s) k = cm_word m' (?b + of_nat k)" if "k \<in> {0, 4, 8, 12}" for k
      using w [of "?b + of_nat k"] line_member [of "?b + of_nat k" ?b k] that bb(2)
        set_base_word [OF assms(1,2) lok(1) that] by auto
    then show ?thesis using sok(1) by (simp add: set_ok_def set_base_def)
  qed
  moreover have "set_ok n dc m' index ?o"
  proof (cases "set_valid ?o")
    case True
    then have "set_tag ?o \<noteq> set_tag ?s" using assms(3,4) by (auto simp: entry_ok_way [of _ _ _ _ _ w])
    then have "dtag dc (set_base dc index ?o) \<noteq> ucast (set_tag ?s)"
      using sok(2) by (simp add: set_ok_def ucast_tag_inject)
    then have "cm_word m' (set_base dc index ?o + of_nat k) = cm_word m (set_base dc index ?o + of_nat k)"
      if "k \<in> {0, 4, 8, 12}" for k
      using w [of "set_base dc index ?o + of_nat k"] lb that True sok(2)
        set_base_word [OF assms(1,2) _ that, of n ?o] by (auto simp: set_ok_def)
    then show ?thesis using sok(2) by (simp add: set_ok_def)
  qed (use sok(2) in \<open>simp add: set_ok_def\<close>)
  ultimately have eok: "entry_ok n dc m' index (with_set e w (?s\<lparr>set_dirty := False\<rparr>))"
    using assms(3) by (simp add: entry_ok_way [of _ _ _ _ _ w])
  have "entry_view dc m' (with_set e w (?s\<lparr>set_dirty := False\<rparr>)) a = entry_view dc m e a"
    if "aligned a" "dindex dc a = index" for a
    using entry_view_with_set [OF eok, of a] entry_view_way [OF assms(3), of a w] w [OF that(1)]
      lb [of a] that assms(4) by (auto simp: hits_def)
  with m' else eok w show ?thesis by auto
qed

text \<open>A line read into an invalid set, or zeroed there.\<close>

lemma dtag_fits:
  assumes "dc_geom dc"
  shows "ucast (ucast (dtag dc a) :: 23 word) = dtag dc a"
  using assms by (intro bit_word_eqI) (auto simp: bit_simps dtag_def bit_getFieldValue dc_geom_def LTAG_def)

lemma install_entry:
  assumes "dc_geom dc" "entry_ok n dc m (dindex dc c) e" "\<not> set_valid (dSet e w)"
    "\<not> hits (dSet e (other w)) (dtag dc c)" "line_ok n (line_addr 4 c)" "length ys = 16"
    "\<not> dirty \<Longrightarrow> \<forall>k\<in>{0, 4, 8, 12}. lword ys k = cm_word m (line_addr 4 c + of_nat k)"
  defines "s \<equiv> (dSet e w)\<lparr>set_tag := ucast (dtag dc c), set_line := ys, set_valid := True, set_dirty := dirty\<rparr>"
  shows "entry_ok n dc m (dindex dc c) (with_set e w s)" (is ?ok)
    and "hits s (dtag dc c)"
    and "dindex dc a = dindex dc c \<Longrightarrow> entry_view dc m (with_set e w s) a =
      (if line_addr 4 a = line_addr 4 c then lword ys (line_offset a) else entry_view dc m e a)"
proof -
  have b: "set_base dc (dindex dc c) s = line_addr 4 c"
    using assms(1) by (intro set_base_hit) (simp_all add: s_def dtag_fits)
  have dl: "dtag dc (line_addr 4 c) = dtag dc c"
    using same_line_iff [OF assms(1), of "line_addr 4 c" c] by simp
  show h: "hits s (dtag dc c)" using assms(1) by (simp add: hits_def s_def dtag_fits)
  have "set_ok n dc m (dindex dc c) s"
    using assms(1,5-7) b dl by (simp add: set_ok_def b) (simp add: s_def dtag_fits)
  moreover have "set_valid s" by (simp add: s_def)
  ultimately show ok: ?ok
    using assms(2,4) h by (auto simp: entry_ok_way [of _ _ _ _ _ w] hits_def)
  assume a: "dindex dc a = dindex dc c"
  then have "hits s (dtag dc a) \<longleftrightarrow> line_addr 4 a = line_addr 4 c"
    using same_line_iff [OF assms(1), of a c] assms(1) by (auto simp: hits_def s_def dtag_fits)
  then show "entry_view dc m (with_set e w s) a =
      (if line_addr 4 a = line_addr 4 c then lword ys (line_offset a) else entry_view dc m e a)"
    using entry_view_with_set [OF ok, of a] entry_view_way [OF assms(2), of a w] assms(3)
    by (auto simp: hits_def s_def)
qed

lemma store_entry:
  fixes d :: u32
  assumes "dc_geom dc" "entry_ok n dc m (dindex dc c) e" "hits (dSet e w) (dtag dc c)" "aligned c"
  defines "s \<equiv> (dSet e w)\<lparr>set_line := blit (set_line (dSet e w)) (line_offset c) (be_bytes d), set_dirty := True\<rparr>"
  shows "entry_ok n dc m (dindex dc c) (with_set e w s)" (is ?ok)
    and "aligned a \<Longrightarrow> dindex dc a = dindex dc c \<Longrightarrow>
      entry_view dc m (with_set e w s) a = (if a = c then d else entry_view dc m e a)"
proof -
  let ?xs = "set_line (dSet e w)"
  have sok: "set_ok n dc m (dindex dc c) (dSet e w)"
    using assms(2) by (simp add: entry_ok_way [of _ _ _ _ _ w])
  then have len: "length ?xs = 16" by (simp add: set_ok_def)
  have b: "set_base dc (dindex dc c) s = set_base dc (dindex dc c) (dSet e w)"
    by (simp add: set_base_def s_def)
  have fits: "line_offset c + 4 \<le> 16" using line_offset_cases [of c] by auto
  have h: "hits s t \<longleftrightarrow> hits (dSet e w) t" for t by (simp add: hits_def s_def)
  have "set_ok n dc m (dindex dc c) s"
    using sok len fits by (simp add: set_ok_def b) (simp add: s_def)
  then show ok: ?ok
    using assms(2) by (simp add: entry_ok_way [of _ _ _ _ _ w]) (simp add: s_def)
  assume a: "aligned a" "dindex dc a = dindex dc c"
  have fitsa: "line_offset a + 4 \<le> 16" using line_offset_cases [of a] by auto
  have "lword (set_line s) (line_offset a) = (if a = c then d else lword ?xs (line_offset a))"
    if "hits (dSet e w) (dtag dc a)"
  proof (cases "a = c")
    case True
    then show ?thesis using len fits by (simp add: s_def lword_blit_same)
  next
    case False
    have "line_addr 4 a = line_addr 4 c"
      using that assms(3) a same_line_iff [OF assms(1), of a c] by (simp add: hits_def)
    then have "line_offset a \<noteq> line_offset c"
      using False line_split [OF a(1)] line_split [OF assms(4)] by metis
    then have "line_offset a + 4 \<le> line_offset c \<or> line_offset c + 4 \<le> line_offset a"
      using line_offset_cases [of a] line_offset_cases [of c] by auto
    then show ?thesis using False len fits fitsa by (simp add: s_def lword_blit_other)
  qed
  then show "entry_view dc m (with_set e w s) a = (if a = c then d else entry_view dc m e a)"
    using entry_view_with_set [OF ok, of a] entry_view_way [OF assms(2), of a w] assms(3) h by auto
qed

section \<open>Selecting a line\<close>

lemma counts [simp]:
  "dindex (count_access r dc) = dindex dc" "dtag (count_access r dc) = dtag dc"
  "no_dline (count_access r dc) = no_dline dc" "D (count_access r dc) = D dc"
  "dindex (count_miss r dc) = dindex dc" "dtag (count_miss r dc) = dtag dc"
  "no_dline (count_miss r dc) = no_dline dc" "D (count_miss r dc) = D dc"
  "dindex (count_wb r dc) = dindex dc" "dtag (count_wb r dc) = dtag dc"
  "no_dline (count_wb r dc) = no_dline dc" "D (count_wb r dc) = D dc"
  "numOfDcacheEntries (count_access r dc) = numOfDcacheEntries dc"
  "numOfDcacheEntries (count_miss r dc) = numOfDcacheEntries dc"
  "numOfDcacheEntries (count_wb r dc) = numOfDcacheEntries dc"
  "dCacheLineSize (count_wb r dc) = dCacheLineSize dc"
  "set_base (count_access r dc) = set_base dc" "set_base (count_miss r dc) = set_base dc"
  "set_base (count_wb r dc) = set_base dc"
  "dc_geom (count_access r dc) = dc_geom dc" "dc_geom (count_miss r dc) = dc_geom dc"
  "dc_geom (count_wb r dc) = dc_geom dc"
  by (simp_all add: count_access_def count_miss_def count_wb_def dindex_def dtag_def no_dline_def
      set_base_def dc_geom_def fun_eq_iff)

lemma counts_view [simp]:
  "dc_view (count_access r dc) = dc_view dc" "dc_view (count_miss r dc) = dc_view dc"
  "dc_view (count_wb r dc) = dc_view dc"
  by (simp_all add: dc_view_def fun_eq_iff)

lemma counts_inv [simp]:
  "dc_inv n (count_access r dc) = dc_inv n dc" "dc_inv n (count_miss r dc) = dc_inv n dc"
  "dc_inv n (count_wb r dc) = dc_inv n dc"
  by (simp_all add: dc_inv_def entry_ok_def set_ok_def fun_eq_iff)

text \<open>
  What an operation that a program must not notice keeps: the invariant, the geometry and the
  contents seen at every aligned address.
\<close>

definition unseen :: "u32 \<Rightarrow> dcache \<Rightarrow> cmem \<Rightarrow> dcache \<Rightarrow> cmem \<Rightarrow> bool" where
  "unseen n dc m dc' m' \<longleftrightarrow> dc_inv n dc' m' \<and>
     numOfDcacheEntries dc' = numOfDcacheEntries dc \<and> dindex dc' = dindex dc \<and> dtag dc' = dtag dc \<and>
     (\<forall>a. aligned a \<longrightarrow> dc_view dc' m' a = dc_view dc m a)"

lemma unseen_refl: "dc_inv n dc m \<Longrightarrow> unseen n dc m dc m"
  by (simp add: unseen_def)

lemma unseen_trans: "unseen n dc m dc1 m1 \<Longrightarrow> unseen n dc1 m1 dc2 m2 \<Longrightarrow> unseen n dc m dc2 m2"
  by (simp add: unseen_def)

lemma unseen_put_entry:
  assumes "dc_inv n dc m" "numOfDcacheEntries dc \<noteq> -1" "unat index < length (D dc)"
    "entry_ok n dc m' index e" "same_elsewhere dc index m m'" "CM_SIZE m' = n"
    "\<And>a. aligned a \<Longrightarrow> dindex dc a = index \<Longrightarrow> entry_view dc m' e a = entry_view dc m (D dc ! unat index) a"
  shows "unseen n dc m (put_entry dc index e) m'"
proof -
  have g: "dc_geom dc" using assms(1) by (simp add: dc_inv_def)
  have "dc_view (put_entry dc index e) m' a = dc_view dc m a" if "aligned a" for a
    using put_entry_view [OF assms(1-3,5) that] assms(7) [OF that] dc_view_cached [OF g assms(2)] by auto
  then show ?thesis using put_entry_inv [OF assms(1-6)] by (simp add: unseen_def)
qed

lemma inv_cached:
  assumes "dc_inv n dc m" "numOfDcacheEntries dc \<noteq> -1" "unat index < length (D dc)"
  shows "dc_geom dc" "CM_SIZE m = n" "dCacheLineSize dc = 16" "unat index < 2 ^ (DINDEX_L dc - 3)"
    "entry_ok n dc m index (D dc ! unat index)" "dentry dc index = Some (D dc ! unat index)"
  using assms by (auto simp: dc_inv_def dc_geom_def dentry_def)

lemma evict_victim_law:
  assumes "dc_inv n dc m" "numOfDcacheEntries dc \<noteq> -1" "unat index < length (D dc)"
  shows "\<exists>dc' m'. evict_victim r dc m index t w = Some (DSV_SUCCESS, dc', m') \<and> unseen n dc m dc' m' \<and>
    length (D dc') = length (D dc) \<and>
    dSet (D dc' ! unat index) (other w) = dSet (D dc ! unat index) (other w) \<and>
    (let s = dSet (D dc' ! unat index) w in
       (hits (dSet (D dc ! unat index) w) t \<longrightarrow> hits s t) \<and>
       (\<not> hits s t \<longrightarrow> \<not> (set_valid s \<and> set_dirty s)))"
proof -
  note c = inv_cached [OF assms]
  let ?e = "D dc ! unat index"
  let ?s = "dSet ?e w"
  show ?thesis
  proof (cases "t \<noteq> ucast (set_tag ?s) \<and> set_valid ?s \<and> set_dirty ?s")
    case True
    obtain m' where m': "write_back m (set_base dc index ?s) (set_line ?s) 0 16 = Some (DSV_SUCCESS, m')"
        "CM_SIZE m' = n" "same_elsewhere dc index m m'"
      and e1: "entry_ok n dc m' index (with_set ?e w (?s\<lparr>set_dirty := False\<rparr>))"
      and v1: "\<And>a. aligned a \<Longrightarrow> dindex dc a = index \<Longrightarrow>
         entry_view dc m' (with_set ?e w (?s\<lparr>set_dirty := False\<rparr>)) a = entry_view dc m ?e a"
      using write_back_entry [OF c(1,4,5) _ c(2), of w] True by auto
    let ?dropped = "with_set ?e w (?s\<lparr>set_valid := False, set_dirty := True\<rparr>)"
    have "entry_ok n dc m' index ?dropped"
      and "\<And>a. aligned a \<Longrightarrow> dindex dc a = index \<Longrightarrow> entry_view dc m' ?dropped a = entry_view dc m ?e a"
      using drop_clean [OF c(1) e1, where w = w and d = True] v1 by simp_all
    then have "unseen n (count_wb r dc) m (put_entry (count_wb r dc) index ?dropped) m'"
      using assms m' by (intro unseen_put_entry)
        (simp_all add: entry_ok_def set_ok_def entry_view_def same_elsewhere_def)
    then have "unseen n dc m (put_entry (count_wb r dc) index ?dropped) m'" by (simp add: unseen_def)
    moreover have "evict_victim r dc m index t w = Some (DSV_SUCCESS, put_entry (count_wb r dc) index ?dropped, m')"
      using True m'(1) c(3,6) by (simp add: evict_victim_def)
    ultimately show ?thesis
      using assms(3) True by (auto simp: Let_def hits_def)
  next
    case False
    then have "evict_victim r dc m index t w = Some (DSV_SUCCESS, dc, m)"
      using c(6) by (auto simp: evict_victim_def)
    then show ?thesis
      using False unseen_refl [OF assms(1)] by (auto simp: Let_def hits_def)
  qed
qed

lemma fill_victim_law:
  assumes "dc_inv n dc m" "numOfDcacheEntries dc \<noteq> -1" "cacheable n a"
    "let s = dSet (D dc ! unat (dindex dc a)) w in \<not> hits s (dtag dc a) \<longrightarrow> \<not> (set_valid s \<and> set_dirty s)"
    "\<not> hits (dSet (D dc ! unat (dindex dc a)) (other w)) (dtag dc a)"
  shows "\<exists>dc'. fill_victim dc m (dindex dc a) (dtag dc a) w = Some (DSV_SUCCESS, dc', m) \<and>
    unseen n dc m dc' m \<and> hits (dSet (D dc' ! unat (dindex dc a)) w) (dtag dc a)"
proof -
  have g: "dc_geom dc" using assms(1) by (simp add: dc_inv_def)
  note l = dentry_ok [OF g assms(2), of a]
  note c = inv_cached [OF assms(1,2) l]
  let ?e = "D dc ! unat (dindex dc a)"
  let ?s = "dSet ?e w"
  show ?thesis
  proof (cases "hits ?s (dtag dc a)")
    case True
    then show ?thesis
      using c(6) unseen_refl [OF assms(1)] by (auto simp: fill_victim_def hits_def)
  next
    case False
    let ?inv_e = "with_set ?e w (?s\<lparr>set_valid := False, set_dirty := False\<rparr>)"
    have base: "makeAddr (DRTAG dc) (dtag dc a) (dindex dc a) DINDEX_R = line_addr 4 a"
      using set_base_hit [OF g, of a "?s\<lparr>set_tag := ucast (dtag dc a)\<rparr>"]
      by (simp add: set_base_def dtag_fits [OF g])
    have lok: "line_ok n (line_addr 4 a)" "aligned a" using assms(3) by (simp_all add: cacheable_def)
    have "length (set_line ?s) = 16" using c(5) by (simp add: entry_ok_way [of _ _ _ _ _ w] set_ok_def)
    then obtain ys where ys: "fill_line m (line_addr 4 a) (set_line ?s) 0 16 = Some (DSV_SUCCESS, ys, m)"
        "length ys = 16" "\<forall>k\<in>{0, 4, 8, 12}. lword ys k = cm_word m (line_addr 4 a + of_nat k)"
      using fill_line_line [of m "line_addr 4 a" "set_line ?s"] lok c(2) by auto
    define s1 where "s1 = (dSet ?inv_e w)\<lparr>set_tag := ucast (dtag dc a), set_line := ys, set_valid := True,
      set_dirty := False\<rparr>"
    have e0: "entry_ok n dc m (dindex dc a) ?inv_e"
      and v0: "\<And>b. aligned b \<Longrightarrow> dindex dc b = dindex dc a \<Longrightarrow> entry_view dc m ?inv_e b = entry_view dc m ?e b"
      using drop_clean [OF g c(5), where w = w and d = False] False assms(4) by (simp_all add: Let_def)
    have "\<not> set_valid (dSet ?inv_e w)" "\<not> hits (dSet ?inv_e (other w)) (dtag dc a)" using assms(5) by simp_all
    note i = install_entry [OF g e0 this lok(1) ys(2), where dirty = False, folded s1_def, OF ys(3)]
    have s1: "with_set ?inv_e w s1 = with_set ?e w s1" by simp
    have "entry_view dc m (with_set ?e w s1) b = entry_view dc m ?e b"
      if b: "aligned b" "dindex dc b = dindex dc a" for b
    proof (cases "line_addr 4 b = line_addr 4 a")
      case True
      have "dtag dc b = dtag dc a" using True same_line_iff [OF g] by auto
      then have "entry_view dc m ?e b = cm_word m b"
        using entry_view_miss [of ?e w dc b m] False assms(5) by simp
      moreover have "lword ys (line_offset b) = cm_word m b"
        using ys(3) line_offset_cases [of b] line_split [OF b(1)] True by auto
      ultimately show ?thesis using i(3) [OF b(2)] True s1 by simp
    qed (use i(3) [OF b(2)] v0 [OF b] s1 in simp)
    then have "unseen n dc m (put_entry dc (dindex dc a) ((with_set ?e w s1)\<lparr>lru := other w\<rparr>)) m"
      using assms(1,2) l i(1) c(2) s1 by (intro unseen_put_entry) simp_all
    moreover have "fill_victim dc m (dindex dc a) (dtag dc a) w =
        Some (DSV_SUCCESS, put_entry dc (dindex dc a) ((with_set ?e w s1)\<lparr>lru := other w\<rparr>), m)"
      using False ys(1) c(3,6) base by (auto simp: fill_victim_def hits_def s1_def)
    ultimately show ?thesis using i(2) l by auto
  qed
qed

lemma choose_way_law:
  assumes "choose_way r dc e t = (w, dc1)"
  shows "\<not> hits (dSet e w) t \<Longrightarrow> \<not> hits (dSet e (other w)) t"
    "dc1 = dc \<or> dc1 = count_miss r dc"
  using assms find_way_Some [of e t] find_way_None [of e t w]
  by (auto simp: choose_way_def split: option.splits)

lemma select_law:
  assumes "dc_inv n dc m" "cacheable n a"
  shows "\<exists>wo dc' m'. dCacheSelect dc m a r = Some (DSV_SUCCESS, dindex dc a, wo, dc', m') \<and>
    unseen n dc m dc' m' \<and>
    (numOfDcacheEntries dc \<noteq> -1 \<longrightarrow>
       (\<exists>w. wo = Some w \<and> hits (dSet (D dc' ! unat (dindex dc a)) w) (dtag dc a)))"
proof -
  have g: "dc_geom dc" using assms(1) by (simp add: dc_inv_def)
  have ua: "unseen n dc m (count_access r dc) m" using assms(1) by (simp add: unseen_def)
  show ?thesis
  proof (cases "numOfDcacheEntries dc = -1")
    case True
    then show ?thesis using ua no_dline_iff [OF g, of a] by (simp add: dCacheSelect_def Let_def)
  next
    case False
    note l = dentry_ok [OF g False, of a]
    note c = inv_cached [OF assms(1) False l]
    let ?e = "D dc ! unat (dindex dc a)"
    obtain w dc1 where w: "choose_way r (count_access r dc) ?e (dtag dc a) = (w, dc1)" by fastforce
    have D1: "D dc1 = D dc" and u1: "unseen n dc m dc1 m"
      using choose_way_law(2) [OF w] ua by (auto simp: unseen_def)
    then have i1: "dc_inv n dc1 m" "numOfDcacheEntries dc1 \<noteq> -1" "unat (dindex dc a) < length (D dc1)"
      "dindex dc1 = dindex dc" "dtag dc1 = dtag dc" using l False by (auto simp: unseen_def)
    obtain dc2 m2 where e: "evict_victim r dc1 m (dindex dc a) (dtag dc a) w = Some (DSV_SUCCESS, dc2, m2)"
      and u2: "unseen n dc1 m dc2 m2" and o: "dSet (D dc2 ! unat (dindex dc a)) (other w) = dSet ?e (other w)"
      and v: "let s = dSet (D dc2 ! unat (dindex dc a)) w in
         (hits (dSet ?e w) (dtag dc a) \<longrightarrow> hits s (dtag dc a)) \<and>
         (\<not> hits s (dtag dc a) \<longrightarrow> \<not> (set_valid s \<and> set_dirty s))"
      using evict_victim_law [OF i1(1-3), of r "dtag dc a" w] D1 by auto
    have i2: "dc_inv n dc2 m2" "numOfDcacheEntries dc2 \<noteq> -1" "dindex dc2 = dindex dc" "dtag dc2 = dtag dc"
      using u2 i1 by (auto simp: unseen_def)
    have "\<not> hits (dSet ?e (other w)) (dtag dc a)"
      using choose_way_law(1) [OF w] hits_exclusive [OF c(5), of w "dtag dc a"] by auto
    then obtain dc3 where f: "fill_victim dc2 m2 (dindex dc a) (dtag dc a) w = Some (DSV_SUCCESS, dc3, m2)"
      and u3: "unseen n dc2 m2 dc3 m2" and h: "hits (dSet (D dc3 ! unat (dindex dc a)) w) (dtag dc a)"
      using fill_victim_law [OF i2(1,2) assms(2), of w] v o by (auto simp: i2 Let_def)
    have "unseen n dc m dc3 m2" using u1 u2 u3 by (blast intro: unseen_trans)
    moreover have "dCacheSelect dc m a r = Some (DSV_SUCCESS, dindex dc a, Some w, dc3, m2)"
      using no_dline_iff [OF g, of a] False w e f l by (simp add: dCacheSelect_def Let_def dentry_def)
    ultimately show ?thesis using h by auto
  qed
qed

section \<open>Loads and stores through the cache\<close>

lemma dCacheRead_law:
  assumes "dc_inv n dc m" "cacheable n a"
  shows "\<exists>dc' m'. dCacheRead dc m a data = Some (DSV_SUCCESS, dc_view dc m a, dc', m') \<and>
    unseen n dc m dc' m'"
proof -
  have g: "dc_geom dc" using assms(1) by (simp add: dc_inv_def)
  obtain wo dc1 m1 where sel: "dCacheSelect dc m a True = Some (DSV_SUCCESS, dindex dc a, wo, dc1, m1)"
    and u: "unseen n dc m dc1 m1"
    and h: "numOfDcacheEntries dc \<noteq> -1 \<longrightarrow>
       (\<exists>w. wo = Some w \<and> hits (dSet (D dc1 ! unat (dindex dc a)) w) (dtag dc a))"
    using select_law [OF assms, of True] by auto
  have i: "dc_inv n dc1 m1" "numOfDcacheEntries dc1 = numOfDcacheEntries dc" "dindex dc1 = dindex dc"
    "dtag dc1 = dtag dc" "dc_view dc1 m1 a = dc_view dc m a" and g1: "dc_geom dc1"
    using u assms(2) by (auto simp: unseen_def dc_inv_def cacheable_def)
  show ?thesis
  proof (cases "numOfDcacheEntries dc = -1")
    case True
    have p: "plain_word (CM_SIZE m1) a" using cacheable_plain [OF assms(2)] i(1) by (simp add: dc_inv_def)
    have "dc_view dc m a = cm_word m1 a"
      using True no_dline_iff [OF g1, of a] i(2,5) dc_view_def [of dc1 m1 a] by simp
    then show ?thesis
      using sel u True no_dline_iff [OF g1, of a] i(2,3) p by (simp add: dCacheRead_def cmMemoryRead_plain)
  next
    case False
    then have f1: "numOfDcacheEntries dc1 \<noteq> -1" using i(2) by simp
    have l: "unat (dindex dc a) < length (D dc1)" using dentry_ok [OF g1 f1, of a] i(3) by simp
    note c = inv_cached [OF i(1) f1 l]
    obtain w where w: "wo = Some w" "hits (dSet (D dc1 ! unat (dindex dc a)) w) (dtag dc a)"
      using h False by auto
    have "dc_view dc m a = lword (set_line (dSet (D dc1 ! unat (dindex dc a)) w)) (line_offset a)"
      using dc_view_cached [OF g1 f1, of m1 a] entry_view_hit [OF c(5), of w a] w(2) i(3-5) by simp
    moreover have "length (set_line (dSet (D dc1 ! unat (dindex dc a)) w)) = 16"
      using c(5) by (simp add: entry_ok_def set_ok_def)
    ultimately show ?thesis
      using sel u w(1) f1 no_dline_iff [OF g1, of a] c(6) i(3) line_offset_cases [of a]
      by (auto simp: dCacheRead_def line_word_def)
  qed
qed

lemma dCacheWrite_law:
  assumes "dc_inv n dc m" "cacheable n a"
  shows "\<exists>dc' m'. dCacheWrite dc m a d 2 = Some (DSV_SUCCESS, dc', m') \<and> dc_inv n dc' m' \<and>
    (\<forall>b. aligned b \<longrightarrow> dc_view dc' m' b = (if b = a then d else dc_view dc m b))"
proof -
  have al: "aligned a" using assms(2) by (simp add: cacheable_def)
  obtain wo dc1 m1 where sel: "dCacheSelect dc m a False = Some (DSV_SUCCESS, dindex dc a, wo, dc1, m1)"
    and u: "unseen n dc m dc1 m1"
    and h: "numOfDcacheEntries dc \<noteq> -1 \<longrightarrow>
       (\<exists>w. wo = Some w \<and> hits (dSet (D dc1 ! unat (dindex dc a)) w) (dtag dc a))"
    using select_law [OF assms, of False] by auto
  have i: "dc_inv n dc1 m1" "numOfDcacheEntries dc1 = numOfDcacheEntries dc" "dindex dc1 = dindex dc"
    "dtag dc1 = dtag dc" "\<And>b. aligned b \<Longrightarrow> dc_view dc1 m1 b = dc_view dc m b" and g1: "dc_geom dc1"
    using u by (auto simp: unseen_def dc_inv_def)
  show ?thesis
  proof (cases "numOfDcacheEntries dc = -1")
    case True
    have p: "plain_word (CM_SIZE m1) a" using cacheable_plain [OF assms(2)] i(1) by (simp add: dc_inv_def)
    have nl: "no_dline dc1 (dindex dc1 b)" for b using True no_dline_iff [OF g1] i(2) by simp
    have "dCacheWrite dc m a d 2 = Some (DSV_SUCCESS, dc1, cm_put m1 a d)"
      using sel nl [of a] i(3) p by (simp add: dCacheWrite_def cmMemoryWrite_plain)
    moreover have "dc_inv n dc1 (cm_put m1 a d)" using i(1,2) True by (simp add: dc_inv_def)
    moreover have "dc_view dc1 (cm_put m1 a d) b = (if b = a then d else dc_view dc m b)" if "aligned b" for b
      using i(5) [OF that] nl [of b] al that by (simp add: dc_view_def cm_word_cm_put)
    ultimately show ?thesis by blast
  next
    case False
    then have f1: "numOfDcacheEntries dc1 \<noteq> -1" using i(2) by simp
    have l: "unat (dindex dc a) < length (D dc1)" using dentry_ok [OF g1 f1, of a] i(3) by simp
    note c = inv_cached [OF i(1) f1 l]
    let ?e = "D dc1 ! unat (dindex dc a)"
    obtain w where w: "wo = Some w" "hits (dSet ?e w) (dtag dc a)" using h False by auto
    let ?s = "(dSet ?e w)\<lparr>set_line := blit (set_line (dSet ?e w)) (line_offset a) (be_bytes d), set_dirty := True\<rparr>"
    let ?dc' = "put_entry dc1 (dindex dc a) ((with_set ?e w ?s)\<lparr>lru := other w\<rparr>)"
    have ok: "entry_ok n dc1 m1 (dindex dc1 a) ?e" "hits (dSet ?e w) (dtag dc1 a)" using c(5) w(2) i(3,4) by simp_all
    note st = store_entry [OF g1 ok al, where d = d]
    have "length (set_line (dSet ?e w)) = 16" using c(5) by (simp add: entry_ok_def set_ok_def)
    moreover have "a AND 3 = 0" using al by (simp add: aligned_def)
    ultimately have "dCacheWrite dc m a d 2 = Some (DSV_SUCCESS, ?dc', m1)"
      using sel w(1) no_dline_iff [OF g1, of a] f1 i(3) c(6) line_offset_cases [of a]
      by (auto simp: dCacheWrite_def store_in_line_def line_put_def Let_def)
    moreover have "dc_inv n ?dc' m1"
      using st(1) i(3) put_entry_inv [OF i(1) f1 l, of m1] c(2) by simp
    moreover have "dc_view ?dc' m1 b = (if b = a then d else dc_view dc m b)" if "aligned b" for b
      using put_entry_view [OF i(1) f1 l _ that, of m1] st(2) [OF that] i(3) i(5) [OF that]
        dc_view_cached [OF g1 f1, of m1 b] by auto
    ultimately show ?thesis by blast
  qed
qed

text \<open>The data cache over the memory is itself a word store: its users cannot tell it is there.\<close>

definition dc_load :: "dcache \<times> cmem \<Rightarrow> u32 \<Rightarrow> (u32 \<times> dcache \<times> cmem) option" where
  "dc_load s a = (case dCacheRead (fst s) (snd s) a 0 of
     Some (DSV_SUCCESS, v, dc, m) \<Rightarrow> Some (v, dc, m) | _ \<Rightarrow> None)"

definition dc_store :: "dcache \<times> cmem \<Rightarrow> u32 \<Rightarrow> u32 \<Rightarrow> (dcache \<times> cmem) option" where
  "dc_store s a d = (case dCacheWrite (fst s) (snd s) a d 2 of
     Some (DSV_SUCCESS, dc, m) \<Rightarrow> Some (dc, m) | _ \<Rightarrow> None)"

interpretation dcs: word_store "\<lambda>(dc, m). dc_inv n dc m" "cacheable n" "\<lambda>(dc, m). dc_view dc m"
  dc_load dc_store for n
proof
  fix s :: "dcache \<times> cmem" and a
  assume h: "case s of (dc, m) \<Rightarrow> dc_inv n dc m" "cacheable n a"
  obtain dc m where s: "s = (dc, m)" by fastforce
  show "\<exists>s'. dc_load s a = Some ((case s of (dc, m) \<Rightarrow> dc_view dc m) a, s') \<and>
      (case s' of (dc, m) \<Rightarrow> dc_inv n dc m) \<and>
      (\<forall>b. cacheable n b \<longrightarrow> (case s' of (dc, m) \<Rightarrow> dc_view dc m) b = (case s of (dc, m) \<Rightarrow> dc_view dc m) b)"
    using dCacheRead_law [of n dc m a 0] h s by (auto simp: dc_load_def unseen_def cacheable_def)
next
  fix s :: "dcache \<times> cmem" and a d
  assume h: "case s of (dc, m) \<Rightarrow> dc_inv n dc m" "cacheable n a"
  obtain dc m where s: "s = (dc, m)" by fastforce
  show "\<exists>s'. dc_store s a d = Some s' \<and> (case s' of (dc, m) \<Rightarrow> dc_inv n dc m) \<and>
      (\<forall>b. cacheable n b \<longrightarrow> (case s' of (dc, m) \<Rightarrow> dc_view dc m) b =
         (if b = a then d else (case s of (dc, m) \<Rightarrow> dc_view dc m) b))"
    using dCacheWrite_law [of n dc m a d] h s by (auto simp: dc_store_def cacheable_def)
qed

end
