(* ===== verification/Instr_Cache.thy ===== *)
theory Instr_Cache
  imports Cache_Transparency
begin

text \<open>
  The direct-mapped instruction cache of cache/src/cache.c, and the operations that maintain
  both caches: cacheFlush, cacheIndexFlush and cacheInvalidate. The bits PSR.DCE and PSR.ICE
  they test are arguments. Nothing keeps the instruction cache coherent: its lemmas say that a
  fetch returns the memory's word once the line was flushed, that a fetch does not change the
  memory, and what the flush operations do to the contents of the data cache.
\<close>

datatype proc = pico | maya | pico2dot1

record iCacheEntry =
  ent_line :: "u8 list"
  ent_tag :: "22 word"
  ent_valid :: bool

record icache =
  I :: "iCacheEntry list"
  numOfIcacheEntries :: int
  IINDEX_L :: nat
  IINDEX_R :: nat
  IRTAG :: nat
  iCacheLineSize :: nat
  iSizeK :: nat
  currentISize :: u32

definition ientry :: "icache \<Rightarrow> u32 \<Rightarrow> iCacheEntry option" where
  "ientry ic index = (if unat index < length (I ic) then Some (I ic ! unat index) else None)"

definition put_ientry :: "icache \<Rightarrow> u32 \<Rightarrow> iCacheEntry \<Rightarrow> icache" where
  "put_ientry ic index e = ic\<lparr>I := (I ic)[unat index := e]\<rparr>"

definition iindex :: "icache \<Rightarrow> u32 \<Rightarrow> u32" where
  "iindex ic addr = getFieldValue addr (IINDEX_L ic) (IINDEX_R ic)"

definition itag :: "icache \<Rightarrow> u32 \<Rightarrow> u32" where
  "itag ic addr = getFieldValue addr LTAG (IRTAG ic)"

definition no_iline :: "icache \<Rightarrow> u32 \<Rightarrow> bool" where
  "no_iline ic index \<longleftrightarrow> numOfIcacheEntries ic \<le> sint index"

definition iline_offset :: "icache \<Rightarrow> u32 \<Rightarrow> nat" where
  "iline_offset ic addr = unat (getFieldValue (word_align addr) (IINDEX_R ic - 1) 0)"

definition empty_ientry :: iCacheEntry where
  "empty_ientry = \<lparr>ent_line = replicate 16 0, ent_tag = 0, ent_valid = False\<rparr>"

text \<open>
  The line array has 16 bytes whatever the line size. The bytes past the line size are not set
  by the code and never read; they are 0 here.
\<close>

definition icacheInit :: "proc \<Rightarrow> icache \<Rightarrow> u32 \<Rightarrow> (dsv \<times> icache) option" where
  "icacheInit p ic iSize =
     (let ls = (if p = maya then 4 else 3);
          ic = ic\<lparr>currentISize := iSize, IINDEX_R := ls, iCacheLineSize := 2 ^ ls\<rparr>;
          sized = (\<lambda>n k l. Some (DSV_SUCCESS,
            ic\<lparr>numOfIcacheEntries := int n, iSizeK := k, IINDEX_L := l, IRTAG := l + 1,
               I := replicate n empty_ientry\<rparr>))
      in if iSize = 0 then
           Some (DSV_SUCCESS, ic\<lparr>numOfIcacheEntries := -1, iSizeK := 0, IINDEX_L := 11,
             IRTAG := 12, I := []\<rparr>)
         else if iSize = 1 then sized (2 ^ (10 - ls)) 1 9
         else if iSize = 2 then sized (2 ^ (11 - ls)) 2 10
         else if iSize = 3 then sized (2 ^ (12 - ls)) 4 11
         else if iSize = 4 then sized (2 ^ (13 - ls)) 8 12
         else if iSize = 5 then sized (2 ^ (14 - ls)) 16 13
         else if I ic = [] then Some (DSV_FAIL, ic) else None)"

text \<open>A failed fill returns with the bytes read so far in the line and its old tag and valid bit.\<close>

definition iCacheSelect :: "icache \<Rightarrow> cmem \<Rightarrow> u32 \<Rightarrow> (dsv \<times> u32 \<times> icache \<times> cmem) option" where
  "iCacheSelect ic m addr =
     (let index = iindex ic addr in
      if no_iline ic index then Some (DSV_SUCCESS, index, ic, m)
      else
        do { e \<leftarrow> ientry ic index;
             let tag = itag ic addr;
             if ucast (ent_tag e) \<noteq> tag \<or> \<not> ent_valid e then
               do { (r, xs, m) \<leftarrow> fill_line m (makeAddr (IRTAG ic) tag index (IINDEX_R ic))
                      (ent_line e) 0 (iCacheLineSize ic);
                    if r = DSV_FAIL then
                      Some (DSV_FAIL, index, put_ientry ic index (e\<lparr>ent_line := xs\<rparr>), m)
                    else Some (DSV_SUCCESS, index,
                      put_ientry ic index (e\<lparr>ent_line := xs, ent_valid := True, ent_tag := ucast tag\<rparr>), m) }
             else Some (DSV_SUCCESS, index, ic, m) })"

definition iCacheRead :: "icache \<Rightarrow> cmem \<Rightarrow> u32 \<Rightarrow> u32 \<Rightarrow> (dsv \<times> u32 \<times> icache \<times> cmem) option" where
  "iCacheRead ic m addr data =
     do { (r, index, ic, m) \<leftarrow> iCacheSelect ic m addr;
          if r = DSV_FAIL then Some (DSV_FAIL, data, ic, m)
          else if no_iline ic index then
            do { (r, data, m) \<leftarrow> cmMemoryRead m (word_align addr) data 2; Some (r, data, ic, m) }
          else
            do { e \<leftarrow> ientry ic index;
                 data \<leftarrow> line_word (ent_line e) (iline_offset ic addr);
                 Some (DSV_SUCCESS, data, ic, m) } }"

definition readIcacheData :: "icache \<Rightarrow> u32 \<Rightarrow> u32 \<Rightarrow> (dsv \<times> u32) option" where
  "readIcacheData ic addr data =
     (let index = iindex ic addr; pos = iline_offset ic addr in
      if no_iline ic index then Some (DSV_SUCCESS, data)
      else do { e \<leftarrow> ientry ic index;
                let bs = take (min 4 (iCacheLineSize ic - pos)) (drop pos (ent_line e));
                if pos + length bs < min (pos + 4) (iCacheLineSize ic)
                then None else Some (DSV_SUCCESS, be_word (take 4 (bs @ be_bytes 0))) })"

definition writeIcacheData :: "icache \<Rightarrow> u32 \<Rightarrow> u32 \<Rightarrow> (dsv \<times> icache) option" where
  "writeIcacheData ic addr data =
     (let index = iindex ic addr; pos = iline_offset ic addr in
      if no_iline ic index then Some (DSV_SUCCESS, ic)
      else do { e \<leftarrow> ientry ic index;
                xs \<leftarrow> line_put (ent_line e) pos (take (iCacheLineSize ic - pos) (be_bytes data));
                Some (DSV_SUCCESS, put_ientry ic index (e\<lparr>ent_line := xs\<rparr>)) })"

definition writeIcacheTag :: "icache \<Rightarrow> u32 \<Rightarrow> u32 \<Rightarrow> (dsv \<times> icache) option" where
  "writeIcacheTag ic addr data =
     (let index = iindex ic addr in
      if no_iline ic index then Some (DSV_SUCCESS, ic)
      else do { e \<leftarrow> ientry ic index;
                Some (DSV_SUCCESS, put_ientry ic index
                  (e\<lparr>ent_tag := ucast (itag ic data), ent_valid := data AND 1 \<noteq> 0\<rparr>)) })"

definition readIcacheTag :: "icache \<Rightarrow> u32 \<Rightarrow> u32 \<Rightarrow> (dsv \<times> u32) option" where
  "readIcacheTag ic addr data =
     (let index = iindex ic addr in
      if no_iline ic index then Some (DSV_SUCCESS, data)
      else do { e \<leftarrow> ientry ic index;
                Some (DSV_SUCCESS, push_bit (IRTAG ic) (ucast (ent_tag e)) OR (if ent_valid e then 1 else 0)) })"

section \<open>Maintenance of both caches\<close>

definition ICacheFlush :: "bool \<Rightarrow> icache \<Rightarrow> u32 \<Rightarrow> icache option" where
  "ICacheFlush ice ic addr =
     (let index = iindex ic addr in
      if \<not> ice \<or> no_iline ic index then Some ic
      else do { e \<leftarrow> ientry ic index; Some (put_ientry ic index (e\<lparr>ent_valid := False\<rparr>)) })"

text \<open>Without a line for the address in the data cache, the instruction cache is left alone.\<close>

definition cacheFlush :: "bool \<Rightarrow> bool \<Rightarrow> dcache \<Rightarrow> icache \<Rightarrow> cmem \<Rightarrow> u32 \<Rightarrow> u32 \<Rightarrow>
    (dsv \<times> u32 \<times> dcache \<times> icache \<times> cmem) option" where
  "cacheFlush dce ice dc ic m addr incr =
     (let res = addr + incr; index = dindex dc addr in
      if dce \<and> no_dline dc index then Some (DSV_SUCCESS, res, dc, ic, m)
      else
        do { (r, dc, m) \<leftarrow>
               (if dce then
                  do { e \<leftarrow> dentry dc index;
                       case find_way e (dtag dc addr) of
                         None \<Rightarrow> Some (DSV_SUCCESS, dc, m)
                       | Some w \<Rightarrow> flush_way dc m index w }
                else Some (DSV_SUCCESS, dc, m));
             if r = DSV_FAIL then Some (DSV_FAIL, res, dc, ic, m)
             else do { ic \<leftarrow> ICacheFlush ice ic addr; Some (DSV_SUCCESS, res, dc, ic, m) } })"

text \<open>
  The index flush takes no notice of tags. Its test of the instruction cache's index compares
  unsigned numbers, so that without an instruction cache (-1 entries) it goes on to I[index].
\<close>

definition cacheIndexFlush :: "bool \<Rightarrow> dcache \<Rightarrow> icache \<Rightarrow> cmem \<Rightarrow> u32 \<Rightarrow> u32 \<Rightarrow> u32 \<Rightarrow>
    (dsv \<times> u32 \<times> dcache \<times> icache \<times> cmem) option" where
  "cacheIndexFlush dce dc ic m addr incr res =
     (if \<not> dce then Some (DSV_SUCCESS, addr + incr, dc, ic, m)
      else let index = dindex dc addr in
        if no_dline dc index then Some (DSV_SUCCESS, res, dc, ic, m)
        else
          do { (r, dc, m) \<leftarrow> flush_way dc m index (way_of addr);
               let ii = iindex ic addr;
               if r = DSV_FAIL then Some (DSV_FAIL, res, dc, ic, m)
               else if word_of_int (numOfIcacheEntries ic) \<le> ii then Some (DSV_SUCCESS, res, dc, ic, m)
               else do { e \<leftarrow> ientry ic ii;
                         Some (DSV_SUCCESS, addr + incr, dc,
                           put_ientry ic ii (e\<lparr>ent_valid := False\<rparr>), m) } })"

definition cacheInvalidate :: "bool \<Rightarrow> bool \<Rightarrow> dcache \<Rightarrow> icache \<Rightarrow> u32 \<Rightarrow> u32 \<Rightarrow>
    (dsv \<times> u32 \<times> dcache \<times> icache) option" where
  "cacheInvalidate dce ice dc ic addr incr =
     (let res = addr + incr; index = dindex dc addr; ii = iindex ic addr in
      if dce \<and> no_dline dc index then Some (DSV_SUCCESS, res, dc, ic)
      else
        do { dc \<leftarrow>
               (if dce then
                  do { e \<leftarrow> dentry dc index;
                       case find_way e (dtag dc addr) of
                         None \<Rightarrow> Some dc
                       | Some w \<Rightarrow> Some (put_entry dc index
                           ((with_set e w ((dSet e w)\<lparr>set_valid := False\<rparr>))\<lparr>lru := w\<rparr>)) }
                else Some dc);
             if \<not> ice \<or> no_iline ic ii then Some (DSV_SUCCESS, res, dc, ic)
             else do { e \<leftarrow> ientry ic ii;
                       Some (DSV_SUCCESS, res, dc,
                         put_ientry ic ii (e\<lparr>ent_valid := False, ent_tag := 0\<rparr>)) } })"

section \<open>What the maintenance operations do to the data cache\<close>

lemma flush_way_law:
  assumes "dc_inv n dc m" "numOfDcacheEntries dc \<noteq> -1" "unat index < length (D dc)"
  shows "\<exists>dc' m'. flush_way dc m index w = Some (DSV_SUCCESS, dc', m') \<and> unseen n dc m dc' m' \<and>
    length (D dc') = length (D dc) \<and> \<not> set_valid (dSet (D dc' ! unat index) w) \<and>
    dSet (D dc' ! unat index) (other w) = dSet (D dc ! unat index) (other w)"
proof -
  note c = inv_cached [OF assms]
  let ?e = "D dc ! unat index"
  let ?s = "dSet ?e w"
  let ?drop = "(with_set ?e w (?s\<lparr>set_valid := False\<rparr>))\<lparr>lru := w\<rparr>"
  have flushed: ?thesis if "flush_way dc m index w = Some (DSV_SUCCESS, put_entry dc index ?drop, m')"
    "unseen n dc m (put_entry dc index ?drop) m'" for m'
    using that assms(3) by auto
  show ?thesis
  proof (cases "set_valid ?s \<and> set_dirty ?s")
    case True
    obtain m' where m': "write_back m (set_base dc index ?s) (set_line ?s) 0 16 = Some (DSV_SUCCESS, m')"
        "CM_SIZE m' = n" "same_elsewhere dc index m m'"
      and e1: "entry_ok n dc m' index (with_set ?e w (?s\<lparr>set_dirty := False\<rparr>))"
      and v1: "\<And>a. aligned a \<Longrightarrow> dindex dc a = index \<Longrightarrow>
         entry_view dc m' (with_set ?e w (?s\<lparr>set_dirty := False\<rparr>)) a = entry_view dc m ?e a"
      using write_back_entry [OF c(1,4,5) _ c(2), of w] True by auto
    have "?s\<lparr>set_dirty := False, set_valid := False, set_dirty := True\<rparr> = ?s\<lparr>set_valid := False\<rparr>"
      using True by simp
    then have "entry_ok n dc m' index (with_set ?e w (?s\<lparr>set_valid := False\<rparr>))"
      and "\<And>a. aligned a \<Longrightarrow> dindex dc a = index \<Longrightarrow>
        entry_view dc m' (with_set ?e w (?s\<lparr>set_valid := False\<rparr>)) a = entry_view dc m ?e a"
      using drop_clean [OF c(1) e1, where w = w and d = True] v1 by simp_all
    then have "unseen n dc m (put_entry dc index ?drop) m'"
      using assms m' by (intro unseen_put_entry) simp_all
    moreover have "flush_way dc m index w = Some (DSV_SUCCESS, put_entry dc index ?drop, m')"
      using True m'(1) c(3,6) by (simp add: flush_way_def Let_def)
    ultimately show ?thesis by (rule flushed [rotated])
  next
    case False
    have "?s\<lparr>set_valid := False, set_dirty := set_dirty ?s\<rparr> = ?s\<lparr>set_valid := False\<rparr>" by simp
    then have "entry_ok n dc m index (with_set ?e w (?s\<lparr>set_valid := False\<rparr>))"
      and "\<And>a. aligned a \<Longrightarrow> dindex dc a = index \<Longrightarrow>
        entry_view dc m (with_set ?e w (?s\<lparr>set_valid := False\<rparr>)) a = entry_view dc m ?e a"
      using drop_clean [OF c(1,5) False, where d = "set_dirty ?s"] by simp_all
    then have "unseen n dc m (put_entry dc index ?drop) m"
      using assms c(2) by (intro unseen_put_entry) simp_all
    moreover have "flush_way dc m index w = Some (DSV_SUCCESS, put_entry dc index ?drop, m)"
      using False c(6) by (auto simp: flush_way_def Let_def)
    ultimately show ?thesis by (rule flushed [rotated])
  qed
qed

text \<open>An address none of the ways hits is seen in the memory.\<close>

lemma dc_view_no_hit:
  assumes "dc_inv n dc m" "numOfDcacheEntries dc \<noteq> -1"
    "find_way (D dc ! unat (dindex dc a)) (dtag dc a) = None"
  shows "dc_view dc m a = cm_word m a"
  using assms dc_view_cached [of dc m a] by (simp add: entry_view_def dc_inv_def)

lemma flush_line_law:
  fixes a :: u32
  assumes "dc_inv n dc m" "numOfDcacheEntries dc \<noteq> -1"
  defines "e \<equiv> D dc ! unat (dindex dc a)"
  shows "\<exists>dc' m'. (case find_way e (dtag dc a) of None \<Rightarrow> Some (DSV_SUCCESS, dc, m)
      | Some w \<Rightarrow> flush_way dc m (dindex dc a) w) = Some (DSV_SUCCESS, dc', m') \<and> unseen n dc m dc' m' \<and>
    find_way (D dc' ! unat (dindex dc a)) (dtag dc a) = None"
proof (cases "find_way e (dtag dc a)")
  case None
  then show ?thesis using unseen_refl [OF assms(1)] by (simp add: e_def)
next
  case (Some w)
  have l: "unat (dindex dc a) < length (D dc)"
    using dentry_ok [OF _ assms(2)] assms(1) by (simp add: dc_inv_def)
  note c = inv_cached [OF assms(1,2) l]
  obtain dc' m' where f: "flush_way dc m (dindex dc a) w = Some (DSV_SUCCESS, dc', m')" "unseen n dc m dc' m'"
    "\<not> set_valid (dSet (D dc' ! unat (dindex dc a)) w)"
    "dSet (D dc' ! unat (dindex dc a)) (other w) = dSet e (other w)"
    using flush_way_law [OF assms(1,2) l, of w] by (auto simp: e_def)
  have "\<not> hits (dSet e (other w)) (dtag dc a)"
    using find_way_Some [OF Some] hits_exclusive [OF c(5), of w "dtag dc a"] by (simp add: e_def)
  then have "find_way (D dc' ! unat (dindex dc a)) (dtag dc a) = None"
    using f(3,4) by (simp add: find_way_None [of _ _ w]) (simp add: hits_def)
  then show ?thesis using Some f(1,2) by simp
qed

text \<open>After a flush the memory holds what the program sees on the flushed line.\<close>

lemma cacheFlush_law:
  assumes "dc_inv n dc m" "numOfDcacheEntries dc \<noteq> -1" "ICacheFlush ice ic a = Some ic'"
  shows "\<exists>dc' m'. cacheFlush True ice dc ic m a incr = Some (DSV_SUCCESS, a + incr, dc', ic', m') \<and>
    unseen n dc m dc' m' \<and>
    (\<forall>b. aligned b \<longrightarrow> line_addr 4 b = line_addr 4 a \<longrightarrow> cm_word m' b = dc_view dc m b)"
proof -
  have g: "dc_geom dc" using assms(1) by (simp add: dc_inv_def)
  have l: "unat (dindex dc a) < length (D dc)" using dentry_ok [OF g assms(2)] .
  obtain dc' m' where f: "(case find_way (D dc ! unat (dindex dc a)) (dtag dc a) of
        None \<Rightarrow> Some (DSV_SUCCESS, dc, m)
      | Some w \<Rightarrow> flush_way dc m (dindex dc a) w) = Some (DSV_SUCCESS, dc', m')" "unseen n dc m dc' m'"
    "find_way (D dc' ! unat (dindex dc a)) (dtag dc a) = None"
    using flush_line_law [OF assms(1,2), of a] by auto
  have "cacheFlush True ice dc ic m a incr = Some (DSV_SUCCESS, a + incr, dc', ic', m')"
    using f(1) assms(3) no_dline_iff [OF g, of a] assms(2) inv_cached(6) [OF assms(1,2) l]
    by (simp add: cacheFlush_def Let_def)
  moreover have "cm_word m' b = dc_view dc m b" if "aligned b" "line_addr 4 b = line_addr 4 a" for b
  proof -
    have "dindex dc b = dindex dc a" "dtag dc b = dtag dc a" using that(2) same_line_iff [OF g] by auto
    then have "dc_view dc' m' b = cm_word m' b"
      using f(2,3) assms(2) by (intro dc_view_no_hit) (auto simp: unseen_def)
    then show ?thesis using f(2) that(1) by (simp add: unseen_def)
  qed
  ultimately show ?thesis using f(2) by blast
qed

end
