(* ===== verification/Breakpoints.thy ===== *)
theory Breakpoints
  imports Prelude
begin

text \<open>
  The simulator's own breakpoints, iam/src/breakpoints.c: a table of MAX\_BRKPTS entries of
  which the first nbrkpts\_set are in use. The messages are not modelled. A breakpoint number is
  an int the user types: a negative one, or an access past the table, gives None. The checks of
  the code are kept as they are: brkpt\_add tests the number of enabled breakpoints, and
  brkpt\_enable counts a breakpoint that is enabled already once more.
\<close>

datatype BRKPT_ACCESS_T = BRKPT_EXEC | BRKPT_READ | BRKPT_WRITE

record breakpoint_t =
  brkpt_addr :: u32
  brkpt_type :: BRKPT_ACCESS_T
  ignore_count :: int
  is_enabled :: bool

record brkpt_table =
  brkpts :: "breakpoint_t list"
  nbrkpts_set :: nat
  nbrkpts_enabled :: int

definition MAX_BRKPTS :: nat where "MAX_BRKPTS = 1000"

definition brkpt_init_module :: "brkpt_table \<Rightarrow> brkpt_table" where
  "brkpt_init_module t = t\<lparr>nbrkpts_set := 0, nbrkpts_enabled := 0\<rparr>"

text \<open>The address test compares unsigned numbers, so a range that wraps around is empty.\<close>

definition brkpt_covers :: "u32 \<Rightarrow> u32 \<Rightarrow> BRKPT_ACCESS_T \<Rightarrow> breakpoint_t \<Rightarrow> bool" where
  "brkpt_covers addr_begin addr_end ty b \<longleftrightarrow>
     is_enabled b \<and> addr_begin \<le> brkpt_addr b \<and> brkpt_addr b < addr_end \<and> brkpt_type b = ty"

text \<open>The search loop over n entries from number i on; a match with an ignore count uses it up.\<close>

fun brkpt_scan :: "u32 \<Rightarrow> u32 \<Rightarrow> BRKPT_ACCESS_T \<Rightarrow> nat \<Rightarrow> nat \<Rightarrow> breakpoint_t list \<Rightarrow>
    (nat option \<times> breakpoint_t list) option" where
  "brkpt_scan b e ty i 0 bs = Some (None, bs)"
| "brkpt_scan b e ty i (Suc n) [] = None"
| "brkpt_scan b e ty i (Suc n) (x # bs) =
     (if brkpt_covers b e ty x \<and> ignore_count x = 0 then Some (Some i, x # bs)
      else do { (r, bs) \<leftarrow> brkpt_scan b e ty (Suc i) n bs;
                Some (r, (if brkpt_covers b e ty x then x\<lparr>ignore_count := ignore_count x - 1\<rparr> else x) # bs) })"

definition brkpt_match :: "brkpt_table \<Rightarrow> u32 \<Rightarrow> nat \<Rightarrow> BRKPT_ACCESS_T \<Rightarrow> (nat option \<times> brkpt_table) option" where
  "brkpt_match t addr sz ty =
     (if nbrkpts_enabled t = 0 then Some (None, t)
      else do { (r, bs) \<leftarrow> brkpt_scan addr (addr + (if sz = 0 then 1 else if sz = 1 then 2 else 4)) ty 0
                  (nbrkpts_set t) (brkpts t);
                Some (r, t\<lparr>brkpts := bs\<rparr>) })"

definition brkpt_add :: "brkpt_table \<Rightarrow> u32 \<Rightarrow> BRKPT_ACCESS_T \<Rightarrow> brkpt_table option" where
  "brkpt_add t addr ty =
     do { (r, t) \<leftarrow> brkpt_match t addr 0 ty;
          if r \<noteq> None then Some t
          else do { (r, t) \<leftarrow> brkpt_match t addr 0 ty;
                    if r \<noteq> None then Some t
                    else if int MAX_BRKPTS \<le> nbrkpts_enabled t then Some t
                    else if length (brkpts t) \<le> nbrkpts_set t then None
                    else Some (t\<lparr>nbrkpts_enabled := nbrkpts_enabled t + 1,
                      brkpts := (brkpts t)[nbrkpts_set t := \<lparr>brkpt_addr = addr, brkpt_type = ty,
                        ignore_count = 0, is_enabled = True\<rparr>],
                      nbrkpts_set := nbrkpts_set t + 1\<rparr>) } }"

definition brkpt_update :: "brkpt_table \<Rightarrow> int \<Rightarrow> (breakpoint_t \<Rightarrow> breakpoint_t) \<Rightarrow> brkpt_table option" where
  "brkpt_update t i f =
     (if 0 \<le> i \<and> nat i < length (brkpts t)
      then Some (t\<lparr>brkpts := (brkpts t)[nat i := f (brkpts t ! nat i)]\<rparr>) else None)"

definition brkpt_enable :: "brkpt_table \<Rightarrow> int \<Rightarrow> brkpt_table option" where
  "brkpt_enable t i =
     (if int (nbrkpts_set t) \<le> i then Some t
      else do { t \<leftarrow> brkpt_update t i (\<lambda>b. b\<lparr>is_enabled := True\<rparr>);
                Some (t\<lparr>nbrkpts_enabled := nbrkpts_enabled t + 1\<rparr>) })"

definition brkpt_disable :: "brkpt_table \<Rightarrow> int \<Rightarrow> brkpt_table option" where
  "brkpt_disable t i =
     (if int (nbrkpts_set t) \<le> i then Some t
      else do { t \<leftarrow> brkpt_update t i (\<lambda>b. b\<lparr>is_enabled := False\<rparr>);
                Some (t\<lparr>nbrkpts_enabled := nbrkpts_enabled t - 1\<rparr>) })"

text \<open>The loop of brkpt\_disable\_addr: n entries from number i on are left.\<close>

fun brkpt_disable_from :: "brkpt_table \<Rightarrow> u32 \<Rightarrow> BRKPT_ACCESS_T \<Rightarrow> int \<Rightarrow> nat \<Rightarrow> nat \<Rightarrow> (int \<times> brkpt_table) option" where
  "brkpt_disable_from t a ty last_match i 0 = Some (last_match, t)"
| "brkpt_disable_from t a ty last_match i (Suc n) =
     (if length (brkpts t) \<le> i then None
      else let b = brkpts t ! i in
        if is_enabled b \<and> brkpt_addr b = a \<and> brkpt_type b = ty
        then do { t \<leftarrow> brkpt_disable t (int i); brkpt_disable_from t a ty (int i) (Suc i) n }
        else brkpt_disable_from t a ty last_match (Suc i) n)"

definition brkpt_disable_addr :: "brkpt_table \<Rightarrow> u32 \<Rightarrow> BRKPT_ACCESS_T \<Rightarrow> (int \<times> brkpt_table) option" where
  "brkpt_disable_addr t a ty = brkpt_disable_from t a ty (-1) 0 (nbrkpts_set t)"

definition brkpt_set_ignore_count :: "brkpt_table \<Rightarrow> int \<Rightarrow> int \<Rightarrow> brkpt_table option" where
  "brkpt_set_ignore_count t i count =
     (if int (nbrkpts_set t) \<le> i then Some t
      else if count < 0 then Some t
      else brkpt_update t i (\<lambda>b. b\<lparr>ignore_count := count\<rparr>))"

section \<open>The table's invariant\<close>

definition n_enabled :: "brkpt_table \<Rightarrow> nat" where
  "n_enabled t = length (filter is_enabled (take (nbrkpts_set t) (brkpts t)))"

definition brkpt_inv :: "brkpt_table \<Rightarrow> bool" where
  "brkpt_inv t \<longleftrightarrow> length (brkpts t) = MAX_BRKPTS \<and> nbrkpts_set t \<le> MAX_BRKPTS \<and>
     nbrkpts_enabled t = int (n_enabled t) \<and>
     (\<forall>b\<in>set (take (nbrkpts_set t) (brkpts t)). 0 \<le> ignore_count b)"

text \<open>What a search leaves: the entries, in order, with some ignore counts one lower.\<close>

lemma brkpt_scan_props:
  assumes "brkpt_scan b e ty i n bs = Some (r, bs')"
  shows "length bs' = length bs" "map is_enabled bs' = map is_enabled bs"
    "(\<forall>x\<in>set (take n bs). 0 \<le> ignore_count x) \<Longrightarrow> (\<forall>x\<in>set (take n bs'). 0 \<le> ignore_count x)"
    "map (\<lambda>x. (brkpt_addr x, brkpt_type x)) bs' = map (\<lambda>x. (brkpt_addr x, brkpt_type x)) bs"
  using assms
  by (induction b e ty i n bs arbitrary: r bs' rule: brkpt_scan.induct)
    (auto split: if_splits Option.bind_splits)

lemma brkpt_scan_total: "n \<le> length bs \<Longrightarrow> \<exists>r bs'. brkpt_scan b e ty i n bs = Some (r, bs')"
  by (induction b e ty i n bs rule: brkpt_scan.induct) (auto split: if_splits)

definition brkpt_hit :: "u32 \<Rightarrow> u32 \<Rightarrow> BRKPT_ACCESS_T \<Rightarrow> breakpoint_t \<Rightarrow> bool" where
  "brkpt_hit b e ty x \<longleftrightarrow> brkpt_covers b e ty x \<and> ignore_count x = 0"

text \<open>The search finds the first breakpoint that is hit.\<close>

definition first_hit :: "(breakpoint_t \<Rightarrow> bool) \<Rightarrow> nat \<Rightarrow> breakpoint_t list \<Rightarrow> nat option \<Rightarrow> bool" where
  "first_hit P n bs r \<longleftrightarrow>
     (case r of None \<Rightarrow> \<forall>j<n. \<not> P (bs ! j)
      | Some k \<Rightarrow> k < n \<and> k < length bs \<and> P (bs ! k) \<and> (\<forall>j<k. \<not> P (bs ! j)))"

lemma brkpt_scan_result:
  assumes "brkpt_scan b e ty i n bs = Some (r, bs')"
  shows "\<exists>r0. r = map_option (\<lambda>j. i + j) r0 \<and> first_hit (brkpt_hit b e ty) n bs r0"
  using assms
proof (induction b e ty i n bs arbitrary: r bs' rule: brkpt_scan.induct)
  case (3 b e ty i n x bs)
  show ?case
  proof (cases "brkpt_hit b e ty x")
    case True
    then have "r = Some i" using 3(2) by (auto simp: brkpt_hit_def)
    then show ?thesis using True by (intro exI [of _ "Some 0"]) (simp add: first_hit_def)
  next
    case False
    then obtain bs2 where s: "brkpt_scan b e ty (Suc i) n bs = Some (r, bs2)"
      using 3(2) by (auto simp: brkpt_hit_def split: if_splits Option.bind_splits)
    have nh: "\<not> (brkpt_covers b e ty x \<and> ignore_count x = 0)" using False by (simp add: brkpt_hit_def)
    obtain r0 where r0: "r = map_option (\<lambda>j. Suc i + j) r0" "first_hit (brkpt_hit b e ty) n bs r0"
      using 3(1) [OF nh s] by blast
    have "first_hit (brkpt_hit b e ty) (Suc n) (x # bs) (map_option Suc r0)"
      using r0(2) False by (auto simp: first_hit_def less_Suc_eq_0_disj split: option.splits)
    then show ?thesis using r0(1) by (intro exI [of _ "map_option Suc r0"]) (cases r0; simp)
  qed
qed (auto simp: first_hit_def)

lemma n_enabled_cong:
  "map is_enabled (brkpts t') = map is_enabled (brkpts t) \<Longrightarrow> nbrkpts_set t' = nbrkpts_set t \<Longrightarrow>
    n_enabled t' = n_enabled t"
proof -
  have len: "length (filter is_enabled xs) = length (filter id (map is_enabled xs))" for xs
    by (induction xs) auto
  assume "map is_enabled (brkpts t') = map is_enabled (brkpts t)" "nbrkpts_set t' = nbrkpts_set t"
  then show ?thesis by (simp add: n_enabled_def len flip: take_map)
qed

lemma brkpt_match_inv:
  assumes "brkpt_inv t"
  shows "\<exists>r t'. brkpt_match t a sz ty = Some (r, t') \<and> brkpt_inv t' \<and> nbrkpts_set t' = nbrkpts_set t \<and>
    nbrkpts_enabled t' = nbrkpts_enabled t"
proof (cases "nbrkpts_enabled t = 0")
  case True
  then show ?thesis using assms by (simp add: brkpt_match_def)
next
  case False
  let ?e = "a + (if sz = 0 then 1 else if sz = 1 then 2 else 4)"
  have "nbrkpts_set t \<le> length (brkpts t)" using assms by (simp add: brkpt_inv_def)
  then obtain r bs where s: "brkpt_scan a ?e ty 0 (nbrkpts_set t) (brkpts t) = Some (r, bs)"
    using brkpt_scan_total by blast
  have m: "brkpt_match t a sz ty = Some (r, t\<lparr>brkpts := bs\<rparr>)"
    unfolding brkpt_match_def using False s by (simp split del: if_split)
  note p = brkpt_scan_props [OF s]
  have "n_enabled (t\<lparr>brkpts := bs\<rparr>) = n_enabled t" using p(2) by (intro n_enabled_cong) simp_all
  then have "brkpt_inv (t\<lparr>brkpts := bs\<rparr>)" using assms p(1,3) by (simp add: brkpt_inv_def)
  with m show ?thesis by simp
qed

lemma brkpt_match_first:
  assumes "brkpt_inv t" "brkpt_match t a sz ty = Some (r, t')"
  shows "first_hit (brkpt_hit a (a + (if sz = 0 then 1 else if sz = 1 then 2 else 4)) ty)
    (nbrkpts_set t) (brkpts t) r"
proof (cases "nbrkpts_enabled t = 0")
  case True
  then have "\<forall>x\<in>set (take (nbrkpts_set t) (brkpts t)). \<not> is_enabled x"
    using assms(1) by (simp add: brkpt_inv_def n_enabled_def filter_empty_conv)
  moreover have "brkpts t ! j \<in> set (take (nbrkpts_set t) (brkpts t))" if "j < nbrkpts_set t" for j
    using that assms(1) by (simp add: brkpt_inv_def in_set_conv_nth) (metis length_take min.absorb2 nth_take)
  ultimately have "\<not> is_enabled (brkpts t ! j)" if "j < nbrkpts_set t" for j using that by blast
  then show ?thesis
    using assms(2) True by (simp add: brkpt_match_def first_hit_def brkpt_hit_def brkpt_covers_def)
next
  case False
  then obtain bs where "brkpt_scan a (a + (if sz = 0 then 1 else if sz = 1 then 2 else 4)) ty 0
      (nbrkpts_set t) (brkpts t) = Some (r, bs)"
    using assms(2) unfolding brkpt_match_def by (auto split: Option.bind_splits)
  from brkpt_scan_result [OF this] show ?thesis by (auto simp: option.map_ident)
qed

lemma n_enabled_le: "n_enabled t \<le> nbrkpts_set t"
  using length_filter_le [of is_enabled "take (nbrkpts_set t) (brkpts t)"] by (simp add: n_enabled_def)

lemma n_enabled_update:
  assumes "i < nbrkpts_set t" "nbrkpts_set t \<le> length (brkpts t)"
    "is_enabled (f (brkpts t ! i)) = e" "is_enabled (brkpts t ! i) = (\<not> e)"
  shows "int (n_enabled (t\<lparr>brkpts := (brkpts t)[i := f (brkpts t ! i)]\<rparr>)) =
    int (n_enabled t) + (if e then 1 else -1)"
proof -
  let ?xs = "take (nbrkpts_set t) (brkpts t)"
  have i: "i < length ?xs" "?xs ! i = brkpts t ! i" using assms(1,2) by simp_all
  define ys zs where "ys = take i ?xs" and "zs = drop (Suc i) ?xs"
  have old: "?xs = ys @ brkpts t ! i # zs"
    using id_take_nth_drop [OF i(1)] i(2) by (simp only: ys_def zs_def)
  have new: "take (nbrkpts_set t) ((brkpts t)[i := y]) = ys @ y # zs" for y
    by (simp only: take_update_swap upd_conv_take_nth_drop [OF i(1)] ys_def zs_def)
  show ?thesis using assms(3,4) unfolding n_enabled_def by (simp add: new old)
qed

text \<open>
  Brkpt\_add works: with room in the table and no breakpoint hit there yet, every
  later access of the same type that covers the address hits a breakpoint, and the table's
  invariant (the count of enabled breakpoints is right) still holds.
\<close>

lemma brkpt_add_hits:
  assumes "brkpt_inv t" "nbrkpts_set t < MAX_BRKPTS" "brkpt_add t a ty = Some t'"
    "a' \<le> a" "a < a' + (if sz = 0 then 1 else if sz = 1 then 2 else 4)"
    "\<exists>t1 t2. brkpt_match t a 0 ty = Some (None, t1) \<and> brkpt_match t1 a 0 ty = Some (None, t2)"
  shows "brkpt_inv t' \<and> (\<exists>k t''. brkpt_match t' a' sz ty = Some (Some k, t'') \<and> k \<le> nbrkpts_set t)"
proof -
  obtain t1 t2 where m: "brkpt_match t a 0 ty = Some (None, t1)" "brkpt_match t1 a 0 ty = Some (None, t2)"
    using assms(6) by blast
  have t1: "brkpt_inv t1" "nbrkpts_set t1 = nbrkpts_set t"
    using brkpt_match_inv [OF assms(1), of a 0 ty] m(1) by auto
  have t2: "brkpt_inv t2" "nbrkpts_set t2 = nbrkpts_set t"
    using brkpt_match_inv [OF t1(1), of a 0 ty] m(2) t1(2) by auto
  let ?b = "\<lparr>brkpt_addr = a, brkpt_type = ty, ignore_count = 0, is_enabled = True\<rparr>"
  let ?n = "nbrkpts_set t"
  have len: "length (brkpts t2) = MAX_BRKPTS" using t2(1) by (simp add: brkpt_inv_def)
  have "n_enabled t2 \<le> ?n" using n_enabled_le [of t2] t2(2) by simp
  then have room: "nbrkpts_enabled t2 < int MAX_BRKPTS" using t2 assms(2) by (simp add: brkpt_inv_def)
  then have t': "t' = t2\<lparr>nbrkpts_enabled := nbrkpts_enabled t2 + 1, brkpts := (brkpts t2)[?n := ?b],
      nbrkpts_set := ?n + 1\<rparr>"
    using assms(2,3) m len t2(2) by (auto simp: brkpt_add_def)
  have tk: "take (?n + 1) ((brkpts t2)[?n := ?b]) = take ?n (brkpts t2) @ [?b]"
  proof -
    have "take ?n ((brkpts t2)[?n := ?b]) = take ?n (brkpts t2)" by simp
    then show ?thesis using assms(2) len by (simp add: take_Suc_conv_app_nth [of ?n "(brkpts t2)[?n := ?b]"])
  qed
  have inv: "brkpt_inv t'"
    using t2 assms(2) len unfolding brkpt_inv_def t' n_enabled_def by (simp add: tk [simplified])
  let ?e = "a' + (if sz = 0 then 1 else if sz = 1 then 2 else 4)"
  obtain r t'' where r: "brkpt_match t' a' sz ty = Some (r, t'')"
    using brkpt_match_inv [OF inv] by blast
  have "brkpt_hit a' ?e ty (brkpts t' ! ?n)" "?n < nbrkpts_set t'"
    using assms(2,4,5) len by (simp_all add: t' brkpt_hit_def brkpt_covers_def)
  moreover have "first_hit (brkpt_hit a' ?e ty) (nbrkpts_set t') (brkpts t') r"
    by (rule brkpt_match_first [OF inv r])
  ultimately obtain k where "r = Some k" "k \<le> ?n"
    by (auto simp: first_hit_def split: option.splits) (metis not_le)
  with r inv show ?thesis by blast
qed

definition brkpt_table0 :: brkpt_table where
  "brkpt_table0 = \<lparr>brkpts = replicate 1000 \<lparr>brkpt_addr = 0, brkpt_type = BRKPT_EXEC, ignore_count = 0,
     is_enabled = False\<rparr>, nbrkpts_set = 0, nbrkpts_enabled = 0\<rparr>"

lemma brkpt_table0_inv: "brkpt_inv brkpt_table0"
  by (simp add: brkpt_inv_def brkpt_table0_def MAX_BRKPTS_def n_enabled_def)

lemma brkpt_add_hits_witness:
  "\<exists>t'. brkpt_add brkpt_table0 0x104 BRKPT_WRITE = Some t' \<and>
     brkpt_inv t' \<and> (\<exists>k t''. brkpt_match t' 0x104 2 BRKPT_WRITE = Some (Some k, t'') \<and> k \<le> nbrkpts_set brkpt_table0)"
proof -
  have m: "brkpt_match brkpt_table0 0x104 0 BRKPT_WRITE = Some (None, brkpt_table0)"
    by (simp add: brkpt_match_def brkpt_table0_def)
  obtain t' where t': "brkpt_add brkpt_table0 0x104 BRKPT_WRITE = Some t'"
    using m by (simp add: brkpt_add_def) (simp add: brkpt_table0_def MAX_BRKPTS_def)
  then show ?thesis
    using brkpt_add_hits [OF brkpt_table0_inv _ t', of "0x104" 2] m
    by (simp add: brkpt_table0_def MAX_BRKPTS_def)
qed

lemma ignore_counts_update:
  "\<forall>b\<in>set xs. 0 \<le> ignore_count b \<Longrightarrow> 0 \<le> ignore_count y \<Longrightarrow> \<forall>b\<in>set (xs[i := y]). 0 \<le> ignore_count b"
  by (auto dest: set_update_subset_insert [THEN subsetD])

lemma brkpt_update_inv:
  assumes "brkpt_inv t" "i < nbrkpts_set t" "is_enabled (f (brkpts t ! i)) = e"
    "is_enabled (brkpts t ! i) = (\<not> e)" "ignore_count (f (brkpts t ! i)) = ignore_count (brkpts t ! i)"
  shows "brkpt_inv (t\<lparr>brkpts := (brkpts t)[i := f (brkpts t ! i)],
    nbrkpts_enabled := nbrkpts_enabled t + (if e then 1 else -1)\<rparr>)"
proof -
  have l: "nbrkpts_set t \<le> length (brkpts t)" using assms(1) by (simp add: brkpt_inv_def)
  have "brkpts t ! i \<in> set (take (nbrkpts_set t) (brkpts t))"
    using assms(2) l by (metis in_set_conv_nth length_take min.absorb2 nth_take)
  then have "\<forall>b\<in>set ((take (nbrkpts_set t) (brkpts t))[i := f (brkpts t ! i)]). 0 \<le> ignore_count b"
    using assms(1,5) by (intro ignore_counts_update) (auto simp: brkpt_inv_def)
  then show ?thesis
    using n_enabled_update [of i t f e, OF assms(2) l assms(3,4)] assms(1)
    by (simp add: brkpt_inv_def n_enabled_def take_update_swap)
qed

text \<open>
  Enabling a disabled breakpoint and disabling an enabled one succeed, take effect
  and keep the table's invariant.
\<close>

theorem brkpt_toggle_inv:
  assumes "brkpt_inv t" "i < nbrkpts_set t"
  shows "(\<not> is_enabled (brkpts t ! i) \<longrightarrow>
      (\<exists>t'. brkpt_enable t (int i) = Some t' \<and> brkpt_inv t' \<and> is_enabled (brkpts t' ! i))) \<and>
    (is_enabled (brkpts t ! i) \<longrightarrow>
      (\<exists>t'. brkpt_disable t (int i) = Some t' \<and> brkpt_inv t' \<and> \<not> is_enabled (brkpts t' ! i)))"
proof -
  have l: "i < length (brkpts t)" using assms by (simp add: brkpt_inv_def)
  show ?thesis
    using brkpt_update_inv [OF assms, of "\<lambda>b. b\<lparr>is_enabled := True\<rparr>" True]
      brkpt_update_inv [OF assms, of "\<lambda>b. b\<lparr>is_enabled := False\<rparr>" False] assms l
    by (auto simp: brkpt_enable_def brkpt_disable_def brkpt_update_def)
qed

lemma brkpt_toggle_inv_witness:
  "\<exists>t t'. brkpt_add brkpt_table0 0x104 BRKPT_WRITE = Some t \<and> is_enabled (brkpts t ! 0) \<and>
     brkpt_disable t (int 0) = Some t' \<and> brkpt_inv t'"
proof -
  have m: "brkpt_match brkpt_table0 0x104 0 BRKPT_WRITE = Some (None, brkpt_table0)"
    by (simp add: brkpt_match_def brkpt_table0_def)
  define t where "t = brkpt_table0\<lparr>nbrkpts_enabled := 1,
    brkpts := (brkpts brkpt_table0)[0 := \<lparr>brkpt_addr = 0x104, brkpt_type = BRKPT_WRITE,
                        ignore_count = 0, is_enabled = True\<rparr>], nbrkpts_set := 1\<rparr>"
  have a: "brkpt_add brkpt_table0 0x104 BRKPT_WRITE = Some t"
    using m by (simp add: brkpt_add_def) (simp add: t_def brkpt_table0_def MAX_BRKPTS_def)
  have "brkpt_inv t"
    by (simp add: brkpt_inv_def t_def brkpt_table0_def MAX_BRKPTS_def n_enabled_def numeral_eq_Suc)
  moreover have "is_enabled (brkpts t ! 0)" "0 < nbrkpts_set t" by (simp_all add: t_def brkpt_table0_def)
  ultimately show ?thesis using brkpt_toggle_inv [of t 0] a by blast
qed

text \<open>The code as it is: enabling an enabled breakpoint makes the count of enabled ones wrong.\<close>

lemma brkpt_enable_twice:
  assumes "brkpt_inv t" "i < nbrkpts_set t" "is_enabled (brkpts t ! i)"
  shows "\<exists>t'. brkpt_enable t (int i) = Some t' \<and> \<not> brkpt_inv t'"
proof -
  have l: "i < length (brkpts t)" using assms by (simp add: brkpt_inv_def)
  have "(brkpts t ! i)\<lparr>is_enabled := True\<rparr> = brkpts t ! i"
    using assms(3) by (cases "brkpts t ! i") simp
  then have "(brkpts t)[i := (brkpts t ! i)\<lparr>is_enabled := True\<rparr>] = brkpts t" by simp
  then show ?thesis
    using assms l by (auto simp: brkpt_enable_def brkpt_update_def brkpt_inv_def n_enabled_def)
qed

end
