(* ===== verification/Interrupts.thy ===== *)
theory Interrupts
  imports Prelude
begin

text \<open>
  The scheduler of simulated interrupts, iam/src/interrupts.c. Counts of instructions are 64-bit
  integers that the code compares as signed numbers (the ll\_ functions). intrs is an array of
  MAX\_INTRS entries of which those up to last\_intr\_set are in use; an access outside gives None.
  next\_sched\_intr\_icount is the global of global\_regs.c that executeBytecode compares with icount.
\<close>

type_synonym i64 = "64 word"

definition ll_lt :: "i64 \<Rightarrow> i64 \<Rightarrow> bool" where "ll_lt a b \<longleftrightarrow> sint a < sint b"
definition ll_ltz :: "i64 \<Rightarrow> bool" where "ll_ltz a \<longleftrightarrow> sint a < 0"

record interrupt_t =
  intr_irl :: int
  next_intr_at :: i64
  intr_enabled :: bool
  is_repeating :: bool
  repeat_count :: i64

record intr_state =
  last_intr_set :: int
  next_intr_id :: int
  intrs :: "interrupt_t list"
  next_sched_intr_icount :: i64

definition MAX_INTRS :: nat where "MAX_INTRS = 1000"

definition intr_init_module :: "intr_state \<Rightarrow> intr_state" where
  "intr_init_module t = t\<lparr>next_intr_id := -1, next_sched_intr_icount := -1, last_intr_set := -1\<rparr>"

text \<open>The number of entries the loops over 0..last\_intr\_set visit.\<close>

definition intr_used :: "intr_state \<Rightarrow> nat" where
  "intr_used t = nat (last_intr_set t + 1)"

section \<open>Scheduling\<close>

text \<open>The body of the loop: entry i, of value x, against the best one so far.\<close>

definition intr_before :: "interrupt_t \<Rightarrow> interrupt_t \<Rightarrow> bool" where
  "intr_before x y \<longleftrightarrow> ll_lt (next_intr_at x) (next_intr_at y) \<or>
     next_intr_at x = next_intr_at y \<and> intr_irl x < intr_irl y"

fun intr_scan :: "interrupt_t list \<Rightarrow> nat \<Rightarrow> nat \<Rightarrow> int \<Rightarrow> int option" where
  "intr_scan xs i 0 best = Some best"
| "intr_scan xs i (Suc n) best =
     (if length xs \<le> i then None
      else intr_scan xs (Suc i) n
        (if intr_enabled (xs ! i) \<and> (best = -1 \<or> intr_before (xs ! i) (xs ! nat best)) then int i else best))"

definition intr_schedule_next :: "intr_state \<Rightarrow> intr_state option" where
  "intr_schedule_next t =
     do { best \<leftarrow> intr_scan (intrs t) 0 (intr_used t) (-1);
          Some (t\<lparr>next_intr_id := best,
            next_sched_intr_icount := if best = -1 then -1 else next_intr_at (intrs t ! nat best)\<rparr>) }"

section \<open>Adding, disabling and dispatching\<close>

text \<open>The first reusable slot among n entries from number i on.\<close>

fun intr_free_slot :: "interrupt_t list \<Rightarrow> nat \<Rightarrow> nat \<Rightarrow> nat option option" where
  "intr_free_slot xs i 0 = Some None"
| "intr_free_slot xs i (Suc n) =
     (if length xs \<le> i then None
      else if \<not> intr_enabled (xs ! i) \<and> \<not> is_repeating (xs ! i) then Some (Some i)
      else intr_free_slot xs (Suc i) n)"

definition intr_add :: "intr_state \<Rightarrow> i64 \<Rightarrow> i64 \<Rightarrow> int \<Rightarrow> bool \<Rightarrow> intr_state option" where
  "intr_add t icount count irl repeating =
     (if irl < 0 \<or> 15 < irl then Some t
      else if ll_ltz count then Some t
      else if count = 0 \<and> repeating then Some t
      else
        do { slot \<leftarrow> intr_free_slot (intrs t) 0 (intr_used t);
             if slot = None \<and> int MAX_INTRS \<le> last_intr_set t then Some t
             else
               do { let (i, last) = (case slot of Some i \<Rightarrow> (int i, last_intr_set t)
                      | None \<Rightarrow> (last_intr_set t + 1, last_intr_set t + 1));
                    if 0 \<le> i \<and> nat i < length (intrs t) then
                      intr_schedule_next (t\<lparr>last_intr_set := last,
                        intrs := (intrs t)[nat i := \<lparr>intr_irl = irl, next_intr_at = icount + count,
                          intr_enabled = True, is_repeating = repeating, repeat_count = count\<rparr>]\<rparr>)
                    else None } })"

text \<open>
  The loop of intr\_dispatch over the entries due now: repeating ones are moved on; the first
  one-shot is disabled and ends the loop.
\<close>

fun intr_retire :: "i64 \<Rightarrow> interrupt_t list \<Rightarrow> nat \<Rightarrow> nat \<Rightarrow> interrupt_t list option" where
  "intr_retire icount xs i 0 = Some xs"
| "intr_retire icount xs i (Suc n) =
     (if length xs \<le> i then None
      else let x = xs ! i in
        if intr_enabled x \<and> next_intr_at x = icount then
          (if is_repeating x
           then intr_retire icount (xs[i := x\<lparr>next_intr_at := icount + repeat_count x\<rparr>]) (Suc i) n
           else Some (xs[i := x\<lparr>intr_enabled := False\<rparr>]))
        else intr_retire icount xs (Suc i) n)"

text \<open>The level that goes to vSetInterrupt, and the table afterwards.\<close>

definition intr_dispatch :: "intr_state \<Rightarrow> i64 \<Rightarrow> (int \<times> intr_state) option" where
  "intr_dispatch t icount =
     (if 0 \<le> next_intr_id t \<and> nat (next_intr_id t) < length (intrs t) then
        do { xs \<leftarrow> intr_retire icount (intrs t) 0 (intr_used t);
             Some (intr_irl (intrs t ! nat (next_intr_id t)), t\<lparr>intrs := xs\<rparr>) }
      else None)"

definition intr_disable :: "intr_state \<Rightarrow> int \<Rightarrow> intr_state option" where
  "intr_disable t i =
     (if 0 \<le> i \<and> nat i < length (intrs t)
      then intr_schedule_next (t\<lparr>intrs := (intrs t)[nat i := (intrs t ! nat i)\<lparr>intr_enabled := False\<rparr>]\<rparr>)
      else None)"

section \<open>Correctness of the scheduler\<close>

definition intr_inv :: "intr_state \<Rightarrow> bool" where
  "intr_inv t \<longleftrightarrow> length (intrs t) = MAX_INTRS \<and> -1 \<le> last_intr_set t \<and> last_intr_set t < int MAX_INTRS"

text \<open>The entry that is due first, the smaller level winning ties; -1 if none is enabled.\<close>

definition intr_first :: "interrupt_t list \<Rightarrow> nat \<Rightarrow> int \<Rightarrow> bool" where
  "intr_first xs n best \<longleftrightarrow>
     (if best = -1 then \<forall>i<n. \<not> intr_enabled (xs ! i)
      else 0 \<le> best \<and> nat best < n \<and> intr_enabled (xs ! nat best) \<and>
        (\<forall>i<n. intr_enabled (xs ! i) \<longrightarrow> \<not> intr_before (xs ! i) (xs ! nat best)))"

lemma sint_eq: "sint a = sint b \<longleftrightarrow> a = (b :: i64)"
  by (auto intro: signed_word_eqI)

lemma intr_before_key: "intr_before x y \<longleftrightarrow> sint (next_intr_at x) < sint (next_intr_at y) \<or>
    sint (next_intr_at x) = sint (next_intr_at y) \<and> intr_irl x < intr_irl y"
  by (simp add: intr_before_def ll_lt_def sint_eq)

lemma intr_first_step:
  assumes "intr_first xs i best"
  shows "intr_first xs (Suc i)
    (if intr_enabled (xs ! i) \<and> (best = -1 \<or> intr_before (xs ! i) (xs ! nat best)) then int i else best)"
proof (cases "intr_enabled (xs ! i) \<and> (best = -1 \<or> intr_before (xs ! i) (xs ! nat best))")
  case True
  have "\<not> intr_before (xs ! j) (xs ! i)" if "j < Suc i" "intr_enabled (xs ! j)" for j
  proof (cases "j = i")
    case False
    then have "j < i" using that(1) by simp
    then show ?thesis
      using assms True that(2) by (cases "best = -1") (auto simp: intr_first_def intr_before_key)
  qed (simp add: intr_before_key)
  then show ?thesis using True by (simp add: intr_first_def)
next
  case False
  have "\<not> intr_before (xs ! j) (xs ! nat best)" if "best \<noteq> -1" "j < Suc i" "intr_enabled (xs ! j)" for j
    using assms False that by (cases "j = i") (auto simp: intr_first_def)
  then show ?thesis using False assms by (auto simp: intr_first_def less_Suc_eq)
qed

lemma intr_scan_first:
  assumes "intr_scan xs i n best = Some r" "intr_first xs i best"
  shows "intr_first xs (i + n) r"
  using assms
proof (induction xs i n best rule: intr_scan.induct)
  case (2 xs i n best)
  from intr_first_step [OF 2(3)] 2(1,2) show ?case by (simp split: if_split_asm)
qed simp

lemma intr_scan_total: "i + n \<le> length xs \<Longrightarrow> \<exists>r. intr_scan xs i n best = Some r"
  by (induction xs i n best rule: intr_scan.induct) auto

lemma intr_used_le: "intr_inv t \<Longrightarrow> intr_used t \<le> length (intrs t)"
  by (auto simp: intr_inv_def intr_used_def)

lemma intr_schedule_law:
  assumes "intr_inv t"
  shows "\<exists>t'. intr_schedule_next t = Some t' \<and> intr_inv t' \<and> intrs t' = intrs t \<and>
    last_intr_set t' = last_intr_set t \<and> intr_first (intrs t) (intr_used t) (next_intr_id t') \<and>
    next_sched_intr_icount t' =
      (if next_intr_id t' = -1 then -1 else next_intr_at (intrs t ! nat (next_intr_id t')))"
proof -
  obtain r where r: "intr_scan (intrs t) 0 (intr_used t) (-1) = Some r"
    using intr_scan_total [of 0 "intr_used t" "intrs t" "-1"] intr_used_le [OF assms] by auto
  have "intr_first (intrs t) (0 + intr_used t) r"
    by (rule intr_scan_first [OF r]) (simp add: intr_first_def)
  then show ?thesis using r assms by (simp add: intr_schedule_next_def intr_inv_def)
qed

text \<open>
  Property C39: intr\_schedule\_next chooses an enabled interrupt that is due first, a smaller
  level (the non-maskable interrupt is level 0) winning ties, and publishes its instruction
  count; if none is enabled it publishes -1.
\<close>

theorem intr_schedule_next_first:
  assumes "intr_inv t"
  shows "\<exists>t'. intr_schedule_next t = Some t' \<and> intr_inv t' \<and>
    (if \<forall>i<intr_used t. \<not> intr_enabled (intrs t ! i)
     then next_intr_id t' = -1 \<and> next_sched_intr_icount t' = -1
     else \<exists>k<intr_used t. next_intr_id t' = int k \<and> intr_enabled (intrs t ! k) \<and>
       next_sched_intr_icount t' = next_intr_at (intrs t ! k) \<and>
       (\<forall>i<intr_used t. intr_enabled (intrs t ! i) \<longrightarrow>
          sint (next_intr_at (intrs t ! k)) < sint (next_intr_at (intrs t ! i)) \<or>
          next_intr_at (intrs t ! k) = next_intr_at (intrs t ! i) \<and>
          intr_irl (intrs t ! k) \<le> intr_irl (intrs t ! i)))"
proof -
  obtain t' where t': "intr_schedule_next t = Some t'" "intr_inv t'"
    "intr_first (intrs t) (intr_used t) (next_intr_id t')"
    "next_sched_intr_icount t' = (if next_intr_id t' = -1 then -1 else next_intr_at (intrs t ! nat (next_intr_id t')))"
    using intr_schedule_law [OF assms] by blast
  have nb: "\<not> intr_before x y \<longleftrightarrow> sint (next_intr_at y) < sint (next_intr_at x) \<or>
      next_intr_at y = next_intr_at x \<and> intr_irl y \<le> intr_irl x" for x y
    by (auto simp: intr_before_key sint_eq not_less less_le)
  show ?thesis
  proof (cases "next_intr_id t' = -1")
    case True
    then show ?thesis using t' by (simp add: intr_first_def)
  next
    case False
    then have "next_intr_id t' = int (nat (next_intr_id t'))" using t'(3) by (simp add: intr_first_def)
    then obtain k where k: "next_intr_id t' = int k" by blast
    then show ?thesis using t' False nb by (auto simp: intr_first_def)
  qed
qed

lemma intr_schedule_next_first_witness:
  "\<exists>t t'. intr_schedule_next t = Some t' \<and> next_intr_id t' = 1 \<and> next_sched_intr_icount t' = 40 \<and> intr_inv t'"
proof -
  define e where "e = \<lparr>intr_irl = 3, next_intr_at = 50 :: i64, intr_enabled = True, is_repeating = False,
    repeat_count = 50 :: i64\<rparr>"
  define t where "t = \<lparr>last_intr_set = 1, next_intr_id = -1, intrs = e # e\<lparr>next_intr_at := 40\<rparr> # replicate 998 e,
    next_sched_intr_icount = -1\<rparr>"
  have inv: "intr_inv t" by (simp add: intr_inv_def t_def MAX_INTRS_def)
  have s: "intr_schedule_next t = Some (t\<lparr>next_intr_id := 1, next_sched_intr_icount := 40\<rparr>)"
    by (simp add: intr_schedule_next_def t_def intr_used_def e_def numeral_eq_Suc intr_before_def ll_lt_def)
  from intr_schedule_next_first [OF inv] s have "intr_inv (t\<lparr>next_intr_id := 1, next_sched_intr_icount := 40\<rparr>)"
    by auto
  then show ?thesis
    by (intro exI [of _ t] exI [of _ "t\<lparr>next_intr_id := 1, next_sched_intr_icount := 40\<rparr>"]) (simp add: s)
qed

section \<open>Dispatching\<close>

definition intr_due :: "i64 \<Rightarrow> interrupt_t \<Rightarrow> bool" where
  "intr_due icount x \<longleftrightarrow> intr_enabled x \<and> next_intr_at x = icount"

definition intr_moved :: "i64 \<Rightarrow> interrupt_t \<Rightarrow> interrupt_t" where
  "intr_moved icount x =
     (if is_repeating x then x\<lparr>next_intr_at := icount + repeat_count x\<rparr> else x\<lparr>intr_enabled := False\<rparr>)"

lemma intr_retire_none:
  "\<forall>j. i \<le> j \<longrightarrow> j < i + n \<longrightarrow> \<not> intr_due icount (xs ! j) \<Longrightarrow> i + n \<le> length xs \<Longrightarrow>
    intr_retire icount xs i n = Some xs"
  by (induction n arbitrary: i) (auto simp: intr_due_def Let_def)

lemma intr_retire_one:
  assumes "i \<le> k" "k < i + n" "i + n \<le> length xs" "intr_due icount (xs ! k)"
    "\<forall>j. i \<le> j \<longrightarrow> j < i + n \<longrightarrow> intr_due icount (xs ! j) \<longrightarrow> j = k"
  shows "intr_retire icount xs i n = Some (xs[k := intr_moved icount (xs ! k)])"
  using assms
proof (induction n arbitrary: i)
  case (Suc n)
  show ?case
  proof (cases "i = k")
    case True
    have "\<not> intr_due icount (xs[k := y] ! j)" if "Suc i \<le> j" "j < Suc i + n" for j y
      using Suc.prems(5) [rule_format, of j] True that by auto
    then have "intr_retire icount (xs[k := y]) (Suc k) n = Some (xs[k := y])" for y
      using intr_retire_none [of "Suc i" n icount "xs[k := y]"] Suc.prems(3) True by simp
    then show ?thesis
      using True Suc.prems(3,4) by (simp add: Let_def intr_due_def intr_moved_def)
  next
    case False
    then have ni: "\<not> intr_due icount (xs ! i)"
      using Suc.prems(5) [rule_format, of i] by auto
    have d: "\<forall>j. Suc i \<le> j \<longrightarrow> j < Suc i + n \<longrightarrow> intr_due icount (xs ! j) \<longrightarrow> j = k"
    proof (intro allI impI)
      fix j assume "Suc i \<le> j" "j < Suc i + n" "intr_due icount (xs ! j)"
      then show "j = k" using Suc.prems(5) [rule_format, of j] by simp
    qed
    have "intr_retire icount xs (Suc i) n = Some (xs[k := intr_moved icount (xs ! k)])"
      by (rule Suc.IH [OF _ _ _ Suc.prems(4) d]) (use Suc.prems(1-3) False in simp_all)
    with ni show ?thesis using Suc.prems(3) by (auto simp: Let_def intr_due_def)
  qed
qed simp

text \<open>
  Dispatching moves time on. When a single interrupt is due now and no enabled one is
  overdue, intr\_dispatch delivers its level, and afterwards every enabled interrupt lies strictly in
  the future, provided the period of a repeating one is positive and does not overflow.
\<close>

lemma intr_dispatch_future:
  assumes "intr_inv t" "k < intr_used t" "next_intr_id t = int k" "intr_due icount (intrs t ! k)"
    "\<forall>i<intr_used t. intr_enabled (intrs t ! i) \<longrightarrow> sint icount \<le> sint (next_intr_at (intrs t ! i))"
    "\<forall>i<intr_used t. intr_due icount (intrs t ! i) \<longrightarrow> i = k"
    "is_repeating (intrs t ! k) \<longrightarrow> sint icount < sint (icount + repeat_count (intrs t ! k))"
  shows "\<exists>t'. intr_dispatch t icount = Some (intr_irl (intrs t ! k), t') \<and> intr_inv t' \<and>
    intr_used t' = intr_used t \<and>
    (\<forall>i<intr_used t. intr_enabled (intrs t' ! i) \<longrightarrow> sint icount < sint (next_intr_at (intrs t' ! i)))"
proof -
  have len: "intr_used t \<le> length (intrs t)" using intr_used_le [OF assms(1)] .
  have d: "\<forall>j. 0 \<le> j \<longrightarrow> j < 0 + intr_used t \<longrightarrow> intr_due icount (intrs t ! j) \<longrightarrow> j = k"
    using assms(6) by (metis add_0)
  have r: "intr_retire icount (intrs t) 0 (intr_used t) = Some ((intrs t)[k := intr_moved icount (intrs t ! k)])"
    by (rule intr_retire_one [OF le0 _ _ assms(4) d]) (simp_all add: assms(2) len)
  let ?x = "intr_moved icount (intrs t ! k)"
  have kx: "intr_enabled ?x \<Longrightarrow> sint icount < sint (next_intr_at ?x)"
    using assms(7) by (simp add: intr_moved_def split: if_splits)
  have ix: "sint icount < sint (next_intr_at (intrs t ! i))"
    if "i < intr_used t" "i \<noteq> k" "intr_enabled (intrs t ! i)" for i
  proof -
    have "next_intr_at (intrs t ! i) \<noteq> icount" using assms(6) that by (auto simp: intr_due_def)
    then have "sint (next_intr_at (intrs t ! i)) \<noteq> sint icount" by (simp add: sint_eq)
    then show ?thesis using assms(5) that by fastforce
  qed
  have "sint icount < sint (next_intr_at ((intrs t)[k := ?x] ! i))"
    if "i < intr_used t" "intr_enabled ((intrs t)[k := ?x] ! i)" for i
    using that kx ix [of i] len assms(2) by (cases "i = k") simp_all
  moreover have "intr_dispatch t icount = Some (intr_irl (intrs t ! k), t\<lparr>intrs := (intrs t)[k := ?x]\<rparr>)"
    using r assms(2,3) len by (simp add: intr_dispatch_def)
  ultimately show ?thesis using assms(1) by (simp add: intr_inv_def intr_used_def)
qed

definition two_intrs :: "bool \<Rightarrow> i64 \<Rightarrow> intr_state" where
  "two_intrs rep later = \<lparr>last_intr_set = 1, next_intr_id = 0,
     intrs = \<lparr>intr_irl = 3, next_intr_at = 50, intr_enabled = True, is_repeating = rep, repeat_count = 50\<rparr> #
       replicate 999 \<lparr>intr_irl = 4, next_intr_at = later, intr_enabled = True, is_repeating = False,
         repeat_count = 50\<rparr>, next_sched_intr_icount = 50\<rparr>"

lemma two_intrs_inv: "intr_inv (two_intrs r l)" "intr_used (two_intrs r l) = 2"
  by (simp_all add: intr_inv_def two_intrs_def MAX_INTRS_def intr_used_def)

lemma two_intrs_simps:
  "intrs (two_intrs r l) ! 0 = \<lparr>intr_irl = 3, next_intr_at = 50, intr_enabled = True, is_repeating = r,
     repeat_count = 50\<rparr>"
  "intrs (two_intrs r l) ! Suc 0 = \<lparr>intr_irl = 4, next_intr_at = l, intr_enabled = True, is_repeating = False,
     repeat_count = 50\<rparr>" "next_intr_id (two_intrs r l) = 0"
  by (simp_all add: two_intrs_def)

lemma intr_dispatch_future_witness:
  "\<exists>t'. intr_dispatch (two_intrs True 70) 50 = Some (3, t') \<and>
    (\<forall>i<2. intr_enabled (intrs t' ! i) \<longrightarrow> sint (50 :: i64) < sint (next_intr_at (intrs t' ! i)))"
proof -
  have two: "i < 2 \<longleftrightarrow> i = 0 \<or> i = Suc 0" for i :: nat by auto
  have "\<exists>t'. intr_dispatch (two_intrs True 70) 50 = Some (intr_irl (intrs (two_intrs True 70) ! 0), t') \<and>
      intr_inv t' \<and> intr_used t' = intr_used (two_intrs True 70) \<and>
      (\<forall>i<intr_used (two_intrs True 70). intr_enabled (intrs t' ! i) \<longrightarrow>
        sint (50 :: i64) < sint (next_intr_at (intrs t' ! i)))"
    by (rule intr_dispatch_future [OF two_intrs_inv(1)])
      (auto simp: two_intrs_inv(2) two two_intrs_simps intr_due_def)
  then show ?thesis by (simp only: two_intrs_simps two_intrs_inv(2)) auto
qed

text \<open>
  The code as it is: of two one-shot interrupts due at the same instruction only the first is
  disabled, and the next one scheduled stays in the past: icount never equals it again.
\<close>

lemma intr_dispatch_leaves_past:
  "\<exists>t' t''. intr_dispatch (two_intrs False 50) 50 = Some (3, t') \<and> intr_schedule_next t' = Some t'' \<and>
    next_sched_intr_icount t'' = 50"
proof -
  have len: "length (intrs (two_intrs r l)) = 1000" "intr_used (two_intrs r l) = Suc (Suc 0)" for r l
    by (simp_all add: two_intrs_def intr_used_def)
  then show ?thesis
    by (simp add: intr_dispatch_def two_intrs_simps intr_schedule_next_def Let_def intr_used_def)
qed

end
