(* ===== verification/Machine_State.thy ===== *)
theory Machine_State
  imports Instr_Cache Breakpoints Interrupts
begin

text \<open>
  The state of the instruction set simulator (iam/src): the registers and flags of
  global\_regs.h, the pending exception of exception.c, the stack cache memory of scache.c, and
  the components nested in it. Stack addresses (optop, vars, frame, scBottom) are byte
  addresses; adding n to such a pointer in C adds 4 n. Statistics, the profiler and messages
  are not modelled, except that the macro WARN ends the process when exit\_on\_warning is set.

  indet supplies the values of objects that the code reads without having set them (a variable
  whose read failed): each use takes the next value of this sequence, so that a theorem that
  holds for every state holds for every such value.
\<close>

section \<open>Exceptions\<close>

datatype ExceptionId =
    NO_EXCEPTION | ASYNC_EXCEPTION | MEM_PROT_EXCEPTION | OPLIM_EXCEPTION | DBR1_EXCEPTION
  | DBR2_EXCEPTION | INSTR_ACC_EXCEPTION | ILLEGAL_INSTR_EXCEPTION | PRIV_INSTR_EXCEPTION
  | UNALIGNED_EXCEPTION | DATA_ACC_EXCEPTION | IO_ACC_EXCEPTION

text \<open>The numbers of the enumeration; a smaller number is a higher priority.\<close>

fun exc_number :: "ExceptionId \<Rightarrow> nat" where
  "exc_number NO_EXCEPTION = 0"
| "exc_number ASYNC_EXCEPTION = 2"
| "exc_number MEM_PROT_EXCEPTION = 3"
| "exc_number OPLIM_EXCEPTION = 4"
| "exc_number DBR1_EXCEPTION = 5"
| "exc_number DBR2_EXCEPTION = 6"
| "exc_number INSTR_ACC_EXCEPTION = 7"
| "exc_number ILLEGAL_INSTR_EXCEPTION = 8"
| "exc_number PRIV_INSTR_EXCEPTION = 9"
| "exc_number UNALIGNED_EXCEPTION = 10"
| "exc_number DATA_ACC_EXCEPTION = 11"
| "exc_number IO_ACC_EXCEPTION = 12"

lemma exc_number_inject: "exc_number a = exc_number b \<longleftrightarrow> a = b"
  by (cases a; cases b) simp_all

instantiation ExceptionId :: linorder
begin

definition less_eq_ExceptionId :: "ExceptionId \<Rightarrow> ExceptionId \<Rightarrow> bool" where
  "less_eq_ExceptionId a b \<longleftrightarrow> exc_number a \<le> exc_number b"

definition less_ExceptionId :: "ExceptionId \<Rightarrow> ExceptionId \<Rightarrow> bool" where
  "less_ExceptionId a b \<longleftrightarrow> exc_number a < exc_number b"

instance
  by standard (auto simp: less_eq_ExceptionId_def less_ExceptionId_def exc_number_inject [symmetric])

end

text \<open>What vSaveCPUState saves. oplim is not among it.\<close>

record saved_state =
  sv_pc :: u32
  sv_vars :: u32
  sv_frame :: u32
  sv_optop :: u32
  sv_const_pool :: u32
  sv_psr :: u32
  sv_trapbase :: u32
  sv_userrange1 :: u32
  sv_userrange2 :: u32
  sv_scBottom :: u32

section \<open>The machine\<close>

record counters =
  checkcast_quick_insns :: i64
  checkcast_quick_traps :: i64
  instanceof_quick_insns :: i64
  instanceof_quick_traps :: i64
  monitorenter_insns :: i64
  monitorenter_misses :: i64
  monitorenter_overflows :: i64
  monitorexit_insns :: i64
  monitorexit_misses :: i64
  monitorexit_overflows :: i64
  monitorexit_releases :: i64
  acmp_branches :: i64
  icmp_branches :: i64
  lock_enter_hits :: "nat \<Rightarrow> i64"
  lock_exit_hits :: "nat \<Rightarrow> i64"
  fast_monitors_saved_the_day :: i64
  instr_since_last_intr :: u32
  instr_since_last_trap :: u32
  inlineStats :: "nat \<Rightarrow> nat \<Rightarrow> i64"

text \<open>
  The debugger's serial port is a library loaded at run time: serial\_read is None when there is
  none, and otherwise the bytes its read function will return; serial\_out is what was written.
\<close>

record serial_port =
  serial_read :: "(nat \<Rightarrow> u8) option"
  serial_out :: "u8 list"

record machine =
  pc :: u32
  vars :: u32
  frame :: u32
  optop :: u32
  oplim :: u32
  const_pool :: u32
  psr :: u32
  trapbase :: u32
  lockCount :: "nat \<Rightarrow> u32"
  lockAddr :: "nat \<Rightarrow> u32"
  userrange1 :: u32
  userrange2 :: u32
  gcConfig :: u32
  brk1a :: u32
  brk2a :: u32
  brk12c :: u32
  versionId :: u32
  hcr :: u32
  scBottom :: u32
  global0 :: u32
  global1 :: u32
  global2 :: u32
  global3 :: u32
  sc_bottom_min :: u32
  sc_bottom_max :: u32
  bPowerDownState :: bool
  bResetState :: bool
  bNMIState :: bool
  uIRLState :: u32
  program_exit_code :: u32
  exit_on_warning :: bool
  flag_return_opcode :: bool
  flag_setting_up_trap_frame :: bool
  flag_pico_write_brkpt_pending :: nat
  flag_sim_read_brkpt_pending :: bool
  flag_sim_write_brkpt_pending :: bool
  flag_fast_monitors :: bool
  ias_scache :: bool
  ias_fpu_present :: bool
  wide_prefix :: bool
  end_of_simulation :: bool
  breakpoint_hit :: bool
  proc_type :: proc
  icount :: i64
  exc :: ExceptionId
  saved :: saved_state
  sCacheMem :: "6 word \<Rightarrow> u32"
  cm :: cmem
  dc :: dcache
  ic :: icache
  brk :: brkpt_table
  intr :: intr_state
  cnt :: counters
  serial :: serial_port
  once_inited :: bool
  flag_icache_once_inited :: bool
  flag_dcache_once_inited :: bool
  ias_boot8 :: bool
  running_under_gdb :: bool
  bInstructionLimit :: bool
  nMaxInstructions :: i64
  opc_first_unused_index :: u32
  env_max_instructions :: "i64 option"
  env_exit_on_warning :: bool
  indet :: "nat \<Rightarrow> u32"

section \<open>Fields of registers\<close>

text \<open>Bit fields are laid out from the most significant bit on, as the target's compiler does.\<close>

definition field :: "u32 \<Rightarrow> nat \<Rightarrow> nat \<Rightarrow> u32" where
  "field w lo n = take_bit n (drop_bit lo w)"

definition set_field :: "u32 \<Rightarrow> nat \<Rightarrow> nat \<Rightarrow> u32 \<Rightarrow> u32" where
  "set_field w lo n v = (w AND NOT (push_bit lo (mask n))) OR push_bit lo (take_bit n v)"

abbreviation hcr_dcl :: "u32 \<Rightarrow> u32" where "hcr_dcl h \<equiv> field h 27 3"
abbreviation hcr_icl :: "u32 \<Rightarrow> u32" where "hcr_icl h \<equiv> field h 24 3"
abbreviation hcr_dcs :: "u32 \<Rightarrow> u32" where "hcr_dcs h \<equiv> field h 21 3"
abbreviation hcr_ics :: "u32 \<Rightarrow> u32" where "hcr_ics h \<equiv> field h 18 3"
abbreviation hcr_fpp :: "u32 \<Rightarrow> u32" where "hcr_fpp h \<equiv> field h 17 1"
abbreviation hcr_srn :: "u32 \<Rightarrow> u32" where "hcr_srn h \<equiv> field h 0 8"

abbreviation brk_halt :: "u32 \<Rightarrow> u32" where "brk_halt b \<equiv> field b 31 1"
abbreviation brk_m2 :: "u32 \<Rightarrow> u32" where "brk_m2 b \<equiv> field b 24 7"
abbreviation brk_m1 :: "u32 \<Rightarrow> u32" where "brk_m1 b \<equiv> field b 16 7"
abbreviation subrk2 :: "u32 \<Rightarrow> u32" where "subrk2 b \<equiv> field b 11 1"
abbreviation srcbk2 :: "u32 \<Rightarrow> u32" where "srcbk2 b \<equiv> field b 9 2"
abbreviation brken2 :: "u32 \<Rightarrow> u32" where "brken2 b \<equiv> field b 8 1"
abbreviation subrk1 :: "u32 \<Rightarrow> u32" where "subrk1 b \<equiv> field b 3 1"
abbreviation srcbk1 :: "u32 \<Rightarrow> u32" where "srcbk1 b \<equiv> field b 1 2"
abbreviation brken1 :: "u32 \<Rightarrow> u32" where "brken1 b \<equiv> field b 0 1"

definition CHK_PSR_DCE :: "machine \<Rightarrow> bool" where "CHK_PSR_DCE s \<longleftrightarrow> bit (psr s) 10"
definition CHK_PSR_ICE :: "machine \<Rightarrow> bool" where "CHK_PSR_ICE s \<longleftrightarrow> bit (psr s) 9"

definition warn :: "machine \<Rightarrow> machine option" where
  "warn s = (if exit_on_warning s then None else Some s)"

definition warn_if :: "bool \<Rightarrow> machine \<Rightarrow> machine option" where
  "warn_if b s = (if b then warn s else Some s)"

definition fresh :: "machine \<Rightarrow> u32 \<times> machine" where
  "fresh s = (indet s 0, s\<lparr>indet := (\<lambda>n. indet s (Suc n))\<rparr>)"

section \<open>Exception state\<close>

definition vClearAllExceptions :: "machine \<Rightarrow> machine" where
  "vClearAllExceptions s = s\<lparr>exc := NO_EXCEPTION\<rparr>"

definition bAnyExceptionPending :: "machine \<Rightarrow> bool" where
  "bAnyExceptionPending s \<longleftrightarrow> exc s \<noteq> NO_EXCEPTION"

definition vSaveCPUState :: "machine \<Rightarrow> machine" where
  "vSaveCPUState s = s\<lparr>saved := \<lparr>sv_pc = pc s, sv_vars = vars s, sv_frame = frame s, sv_optop = optop s,
     sv_const_pool = const_pool s, sv_psr = psr s, sv_trapbase = trapbase s,
     sv_userrange1 = userrange1 s, sv_userrange2 = userrange2 s, sv_scBottom = scBottom s\<rparr>\<rparr>"

text \<open>The state saved is that of the first exception; a later one only changes its type.\<close>

definition vSetupException :: "machine \<Rightarrow> ExceptionId \<Rightarrow> machine" where
  "vSetupException s eid =
     (if exc s \<noteq> NO_EXCEPTION then (if eid < exc s then s\<lparr>exc := eid\<rparr> else s)
      else (vSaveCPUState s)\<lparr>exc := eid\<rparr>)"

definition restore_saved :: "machine \<Rightarrow> machine" where
  "restore_saved s = (let v = saved s in
     s\<lparr>pc := sv_pc v, vars := sv_vars v, frame := sv_frame v, optop := sv_optop v,
       const_pool := sv_const_pool v, psr := sv_psr v, trapbase := sv_trapbase v,
       userrange1 := sv_userrange1 v, userrange2 := sv_userrange2 v, scBottom := sv_scBottom v\<rparr>)"

lemma vSetupException_exc:
  "eid \<noteq> NO_EXCEPTION \<Longrightarrow> exc (vSetupException s eid) =
    (if exc s = NO_EXCEPTION then eid else min eid (exc s))"
  by (auto simp: vSetupException_def vSaveCPUState_def min_def)

lemma vSetupException_pending:
  "eid \<noteq> NO_EXCEPTION \<Longrightarrow> exc (vSetupException s eid) \<noteq> NO_EXCEPTION"
  by (auto simp: vSetupException_def less_ExceptionId_def)

section \<open>Register updates that do not move the stack cache\<close>

text \<open>The cases GR\_sc\_bottom, GR\_psr and GR\_oplim of vUpdateGR.\<close>

definition update_sc_bottom :: "machine \<Rightarrow> u32 \<Rightarrow> machine" where
  "update_sc_bottom s v =
     (let s = s\<lparr>scBottom := v\<rparr> in
      if psr s AND 0x80 \<noteq> 0 \<and> sc_bottom_max s < v then s\<lparr>sc_bottom_max := v\<rparr>
      else if psr s AND 0x80 \<noteq> 0 \<and> v < sc_bottom_min s then s\<lparr>sc_bottom_min := v\<rparr>
      else s)"

definition update_psr :: "machine \<Rightarrow> u32 \<Rightarrow> machine" where
  "update_psr s v = s\<lparr>psr := v AND 0x007FFFFF\<rparr>"

text \<open>oplim's bit 31 enables the check; raising the exception clears it.\<close>

definition oplim_violated :: "machine \<Rightarrow> u32 \<Rightarrow> bool" where
  "oplim_violated s v \<longleftrightarrow> oplim s AND 0x80000000 \<noteq> 0 \<and> v < oplim s AND 0x7FFFFFFC"

definition raise_oplim :: "machine \<Rightarrow> machine" where
  "raise_oplim s = (let s = vSetupException s OPLIM_EXCEPTION in s\<lparr>oplim := oplim s AND 0x7FFFFFFF\<rparr>)"

definition update_oplim :: "machine \<Rightarrow> u32 \<Rightarrow> machine" where
  "update_oplim s v =
     (let s = s\<lparr>oplim := v AND 0xFFFFFFFC\<rparr> in
      if oplim_violated s (optop s) then raise_oplim s else s)"

end
