(* ===== verification/Java_Memory.thy ===== *)
theory Java_Memory
  imports Machine_State
begin

text \<open>
  Loads and stores of the simulated processor, iam/src/javamem.c: the checks in the order the
  code makes them (simulator breakpoints, pending exceptions, stack cache, user ranges, the
  processor's breakpoint registers), then the data cache or the memory. The character that gives
  the kind of an access is a datatype. A load leaves its destination alone when it raises an
  exception: its result is None then.
\<close>

datatype acc = acc_O | acc_V | acc_F | acc_N | acc_Z | acc_M | acc_B | acc_H | acc_D | acc_G
  | acc_T | acc_A | acc_X | acc_C

section \<open>Checks\<close>

definition causes_mem_prot_error :: "machine \<Rightarrow> u32 \<Rightarrow> acc \<Rightarrow> bool" where
  "causes_mem_prot_error s address c \<longleftrightarrow>
     (let a = address AND 0x3FFFFFFF;
          outside = (\<lambda>r. a < push_bit 14 (r AND 0x0000FFFF) \<or> drop_bit 2 (r AND 0xFFFF0000) \<le> a)
      in psr s AND 0x2000 \<noteq> 0 \<and> outside (userrange1 s) \<and> outside (userrange2 s) \<and>
         (proc_type s \<noteq> pico \<and> psr s AND 0x400000 \<noteq> 0 \<or> c \<in> {acc_A, acc_N, acc_Z}))"

text \<open>pico\_breakpoint\_match of iam.c; second selects the register brk2a.\<close>

definition brk_addr_match :: "u32 \<Rightarrow> u32 \<Rightarrow> u32 \<Rightarrow> bool" where
  "brk_addr_match addr_mask address brkaddr \<longleftrightarrow>
     (addr_mask AND 1 = 0 \<or> address AND 1 = brkaddr AND 1) \<and>
     (addr_mask AND 2 = 0 \<or> address AND 2 = brkaddr AND 2) \<and>
     (addr_mask AND 4 = 0 \<or> address AND 4 = brkaddr AND 4) \<and>
     (addr_mask AND 8 = 0 \<or> address AND 8 = brkaddr AND 8) \<and>
     (addr_mask AND 0x10 = 0 \<or> address AND 0xFF0 = brkaddr AND 0xFF0) \<and>
     (addr_mask AND 0x20 = 0 \<or> address AND 0x1000 = brkaddr AND 0x1000) \<and>
     (addr_mask AND 0x40 = 0 \<or> address AND 0xFFFFE000 = brkaddr AND 0xFFFFE000)"

definition pico_breakpoint_match :: "machine \<Rightarrow> bool \<Rightarrow> u32 \<Rightarrow> bool \<Rightarrow> bool \<Rightarrow> bool" where
  "pico_breakpoint_match s second address data_brkpt rnotw \<longleftrightarrow>
     (let b = brk12c s;
          brken = (if second then brken2 b else brken1 b);
          subrk = (if second then subrk2 b else subrk1 b);
          srcbrk = (if second then srcbk2 b else srcbk1 b)
      in if brken = 0 then False
         else if subrk \<noteq> 0 \<and> psr s AND 0x20 \<noteq> 0 then False
         else if srcbrk = 3 \<and> data_brkpt then False
         else if srcbrk = 0 \<and> \<not> (data_brkpt \<and> rnotw) then False
         else if srcbrk = 1 \<and> \<not> (data_brkpt \<and> \<not> rnotw) then False
         else if srcbrk = 2 then False
         else if (proc_type s = pico \<or> \<not> data_brkpt) \<and> psr s AND 0x40 \<noteq> 0 then False
         else if brk_halt b \<noteq> 0 then False
         else brk_addr_match (if second then brk_m2 b else brk_m1 b) address
                (if second then brk2a s else brk1a s))"

definition check_exc :: "machine \<Rightarrow> dsv \<Rightarrow> ExceptionId \<Rightarrow> machine" where
  "check_exc s r eid = (if r = DSV_FAIL then vSetupException s eid else s)"

definition check_exc_aem_off :: "machine \<Rightarrow> dsv \<Rightarrow> ExceptionId \<Rightarrow> machine" where
  "check_exc_aem_off s r eid = (if psr s AND 0x100 \<noteq> 0 then s else check_exc s r eid)"

text \<open>The simulator breakpoint test at the head of both routines; write selects its flag.\<close>

definition sim_brkpt_check :: "machine \<Rightarrow> u32 \<Rightarrow> nat \<Rightarrow> acc \<Rightarrow> bool \<Rightarrow> machine option" where
  "sim_brkpt_check s addr sz c write =
     (if c = acc_G then Some s
      else do { (r, t) \<leftarrow> brkpt_match (brk s) addr sz (if write then BRKPT_WRITE else BRKPT_READ);
                let s = s\<lparr>brk := t\<rparr>;
                Some (if r = None then s
                      else if write then s\<lparr>flag_sim_write_brkpt_pending := True\<rparr>
                      else s\<lparr>flag_sim_read_brkpt_pending := True\<rparr>) })"

text \<open>The tests after a stack cache miss: the exception to raise, if any.\<close>

definition data_access_fault :: "machine \<Rightarrow> u32 \<Rightarrow> u32 \<Rightarrow> acc \<Rightarrow> bool \<Rightarrow> ExceptionId option" where
  "data_access_fault s addr full_addr c rnotw =
     (if c = acc_G then None
      else if causes_mem_prot_error s addr c then Some MEM_PROT_EXCEPTION
      else if pico_breakpoint_match s False full_addr True rnotw then Some DBR1_EXCEPTION
      else if pico_breakpoint_match s True full_addr True rnotw then Some DBR2_EXCEPTION
      else None)"

definition near_stack :: "machine \<Rightarrow> u32 \<Rightarrow> acc \<Rightarrow> bool" where
  "near_stack s addr c \<longleftrightarrow> c \<notin> {acc_D, acc_G, acc_V, acc_F} \<and> optop s < addr \<and> addr \<le> optop s + 64 * 4"

definition scache_hit :: "machine \<Rightarrow> u32 \<Rightarrow> bool" where
  "scache_hit s addr \<longleftrightarrow> addr \<le> scBottom s \<and> scBottom s - 64 * 4 < addr"

definition sc_index :: "u32 \<Rightarrow> 6 word" where
  "sc_index addr = ucast (drop_bit 2 addr)"

section \<open>Loads\<close>

definition dc_read :: "machine \<Rightarrow> u32 \<Rightarrow> u32 option \<Rightarrow> (dsv \<times> u32 option \<times> machine) option" where
  "dc_read s addr old =
     do { (r, d, dc', m') \<leftarrow> dCacheRead (dc s) (cm s) addr 0;
          Some (r, if r = DSV_FAIL then old else Some d, s\<lparr>dc := dc', cm := m'\<rparr>) }"

definition cm_read :: "machine \<Rightarrow> u32 \<Rightarrow> nat \<Rightarrow> (dsv \<times> u32 option \<times> machine) option" where
  "cm_read s addr sz =
     do { (r, d, m') \<leftarrow> cmMemoryRead (cm s) addr 0 sz;
          Some (r, if r = DSV_FAIL then None else Some d, s\<lparr>cm := m'\<rparr>) }"

text \<open>The range that makes a failed load an I/O error is one byte longer than the area itself.\<close>

definition load_error :: "u32 \<Rightarrow> ExceptionId" where
  "load_error addr =
     (if BAD_IO_START \<le> addr \<and> addr \<le> BAD_IO_START + BAD_SIZE then IO_ACC_EXCEPTION else DATA_ACC_EXCEPTION)"

text \<open>Past all checks. A dribbler load reads the cache twice.\<close>

definition mem_load :: "machine \<Rightarrow> u32 \<Rightarrow> acc \<Rightarrow> (u32 option \<times> machine) option" where
  "mem_load s addr c =
     (if hcr_dcs (hcr s) \<noteq> 0 \<and> CHK_PSR_DCE s \<and> c \<noteq> acc_N then
        (if c = acc_G then do { d \<leftarrow> debug_dCacheRead (dc s) (cm s) addr; Some (Some d, s) }
         else
           do { (old, s) \<leftarrow>
                  (if c = acc_D then
                     do { (r, d, s) \<leftarrow> dc_read s addr None; Some (d, check_exc s r ASYNC_EXCEPTION) }
                   else Some (None, s));
                (r, d, s) \<leftarrow> dc_read s addr old;
                Some (d, check_exc s r (load_error addr)) })
      else
        do { (r, d, s) \<leftarrow> cm_read s addr 2; Some (d, check_exc s r (load_error addr)) })"

definition javaMemRead :: "machine \<Rightarrow> u32 \<Rightarrow> nat \<Rightarrow> acc \<Rightarrow> (u32 option \<times> machine) option" where
  "javaMemRead s full_addr sz c0 =
     (let addr = full_addr AND 0xFFFFFFFC; c = (if c0 = acc_T then acc_O else c0) in
      do { s \<leftarrow> warn_if (addr AND 0xC0000000 \<noteq> 0) s;
           s \<leftarrow> sim_brkpt_check s full_addr sz c0 False;
           s \<leftarrow> warn_if (c \<in> {acc_V, acc_F} \<and> addr \<le> optop s) s;
           if ias_scache s \<and> c \<in> {acc_O, acc_V, acc_F, acc_G} \<and> scache_hit s addr
           then Some (Some (sCacheMem s (sc_index addr)), s)
           else
             do { s \<leftarrow> warn_if (ias_scache s \<and> c = acc_O) s;
                  case data_access_fault s addr full_addr c True of
                    Some eid \<Rightarrow> Some (None, vSetupException s eid)
                  | None \<Rightarrow> do { s \<leftarrow> warn_if (near_stack s addr c) s; mem_load s addr c } } })"

section \<open>Stores\<close>

definition dc_write :: "machine \<Rightarrow> u32 \<Rightarrow> u32 \<Rightarrow> nat \<Rightarrow> machine option" where
  "dc_write s addr data sz =
     do { (r, dc', m') \<leftarrow> dCacheWrite (dc s) (cm s) addr data sz;
          Some (check_exc_aem_off (s\<lparr>dc := dc', cm := m'\<rparr>) r ASYNC_EXCEPTION) }"

definition dc_na_write :: "machine \<Rightarrow> u32 \<Rightarrow> u32 \<Rightarrow> nat \<Rightarrow> machine option" where
  "dc_na_write s addr data sz =
     do { (r, dc', m') \<leftarrow> dCacheNAWrite (dc s) (cm s) addr data sz;
          Some (check_exc_aem_off (s\<lparr>dc := dc', cm := m'\<rparr>) r ASYNC_EXCEPTION) }"

definition cm_write :: "machine \<Rightarrow> u32 \<Rightarrow> u32 \<Rightarrow> nat \<Rightarrow> machine option" where
  "cm_write s addr data sz =
     do { (r, m') \<leftarrow> cmMemoryWrite (cm s) addr data sz;
          Some (check_exc_aem_off (s\<lparr>cm := m'\<rparr>) r ASYNC_EXCEPTION) }"

text \<open>data is the byte, short or word at pData, in the low bits; the size is 0, 1 or 2.\<close>

definition zero_ext :: "u32 \<Rightarrow> nat \<Rightarrow> u32" where
  "zero_ext d sz = (if sz = 0 then ucast (ucast d :: u8) else if sz = 1 then ucast (ucast d :: u16) else d)"

definition sign_ext :: "u32 \<Rightarrow> nat \<Rightarrow> u32" where
  "sign_ext d sz = (if sz = 0 then scast (ucast d :: u8) else if sz = 1 then scast (ucast d :: u16) else d)"

text \<open>The datum moved to its place in the word on the bus.\<close>

definition bus_word :: "u32 \<Rightarrow> u32 \<Rightarrow> nat \<Rightarrow> u32" where
  "bus_word addr d sz =
     (if sz = 0 then be_word ((be_bytes 0)[unat (addr AND 3) := byte_at d 3])
      else if sz = 1 then
        (let i = 2 * unat (drop_bit 1 (addr AND 2))
         in be_word ((be_bytes 0)[i := byte_at d 2, Suc i := byte_at d 3]))
      else d)"

definition mem_store :: "machine \<Rightarrow> u32 \<Rightarrow> u32 \<Rightarrow> nat \<Rightarrow> acc \<Rightarrow> machine option" where
  "mem_store s addr data sz c =
     (if hcr_dcs (hcr s) \<noteq> 0 \<and> CHK_PSR_DCE s \<and> c \<noteq> acc_N then
        (if sz = 2 \<and> c = acc_A then dc_na_write s addr data sz
         else dc_write s addr (sign_ext data sz) sz)
      else cm_write s addr (bus_word addr data sz) sz)"

definition javaMemWrite :: "machine \<Rightarrow> u32 \<Rightarrow> u32 \<Rightarrow> nat \<Rightarrow> acc \<Rightarrow> machine option" where
  "javaMemWrite s addr data sz c0 =
     (let c = (if c0 = acc_T then acc_O else c0); guarded = (c0 \<noteq> acc_T \<and> c0 \<noteq> acc_G) in
      do { s \<leftarrow> warn_if (addr AND 0xC0000000 \<noteq> 0) s;
           s \<leftarrow> sim_brkpt_check s addr sz c0 True;
           let pending = (guarded \<and> bAnyExceptionPending s);
           s \<leftarrow> warn_if (\<not> pending \<and> c \<in> {acc_V, acc_F} \<and> addr \<le> optop s) s;
           let stack = (\<not> pending \<and> ias_scache s \<and> c \<in> {acc_O, acc_V, acc_F, acc_G});
           s \<leftarrow> warn_if (stack \<and> addr AND 3 \<noteq> 0 \<and> c \<noteq> acc_G) s;
           if stack \<and> scache_hit s addr
           then Some (s\<lparr>sCacheMem := (sCacheMem s)(sc_index addr := zero_ext data sz)\<rparr>)
           else
             do { s \<leftarrow> warn_if (stack \<and> c = acc_O) s;
                  case data_access_fault s addr addr c False of
                    Some eid \<Rightarrow> Some (vSetupException s eid)
                  | None \<Rightarrow>
                      if guarded \<and> bAnyExceptionPending s then Some s
                      else do { s \<leftarrow> warn_if (near_stack s addr c) s; mem_store s addr data sz c } } })"

section \<open>The access macros\<close>

text \<open>A destination that the load did not set holds an indeterminate value.\<close>

definition or_indet :: "u32 option \<times> machine \<Rightarrow> u32 \<times> machine" where
  "or_indet r = (case fst r of Some d \<Rightarrow> (d, snd r) | None \<Rightarrow> fresh (snd r))"

definition READ_WORD :: "machine \<Rightarrow> u32 \<Rightarrow> acc \<Rightarrow> (u32 \<times> machine) option" where
  "READ_WORD s addr c = do { r \<leftarrow> javaMemRead s addr 2 c; Some (or_indet r) }"

definition READ_BYTE :: "machine \<Rightarrow> u32 \<Rightarrow> acc \<Rightarrow> (u32 \<times> machine) option" where
  "READ_BYTE s addr c =
     do { r \<leftarrow> javaMemRead s addr 0 c;
          let (d, s) = or_indet r;
          Some (sign_ext (drop_bit ((3 - unat (addr AND 3)) * 8) d) 0, s) }"

definition READ_SHORT :: "machine \<Rightarrow> u32 \<Rightarrow> acc \<Rightarrow> (u32 \<times> machine) option" where
  "READ_SHORT s addr c =
     do { r \<leftarrow> javaMemRead s addr 1 c;
          let (d, s) = or_indet r;
          Some (sign_ext (drop_bit ((2 - unat (addr AND 2)) * 8) d) 1, s) }"

text \<open>The first word of the pair is the more significant one.\<close>

definition READ_DWORD :: "machine \<Rightarrow> u32 \<Rightarrow> acc \<Rightarrow> (u64 \<times> machine) option" where
  "READ_DWORD s addr c =
     do { (h, s) \<leftarrow> READ_WORD s (addr - 4) c; (l, s) \<leftarrow> READ_WORD s addr c;
          Some (push_bit 32 (ucast h) OR ucast l, s) }"

definition WRITE_WORD :: "machine \<Rightarrow> u32 \<Rightarrow> acc \<Rightarrow> u32 \<Rightarrow> machine option" where
  "WRITE_WORD s addr c d = javaMemWrite s addr d 2 c"

definition WRITE_BYTE :: "machine \<Rightarrow> u32 \<Rightarrow> acc \<Rightarrow> u32 \<Rightarrow> machine option" where
  "WRITE_BYTE s addr c d = javaMemWrite s addr d 0 c"

definition WRITE_SHORT :: "machine \<Rightarrow> u32 \<Rightarrow> acc \<Rightarrow> u32 \<Rightarrow> machine option" where
  "WRITE_SHORT s addr c d = javaMemWrite s addr d 1 c"

definition WRITE_DWORD :: "machine \<Rightarrow> u32 \<Rightarrow> acc \<Rightarrow> u64 \<Rightarrow> machine option" where
  "WRITE_DWORD s addr c d =
     do { s \<leftarrow> WRITE_WORD s (addr - 4) c (ucast (drop_bit 32 d)); WRITE_WORD s addr c (ucast d) }"

section \<open>Instruction fetch\<close>

text \<open>
  One byte from the instruction stream. With an exception pending nothing is fetched and the
  result is indeterminate, as is the byte of a word that could not be read.
\<close>

definition get_new_instr :: "machine \<Rightarrow> u32 \<Rightarrow> (u8 \<times> machine) option" where
  "get_new_instr s addr =
     (if bAnyExceptionPending s then (let (d, s) = fresh s in Some (ucast d, s))
      else
        do { (r, d, s) \<leftarrow>
               (if hcr_ics (hcr s) \<noteq> 0 \<and> CHK_PSR_ICE s then
                  do { (r, d, ic', m') \<leftarrow> iCacheRead (ic s) (cm s) addr 0;
                       Some (r, if r = DSV_FAIL then None else Some d, s\<lparr>ic := ic', cm := m'\<rparr>) }
                else cm_read s addr 0);
             let (d, s) = or_indet (d, check_exc s r INSTR_ACC_EXCEPTION);
             Some (byte_at d (unat (addr AND 3)), s) })"

end
