(* ===== verification/Stack_Cache.thy ===== *)
theory Stack_Cache
  imports Java_Memory
begin

text \<open>
  The stack cache and its dribbler, iam/src/scache.c, and the register update vUpdateGR of
  global\_regs.c that drives it. The words at addresses in (optop, scBottom] are in the 64 words of
  sCacheMem, at the address modulo 64 words. Whenever optop moves, words are spilled to memory
  or filled from it until their number lies between the fill and the spill mark of PSR.
\<close>

definition vSCacheInit :: "machine \<Rightarrow> machine" where
  "vSCacheInit s = s\<lparr>sCacheMem := (\<lambda>_. 0xdeadbeef)\<rparr>"

text \<open>The number of valid entries, a signed number.\<close>

definition nValidEntries :: "machine \<Rightarrow> int" where
  "nValidEntries s = c_div (sint (scBottom s - optop s)) 4"

fun flush_loop :: "nat \<Rightarrow> u32 \<Rightarrow> machine \<Rightarrow> machine option" where
  "flush_loop 0 a s = Some s"
| "flush_loop (Suc n) a s =
     do { s \<leftarrow> WRITE_WORD s a acc_D (sCacheMem s (sc_index a)); flush_loop n (a + 4) s }"

definition vSCacheFlush :: "machine \<Rightarrow> machine option" where
  "vSCacheFlush s = flush_loop (nat (nValidEntries s)) (optop s + 4) s"

text \<open>Writing the bottom entries out, and reading entries in below them.\<close>

fun spill_loop :: "nat \<Rightarrow> machine \<Rightarrow> machine option" where
  "spill_loop 0 s = Some s"
| "spill_loop (Suc n) s =
     do { s \<leftarrow> WRITE_WORD s (scBottom s) acc_D (sCacheMem s (sc_index (scBottom s)));
          spill_loop n (update_sc_bottom s (scBottom s - 4)) }"

fun fill_loop :: "nat \<Rightarrow> machine \<Rightarrow> machine option" where
  "fill_loop 0 s = Some s"
| "fill_loop (Suc n) s =
     do { let s = update_sc_bottom s (scBottom s + 4);
          (d, s) \<leftarrow> READ_WORD s (scBottom s) acc_D;
          fill_loop n (s\<lparr>sCacheMem := (sCacheMem s)(sc_index (scBottom s) := d)\<rparr>) }"

definition fill_mark :: "machine \<Rightarrow> nat" where
  "fill_mark s = unat (field (psr s) 16 3) * 8"

definition spill_mark :: "machine \<Rightarrow> nat" where
  "spill_mark s = unat (field (psr s) 19 3) * 8"

text \<open>The assertions of the code give None.\<close>

definition vUpdateSCache :: "machine \<Rightarrow> u32 \<Rightarrow> machine option" where
  "vUpdateSCache s old_optop =
     (if psr s AND 0x80 = 0 then Some s
      else if fill_mark s = 0 then None
      else
        (let n = nValidEntries s; fill = fill_mark s; spill = spill_mark s in
         if 64 < n \<or> n < 0 then
           do { s \<leftarrow>
                  (if 64 < n \<or> (n < 0 \<and> \<not> flag_return_opcode s) then
                     (let old = unat (scBottom s - old_optop) div 4
                      in if 64 < old then None else spill_loop old s)
                   else Some s);
                fill_loop fill (update_sc_bottom s (optop s)) }
         else if n < int fill then fill_loop (fill - nat n) s
         else if int spill < n then spill_loop (nat n - spill) s
         else Some s))"

datatype gr = GR_optop | GR_sc_bottom | GR_psr | GR_oplim

definition set_optop :: "machine \<Rightarrow> u32 \<Rightarrow> machine option" where
  "set_optop s v =
     (if \<not> flag_setting_up_trap_frame s \<and> oplim_violated s v then Some (raise_oplim s)
      else (let old = optop s; s = s\<lparr>optop := v\<rparr> in
        if ias_scache s \<and> psr s AND 0x80 \<noteq> 0 then vUpdateSCache s old else Some s))"

fun vUpdateGR :: "machine \<Rightarrow> gr \<Rightarrow> u32 \<Rightarrow> machine option" where
  "vUpdateGR s GR_optop v = set_optop s v"
| "vUpdateGR s GR_sc_bottom v = Some (update_sc_bottom s v)"
| "vUpdateGR s GR_psr v = Some (update_psr s v)"
| "vUpdateGR s GR_oplim v = Some (update_oplim s v)"

text \<open>Words relative to the stack pointers, and the macro that ends most instructions.\<close>

definition OPTOP_OFFSET :: "machine \<Rightarrow> u32 \<Rightarrow> u32" where "OPTOP_OFFSET s n = optop s + 4 * n"
definition VARS_OFFSET :: "machine \<Rightarrow> u32 \<Rightarrow> u32" where "VARS_OFFSET s n = vars s + 4 * n"
definition FRAME_OFFSET :: "machine \<Rightarrow> u32 \<Rightarrow> u32" where "FRAME_OFFSET s n = frame s + 4 * n"

definition SIZE_AND_STACK_RETURN :: "machine \<Rightarrow> u32 \<Rightarrow> u32 \<Rightarrow> machine option" where
  "SIZE_AND_STACK_RETURN s n k =
     do { s \<leftarrow> set_optop s (optop s - 4 * k); Some (s\<lparr>pc := pc s + n\<rparr>) }"

end
