(* ===== verification/Memory_Port.thy ===== *)
theory Memory_Port
  imports Stack_Cache
begin

text \<open>
  What the processor's data accesses promise when nothing intervenes: with no exception pending,
  no breakpoint enabled and the user range check off (quiet), the loads and stores of one access
  kind form a word store, over the data cache or directly over the memory. This is the third
  level at which the interface word\_store is interpreted; the dribbler of the stack cache is a
  client of it.
\<close>

definition quiet :: "machine \<Rightarrow> bool" where
  "quiet s \<longleftrightarrow> exc s = NO_EXCEPTION \<and> \<not> exit_on_warning s \<and> nbrkpts_enabled (brk s) = 0 \<and>
     psr s AND 0x2000 = 0 \<and> brken1 (brk12c s) = 0 \<and> brken2 (brk12c s) = 0"

definition dc_on :: "machine \<Rightarrow> bool" where
  "dc_on s \<longleftrightarrow> hcr_dcs (hcr s) \<noteq> 0 \<and> CHK_PSR_DCE s"

definition mem_inv :: "u32 \<Rightarrow> machine \<Rightarrow> bool" where
  "mem_inv n s \<longleftrightarrow> (if dc_on s then dc_inv n (dc s) (cm s) else CM_SIZE (cm s) = n)"

definition mem_view :: "machine \<Rightarrow> u32 \<Rightarrow> u32" where
  "mem_view s = (if dc_on s then dc_view (dc s) (cm s) else cm_word (cm s))"

definition port_acc :: "acc \<Rightarrow> bool" where
  "port_acc c \<longleftrightarrow> c \<in> {acc_Z, acc_M, acc_B, acc_H, acc_D, acc_X, acc_C}"

lemma dc_update [simp]: "dc_on (s\<lparr>dc := d\<rparr>) = dc_on s" "quiet (s\<lparr>dc := d\<rparr>) = quiet s"
  by (simp_all add: dc_on_def CHK_PSR_DCE_def quiet_def)

lemma brk_same [simp]: "s\<lparr>brk := brk s\<rparr> = (s :: machine)"
  by (cases s) simp

lemma dc_cm_same [simp]: "s\<lparr>dc := dc s, cm := cm s\<rparr> = (s :: machine)"
  by (cases s) simp

text \<open>The data cache or the memory below the processor, as one store.\<close>

definition same_outside :: "machine \<Rightarrow> machine \<Rightarrow> bool" where
  "same_outside s s' \<longleftrightarrow> (\<exists>d m. s' = s\<lparr>dc := d, cm := m\<rparr>)"

lemma same_outside_refl [simp]: "same_outside s s"
  unfolding same_outside_def by (rule exI [of _ "dc s"], rule exI [of _ "cm s"]) simp

lemma same_outside_trans: "same_outside s t \<Longrightarrow> same_outside t u \<Longrightarrow> same_outside s u"
proof -
  assume "same_outside s t" "same_outside t u"
  then obtain d1 m1 d2 m2 where "t = s\<lparr>dc := d1, cm := m1\<rparr>" "u = t\<lparr>dc := d2, cm := m2\<rparr>"
    unfolding same_outside_def by blast
  then have "u = s\<lparr>dc := d2, cm := m2\<rparr>" by simp
  then show ?thesis unfolding same_outside_def by blast
qed

lemma same_outside_cm [simp]: "same_outside s (s\<lparr>cm := m\<rparr>)"
  unfolding same_outside_def by (rule exI [of _ "dc s"], rule exI [of _ m]) simp

lemma same_outside_dc_cm [simp]: "same_outside s (s\<lparr>dc := d, cm := m\<rparr>)"
  unfolding same_outside_def by blast

lemma cm_update [simp]: "dc_on (s\<lparr>cm := m\<rparr>) = dc_on s" "quiet (s\<lparr>cm := m\<rparr>) = quiet s"
  by (simp_all add: dc_on_def CHK_PSR_DCE_def quiet_def)

lemma aligned_align: "aligned a \<Longrightarrow> a AND 0xFFFFFFFC = a"
  using word_align_aligned [of a] by (simp add: word_align_def)

lemma mem_load_law:
  assumes "quiet s" "mem_inv n s" "cacheable n a" "port_acc c"
  shows "\<exists>s'. mem_load s a c = Some (Some (mem_view s a), s') \<and> same_outside s s' \<and> quiet s' \<and> mem_inv n s' \<and>
    (\<forall>b. aligned b \<longrightarrow> mem_view s' b = mem_view s b)"
proof (cases "dc_on s")
  case True
  have R: "\<exists>s'. (\<forall>old. dc_read t a old = Some (DSV_SUCCESS, Some (mem_view t a), s')) \<and> same_outside t s' \<and> quiet s' \<and>
      dc_on s' \<and> mem_inv n s' \<and> (\<forall>b. aligned b \<longrightarrow> mem_view s' b = mem_view t b)"
    if t: "quiet t" "mem_inv n t" "dc_on t" for t
  proof -
    have "dc_inv n (dc t) (cm t)" using t by (simp add: mem_inv_def)
    from dCacheRead_law [OF this assms(3), of 0] obtain d m where
      1: "dCacheRead (dc t) (cm t) a 0 = Some (DSV_SUCCESS, dc_view (dc t) (cm t) a, d, m)"
      "unseen n (dc t) (cm t) d m" by blast
    then show ?thesis
      using t by (intro exI [of _ "t\<lparr>dc := d, cm := m\<rparr>"])
        (auto simp: dc_read_def mem_inv_def mem_view_def unseen_def)
  qed
  have nn: "c \<noteq> acc_N" "c \<noteq> acc_G" using assms(4) by (auto simp: port_acc_def)
  obtain s1 where s1: "\<forall>old. dc_read s a old = Some (DSV_SUCCESS, Some (mem_view s a), s1)" "same_outside s s1"
    "quiet s1" "dc_on s1" "mem_inv n s1" "\<forall>b. aligned b \<longrightarrow> mem_view s1 b = mem_view s b"
    using R [OF assms(1,2) True] by blast
  obtain s2 where s2: "\<forall>old. dc_read s1 a old = Some (DSV_SUCCESS, Some (mem_view s1 a), s2)" "same_outside s1 s2"
    "quiet s2" "mem_inv n s2" "\<forall>b. aligned b \<longrightarrow> mem_view s2 b = mem_view s1 b"
    using R [OF s1(3,5,4)] by blast
  show ?thesis
  proof (cases "c = acc_D")
    case cD: True
    have "mem_view s1 a = mem_view s a" using s1(6) assms(3) by (simp add: cacheable_def)
    then have "mem_load s a c = Some (Some (mem_view s a), s2)"
      using cD True s1(1) s2(1) by (simp add: mem_load_def dc_on_def check_exc_def)
    then show ?thesis using s1 s2 same_outside_trans [OF s1(2) s2(2)] by auto
  next
    case False
    then have "mem_load s a c = Some (Some (mem_view s a), s1)"
      using nn True s1(1) by (simp add: mem_load_def dc_on_def check_exc_def)
    then show ?thesis using s1 by auto
  qed
next
  case False
  have "cmMemoryRead (cm s) a 0 2 = Some (DSV_SUCCESS, cm_word (cm s) a, cm s)"
    using cmMemoryRead_plain [of "cm s" a 0] cacheable_plain [OF assms(3)] assms(2) False
    by (simp add: mem_inv_def)
  moreover have "s\<lparr>cm := cm s\<rparr> = s" by (cases s) simp
  ultimately have "mem_load s a c = Some (Some (mem_view s a), s)"
    using False by (auto simp: mem_load_def dc_on_def cm_read_def check_exc_def mem_view_def)
  then show ?thesis using assms by auto
qed

lemma mem_store_law:
  assumes "quiet s" "mem_inv n s" "cacheable n a" "port_acc c"
  shows "\<exists>s'. mem_store s a v 2 c = Some s' \<and> same_outside s s' \<and> quiet s' \<and> mem_inv n s' \<and>
    (\<forall>b. aligned b \<longrightarrow> mem_view s' b = (if b = a then v else mem_view s b))"
proof -
  have nn: "c \<noteq> acc_N" "c \<noteq> acc_A" using assms(4) by (auto simp: port_acc_def)
  show ?thesis
  proof (cases "dc_on s")
    case True
    then have "dc_inv n (dc s) (cm s)" using assms(2) by (simp add: mem_inv_def)
    from dCacheWrite_law [OF this assms(3), of v] obtain d m where
      1: "dCacheWrite (dc s) (cm s) a v 2 = Some (DSV_SUCCESS, d, m)" "dc_inv n d m"
      "\<forall>b. aligned b \<longrightarrow> dc_view d m b = (if b = a then v else dc_view (dc s) (cm s) b)" by blast
    then show ?thesis
      using True assms(1) nn by (intro exI [of _ "s\<lparr>dc := d, cm := m\<rparr>"])
        (auto simp: mem_store_def dc_on_def dc_write_def sign_ext_def check_exc_aem_off_def check_exc_def
          mem_inv_def mem_view_def CHK_PSR_DCE_def quiet_def)
  next
    case False
    have al: "aligned a" using assms(3) by (simp add: cacheable_def)
    have "cmMemoryWrite (cm s) a v 2 = Some (DSV_SUCCESS, cm_put (cm s) a v)"
      using cmMemoryWrite_plain [of "cm s" a v] cacheable_plain [OF assms(3)] assms(2) False
      by (simp add: mem_inv_def)
    then have "mem_store s a v 2 c = Some (s\<lparr>cm := cm_put (cm s) a v\<rparr>)"
      using False by (auto simp: mem_store_def dc_on_def cm_write_def check_exc_aem_off_def check_exc_def bus_word_def)
    then show ?thesis
      using assms(1,2) False al by (intro exI [of _ "s\<lparr>cm := cm_put (cm s) a v\<rparr>"])
        (auto simp: mem_inv_def mem_view_def cm_word_cm_put)
  qed
qed

lemma quiet_checks:
  assumes "quiet s"
  shows "warn_if b s = Some s" "sim_brkpt_check s a sz c w = Some s" "data_access_fault s a fa c r = None"
    "bAnyExceptionPending s = False"
  using assms
  by (simp_all add: quiet_def warn_if_def warn_def sim_brkpt_check_def brkpt_match_def data_access_fault_def
      causes_mem_prot_error_def pico_breakpoint_match_def Let_def bAnyExceptionPending_def)

lemma port_load_law:
  assumes "quiet s" "mem_inv n s" "cacheable n a" "port_acc c"
  shows "\<exists>s'. javaMemRead s a 2 c = Some (Some (mem_view s a), s') \<and> same_outside s s' \<and> quiet s' \<and> mem_inv n s' \<and>
    (\<forall>b. aligned b \<longrightarrow> mem_view s' b = mem_view s b)"
proof -
  have "aligned a" using assms(3) by (simp add: cacheable_def)
  then have "javaMemRead s a 2 c = mem_load s a c"
    using assms(1,4) by (auto simp: javaMemRead_def Let_def quiet_checks aligned_align port_acc_def)
  then show ?thesis using mem_load_law [OF assms] by simp
qed

lemma port_store_law:
  assumes "quiet s" "mem_inv n s" "cacheable n a" "port_acc c"
  shows "\<exists>s'. javaMemWrite s a v 2 c = Some s' \<and> same_outside s s' \<and> quiet s' \<and> mem_inv n s' \<and>
    (\<forall>b. aligned b \<longrightarrow> mem_view s' b = (if b = a then v else mem_view s b))"
proof -
  have "javaMemWrite s a v 2 c = mem_store s a v 2 c"
    using assms(1,4) by (auto simp: javaMemWrite_def Let_def quiet_checks port_acc_def)
  then show ?thesis using mem_store_law [OF assms] by simp
qed

definition port_load :: "acc \<Rightarrow> machine \<Rightarrow> u32 \<Rightarrow> (u32 \<times> machine) option" where
  "port_load c s a = READ_WORD s a c"

definition port_store :: "acc \<Rightarrow> machine \<Rightarrow> u32 \<Rightarrow> u32 \<Rightarrow> machine option" where
  "port_store c s a v = WRITE_WORD s a c v"

lemma READ_WORD_port:
  assumes "quiet s" "mem_inv n s" "cacheable n a" "port_acc c"
  shows "\<exists>s'. READ_WORD s a c = Some (mem_view s a, s') \<and> same_outside s s' \<and> quiet s' \<and> mem_inv n s' \<and>
    (\<forall>b. aligned b \<longrightarrow> mem_view s' b = mem_view s b)"
  using port_load_law [OF assms] by (auto simp: READ_WORD_def or_indet_def)

text \<open>The data port of the processor is a word store, for every cached kind of access.\<close>

interpretation port: word_store "\<lambda>s. quiet s \<and> mem_inv n s \<and> port_acc c" "cacheable n" mem_view
  "port_load c" "port_store c" for n c
proof
  fix s :: machine and a
  assume "quiet s \<and> mem_inv n s \<and> port_acc c" "cacheable n a"
  then show "\<exists>s'. port_load c s a = Some (mem_view s a, s') \<and> (quiet s' \<and> mem_inv n s' \<and> port_acc c) \<and>
      (\<forall>b. cacheable n b \<longrightarrow> mem_view s' b = mem_view s b)"
    using READ_WORD_port [of s n a c] by (auto simp: port_load_def cacheable_def)
next
  fix s :: machine and a v
  assume "quiet s \<and> mem_inv n s \<and> port_acc c" "cacheable n a"
  then show "\<exists>s'. port_store c s a v = Some s' \<and> (quiet s' \<and> mem_inv n s' \<and> port_acc c) \<and>
      (\<forall>b. cacheable n b \<longrightarrow> mem_view s' b = (if b = a then v else mem_view s b))"
    using port_store_law [of s n a c v] by (auto simp: port_store_def WRITE_WORD_def cacheable_def)
qed

end
