(* ===== verification/Cache_Maintenance.thy ===== *)
theory Cache_Maintenance
  imports Instr_Cache
begin

text \<open>
  Consequences for the software that maintains the caches: initialisation gives an empty cache
  that shows the memory; zeroing a line writes zeros without reading the memory; invalidating a
  line uncovers the memory; the debugger's read shows the program's view; tags written can be
  read back; and storing, flushing and fetching a word delivers the word just stored.
\<close>

section \<open>Fetching from the instruction cache\<close>

definition ic_ok :: "icache \<Rightarrow> bool" where
  "ic_ok ic \<longleftrightarrow> IINDEX_R ic \<in> {3, 4} \<and> iCacheLineSize ic = 2 ^ IINDEX_R ic \<and>
     IINDEX_L ic \<in> {9..13} \<and> IRTAG ic = IINDEX_L ic + 1 \<and>
     (numOfIcacheEntries ic = -1 \<or>
      numOfIcacheEntries ic = 2 ^ (IINDEX_L ic - IINDEX_R ic + 1) \<and>
      length (I ic) = 2 ^ (IINDEX_L ic - IINDEX_R ic + 1)) \<and>
     (\<forall>e\<in>set (I ic). length (ent_line e) = 16)"

lemma icacheInit_ok:
  assumes "icacheInit p ic iSize = Some (DSV_SUCCESS, ic')"
  shows "ic_ok ic'"
  using assms by (cases p) (auto simp: icacheInit_def ic_ok_def empty_ientry_def Let_def split: if_splits)

lemma iindex_less: "unat (iindex ic a) < 2 ^ (IINDEX_L ic - IINDEX_R ic + 1)"
  unfolding iindex_def by (rule unat_getFieldValue_less)

lemma no_iline_iff:
  assumes "ic_ok ic"
  shows "no_iline ic (iindex ic a) \<longleftrightarrow> numOfIcacheEntries ic = -1"
proof -
  define k where "k = IINDEX_L ic - IINDEX_R ic + 1"
  have "k \<le> 11" using assms by (auto simp: ic_ok_def k_def)
  then have "(2::nat) ^ k \<le> 2 ^ 11" by (rule power_increasing) simp
  moreover have l: "unat (iindex ic a) < 2 ^ k" unfolding k_def by (rule iindex_less)
  ultimately have "unat (iindex ic a) < 2 ^ 11" by linarith
  then have "take_bit 11 (iindex ic a) = iindex ic a" by (rule take_bit_small)
  then have "bit (iindex ic a) 31 \<longleftrightarrow> bit (take_bit 11 (iindex ic a)) 31" by simp
  then have "\<not> bit (iindex ic a) 31" by (simp add: bit_simps)
  moreover have "take_bit 31 (uint (iindex ic a)) = uint (iindex ic a)"
  proof (rule take_bit_int_eq_self)
    have "iindex ic a < 2048" using \<open>unat (iindex ic a) < 2 ^ 11\<close> by (simp add: word_less_nat_alt)
    then show "uint (iindex ic a) < 2 ^ 31" by (simp add: word_less_def)
  qed simp
  ultimately have e: "sint (iindex ic a) = int (unat (iindex ic a))"
    by (simp add: sint_uint signed_take_bit_eq_if_positive bit_simps)
  have "int (unat (iindex ic a)) < 2 ^ k"
    using l by (metis of_nat_less_iff of_nat_numeral of_nat_power)
  moreover have "(0 :: int) < 2 ^ k" by simp
  ultimately have "0 \<le> sint (iindex ic a)" "sint (iindex ic a) < 2 ^ k" "(-1 :: int) \<noteq> 2 ^ k"
    using e by linarith+
  then show ?thesis using assms by (auto simp: no_iline_def ic_ok_def k_def)
qed

lemma line_addr_take: "line_addr r a + take_bit r a = a"
proof -
  have "line_addr r a AND take_bit r a = 0"
    by (rule bit_word_eqI) (auto simp: bit_line_addr bit_simps)
  then have "line_addr r a + take_bit r a = line_addr r a OR take_bit r a"
    by (rule disjunctive_add_eq_or)
  also have "\<dots> = a" by (rule bit_word_eqI) (auto simp: bit_line_addr bit_simps)
  finally show ?thesis .
qed

lemma cacheable_same_line:
  "cacheable n a \<Longrightarrow> aligned b \<Longrightarrow> line_addr 4 b = line_addr 4 a \<Longrightarrow> plain_word n b"
  using cacheable_plain [of n b] by (simp add: cacheable_def)

lemma bit_4_int: "bit (4 :: int) k \<longleftrightarrow> k = 2"
proof -
  have "(4 :: int) = push_bit 2 1" by (simp add: push_bit_eq_mult)
  then have "bit (4 :: int) k \<longleftrightarrow> bit (push_bit 2 1 :: int) k" by (rule arg_cong)
  also have "\<dots> \<longleftrightarrow> k = 2" unfolding bit_push_bit_iff by (auto simp: bit_1_iff)
  finally show ?thesis .
qed

lemma bit_4: "bit (4 :: u32) k \<longleftrightarrow> k = 2"
proof -
  have "(4 :: u32) = push_bit 2 1" by (simp add: push_bit_eq_mult)
  then have "bit (4 :: u32) k \<longleftrightarrow> bit (push_bit 2 1 :: u32) k" by (rule arg_cong)
  also have "\<dots> \<longleftrightarrow> k = 2" unfolding bit_push_bit_iff by (auto simp: bit_1_iff)
  finally show ?thesis .
qed

text \<open>The words of an 8-byte line lie inside the 16-byte line around it.\<close>

lemma half_line:
  assumes "cacheable n a"
  shows "plain_word n (line_addr 3 a)" "plain_word n (line_addr 3 a + 4)"
proof -
  have "line_addr 4 (line_addr 3 a) = line_addr 4 a"
    by (rule bit_word_eqI) (auto simp: bit_line_addr)
  then show p: "plain_word n (line_addr 3 a)"
    using assms by (intro cacheable_same_line [OF assms]) (auto intro: line_addr_aligned)
  have "line_addr 3 a AND 4 = 0" by (rule bit_word_eqI) (auto simp: bit_line_addr bit_simps bit_4 bit_4_int)
  then have o: "line_addr 3 a + 4 = line_addr 3 a OR 4" by (rule disjunctive_add_eq_or)
  have "line_addr 4 (line_addr 3 a + 4) = line_addr 4 a"
    by (rule bit_word_eqI) (auto simp: o bit_line_addr bit_simps bit_4 bit_4_int)
  moreover have "aligned (line_addr 3 a + 4)"
    by (auto simp: aligned_bits o bit_line_addr bit_simps bit_4 bit_4_int)
  ultimately show "plain_word n (line_addr 3 a + 4)" by (rule cacheable_same_line [OF assms, rotated])
qed

lemma fill_half_line:
  assumes "plain_word (CM_SIZE m) base" "plain_word (CM_SIZE m) (base + 4)" "length xs = 16"
  shows "\<exists>ys. fill_line m base xs 0 8 = Some (DSV_SUCCESS, ys, m) \<and> length ys = 16 \<and>
    (\<forall>k\<in>{0, 4}. lword ys k = cm_word m (base + of_nat k))"
proof -
  define ys where "ys = blit (blit xs 0 (be_bytes (cm_word m base))) 4 (be_bytes (cm_word m (base + 4)))"
  have "fill_line m base xs 0 8 = Some (DSV_SUCCESS, ys, m)"
    using assms by (simp add: fill_line.simps line_word_def line_put_def cmMemoryRead_plain ys_def)
  moreover have "length ys = 16" using assms by (simp add: ys_def)
  moreover have "\<forall>k\<in>{0, 4}. lword ys k = cm_word m (base + of_nat k)"
    using assms by (simp add: ys_def lword_blit_same lword_blit_other)
  ultimately show ?thesis by blast
qed

lemma fill_iline:
  assumes "ic_ok ic" "cacheable (CM_SIZE m) a" "length xs = 16"
  shows "\<exists>ys. fill_line m (line_addr (IINDEX_R ic) a) xs 0 (iCacheLineSize ic) = Some (DSV_SUCCESS, ys, m) \<and>
    line_word ys (iline_offset ic a) = Some (cm_word m a)"
proof -
  have al: "aligned a" "word_align a = a" using assms(2) by (simp_all add: cacheable_def)
  have off: "iline_offset ic a = unat (take_bit (IINDEX_R ic) a)"
    using assms(1) al by (auto simp: iline_offset_def getFieldValue_slice ic_ok_def)
  have split: "line_addr (IINDEX_R ic) a + of_nat (iline_offset ic a) = a"
    using line_addr_take [of "IINDEX_R ic" a] by (simp add: off)
  consider (pico) "IINDEX_R ic = 3" | (maya) "IINDEX_R ic = 4" using assms(1) by (auto simp: ic_ok_def)
  then show ?thesis
  proof cases
    case pico
    have "take_bit 3 a = 0 \<or> take_bit 3 a = 4"
    proof -
      have "take_bit 3 a = (if bit a 2 then 4 else 0)"
      proof (rule bit_word_eqI)
        fix n
        have "n < 3 \<Longrightarrow> n < 2 \<or> n = (2 :: nat)" by auto
        then show "bit (take_bit 3 a) n \<longleftrightarrow> bit (if bit a 2 then 4 else 0 :: u32) n"
          using al(1) by (auto simp: aligned_bits bit_simps bit_4 bit_4_int)
      qed
      then show ?thesis by auto
    qed
    then have o: "iline_offset ic a \<in> {0, 4}" using off pico by auto
    show ?thesis
      using fill_half_line [OF half_line [OF assms(2)] assms(3)] o split pico assms(1)
      by (auto simp: ic_ok_def line_word_def)
  next
    case maya
    have o: "iline_offset ic a = line_offset a" using off maya al by (simp add: line_offset_slice)
    have lok: "line_ok (CM_SIZE m) (line_addr 4 a)" using assms(2) by (simp add: cacheable_def)
    show ?thesis
      using fill_line_line [OF lok assms(3)] line_offset_cases [of a] o split maya assms(1)
      by (auto simp: ic_ok_def line_word_def)
  qed
qed

lemma iCacheRead_invalid:
  assumes "ic_ok ic" "cacheable (CM_SIZE m) a"
    "numOfIcacheEntries ic \<noteq> -1 \<Longrightarrow> \<not> ent_valid (I ic ! unat (iindex ic a))"
  shows "\<exists>ic'. iCacheRead ic m a data = Some (DSV_SUCCESS, cm_word m a, ic', m)"
proof (cases "numOfIcacheEntries ic = -1")
  case True
  have "word_align a = a" using assms(2) by (simp add: cacheable_def)
  then show ?thesis
    using True no_iline_iff [OF assms(1), of a] cacheable_plain [OF assms(2)]
    by (simp add: iCacheRead_def iCacheSelect_def Let_def cmMemoryRead_plain)
next
  case False
  let ?i = "iindex ic a"
  have l: "unat ?i < length (I ic)" using assms(1) False iindex_less [of ic a] by (auto simp: ic_ok_def)
  then have "length (ent_line (I ic ! unat ?i)) = 16" using assms(1) by (simp add: ic_ok_def)
  then obtain ys where ys: "fill_line m (line_addr (IINDEX_R ic) a) (ent_line (I ic ! unat ?i)) 0
      (iCacheLineSize ic) = Some (DSV_SUCCESS, ys, m)" "line_word ys (iline_offset ic a) = Some (cm_word m a)"
    using fill_iline [OF assms(1,2)] by auto
  have "makeAddr (IRTAG ic) (itag ic a) ?i (IINDEX_R ic) = line_addr (IINDEX_R ic) a"
    using makeAddr_fields [of "IINDEX_R ic" "IINDEX_L ic" a] assms(1)
    by (auto simp: ic_ok_def itag_def iindex_def)
  moreover have "no_iline (put_ientry ic ?i e) = no_iline ic" "iline_offset (put_ientry ic ?i e) = iline_offset ic"
    for e by (simp_all add: fun_eq_iff no_iline_def iline_offset_def put_ientry_def)
  ultimately show ?thesis
    using False no_iline_iff [OF assms(1), of a] assms(3) l ys
    by (simp add: iCacheRead_def iCacheSelect_def Let_def ientry_def put_ientry_def)
qed

lemma ICacheFlush_ok:
  assumes "ic_ok ic"
  shows "\<exists>ic'. ICacheFlush True ic a = Some ic' \<and> ic_ok ic' \<and>
    (numOfIcacheEntries ic' \<noteq> -1 \<longrightarrow> \<not> ent_valid (I ic' ! unat (iindex ic' a)))"
proof (cases "numOfIcacheEntries ic = -1")
  case True
  then show ?thesis using assms no_iline_iff [OF assms, of a] by (simp add: ICacheFlush_def Let_def)
next
  case False
  have l: "unat (iindex ic a) < length (I ic)" using assms False iindex_less [of ic a] by (auto simp: ic_ok_def)
  have "iindex (put_ientry ic i e) = iindex ic" for i e by (simp add: fun_eq_iff iindex_def put_ientry_def)
  then show ?thesis
    using False no_iline_iff [OF assms, of a] l assms
    by (auto simp: ICacheFlush_def Let_def ientry_def put_ientry_def ic_ok_def
        dest!: set_update_subset_insert [THEN subsetD])
qed

section \<open>Empty, invalidated and zeroed lines\<close>

lemma dcacheInit_law:
  assumes "dcacheInit dc dSize = Some (DSV_SUCCESS, dc')"
  shows "dc_inv (CM_SIZE m) dc' m \<and> dc_view dc' m a = cm_word m a"
proof -
  have g: "dc_geom dc'" and D: "\<forall>e\<in>set (D dc'). dSet e = (\<lambda>_. empty_dset)"
    using assms by (auto simp: dcacheInit_def dc_geom_def Let_def split: if_splits)
  have "dtag dc' (set_base dc' index empty_dset) = 0" if "unat index < 2 ^ (DINDEX_L dc' - 3)" for index
  proof (rule bit_word_eqI)
    fix n
    have "take_bit (DINDEX_L dc' - 3) index = index" by (rule take_bit_small) (rule that)
    then have "bit index k \<longleftrightarrow> k < DINDEX_L dc' - 3 \<and> bit index k" for k by (metis bit_take_bit_iff)
    from this [of "DINDEX_L dc' + 1 + n - 4"] show "bit (dtag dc' (set_base dc' index empty_dset)) n \<longleftrightarrow> bit (0 :: u32) n"
      using g by (auto simp: dtag_def set_base_def bit_getFieldValue bit_makeAddr empty_dset_def dc_geom_def DINDEX_R_def)
  qed
  then have inv: "dc_inv (CM_SIZE m) dc' m"
    using g D by (auto simp: dc_inv_def entry_ok_def set_ok_def empty_dset_def dc_geom_def)
  moreover have "dc_view dc' m a = cm_word m a"
  proof (cases "numOfDcacheEntries dc' = -1")
    case True
    then show ?thesis using no_dline_iff [OF g, of a] by (simp add: dc_view_def)
  next
    case False
    then have "D dc' ! unat (dindex dc' a) \<in> set (D dc')" using dentry_ok [OF g False] by simp
    then show ?thesis
      using D inv False by (intro dc_view_no_hit) (auto simp: find_way_def hits_def empty_dset_def)
  qed
  ultimately show ?thesis by simp
qed

lemma invalidate_entry:
  fixes w :: way
  assumes "entry_ok n dc m index e"
  defines "e1 \<equiv> with_set e w ((dSet e w)\<lparr>set_valid := False\<rparr>)"
  shows "entry_ok n dc m index e1"
    and "entry_view dc m e1 a = (if hits (dSet e w) (dtag dc a) then cm_word m a else entry_view dc m e a)"
proof -
  show ok: "entry_ok n dc m index e1"
    using assms(1) unfolding e1_def by (simp add: entry_ok_way [of _ _ _ _ _ w]) (simp add: set_ok_def set_base_def)
  show "entry_view dc m e1 a = (if hits (dSet e w) (dtag dc a) then cm_word m a else entry_view dc m e a)"
    using entry_view_with_set [OF ok [unfolded e1_def], of a] entry_view_way [OF assms(1), of a w]
      hits_exclusive [OF assms(1), of w "dtag dc a"]
    unfolding e1_def by (auto simp: hits_def)
qed

text \<open>
  dCacheZeroLine in two steps: the set w is emptied (after a write back when it held another
  line), then the zero line is installed in it.
\<close>

lemma zero_victim:
  fixes w :: way and c :: u32
  assumes "dc_inv n dc m" "numOfDcacheEntries dc \<noteq> -1"
    "find_way (D dc ! unat (dindex dc c)) (dtag dc c) = None \<or>
     find_way (D dc ! unat (dindex dc c)) (dtag dc c) = Some w"
  defines "e \<equiv> D dc ! unat (dindex dc c)" and "index \<equiv> dindex dc c"
  defines "wb \<equiv> find_way e (dtag dc c) = None \<and> set_valid (dSet e w) \<and> set_dirty (dSet e w)"
  shows "\<exists>m'. (if wb then write_back m (set_base dc index (dSet e w)) (set_line (dSet e w)) 0 16
      else Some (DSV_SUCCESS, m)) = Some (DSV_SUCCESS, m') \<and> CM_SIZE m' = n \<and> same_elsewhere dc index m m' \<and>
    entry_ok n dc m' index (with_set e w ((dSet e w)\<lparr>set_valid := False\<rparr>)) \<and>
    (\<forall>a. aligned a \<longrightarrow> dindex dc a = index \<longrightarrow> dtag dc a \<noteq> dtag dc c \<longrightarrow>
       entry_view dc m' (with_set e w ((dSet e w)\<lparr>set_valid := False\<rparr>)) a = entry_view dc m e a)"
proof -
  have g: "dc_geom dc" using assms(1) by (simp add: dc_inv_def)
  note c = inv_cached [OF assms(1,2) dentry_ok [OF g assms(2), of c], folded e_def index_def]
  show ?thesis
  proof (cases wb)
    case True
    then obtain m' where m': "write_back m (set_base dc index (dSet e w)) (set_line (dSet e w)) 0 16 = Some (DSV_SUCCESS, m')"
        "CM_SIZE m' = n" "same_elsewhere dc index m m'"
      and e1: "entry_ok n dc m' index (with_set e w ((dSet e w)\<lparr>set_dirty := False\<rparr>))"
      and v1: "\<And>a. aligned a \<Longrightarrow> dindex dc a = index \<Longrightarrow>
         entry_view dc m' (with_set e w ((dSet e w)\<lparr>set_dirty := False\<rparr>)) a = entry_view dc m e a"
      using write_back_entry [OF c(1,4,5) _ c(2), of w] by (auto simp: wb_def)
    have "(dSet e w)\<lparr>set_dirty := False, set_valid := False, set_dirty := True\<rparr> = (dSet e w)\<lparr>set_valid := False\<rparr>"
      using True by (simp add: wb_def)
    then show ?thesis
      using drop_clean [OF c(1) e1, where w = w and d = True] v1 m' True by simp
  next
    case False
    note i = invalidate_entry [OF c(5), of w]
    have "entry_view dc m (with_set e w ((dSet e w)\<lparr>set_valid := False\<rparr>)) a = entry_view dc m e a"
      if "aligned a" "dindex dc a = index" "dtag dc a \<noteq> dtag dc c" for a
    proof (cases "hits (dSet e w) (dtag dc a)")
      case True
      then have "find_way e (dtag dc c) \<noteq> Some w"
        using that(3) find_way_Some [of e "dtag dc c" w] by (auto simp: hits_def)
      then have "\<not> set_dirty (dSet e w)" using assms(3) False True by (auto simp: wb_def e_def hits_def)
      then have "lword (set_line (dSet e w)) (line_offset a) = cm_word m a"
        using clean_word [of dc n m a, OF g _ True _ that(1)] c(5) that(2) by (simp add: entry_ok_def)
      then show ?thesis using i(2) [of a] entry_view_hit [OF c(5) True] True by simp
    qed (use i(2) in simp)
    then show ?thesis using False i(1) c(2) by simp
  qed
qed

lemma lword_zeros: "lword (replicate n 0) k = 0"
proof -
  have "be_word (replicate j 0) = 0" for j by (induction j) simp_all
  then show ?thesis by (simp add: lword_def)
qed

lemma dCacheZeroLine_law:
  assumes "dc_inv n dc m" "numOfDcacheEntries dc \<noteq> -1" "cacheable n c"
  shows "\<exists>dc' m'. dCacheZeroLine dc m c = Some (DSV_SUCCESS, dc', m') \<and> dc_inv n dc' m' \<and>
    (\<forall>a. aligned a \<longrightarrow> dc_view dc' m' a = (if line_addr 4 a = line_addr 4 c then 0 else dc_view dc m a))"
proof -
  have g: "dc_geom dc" using assms(1) by (simp add: dc_inv_def)
  note l = dentry_ok [OF g assms(2), of c]
  note c = inv_cached [OF assms(1,2) l]
  let ?e = "D dc ! unat (dindex dc c)" and ?t = "dtag dc c" and ?i = "dindex dc c"
  define w where "w = (case find_way ?e ?t of Some w \<Rightarrow> w | None \<Rightarrow> lru ?e)"
  have fw: "find_way ?e ?t = None \<or> find_way ?e ?t = Some w" by (auto simp: w_def split: option.split)
  have len: "length (set_line (dSet ?e w)) = 16" using c(5) by (simp add: entry_ok_def set_ok_def)
  let ?out = "with_set ?e w ((dSet ?e w)\<lparr>set_valid := False\<rparr>)"
  obtain m' where m': "(if find_way ?e ?t = None \<and> set_valid (dSet ?e w) \<and> set_dirty (dSet ?e w)
        then write_back m (set_base dc ?i (dSet ?e w)) (set_line (dSet ?e w)) 0 16
        else Some (DSV_SUCCESS, m)) = Some (DSV_SUCCESS, m')" "CM_SIZE m' = n" "same_elsewhere dc ?i m m'"
    and e1: "entry_ok n dc m' ?i ?out"
    and v1: "\<And>a. aligned a \<Longrightarrow> dindex dc a = ?i \<Longrightarrow> dtag dc a \<noteq> ?t \<Longrightarrow>
       entry_view dc m' ?out a = entry_view dc m ?e a"
    using zero_victim [OF assms(1,2) fw] by auto
  have nh: "\<not> hits (dSet ?out (other w)) ?t"
    using fw find_way_Some [of ?e ?t w] hits_exclusive [OF c(5), of w ?t] find_way_None [of ?e ?t w] by auto
  have lok: "line_ok n (line_addr 4 c)" using assms(3) by (simp add: cacheable_def)
  define s1 where "s1 = (dSet ?out w)\<lparr>set_tag := ucast ?t, set_line := replicate 16 0, set_valid := True,
    set_dirty := True\<rparr>"
  have inv: "\<not> set_valid (dSet ?out w)" by simp
  note i = install_entry [OF g e1 inv nh lok, where dirty = True and ys = "replicate 16 0", folded s1_def]
  let ?new = "(with_set ?e w s1)\<lparr>lru := other w\<rparr>"
  have "dCacheZeroLine dc m c = Some (DSV_SUCCESS, put_entry dc ?i ?new, m')"
  proof (cases "find_way ?e ?t")
    case None
    then have "w = lru ?e" by (simp add: w_def)
    then show ?thesis
      using None m'(1) no_dline_iff [OF g, of c] assms(2) c(3,6) len
      by (auto simp: dCacheZeroLine_def Let_def s1_def blit_def split: if_split_asm)
  next
    case (Some v)
    then have "w = v" by (simp add: w_def)
    then show ?thesis
      using Some m'(1) no_dline_iff [OF g, of c] assms(2) c(3,6) len
      by (auto simp: dCacheZeroLine_def Let_def s1_def blit_def)
  qed
  moreover have "dc_inv n (put_entry dc ?i ?new) m'"
    using put_entry_inv [OF assms(1,2) l _ m'(3,2)] i(1) by simp
  moreover have "dc_view (put_entry dc ?i ?new) m' a =
      (if line_addr 4 a = line_addr 4 c then 0 else dc_view dc m a)" if "aligned a" for a
    using put_entry_view [OF assms(1,2) l m'(3) that] i(3) [of a] v1 [OF that] same_line_iff [OF g, of a c]
      dc_view_cached [OF g assms(2), of m a] line_offset_cases [of a] lword_zeros [of 16 "line_offset a"] by auto
  ultimately show ?thesis by blast
qed

section \<open>Diagnostic and invalidating operations\<close>

lemma dCacheWrite_entries:
  assumes "dc_inv n dc m" "cacheable n a" "numOfDcacheEntries dc \<noteq> -1"
    "dCacheWrite dc m a d 2 = Some (r, dc', m')"
  shows "numOfDcacheEntries dc' \<noteq> -1"
proof -
  obtain wo dc1 m1 where sel: "dCacheSelect dc m a False = Some (DSV_SUCCESS, dindex dc a, wo, dc1, m1)"
    and u: "unseen n dc m dc1 m1"
    using select_law [OF assms(1,2), of False] by auto
  have "numOfDcacheEntries dc' = numOfDcacheEntries dc1"
    using assms(4) sel
    by (auto simp: dCacheWrite_def store_in_line_def Let_def split: if_splits Option.bind_splits prod.splits)
  then show ?thesis using u assms(3) by (simp add: unseen_def)
qed

lemma cacheInvalidate_law:
  assumes "dc_inv n dc m" "numOfDcacheEntries dc \<noteq> -1" "ic_ok ic"
  shows "\<exists>dc' ic'. cacheInvalidate True ice dc ic c incr = Some (DSV_SUCCESS, c + incr, dc', ic') \<and>
    dc_inv n dc' m \<and>
    (\<forall>a. aligned a \<longrightarrow> dc_view dc' m a = (if line_addr 4 a = line_addr 4 c then cm_word m a else dc_view dc m a))"
proof -
  have g: "dc_geom dc" using assms(1) by (simp add: dc_inv_def)
  note l = dentry_ok [OF g assms(2), of c]
  note c = inv_cached [OF assms(1,2) l]
  let ?e = "D dc ! unat (dindex dc c)"
  have ifl: "no_iline ic (iindex ic c) \<or> (\<exists>e. ientry ic (iindex ic c) = Some e)"
    using no_iline_iff [OF assms(3), of c] iindex_less [of ic c] assms(3) by (auto simp: ientry_def ic_ok_def)
  show ?thesis
  proof (cases "find_way ?e (dtag dc c)")
    case None
    have "dc_view dc m a = cm_word m a" if "line_addr 4 a = line_addr 4 c" for a
      using None assms(1,2) that same_line_iff [OF g, of a c] by (intro dc_view_no_hit) auto
    then show ?thesis
      using None ifl c(6) no_dline_iff [OF g, of c] assms(1,2) by (auto simp: cacheInvalidate_def Let_def)
  next
    case (Some w)
    let ?new = "(with_set ?e w ((dSet ?e w)\<lparr>set_valid := False\<rparr>))\<lparr>lru := w\<rparr>"
    have h: "set_valid (dSet ?e w)" "ucast (set_tag (dSet ?e w)) = dtag dc c"
      using find_way_Some [OF Some] by (simp_all add: hits_def)
    have "\<exists>ic'. cacheInvalidate True ice dc ic c incr =
        Some (DSV_SUCCESS, c + incr, put_entry dc (dindex dc c) ?new, ic')"
      using Some ifl c(6) no_dline_iff [OF g, of c] assms(2) by (auto simp: cacheInvalidate_def Let_def)
    moreover have "dc_inv n (put_entry dc (dindex dc c) ?new) m"
      using put_entry_inv [OF assms(1,2) l, of m] invalidate_entry(1) [OF c(5), of w] c(2) by simp
    moreover have "dc_view (put_entry dc (dindex dc c) ?new) m a =
        (if line_addr 4 a = line_addr 4 c then cm_word m a else dc_view dc m a)" if "aligned a" for a
      using put_entry_view [OF assms(1,2) l _ that, of m] invalidate_entry(2) [OF c(5), of w a] h
        same_line_iff [OF g, of a c] dc_view_cached [OF g assms(2), of m a] by (auto simp: hits_def)
    ultimately show ?thesis by blast
  qed
qed

lemma way_if: "(if b then Way1 else Way0) = Way1 \<longleftrightarrow> b"
  by simp

lemma tag_roundtrip_law:
  assumes "dc_inv n dc m" "numOfDcacheEntries dc \<noteq> -1"
  shows "\<exists>dc'. writeDcacheTag dc addr d = Some (DSV_SUCCESS, dc') \<and>
    readDcacheTag dc' addr data = Some (DSV_SUCCESS, d AND (NOT (mask (DRTAG dc)) OR mask 3))"
proof -
  have g: "dc_geom dc" using assms(1) by (simp add: dc_inv_def)
  note l = dentry_ok [OF g assms(2), of addr]
  have b: "push_bit (DRTAG dc) (ucast (ucast (dtag dc d) :: 23 word)) OR (if d AND 4 \<noteq> 0 then 4 else 0)
      OR (if d AND 2 \<noteq> 0 then 2 else 0) OR (if d AND 1 \<noteq> 0 then 1 else 0) = d AND (NOT (mask (DRTAG dc)) OR mask 3)"
    (is "?l = ?r")
  proof (rule bit_word_eqI)
    fix k assume k: "k < LENGTH(32)"
    have t: "bit (d AND 4) j = (j = 2 \<and> bit d 2)" "(d AND 4 \<noteq> 0) = bit d 2" for j
      using and_exp_eq_0_iff_not_bit [of d 2] by (auto simp: bit_simps bit_4 bit_4_int)
    have o: "(d AND 2 \<noteq> 0) = bit d 1" "(d AND 1 \<noteq> 0) = bit d 0"
      using and_exp_eq_0_iff_not_bit [of d 1] and_exp_eq_0_iff_not_bit [of d 0] by auto
    have R: "9 \<le> DRTAG dc" "DRTAG dc \<le> 13" using g by (auto simp: dc_geom_def)
    have "bit (push_bit (DRTAG dc) (ucast (ucast (dtag dc d) :: 23 word) :: u32)) k \<longleftrightarrow> DRTAG dc \<le> k \<and> bit d k"
      using k R by (auto simp: dtag_fits [OF g] bit_simps dtag_def bit_getFieldValue LTAG_def)
    moreover have "k < 3 \<longleftrightarrow> k = 0 \<or> k = 1 \<or> k = 2" by auto
    ultimately show "bit ?l k \<longleftrightarrow> bit ?r k"
      unfolding t(2) o using k R by (auto simp: bit_simps bit_4 bit_4_int bit_2_iff bit_1_iff)
  qed
  show ?thesis
    using l no_dline_iff [OF g, of addr] assms(2)
    by (simp add: writeDcacheTag_def readDcacheTag_def Let_def dentry_def way_if b split del: if_split)
qed

lemma debug_read_law:
  assumes "dc_inv n dc m" "cacheable n a"
  shows "debug_dCacheRead dc m a = Some (dc_view dc m a)"
proof -
  have g: "dc_geom dc" and sz: "CM_SIZE m = n" using assms(1) by (simp_all add: dc_inv_def)
  have p: "plain_word n a" and al: "word_align a = a"
    using cacheable_plain [OF assms(2)] assms(2) by (simp_all add: cacheable_def)
  have peek: "cmPeek m a = Some (cm_word m a)" using cmPeek_plain p sz by simp
  show ?thesis
  proof (cases "numOfDcacheEntries dc = -1")
    case True
    then show ?thesis using no_dline_iff [OF g, of a] peek by (simp add: debug_dCacheRead_def dc_view_def)
  next
    case False
    note c = inv_cached [OF assms(1) False dentry_ok [OF g False, of a]]
    have "unat (getFieldValue a (DINDEX_R - 1) 0) = line_offset a" by (simp add: line_offset_def al)
    moreover have "length (set_line (dSet (D dc ! unat (dindex dc a)) w)) = 16" for w
      using c(5) by (simp add: entry_ok_def set_ok_def)
    ultimately show ?thesis
      using no_dline_iff [OF g, of a] False c(6) peek line_offset_cases [of a]
      by (auto simp: debug_dCacheRead_def dc_view_def Let_def line_word_def split: option.split)
  qed
qed

text \<open>A concrete memory of 64 KB and an empty 1 KB data cache and instruction cache.\<close>

definition mem64k :: cmem where
  "mem64k = \<lparr>CM_SIZE = 0x10000, commonMemory = (\<lambda>_. 0), scratchMemory = (\<lambda>_. 0), startingAddress = 0x10000,
     currentAddress = 0x10000, inputBuffer = [], iBufferReadIndex = 0, stdin = [], stdout = [],
     syscall_handler = None\<rparr>"

definition no_dcache :: dcache where
  "no_dcache = \<lparr>D = [], numOfDcacheEntries = -1, DINDEX_L = 11, DRTAG = 12, dCacheLineSize = 16, dSizeK = 0,
     currentDSize = 0, dcache_reads = 0, dcache_writes = 0, dcache_read_misses = 0, dcache_write_misses = 0,
     dcache_read_misses_causing_wb = 0, dcache_write_misses_causing_wb = 0\<rparr>"

definition dcache1k :: dcache where
  "dcache1k = snd (the (dcacheInit no_dcache 1))"

definition no_icache :: icache where
  "no_icache = \<lparr>I = [], numOfIcacheEntries = -1, IINDEX_L = 11, IINDEX_R = 3, IRTAG = 12, iCacheLineSize = 8,
     iSizeK = 0, currentISize = 0\<rparr>"

definition icache1k :: icache where
  "icache1k = snd (the (icacheInit pico no_icache 1))"

lemma dcache1k_init: "dcacheInit no_dcache 1 = Some (DSV_SUCCESS, dcache1k)"
  by (simp add: dcache1k_def dcacheInit_def Let_def)

lemma icache1k_init: "icacheInit pico no_icache 1 = Some (DSV_SUCCESS, icache1k)"
  by (simp add: icache1k_def icacheInit_def Let_def)

lemma dcache1k_inv: "dc_inv 0x10000 dcache1k mem64k"
  using dcacheInit_law [OF dcache1k_init, of mem64k 0] by (simp add: mem64k_def)

lemma dcache1k_entries [simp]: "numOfDcacheEntries dcache1k = 32"
  by (simp add: dcache1k_def dcacheInit_def Let_def)

lemma icache1k_ok: "ic_ok icache1k"
  by (rule icacheInit_ok [OF icache1k_init])

lemma cacheable_examples: "cacheable 0x10000 0x100" "cacheable 0x10000 0x508" "cacheable 0x10000 0x904"
  by (simp_all add: cacheable_def line_ok_def plain_word_def aligned_def line_addr_def cm_consts)

end
