(* ===== verification/Cache_Properties.thy ===== *)
theory Cache_Properties
  imports Cache_Maintenance
begin

text \<open>
  The properties of the memory hierarchy (ldr/src/cm.c and cache/src/cache.c), each with a
  witness on a memory of 64 KB with 1 KB caches where it has hypotheses.
\<close>

text \<open>
  Property C20: the data cache is transparent. Any sequence of word loads and stores at cacheable
  addresses, run through dCacheRead and dCacheWrite with their write-backs and line fills, always
  completes, returns the words a flat memory would return, and ends in a state that satisfies the
  invariant and shows what the flat memory would hold.
\<close>

theorem dcache_transparent:
  assumes "dc_inv n dc m" "\<forall>x\<in>set xs. cacheable n (access_addr x)"
  shows "\<exists>dc' m'. run_accesses dc_load dc_store (dc, m) xs =
      Some (fst (run_flat (dc_view dc m) xs), (dc', m')) \<and> dc_inv n dc' m' \<and>
    (\<forall>b. cacheable n b \<longrightarrow> dc_view dc' m' b = snd (run_flat (dc_view dc m) xs) b)"
  using dcs.run_accesses_flat [where n = n and s = "(dc, m)" and xs = xs] assms by auto

text \<open>Three lines of the 1 KB cache that share the index 16, so that one is written back.\<close>

lemma dcache_transparent_witness:
  "\<exists>s'. run_accesses dc_load dc_store (dcache1k, mem64k)
     [Store 0x100 1, Store 0x508 2, Store 0x904 3, Load 0x100, Load 0x508, Load 0x904] =
   Some ([1, 2, 3], s')"
  using dcache_transparent [of "0x10000" dcache1k mem64k
      "[Store 0x100 1, Store 0x508 2, Store 0x904 3, Load 0x100, Load 0x508, Load 0x904]"]
    dcache1k_inv cacheable_examples
  by auto

text \<open>
  Property C37: the code path for self-modifying code. After storing a word and flushing its line
  (cacheFlush with both caches enabled), the instruction fetch of that address returns the word.
\<close>

theorem store_flush_fetch:
  assumes "dc_inv n dc m" "numOfDcacheEntries dc \<noteq> -1" "ic_ok ic" "cacheable n a"
  shows "\<exists>dc1 m1 dc2 ic2 m2 ic3. dCacheWrite dc m a d 2 = Some (DSV_SUCCESS, dc1, m1) \<and>
    cacheFlush True True dc1 ic m1 a incr = Some (DSV_SUCCESS, a + incr, dc2, ic2, m2) \<and>
    iCacheRead ic2 m2 a data = Some (DSV_SUCCESS, d, ic3, m2)"
proof -
  have al: "aligned a" using assms(4) by (simp add: cacheable_def)
  obtain dc1 m1 where w: "dCacheWrite dc m a d 2 = Some (DSV_SUCCESS, dc1, m1)" "dc_inv n dc1 m1"
    "dc_view dc1 m1 a = d"
    using dCacheWrite_law [OF assms(1,4), of d] al by auto
  have n1: "numOfDcacheEntries dc1 \<noteq> -1"
    using dCacheWrite_entries [OF assms(1,4,2) w(1)] .
  obtain ic2 where f: "ICacheFlush True ic a = Some ic2" "ic_ok ic2"
    "numOfIcacheEntries ic2 \<noteq> -1 \<longrightarrow> \<not> ent_valid (I ic2 ! unat (iindex ic2 a))"
    using ICacheFlush_ok [OF assms(3), of a] by auto
  obtain dc2 m2 where c: "cacheFlush True True dc1 ic m1 a incr = Some (DSV_SUCCESS, a + incr, dc2, ic2, m2)"
    "unseen n dc1 m1 dc2 m2" "cm_word m2 a = d"
    using cacheFlush_law [OF w(2) n1 f(1), of incr] al w(3) by auto
  have "CM_SIZE m2 = n" using c(2) by (simp add: unseen_def dc_inv_def)
  then show ?thesis
    using w(1) c(1,3) iCacheRead_invalid [OF f(2), of m2 a data] assms(4) f(3) by auto
qed

lemma store_flush_fetch_witness:
  "\<exists>dc1 m1 dc2 ic2 m2 ic3. dCacheWrite dcache1k mem64k 0x508 0xCAFEBABE 2 = Some (DSV_SUCCESS, dc1, m1) \<and>
    cacheFlush True True dc1 icache1k m1 0x508 16 = Some (DSV_SUCCESS, 0x508 + 16, dc2, ic2, m2) \<and>
    iCacheRead ic2 m2 0x508 0 = Some (DSV_SUCCESS, 0xCAFEBABE, ic3, m2)"
  by (rule store_flush_fetch [OF dcache1k_inv _ icache1k_ok cacheable_examples(2)]) simp

text \<open>
  DCacheZeroLine makes the 16 bytes of the line read as zero and leaves every other
  address as it was, although it never reads the line from memory; a dirty victim is written back.
\<close>

lemma zero_line_zeroes:
  assumes "dc_inv n dc m" "numOfDcacheEntries dc \<noteq> -1" "cacheable n c"
  shows "\<exists>dc' m'. dCacheZeroLine dc m c = Some (DSV_SUCCESS, dc', m') \<and> dc_inv n dc' m' \<and>
    (\<forall>a. aligned a \<longrightarrow> dc_view dc' m' a = (if line_addr 4 a = line_addr 4 c then 0 else dc_view dc m a))"
  by (rule dCacheZeroLine_law [OF assms])

lemma zero_line_zeroes_witness:
  "\<exists>dc' m'. dCacheZeroLine dcache1k mem64k 0x100 = Some (DSV_SUCCESS, dc', m') \<and> dc_inv 0x10000 dc' m' \<and>
    (\<forall>a. aligned a \<longrightarrow> dc_view dc' m' a =
       (if line_addr 4 a = line_addr 4 0x100 then 0 else dc_view dcache1k mem64k a))"
  by (rule zero_line_zeroes [OF dcache1k_inv _ cacheable_examples(1)]) simp

text \<open>
  dcacheInit establishes the invariant for every size it accepts, and the fresh
  cache shows exactly the contents of the memory.
\<close>

theorem dcacheInit_establishes:
  assumes "dcacheInit dc dSize = Some (DSV_SUCCESS, dc')"
  shows "dc_inv (CM_SIZE m) dc' m \<and> (\<forall>a. dc_view dc' m a = cm_word m a)"
  using dcacheInit_law [OF assms] by blast

lemma dcacheInit_establishes_witness:
  "dc_inv (CM_SIZE mem64k) dcache1k mem64k \<and> (\<forall>a. dc_view dcache1k mem64k a = cm_word mem64k a)"
  by (rule dcacheInit_establishes [OF dcache1k_init])

text \<open>
  Invalidating a line (cacheInvalidate) discards it without a write back: the line's
  addresses read as the memory has them, every other address as before, and no memory changes.
\<close>

theorem invalidate_uncovers_memory:
  assumes "dc_inv n dc m" "numOfDcacheEntries dc \<noteq> -1" "ic_ok ic"
  shows "\<exists>dc' ic'. cacheInvalidate True ice dc ic c incr = Some (DSV_SUCCESS, c + incr, dc', ic') \<and>
    dc_inv n dc' m \<and>
    (\<forall>a. aligned a \<longrightarrow> dc_view dc' m a = (if line_addr 4 a = line_addr 4 c then cm_word m a else dc_view dc m a))"
  by (rule cacheInvalidate_law [OF assms])

lemma invalidate_uncovers_memory_witness:
  "\<exists>dc' ic'. cacheInvalidate True False dcache1k icache1k 0x100 4 = Some (DSV_SUCCESS, 0x100 + 4, dc', ic') \<and>
    dc_inv 0x10000 dc' mem64k \<and>
    (\<forall>a. aligned a \<longrightarrow> dc_view dc' mem64k a =
       (if line_addr 4 a = line_addr 4 0x100 then cm_word mem64k a else dc_view dcache1k mem64k a))"
  by (rule invalidate_uncovers_memory [OF dcache1k_inv _ icache1k_ok]) simp

text \<open>
  The diagnostic tag registers are faithful: after writeDcacheTag, readDcacheTag at
  the same address returns the tag bits and the valid, dirty and lru bits that were written.
\<close>

theorem dcache_tag_roundtrip:
  assumes "dc_inv n dc m" "numOfDcacheEntries dc \<noteq> -1"
  shows "\<exists>dc'. writeDcacheTag dc addr d = Some (DSV_SUCCESS, dc') \<and>
    readDcacheTag dc' addr data = Some (DSV_SUCCESS, d AND (NOT (mask (DRTAG dc)) OR mask 3))"
  by (rule tag_roundtrip_law [OF assms])

lemma dcache_tag_roundtrip_witness:
  "\<exists>dc'. writeDcacheTag dcache1k 0x80000100 0xABCDEF07 = Some (DSV_SUCCESS, dc') \<and>
    readDcacheTag dc' 0x80000100 0 = Some (DSV_SUCCESS, 0xABCDEF07 AND (NOT (mask (DRTAG dcache1k)) OR mask 3))"
  by (rule dcache_tag_roundtrip [OF dcache1k_inv]) simp

text \<open>
  The debugger's non-intrusive read returns what the program sees, for every aligned
  word in the cache and every plain word of memory.
\<close>

theorem debug_read_is_view:
  assumes "dc_inv n dc m" "cacheable n a"
  shows "debug_dCacheRead dc m a = Some (dc_view dc m a)"
  by (rule debug_read_law [OF assms])

lemma debug_read_is_view_witness:
  "debug_dCacheRead dcache1k mem64k 0x508 = Some (dc_view dcache1k mem64k 0x508)"
  by (rule debug_read_is_view [OF dcache1k_inv cacheable_examples(2)])

end
