(* ===== verification/Dribbler.thy ===== *)
theory Dribbler
  imports Memory_Port Cache_Properties
begin

text \<open>
  The stack cache is transparent: stack\_word is the word a variable access (type V) sees, in the
  stack cache where it covers the address and through the data port elsewhere. The spill and fill
  loops move words between the two without changing what is seen, and vUpdateGR of optop keeps
  every word that stays on the stack, over all four cases of vUpdateSCache.
\<close>

definition stack_word :: "machine \<Rightarrow> u32 \<Rightarrow> u32" where
  "stack_word s a = (if scache_hit s a then sCacheMem s (sc_index a) else mem_view s a)"

text \<open>A stack area of cacheable words that leaves room for arithmetic on addresses.\<close>

definition stack_area :: "u32 \<Rightarrow> u32 \<Rightarrow> u32 \<Rightarrow> bool" where
  "stack_area n lo hi \<longleftrightarrow> 512 \<le> unat lo \<and> unat hi < 2 ^ 30 \<and> (\<forall>a. aligned a \<longrightarrow> lo \<le> a \<longrightarrow> a \<le> hi \<longrightarrow> cacheable n a)"

text \<open>The part of the state that the dribbler's loops neither read nor change.\<close>

definition dribbles :: "machine \<Rightarrow> machine \<Rightarrow> bool" where
  "dribbles s s' \<longleftrightarrow> (\<exists>d m b x y z. s' = s\<lparr>scBottom := b, sc_bottom_min := x, sc_bottom_max := y, sCacheMem := z, dc := d, cm := m\<rparr>)"

lemma dribbles_refl [simp]: "dribbles s s"
proof -
  have "s = s\<lparr>scBottom := scBottom s, sc_bottom_min := sc_bottom_min s, sc_bottom_max := sc_bottom_max s,
      sCacheMem := sCacheMem s, dc := dc s, cm := cm s\<rparr>" by (cases s) simp
  then show ?thesis unfolding dribbles_def by blast
qed

lemma dribbles_trans: "dribbles s t \<Longrightarrow> dribbles t u \<Longrightarrow> dribbles s u"
proof -
  assume "dribbles s t" "dribbles t u"
  then obtain d1 m1 b1 x1 y1 z1 d2 m2 b2 x2 y2 z2 where
    "t = s\<lparr>scBottom := b1, sc_bottom_min := x1, sc_bottom_max := y1, sCacheMem := z1, dc := d1, cm := m1\<rparr>"
    "u = t\<lparr>scBottom := b2, sc_bottom_min := x2, sc_bottom_max := y2, sCacheMem := z2, dc := d2, cm := m2\<rparr>"
    unfolding dribbles_def by blast
  then have "u = s\<lparr>scBottom := b2, sc_bottom_min := x2, sc_bottom_max := y2, sCacheMem := z2, dc := d2, cm := m2\<rparr>"
    by simp
  then show ?thesis unfolding dribbles_def by blast
qed

lemma dribbles_fields:
  assumes "dribbles s s'"
  shows "optop s' = optop s" "psr s' = psr s" "pc s' = pc s" "vars s' = vars s" "frame s' = frame s"
    "flag_return_opcode s' = flag_return_opcode s" "ias_scache s' = ias_scache s" "exc s' = exc s"
    "oplim s' = oplim s" "const_pool s' = const_pool s"
  using assms by (auto simp: dribbles_def)

lemma same_outside_dribbles: "same_outside s s' \<Longrightarrow> dribbles s s'"
proof -
  assume "same_outside s s'"
  then obtain d m where "s' = s\<lparr>dc := d, cm := m\<rparr>" unfolding same_outside_def by blast
  moreover have "s\<lparr>dc := d, cm := m\<rparr> = s\<lparr>scBottom := scBottom s, sc_bottom_min := sc_bottom_min s,
      sc_bottom_max := sc_bottom_max s, sCacheMem := sCacheMem s, dc := d, cm := m\<rparr>" by (cases s) simp
  ultimately show ?thesis unfolding dribbles_def by blast
qed

lemma update_sc_bottom_props:
  "scBottom (update_sc_bottom s v) = v" "sCacheMem (update_sc_bottom s v) = sCacheMem s"
  "mem_view (update_sc_bottom s v) = mem_view s" "mem_inv n (update_sc_bottom s v) = mem_inv n s"
  "quiet (update_sc_bottom s v) = quiet s"
  by (auto simp: update_sc_bottom_def Let_def mem_view_def mem_inv_def dc_on_def CHK_PSR_DCE_def quiet_def)

lemma update_sc_bottom_dribbles: "dribbles s (update_sc_bottom s v)"
proof -
  have "update_sc_bottom s v = s\<lparr>scBottom := v, sc_bottom_min := sc_bottom_min (update_sc_bottom s v),
      sc_bottom_max := sc_bottom_max (update_sc_bottom s v), sCacheMem := sCacheMem s, dc := dc s, cm := cm s\<rparr>"
    by (cases s) (simp add: update_sc_bottom_def Let_def)
  then show ?thesis unfolding dribbles_def by blast
qed

section \<open>Arithmetic of stack addresses\<close>

lemma aligned_dvd: "aligned a \<longleftrightarrow> 4 dvd unat a"
proof -
  have "aligned a \<longleftrightarrow> take_bit 2 a = 0" by (simp add: aligned_def take_bit_eq_mask mask_eq_exp_minus_1)
  also have "\<dots> \<longleftrightarrow> unat (take_bit 2 a) = 0" by (simp add: unat_eq_0)
  also have "\<dots> \<longleftrightarrow> 4 dvd unat a" by (simp add: unsigned_take_bit_eq take_bit_eq_mod unat_mod mod_eq_0_iff_dvd)
  finally show ?thesis .
qed

lemma unat_minus_small: "unat (b :: u32) \<le> unat a \<Longrightarrow> unat (a - b) = unat a - unat b"
  by (simp add: unat_sub word_le_nat_alt)

lemma unat_plus_small: "unat (a :: u32) + unat b < 2 ^ 32 \<Longrightarrow> unat (a + b) = unat a + unat b"
  by (simp add: unat_word_ariths)

lemma scache_hit_unat:
  assumes "256 \<le> unat (scBottom s)"
  shows "scache_hit s a \<longleftrightarrow> unat a \<le> unat (scBottom s) \<and> unat (scBottom s) < unat a + 256"
  using assms unat_minus_small [of 256 "scBottom s"]
  by (auto simp: scache_hit_def word_le_nat_alt word_less_nat_alt)

lemma unat_sc_index: "unat (sc_index a) = unat a div 4 mod 64"
  by (simp add: sc_index_def unsigned_ucast_eq unsigned_drop_bit_eq drop_bit_eq_div take_bit_eq_mod unat_div)

lemma mod_window:
  assumes "x mod 64 = y mod 64" "x \<le> y" "y < x + 64"
  shows "x = (y :: nat)"
proof -
  have "64 dvd y - x" using assms(1,2) mod_eq_dvd_iff_nat [of x y 64] by simp
  moreover have "y - x < 64" using assms(3) by linarith
  ultimately have "y - x = 0" by (meson dvd_imp_le not_le not_gr_zero)
  then show ?thesis using assms(2) by simp
qed

lemma sc_index_inject:
  assumes "aligned a" "aligned b" "unat a \<le> unat b" "unat b < unat a + 256" "sc_index a = sc_index b"
  shows "a = b"
proof -
  have "unat a div 4 mod 64 = unat b div 4 mod 64" using assms(5) unat_sc_index by metis
  moreover have "unat b div 4 < unat a div 4 + 64" "unat a div 4 \<le> unat b div 4"
    using assms(1-4) by (auto simp: aligned_dvd dvd_def)
  ultimately have "unat a div 4 = unat b div 4"
    by (metis mod_window)
  then have "unat a = unat b" using assms(1,2) by (auto simp: aligned_dvd dvd_def)
  then show ?thesis by (simp add: word_unat_eq_iff)
qed

section \<open>The loops\<close>

lemma spill_step:
  assumes "quiet s" "mem_inv n s" "cacheable n (scBottom s)"
  shows "\<exists>s'. WRITE_WORD s (scBottom s) acc_D (sCacheMem s (sc_index (scBottom s))) = Some s' \<and>
    same_outside s s' \<and> quiet s' \<and> mem_inv n s' \<and>
    (\<forall>b. aligned b \<longrightarrow> mem_view s' b = (if b = scBottom s then sCacheMem s (sc_index (scBottom s)) else mem_view s b))"
  using port_store_law [OF assms, of acc_D] by (simp add: port_acc_def WRITE_WORD_def)

lemma same_outside_fields:
  "same_outside s s' \<Longrightarrow> scBottom s' = scBottom s \<and> sCacheMem s' = sCacheMem s \<and> optop s' = optop s"
  by (auto simp: same_outside_def)

text \<open>One entry moved down to memory: every word above the window's lower end keeps its value.\<close>

lemma stack_word_spill:
  assumes "aligned a" "aligned (scBottom s)" "260 \<le> unat (scBottom s)" "unat (scBottom s) < unat a + 256"
    "scBottom s' = scBottom s - 4" "sCacheMem s' = sCacheMem s"
    "mem_view s' a = (if a = scBottom s then sCacheMem s (sc_index (scBottom s)) else mem_view s a)"
  shows "stack_word s' a = stack_word s a"
proof -
  have b: "unat (scBottom s') = unat (scBottom s) - 4"
    using assms(3,5) unat_minus_small [of 4 "scBottom s"] by simp
  have hit: "scache_hit s a \<longleftrightarrow> unat a \<le> unat (scBottom s)" using assms(3,4) by (simp add: scache_hit_unat)
  have hit': "scache_hit s' a \<longleftrightarrow> unat a \<le> unat (scBottom s) - 4"
    using assms(3,4) b by (auto simp: scache_hit_unat)
  show ?thesis
  proof (cases "a = scBottom s")
    case True
    then show ?thesis using hit hit' assms(3,6,7) by (simp add: stack_word_def)
  next
    case False
    then have "unat a \<noteq> unat (scBottom s)" by (simp add: word_unat_eq_iff)
    then have "unat a \<le> unat (scBottom s) - 4 \<longleftrightarrow> unat a \<le> unat (scBottom s)"
      using assms(1,2) by (auto simp: aligned_dvd dvd_def)
    then show ?thesis using hit hit' assms(6,7) False by (simp add: stack_word_def)
  qed
qed

lemma aligned_minus_4: "aligned a \<Longrightarrow> 4 \<le> unat a \<Longrightarrow> aligned (a - 4)"
  using unat_minus_small [of 4 a] by (auto simp: aligned_dvd dvd_diff_nat)

lemma aligned_plus_4: "aligned a \<Longrightarrow> unat a < 2 ^ 31 \<Longrightarrow> aligned (a + 4) \<and> unat (a + 4) = unat a + 4"
  using unat_plus_small [of a 4] by (auto simp: aligned_dvd)

lemma spill_loop_law:
  assumes "quiet s" "mem_inv n s" "aligned (scBottom s)" "stack_area n lo hi" "scBottom s \<le> hi"
    "unat lo + 4 * k \<le> unat (scBottom s)"
  shows "\<exists>s'. spill_loop k s = Some s' \<and> dribbles s s' \<and> quiet s' \<and> mem_inv n s' \<and> aligned (scBottom s') \<and>
    unat (scBottom s') = unat (scBottom s) - 4 * k \<and>
    (\<forall>a. aligned a \<longrightarrow> unat (scBottom s) < unat a + 256 \<longrightarrow> stack_word s' a = stack_word s a) \<and>
    (\<forall>a. aligned a \<longrightarrow> a < lo \<longrightarrow> mem_view s' a = mem_view s a)"
  using assms
proof (induction k arbitrary: s)
  case 0
  then show ?case by simp
next
  case (Suc k)
  have lo: "512 \<le> unat lo" and hi: "unat hi < 2 ^ 30" using Suc.prems(4) by (simp_all add: stack_area_def)
  have "lo \<le> scBottom s" using Suc.prems(6) by (simp add: word_le_nat_alt)
  then have "cacheable n (scBottom s)" using Suc.prems(3-5) by (simp add: stack_area_def)
  from spill_step [OF Suc.prems(1,2) this] obtain s1 where
    1: "WRITE_WORD s (scBottom s) acc_D (sCacheMem s (sc_index (scBottom s))) = Some s1" "same_outside s s1"
    "quiet s1" "mem_inv n s1"
    "\<forall>b. aligned b \<longrightarrow> mem_view s1 b = (if b = scBottom s then sCacheMem s (sc_index (scBottom s)) else mem_view s b)"
    by blast
  let ?s2 = "update_sc_bottom s1 (scBottom s1 - 4)"
  have f: "scBottom s1 = scBottom s" "sCacheMem s1 = sCacheMem s" using same_outside_fields [OF 1(2)] by auto
  have d2: "dribbles s ?s2"
    using dribbles_trans [OF same_outside_dribbles [OF 1(2)] update_sc_bottom_dribbles] .
  have b2: "scBottom ?s2 = scBottom s - 4" "unat (scBottom s - 4) = unat (scBottom s) - 4"
    using Suc.prems(6) lo unat_minus_small [of 4 "scBottom s"] by (simp_all add: update_sc_bottom_props f)
  have w2: "stack_word ?s2 a = stack_word s a" if "aligned a" "unat (scBottom s) < unat a + 256" for a
    using stack_word_spill [of a s ?s2] that Suc.prems(3,6) lo b2(1) 1(5) f by (simp add: update_sc_bottom_props)
  have m2: "mem_view ?s2 a = mem_view s a" if "aligned a" "a < lo" for a
    using that \<open>lo \<le> scBottom s\<close> 1(5) by (auto simp: update_sc_bottom_props)
  have "\<exists>s'. spill_loop k ?s2 = Some s' \<and> dribbles ?s2 s' \<and> quiet s' \<and> mem_inv n s' \<and> aligned (scBottom s') \<and>
    unat (scBottom s') = unat (scBottom ?s2) - 4 * k \<and>
    (\<forall>a. aligned a \<longrightarrow> unat (scBottom ?s2) < unat a + 256 \<longrightarrow> stack_word s' a = stack_word ?s2 a) \<and>
    (\<forall>a. aligned a \<longrightarrow> a < lo \<longrightarrow> mem_view s' a = mem_view ?s2 a)"
  proof (rule Suc.IH)
    show "quiet ?s2" "mem_inv n ?s2" using 1 by (simp_all add: update_sc_bottom_props)
    show "aligned (scBottom ?s2)" using Suc.prems(3,6) lo by (simp add: b2(1) aligned_minus_4)
    show "scBottom ?s2 \<le> hi" using Suc.prems(5) b2 by (simp add: word_le_nat_alt)
    show "unat lo + 4 * k \<le> unat (scBottom ?s2)" using Suc.prems(6) b2 by simp
  qed (rule Suc.prems(4))
  then obtain s' where 3: "spill_loop k ?s2 = Some s'" "dribbles ?s2 s'" "quiet s'" "mem_inv n s'" "aligned (scBottom s')"
    "unat (scBottom s') = unat (scBottom ?s2) - 4 * k"
    "\<forall>a. aligned a \<longrightarrow> unat (scBottom ?s2) < unat a + 256 \<longrightarrow> stack_word s' a = stack_word ?s2 a"
    "\<forall>a. aligned a \<longrightarrow> a < lo \<longrightarrow> mem_view s' a = mem_view ?s2 a"
    by blast
  have "spill_loop (Suc k) s = Some s'" using 1(1) 3(1) by simp
  moreover have "stack_word s' a = stack_word s a" if "aligned a" "unat (scBottom s) < unat a + 256" for a
    using 3(7) w2 [OF that] that b2 by simp
  moreover have "mem_view s' a = mem_view s a" if "aligned a" "a < lo" for a
    using 3(8) m2 that by simp
  ultimately show ?case using 3(2-6) b2 dribbles_trans [OF d2 3(2)] by auto
qed

text \<open>One entry read in at the new bottom.\<close>

lemma stack_word_fill:
  assumes "aligned a" "aligned (scBottom s)" "256 \<le> unat (scBottom s)" "unat (scBottom s) < 2 ^ 30"
    "unat (scBottom s) + 4 < unat a + 256" "scBottom s' = scBottom s + 4"
    "sCacheMem s' = (sCacheMem s)(sc_index (scBottom s + 4) := mem_view s (scBottom s + 4))"
    "mem_view s' a = mem_view s a"
  shows "stack_word s' a = stack_word s a"
proof -
  have b: "aligned (scBottom s + 4)" "unat (scBottom s + 4) = unat (scBottom s) + 4"
    using aligned_plus_4 [OF assms(2)] assms(4) by auto
  have hit: "scache_hit s a \<longleftrightarrow> unat a \<le> unat (scBottom s)" using assms(3,5) by (auto simp: scache_hit_unat)
  have hit': "scache_hit s' a \<longleftrightarrow> unat a \<le> unat (scBottom s) + 4"
    using assms(3,5,6) b by (auto simp: scache_hit_unat)
  show ?thesis
  proof (cases "a = scBottom s + 4")
    case True
    then show ?thesis using hit hit' b assms(7) by (simp add: stack_word_def)
  next
    case False
    then have ne: "unat a \<noteq> unat (scBottom s) + 4" using b(2) by (auto simp: word_unat_eq_iff)
    then have "unat a \<le> unat (scBottom s) + 4 \<longleftrightarrow> unat a \<le> unat (scBottom s)"
      using assms(1,2) by (auto simp: aligned_dvd dvd_def)
    moreover have "sc_index a \<noteq> sc_index (scBottom s + 4)" if "unat a \<le> unat (scBottom s)"
      using sc_index_inject [OF assms(1) b(1)] that assms(5) b(2) False by auto
    ultimately show ?thesis using hit hit' assms(7,8) by (simp add: stack_word_def)
  qed
qed

lemma fill_loop_law:
  assumes "quiet s" "mem_inv n s" "aligned (scBottom s)" "stack_area n lo hi" "lo \<le> scBottom s"
    "unat (scBottom s) + 4 * k \<le> unat hi"
  shows "\<exists>s'. fill_loop k s = Some s' \<and> dribbles s s' \<and> quiet s' \<and> mem_inv n s' \<and> aligned (scBottom s') \<and>
    unat (scBottom s') = unat (scBottom s) + 4 * k \<and>
    (\<forall>a. aligned a \<longrightarrow> unat (scBottom s) + 4 * k < unat a + 256 \<longrightarrow> stack_word s' a = stack_word s a) \<and>
    (\<forall>a. aligned a \<longrightarrow> mem_view s' a = mem_view s a)"
  using assms
proof (induction k arbitrary: s)
  case 0
  then show ?case by simp
next
  case (Suc k)
  have lo: "512 \<le> unat lo" and hi: "unat hi < 2 ^ 30" using Suc.prems(4) by (simp_all add: stack_area_def)
  have sb: "512 \<le> unat (scBottom s)" "unat (scBottom s) < 2 ^ 30"
    using Suc.prems(5,6) lo hi by (simp_all add: word_le_nat_alt)
  have b: "aligned (scBottom s + 4)" "unat (scBottom s + 4) = unat (scBottom s) + 4"
    using aligned_plus_4 [OF Suc.prems(3)] sb by auto
  let ?s1 = "update_sc_bottom s (scBottom s + 4)"
  have "lo \<le> scBottom s + 4" "scBottom s + 4 \<le> hi" using Suc.prems(5,6) b by (simp_all add: word_le_nat_alt)
  then have "cacheable n (scBottom s + 4)" using Suc.prems(4) b(1) by (simp add: stack_area_def)
  then obtain s2 where
    1: "READ_WORD ?s1 (scBottom s + 4) acc_D = Some (mem_view s (scBottom s + 4), s2)" "same_outside ?s1 s2"
    "quiet s2" "mem_inv n s2" "\<forall>b. aligned b \<longrightarrow> mem_view s2 b = mem_view s b"
    using READ_WORD_port [of ?s1 n "scBottom s + 4" acc_D] Suc.prems(1,2)
    by (auto simp: update_sc_bottom_props port_acc_def)
  let ?s3 = "s2\<lparr>sCacheMem := (sCacheMem s2)(sc_index (scBottom s2) := mem_view s (scBottom s + 4))\<rparr>"
  have f: "scBottom s2 = scBottom s + 4" "sCacheMem s2 = sCacheMem s"
    using same_outside_fields [OF 1(2)] by (auto simp: update_sc_bottom_props)
  have d: "dribbles s ?s3"
  proof -
    have "dribbles s2 ?s3"
      unfolding dribbles_def by (rule exI [of _ "dc s2"], rule exI [of _ "cm s2"], rule exI [of _ "scBottom s2"],
        rule exI [of _ "sc_bottom_min s2"], rule exI [of _ "sc_bottom_max s2"]) (cases s2; auto)
    then show ?thesis
      using dribbles_trans [OF dribbles_trans [OF update_sc_bottom_dribbles same_outside_dribbles [OF 1(2)]]] by blast
  qed
  have s3: "quiet ?s3" "mem_inv n ?s3" "mem_view ?s3 = mem_view s2" "scBottom ?s3 = scBottom s + 4"
    "sCacheMem ?s3 = (sCacheMem s)(sc_index (scBottom s + 4) := mem_view s (scBottom s + 4))"
    using 1(3,4) f by (auto simp: quiet_def mem_inv_def mem_view_def dc_on_def CHK_PSR_DCE_def)
  have w3: "stack_word ?s3 a = stack_word s a" if "aligned a" "unat (scBottom s) + 4 < unat a + 256" for a
    using stack_word_fill [of a s ?s3] that Suc.prems(3) sb s3 1(5) by simp
  have "\<exists>s'. fill_loop k ?s3 = Some s' \<and> dribbles ?s3 s' \<and> quiet s' \<and> mem_inv n s' \<and> aligned (scBottom s') \<and>
    unat (scBottom s') = unat (scBottom ?s3) + 4 * k \<and>
    (\<forall>a. aligned a \<longrightarrow> unat (scBottom ?s3) + 4 * k < unat a + 256 \<longrightarrow> stack_word s' a = stack_word ?s3 a) \<and>
    (\<forall>a. aligned a \<longrightarrow> mem_view s' a = mem_view ?s3 a)"
  proof (rule Suc.IH)
    show "aligned (scBottom ?s3)" using b s3(4) by simp
    show "lo \<le> scBottom ?s3" using Suc.prems(5) b s3(4) by (simp add: word_le_nat_alt)
    show "unat (scBottom ?s3) + 4 * k \<le> unat hi" using Suc.prems(6) b s3(4) by simp
  qed (use s3 Suc.prems(4) in auto)
  then obtain s' where 3: "fill_loop k ?s3 = Some s'" "dribbles ?s3 s'" "quiet s'" "mem_inv n s'" "aligned (scBottom s')"
    "unat (scBottom s') = unat (scBottom ?s3) + 4 * k"
    "\<forall>a. aligned a \<longrightarrow> unat (scBottom ?s3) + 4 * k < unat a + 256 \<longrightarrow> stack_word s' a = stack_word ?s3 a"
    "\<forall>a. aligned a \<longrightarrow> mem_view s' a = mem_view ?s3 a"
    by blast
  have "fill_loop (Suc k) s = Some s'" using 1(1) 3(1) by (simp add: update_sc_bottom_props)
  moreover have "stack_word s' a = stack_word s a"
    if "aligned a" "unat (scBottom s) + 4 * Suc k < unat a + 256" for a
    using 3(7) w3 [OF that(1)] that b s3(4) by simp
  moreover have "mem_view s' a = mem_view s a" if "aligned a" for a
    using 3(8) s3(3) 1(5) that by simp
  ultimately show ?case using 3(2-6) b s3(4) dribbles_trans [OF d 3(2)] by auto
qed

section \<open>Moving the top of the stack\<close>

definition stack_ok :: "u32 \<Rightarrow> u32 \<Rightarrow> u32 \<Rightarrow> machine \<Rightarrow> bool" where
  "stack_ok n lo hi s \<longleftrightarrow> quiet s \<and> mem_inv n s \<and> stack_area n lo hi \<and> aligned (optop s) \<and> aligned (scBottom s) \<and>
     lo \<le> optop s \<and> optop s \<le> scBottom s \<and> unat (scBottom s) \<le> unat (optop s) + 256 \<and> scBottom s \<le> hi \<and>
     ias_scache s \<and> psr s AND 0x80 \<noteq> 0 \<and> 0 < fill_mark s"

lemma sint_diff_small:
  assumes "unat a < 2 ^ 30" "unat (b :: u32) < 2 ^ 30"
  shows "sint (a - b) = int (unat a) - int (unat b)"
proof -
  have s: "sint w = int (unat w)" if "unat w < 2 ^ 30" for w :: u32
  proof -
    have "take_bit 30 w = w" by (rule take_bit_small) (rule that)
    then have "bit w 31 \<longleftrightarrow> bit (take_bit 30 w) 31" by simp
    then have "\<not> bit w 31" by (simp add: bit_simps)
    moreover have "take_bit 31 (uint w) = uint w"
    proof (rule take_bit_int_eq_self)
      have "w < 1073741824" using that by (simp add: word_less_nat_alt)
      then show "uint w < 2 ^ 31" by (simp add: word_less_def)
    qed simp
    ultimately show ?thesis by (simp add: sint_uint signed_take_bit_eq_if_positive bit_simps)
  qed
  have "sint (a - b) = signed_take_bit 31 (sint a - sint b)" by (simp add: sint_word_diff)
  moreover have "signed_take_bit 31 (int x - int y) = int x - int y" if "x < 2 ^ 30" "y < 2 ^ 30" for x y :: nat
    by (rule signed_take_bit_int_eq_self) (use that in simp_all)
  ultimately show ?thesis by (simp only: s [OF assms(1)] s [OF assms(2)] assms)
qed

lemma nValidEntries_nat:
  assumes "unat (optop s) < 2 ^ 30" "unat (scBottom s) < 2 ^ 30" "aligned (optop s)" "aligned (scBottom s)"
  shows "4 * nValidEntries s = int (unat (scBottom s)) - int (unat (optop s))"
proof -
  obtain x where x: "unat (scBottom s) = 4 * x" using assms(4) by (auto simp: aligned_dvd dvd_def)
  obtain y where y: "unat (optop s) = 4 * y" using assms(3) by (auto simp: aligned_dvd dvd_def)
  have "c_div (int (4 * x) - int (4 * y)) 4 = int x - int y"
  proof (cases "y \<le> x")
    case True
    then show ?thesis by (subst c_div_nonneg) auto
  next
    case False
    then show ?thesis by (subst c_div_neg) auto
  qed
  then show ?thesis using sint_diff_small [OF assms(2,1)] by (simp add: nValidEntries_def x y)
qed

lemma marks_bound: "fill_mark s \<le> 56" "spill_mark s \<le> 56"
proof -
  have "unat (take_bit 3 w) \<le> 7" for w :: u32
    using take_bit_nat_less_exp [of 3 "unat w"] by (simp add: unsigned_take_bit_eq)
  then show "fill_mark s \<le> 56" "spill_mark s \<le> 56"
    by (simp_all add: fill_mark_def spill_mark_def field_def)
qed

lemma dribbles_marks: "dribbles s s' \<Longrightarrow> fill_mark s' = fill_mark s \<and> spill_mark s' = spill_mark s"
  by (simp add: fill_mark_def spill_mark_def dribbles_fields)

text \<open>What vUpdateSCache does once optop has its new value; old is the value before.\<close>

text \<open>Overflow and underflow first empty the stack cache, or forget it on a return.\<close>

lemma empty_law:
  assumes "quiet s" "mem_inv n s" "stack_area n lo hi" "aligned (scBottom s)" "aligned old"
    "lo \<le> old" "old \<le> scBottom s" "unat (scBottom s) \<le> unat old + 256" "scBottom s \<le> hi"
    "\<not> flush \<Longrightarrow> scBottom s < optop s"
  shows "\<exists>s1. (if flush then
        (let k = unat (scBottom s - old) div 4 in if 64 < k then None else spill_loop k s)
      else Some s) = Some s1 \<and> dribbles s s1 \<and> quiet s1 \<and> mem_inv n s1 \<and>
    (\<forall>a. aligned a \<longrightarrow> unat old < unat a \<longrightarrow> unat (optop s) < unat a \<longrightarrow> mem_view s1 a = stack_word s a) \<and>
    (\<forall>a. aligned a \<longrightarrow> a < lo \<longrightarrow> mem_view s1 a = mem_view s a)"
proof -
  have lo: "512 \<le> unat lo" using assms(3) by (simp add: stack_area_def)
  note le = assms(6,7,9) [unfolded word_le_nat_alt]
  show ?thesis
  proof (cases flush)
    case False
    have "mem_view s a = stack_word s a" if "unat (optop s) < unat a" for a
    proof -
      have "\<not> a \<le> scBottom s" using that assms(10) [OF False] by (simp add: word_le_nat_alt word_less_nat_alt)
      then show ?thesis by (simp add: stack_word_def scache_hit_def)
    qed
    then show ?thesis using False assms(1,2) by auto
  next
    case True
    define k where "k = unat (scBottom s - old) div 4"
    have d: "unat (scBottom s - old) = unat (scBottom s) - unat old" using le by (intro unat_minus_small)
    then have k: "4 * k = unat (scBottom s) - unat old"
      using assms(4,5) by (auto simp: k_def aligned_dvd dvd_diff_nat)
    then have "k \<le> 64" "unat lo + 4 * k \<le> unat (scBottom s)" using assms(8) le by linarith+
    obtain s1 where s1: "spill_loop k s = Some s1" "dribbles s s1" "quiet s1" "mem_inv n s1"
      "unat (scBottom s1) = unat (scBottom s) - 4 * k"
      "\<forall>a. aligned a \<longrightarrow> unat (scBottom s) < unat a + 256 \<longrightarrow> stack_word s1 a = stack_word s a"
      "\<forall>a. aligned a \<longrightarrow> a < lo \<longrightarrow> mem_view s1 a = mem_view s a"
      using spill_loop_law [OF assms(1,2,4,3,9) \<open>unat lo + 4 * k \<le> unat (scBottom s)\<close>] by blast
    have "mem_view s1 a = stack_word s a" if "aligned a" "unat old < unat a" for a
    proof -
      have "unat (scBottom s1) < unat a" using s1(5) k le that(2) by linarith
      then have "\<not> a \<le> scBottom s1" by (simp add: word_le_nat_alt)
      then have "stack_word s1 a = mem_view s1 a" by (simp add: stack_word_def scache_hit_def)
      moreover have "unat (scBottom s) < unat a + 256" using assms(8) that(2) by linarith
      ultimately show ?thesis using s1(6) that(1) by simp
    qed
    then show ?thesis using True s1 \<open>k \<le> 64\<close> by (auto simp: k_def [symmetric] Let_def)
  qed
qed

lemma refill_law:
  assumes "quiet s1" "mem_inv n s1" "stack_area n lo hi" "aligned (optop s1)" "lo \<le> optop s1"
    "unat (optop s1) + 4 * k \<le> unat hi" "k \<le> 56"
  shows "\<exists>s'. fill_loop k (update_sc_bottom s1 (optop s1)) = Some s' \<and> dribbles s1 s' \<and> quiet s' \<and> mem_inv n s' \<and>
    aligned (scBottom s') \<and> unat (scBottom s') = unat (optop s1) + 4 * k \<and>
    (\<forall>a. aligned a \<longrightarrow> unat (optop s1) < unat a \<longrightarrow> stack_word s' a = mem_view s1 a) \<and>
    (\<forall>a. aligned a \<longrightarrow> mem_view s' a = mem_view s1 a)"
proof -
  let ?s2 = "update_sc_bottom s1 (optop s1)"
  obtain s' where s': "fill_loop k ?s2 = Some s'" "dribbles ?s2 s'" "quiet s'" "mem_inv n s'" "aligned (scBottom s')"
    "unat (scBottom s') = unat (optop s1) + 4 * k"
    "\<forall>a. aligned a \<longrightarrow> unat (optop s1) + 4 * k < unat a + 256 \<longrightarrow> stack_word s' a = stack_word ?s2 a"
    "\<forall>a. aligned a \<longrightarrow> mem_view s' a = mem_view s1 a"
    using fill_loop_law [of ?s2 n lo hi k] assms by (auto simp: update_sc_bottom_props)
  have "stack_word s' a = mem_view s1 a" if "aligned a" "unat (optop s1) < unat a" for a
  proof -
    have "unat (optop s1) + 4 * k < unat a + 256" using that(2) assms(7) by linarith
    moreover have "\<not> a \<le> optop s1" using that(2) by (simp add: word_le_nat_alt)
    then have "stack_word ?s2 a = mem_view s1 a"
      by (simp add: stack_word_def scache_hit_def update_sc_bottom_props)
    ultimately show ?thesis using s'(7) that(1) by simp
  qed
  then show ?thesis using s' dribbles_trans [OF update_sc_bottom_dribbles s'(2)] by blast
qed

lemma vUpdateSCache_law:
  assumes "quiet s" "mem_inv n s" "stack_area n lo hi" "aligned (optop s)" "aligned (scBottom s)" "aligned old"
    "lo \<le> optop s" "unat (optop s) + 4 * fill_mark s \<le> unat hi" "lo \<le> old" "old \<le> scBottom s"
    "unat (scBottom s) \<le> unat old + 256" "scBottom s \<le> hi" "psr s AND 0x80 \<noteq> 0" "0 < fill_mark s"
  shows "\<exists>s'. vUpdateSCache s old = Some s' \<and> dribbles s s' \<and> quiet s' \<and> mem_inv n s' \<and> aligned (scBottom s') \<and>
    scBottom s' \<le> hi \<and> optop s \<le> scBottom s' \<and> int (min (fill_mark s) (spill_mark s)) \<le> nValidEntries s' \<and>
    nValidEntries s' \<le> int (max (fill_mark s) (spill_mark s)) \<and>
    (\<forall>a. aligned a \<longrightarrow> unat old < unat a \<or> unat (scBottom s) \<le> unat (optop s) + 256 \<longrightarrow>
       unat (optop s) < unat a \<longrightarrow> stack_word s' a = stack_word s a) \<and>
    (\<forall>a. aligned a \<longrightarrow> a < lo \<longrightarrow> mem_view s' a = mem_view s a)"
proof -
  have lo: "512 \<le> unat lo" and hi: "unat hi < 2 ^ 30" using assms(3) by (simp_all add: stack_area_def)
  note le = assms(7,9,10,12) [unfolded word_le_nat_alt]
  have small: "unat (optop s) < 2 ^ 30" "unat (scBottom s) < 2 ^ 30" using assms(8) le hi by linarith+
  note nv = nValidEntries_nat [OF small assms(4,5)]
  have close: ?thesis if "vUpdateSCache s old = Some s'" "dribbles s s'" "quiet s'" "mem_inv n s'" "aligned (scBottom s')"
    "unat (scBottom s') \<le> unat hi" "unat (optop s) + 4 * min (fill_mark s) (spill_mark s) \<le> unat (scBottom s')"
    "unat (scBottom s') \<le> unat (optop s) + 4 * max (fill_mark s) (spill_mark s)"
    "\<forall>a. aligned a \<longrightarrow> unat old < unat a \<or> unat (scBottom s) \<le> unat (optop s) + 256 \<longrightarrow>
       unat (optop s) < unat a \<longrightarrow> stack_word s' a = stack_word s a"
    "\<forall>a. aligned a \<longrightarrow> a < lo \<longrightarrow> mem_view s' a = mem_view s a" for s'
  proof -
    have o: "optop s' = optop s" using dribbles_fields(1) [OF that(2)] .
    have "unat (scBottom s') < 2 ^ 30" using that(6) hi by linarith
    then have "4 * nValidEntries s' = int (unat (scBottom s')) - int (unat (optop s))"
      using nValidEntries_nat [of s'] small(1) assms(4) that(5) o by simp
    moreover have "int (unat (scBottom s')) \<ge> int (unat (optop s)) + 4 * int (min (fill_mark s) (spill_mark s))"
      "int (unat (scBottom s')) \<le> int (unat (optop s)) + 4 * int (max (fill_mark s) (spill_mark s))"
      using that(7,8) by linarith+
    ultimately have "int (min (fill_mark s) (spill_mark s)) \<le> nValidEntries s'"
      "nValidEntries s' \<le> int (max (fill_mark s) (spill_mark s))" by linarith+
    then show ?thesis using that by (auto simp: word_le_nat_alt)
  qed
  show ?thesis
  proof (cases "64 < nValidEntries s \<or> nValidEntries s < 0")
    case True
    let ?flush = "64 < nValidEntries s \<or> (nValidEntries s < 0 \<and> \<not> flag_return_opcode s)"
    have "scBottom s < optop s" if "\<not> ?flush"
    proof -
      have "nValidEntries s < 0" using that True by auto
      then have "unat (scBottom s) < unat (optop s)" using nv by linarith
      then show ?thesis by (simp add: word_less_nat_alt)
    qed
    then obtain s1 where s1: "(if ?flush then
        (let k = unat (scBottom s - old) div 4 in if 64 < k then None else spill_loop k s)
      else Some s) = Some s1" "dribbles s s1" "quiet s1" "mem_inv n s1"
      "\<forall>a. aligned a \<longrightarrow> unat old < unat a \<longrightarrow> unat (optop s) < unat a \<longrightarrow> mem_view s1 a = stack_word s a"
      "\<forall>a. aligned a \<longrightarrow> a < lo \<longrightarrow> mem_view s1 a = mem_view s a"
      using empty_law [OF assms(1-3,5,6,9-12), of ?flush] by blast
    have o: "optop s1 = optop s" using dribbles_fields(1) [OF s1(2)] .
    obtain s' where s': "fill_loop (fill_mark s) (update_sc_bottom s1 (optop s1)) = Some s'" "dribbles s1 s'"
      "quiet s'" "mem_inv n s'" "aligned (scBottom s')" "unat (scBottom s') = unat (optop s) + 4 * fill_mark s"
      "\<forall>a. aligned a \<longrightarrow> unat (optop s) < unat a \<longrightarrow> stack_word s' a = mem_view s1 a"
      "\<forall>a. aligned a \<longrightarrow> mem_view s' a = mem_view s1 a"
      using refill_law [OF s1(3,4) assms(3), of "fill_mark s"] assms(4,7,8) marks_bound(1) [of s] o by auto
    have "vUpdateSCache s old = Some s'"
      using assms(13,14) True s1(1) s'(1) by (simp add: vUpdateSCache_def Let_def)
    moreover have "stack_word s' a = stack_word s a"
      if "aligned a" "unat old < unat a \<or> unat (scBottom s) \<le> unat (optop s) + 256" "unat (optop s) < unat a" for a
    proof -
      have "unat old < unat a" using True that(2,3) nv le by linarith
      then show ?thesis using s'(7) s1(5) that(1,3) by simp
    qed
    ultimately show ?thesis
      using s'(3-6,8) s1(6) assms(8) dribbles_trans [OF s1(2) s'(2)] by (intro close [of s']) auto
  next
    case False
    then have n: "nValidEntries s = int (nat (nValidEntries s))" by simp
    define v where "v = nat (nValidEntries s)"
    have v: "nValidEntries s = int v" "v \<le> 64" using False n by (auto simp: v_def)
    then have sb: "unat (scBottom s) = unat (optop s) + 4 * v" using nv by linarith
    have win: "unat (scBottom s) < unat a + 256" if "unat (optop s) < unat a" for a
      using that sb v(2) by linarith
    consider (fill) "v < fill_mark s" | (spill) "fill_mark s \<le> v" "spill_mark s < v"
      | (none) "fill_mark s \<le> v" "v \<le> spill_mark s" by linarith
    then show ?thesis
    proof cases
      case fill
      have "unat (scBottom s) + 4 * (fill_mark s - v) \<le> unat hi" "lo \<le> scBottom s"
        using sb fill assms(8) le by (simp_all add: word_le_nat_alt)
      then obtain s' where s': "fill_loop (fill_mark s - v) s = Some s'" "dribbles s s'" "quiet s'" "mem_inv n s'"
        "aligned (scBottom s')" "unat (scBottom s') = unat (scBottom s) + 4 * (fill_mark s - v)"
        "\<forall>a. aligned a \<longrightarrow> unat (scBottom s) + 4 * (fill_mark s - v) < unat a + 256 \<longrightarrow> stack_word s' a = stack_word s a"
        "\<forall>a. aligned a \<longrightarrow> mem_view s' a = mem_view s a"
        using fill_loop_law [OF assms(1,2,5,3)] by blast
      have "unat (scBottom s) + 4 * (fill_mark s - v) < unat a + 256" if "unat (optop s) < unat a" for a
        using that sb fill marks_bound(1) [of s] by linarith
      moreover have "vUpdateSCache s old = Some s'"
        using assms(13,14) fill s'(1) v by (simp add: vUpdateSCache_def Let_def)
      ultimately show ?thesis using s' sb fill assms(8) by (intro close) auto
    next
      case spill
      have "unat lo + 4 * (v - spill_mark s) \<le> unat (scBottom s)" using sb le by linarith
      then obtain s' where s': "spill_loop (v - spill_mark s) s = Some s'" "dribbles s s'" "quiet s'" "mem_inv n s'"
        "aligned (scBottom s')" "unat (scBottom s') = unat (scBottom s) - 4 * (v - spill_mark s)"
        "\<forall>a. aligned a \<longrightarrow> unat (scBottom s) < unat a + 256 \<longrightarrow> stack_word s' a = stack_word s a"
        "\<forall>a. aligned a \<longrightarrow> a < lo \<longrightarrow> mem_view s' a = mem_view s a"
        using spill_loop_law [OF assms(1,2,5,3,12)] by blast
      moreover have "vUpdateSCache s old = Some s'"
        using assms(13,14) spill s'(1) v by (simp add: vUpdateSCache_def Let_def)
      moreover have "unat (scBottom s') \<le> unat hi" "unat (optop s) + 4 * spill_mark s = unat (scBottom s')"
        using s'(6) sb spill le by linarith+
      ultimately show ?thesis using win by (intro close) auto
    next
      case none
      have "vUpdateSCache s old = Some s"
        using assms(13,14) none v by (simp add: vUpdateSCache_def Let_def)
      then show ?thesis using assms(1,2,5) le sb none by (intro close) auto
    qed
  qed
qed

lemma set_optop_law:
  assumes "stack_ok n lo hi s" "aligned v" "lo \<le> v" "unat v + 4 * fill_mark s \<le> unat hi" "\<not> oplim_violated s v"
  shows "\<exists>s'. set_optop s v = Some s' \<and> stack_ok n lo hi s' \<and> optop s' = v \<and> dribbles (s\<lparr>optop := v\<rparr>) s' \<and>
    int (min (fill_mark s) (spill_mark s)) \<le> nValidEntries s' \<and>
    nValidEntries s' \<le> int (max (fill_mark s) (spill_mark s)) \<and>
    (\<forall>a. aligned a \<longrightarrow> unat (optop s) < unat a \<or> unat (scBottom s) \<le> unat v + 256 \<longrightarrow> unat v < unat a \<longrightarrow>
       stack_word s' a = stack_word s a) \<and>
    (\<forall>a. aligned a \<longrightarrow> a < lo \<longrightarrow> mem_view s' a = mem_view s a)"
proof -
  let ?t = "s\<lparr>optop := v\<rparr>"
  have so: "quiet s" "mem_inv n s" "stack_area n lo hi" "aligned (optop s)" "aligned (scBottom s)" "lo \<le> optop s"
    "optop s \<le> scBottom s" "unat (scBottom s) \<le> unat (optop s) + 256" "scBottom s \<le> hi" "ias_scache s"
    "psr s AND 0x80 \<noteq> 0" "0 < fill_mark s"
    using assms(1) by (simp_all add: stack_ok_def)
  have t: "quiet ?t" "mem_inv n ?t" "fill_mark ?t = fill_mark s" "spill_mark ?t = spill_mark s"
    "stack_word ?t a = stack_word s a" "mem_view ?t = mem_view s" for a
    using so by (simp_all add: quiet_def mem_inv_def dc_on_def CHK_PSR_DCE_def fill_mark_def spill_mark_def
        stack_word_def scache_hit_def mem_view_def)
  obtain s' where s': "vUpdateSCache ?t (optop s) = Some s'" "dribbles ?t s'" "quiet s'" "mem_inv n s'"
    "aligned (scBottom s')" "scBottom s' \<le> hi" "v \<le> scBottom s'"
    "int (min (fill_mark s) (spill_mark s)) \<le> nValidEntries s'"
    "nValidEntries s' \<le> int (max (fill_mark s) (spill_mark s))"
    "\<forall>a. aligned a \<longrightarrow> unat (optop s) < unat a \<or> unat (scBottom s) \<le> unat v + 256 \<longrightarrow> unat v < unat a \<longrightarrow>
       stack_word s' a = stack_word s a"
    "\<forall>a. aligned a \<longrightarrow> a < lo \<longrightarrow> mem_view s' a = mem_view s a"
    using vUpdateSCache_law [of ?t n lo hi "optop s"] so t assms(2-4) by auto
  have f: "optop s' = v" "psr s' = psr s" "ias_scache s' = ias_scache s"
    using dribbles_fields [OF s'(2)] by simp_all
  have hi: "unat hi < 2 ^ 30" using so(3) by (simp add: stack_area_def)
  have "unat v < 2 ^ 30" "unat (scBottom s') < 2 ^ 30"
    using assms(4) s'(6) hi by (simp_all add: word_le_nat_alt)
  then have "4 * nValidEntries s' = int (unat (scBottom s')) - int (unat v)"
    using nValidEntries_nat [of s'] f(1) assms(2) s'(5) by simp
  moreover have "nValidEntries s' \<le> 56" using s'(9) marks_bound [of s] by linarith
  ultimately have "unat (scBottom s') \<le> unat v + 256" by linarith
  then have "stack_ok n lo hi s'"
    using s' so assms(2,3) f dribbles_marks [OF s'(2)] t(3) by (simp add: stack_ok_def)
  moreover have "set_optop s v = Some s'"
    using so(10,11) assms(5) s'(1) by (simp add: set_optop_def Let_def)
  ultimately show ?thesis using s' f by blast
qed

text \<open>
  Property C21: the stack cache is transparent to a move of the top of stack. Whatever optop
  becomes inside the stack area, the update spills, fills, flushes or refills as needed, keeps
  the stack invariant, leaves the number of cached words between the fill and spill marks,
  every word that is on the stack before and after reads the same, and the memory below the stack
  area is not touched.
\<close>

theorem optop_move_keeps_stack:
  assumes "stack_ok n lo hi s" "aligned v" "lo \<le> v" "unat v + 4 * fill_mark s \<le> unat hi" "\<not> oplim_violated s v"
  shows "\<exists>s'. vUpdateGR s GR_optop v = Some s' \<and> stack_ok n lo hi s' \<and> optop s' = v \<and>
    int (min (fill_mark s) (spill_mark s)) \<le> nValidEntries s' \<and>
    nValidEntries s' \<le> int (max (fill_mark s) (spill_mark s)) \<and>
    (\<forall>a. aligned a \<longrightarrow> optop s < a \<longrightarrow> v < a \<longrightarrow> stack_word s' a = stack_word s a) \<and>
    (\<forall>a. aligned a \<longrightarrow> a < lo \<longrightarrow> mem_view s' a = mem_view s a)"
  using set_optop_law [OF assms] by (auto simp: word_less_nat_alt)

section \<open>Flushing the stack cache\<close>

lemma flush_loop_law:
  assumes "quiet s" "mem_inv n s" "stack_area n lo hi" "aligned a" "lo \<le> a" "unat a + 4 * k \<le> unat hi + 4"
  shows "\<exists>s'. flush_loop k a s = Some s' \<and> same_outside s s' \<and> quiet s' \<and> mem_inv n s' \<and>
    (\<forall>b. aligned b \<longrightarrow> mem_view s' b =
       (if unat a \<le> unat b \<and> unat b < unat a + 4 * k then sCacheMem s (sc_index b) else mem_view s b))"
  using assms
proof (induction k arbitrary: a s)
  case 0
  then show ?case by auto
next
  case (Suc k)
  have hi: "unat hi < 2 ^ 30" using Suc.prems(3) by (simp add: stack_area_def)
  have ahi: "unat a \<le> unat hi" using Suc.prems(6) by simp
  then have "cacheable n a" using Suc.prems(3-5) by (simp add: stack_area_def word_le_nat_alt)
  then obtain s1 where 1: "WRITE_WORD s a acc_D (sCacheMem s (sc_index a)) = Some s1" "same_outside s s1" "quiet s1"
    "mem_inv n s1" "\<forall>b. aligned b \<longrightarrow> mem_view s1 b = (if b = a then sCacheMem s (sc_index a) else mem_view s b)"
    using port_store_law [OF Suc.prems(1,2), of a acc_D] by (auto simp: port_acc_def WRITE_WORD_def)
  have a4: "aligned (a + 4)" "unat (a + 4) = unat a + 4"
    using aligned_plus_4 [OF Suc.prems(4)] ahi hi by auto
  have "lo \<le> a + 4" using Suc.prems(5) a4 by (simp add: word_le_nat_alt)
  then obtain s' where 2: "flush_loop k (a + 4) s1 = Some s'" "same_outside s1 s'" "quiet s'" "mem_inv n s'"
    "\<forall>b. aligned b \<longrightarrow> mem_view s' b = (if unat (a + 4) \<le> unat b \<and> unat b < unat (a + 4) + 4 * k
       then sCacheMem s1 (sc_index b) else mem_view s1 b)"
    using Suc.IH [OF 1(3,4) Suc.prems(3) a4(1)] Suc.prems(6) a4(2) by auto
  have f: "sCacheMem s1 = sCacheMem s" using same_outside_fields [OF 1(2)] by simp
  have "mem_view s' b = (if unat a \<le> unat b \<and> unat b < unat a + 4 * Suc k then sCacheMem s (sc_index b) else mem_view s b)"
    if b: "aligned b" for b
  proof (cases "b = a")
    case True
    then show ?thesis using 1(5) 2(5) b a4(2) f by simp
  next
    case False
    then have "unat b \<noteq> unat a" by (simp add: word_unat_eq_iff)
    then have "unat a \<le> unat b \<longleftrightarrow> unat a + 4 \<le> unat b"
      using b Suc.prems(4) by (auto simp: aligned_dvd dvd_def)
    then show ?thesis using 1(5) 2(5) b a4(2) f False by simp
  qed
  then show ?case using 1(1) 2 same_outside_trans [OF 1(2) 2(2)] by auto
qed

text \<open>
  Property C38: vSCacheFlush makes the memory agree with the stack: afterwards every word of the
  stack, and of everything else, reads through the data port as a variable access reads it.
\<close>

theorem scache_flush_coherent:
  assumes "stack_ok n lo hi s"
  shows "\<exists>s'. vSCacheFlush s = Some s' \<and> stack_ok n lo hi s' \<and>
    (\<forall>a. aligned a \<longrightarrow> optop s < a \<longrightarrow> mem_view s' a = stack_word s a \<and> stack_word s' a = stack_word s a)"
proof -
  have so: "quiet s" "mem_inv n s" "stack_area n lo hi" "aligned (optop s)" "aligned (scBottom s)" "lo \<le> optop s"
    "optop s \<le> scBottom s" "unat (scBottom s) \<le> unat (optop s) + 256" "scBottom s \<le> hi"
    using assms by (simp_all add: stack_ok_def)
  have lh: "512 \<le> unat lo" "unat hi < 2 ^ 30" using so(3) by (simp_all add: stack_area_def)
  note le = so(6,7,9) [unfolded word_le_nat_alt]
  define k where "k = nat (nValidEntries s)"
  have k: "4 * k = unat (scBottom s) - unat (optop s)"
  proof -
    have "4 * nValidEntries s = int (unat (scBottom s)) - int (unat (optop s))"
      using so(4,5) le lh by (intro nValidEntries_nat) linarith+
    then show ?thesis using le unfolding k_def by linarith
  qed
  have a4: "aligned (optop s + 4)" "unat (optop s + 4) = unat (optop s) + 4"
    using aligned_plus_4 [OF so(4)] le lh by auto
  have "lo \<le> optop s + 4" using le a4 by (simp add: word_le_nat_alt)
  then obtain s' where s': "flush_loop k (optop s + 4) s = Some s'" "same_outside s s'" "quiet s'" "mem_inv n s'"
    "\<forall>b. aligned b \<longrightarrow> mem_view s' b = (if unat (optop s + 4) \<le> unat b \<and> unat b < unat (optop s + 4) + 4 * k
       then sCacheMem s (sc_index b) else mem_view s b)"
    using flush_loop_law [OF so(1-3) a4(1), of k] a4(2) k le by auto
  have f: "scBottom s' = scBottom s" "sCacheMem s' = sCacheMem s" "optop s' = optop s" "psr s' = psr s"
    "ias_scache s' = ias_scache s" using s'(2) by (auto simp: same_outside_def)
  have "mem_view s' a = stack_word s a \<and> stack_word s' a = stack_word s a" if a: "aligned a" "optop s < a" for a
  proof -
    have ge: "unat (optop s) + 4 \<le> unat a" using a so(4) by (auto simp: aligned_dvd dvd_def word_less_nat_alt)
    have hit: "scache_hit s a \<longleftrightarrow> unat a \<le> unat (scBottom s)" "scache_hit s' a \<longleftrightarrow> unat a \<le> unat (scBottom s)"
      using le lh ge so(8) f(1) by (auto simp: scache_hit_unat)
    have "unat a < unat (optop s) + 4 + 4 * k \<longleftrightarrow> unat a \<le> unat (scBottom s)"
      using k le a(1) so(5) by (auto simp: aligned_dvd dvd_def)
    then have v: "mem_view s' a = stack_word s a"
      using s'(5) a(1) ge hit(1) a4(2) by (simp add: stack_word_def)
    then show ?thesis using hit f(2) by (simp add: stack_word_def)
  qed
  moreover have "vSCacheFlush s = Some s'" using s'(1) by (simp add: vSCacheFlush_def k_def)
  moreover have "stack_ok n lo hi s'"
    using assms s' f by (simp add: stack_ok_def fill_mark_def)
  ultimately show ?thesis by blast
qed

section \<open>A concrete machine\<close>

lemma line_addr_le: "line_addr r a \<le> a"
proof -
  have "line_addr r a = a AND NOT (mask r)"
    by (rule bit_word_eqI) (auto simp: bit_line_addr bit_simps)
  then show ?thesis by (simp only: word_and_le2)
qed

lemma plain_low:
  assumes "aligned a" "unat a + 3 < 0x10000"
  shows "plain_word 0x10000 a"
proof -
  have "take_bit 16 a = a" by (rule take_bit_small) (use assms(2) in simp)
  then have "bit a 24 \<longleftrightarrow> bit (take_bit 16 a) 24" by simp
  then have "\<not> bit a 24" by (simp add: bit_simps)
  then have "\<not> bit (a OR 0x20000000) 24" by (simp add: bit_simps)
  moreover have "bit CONSOLE_ADDR 24" by (simp add: CONSOLE_ADDR_def)
  ultimately have "a OR 0x20000000 \<noteq> CONSOLE_ADDR" by metis
  moreover have "unat (a + i) = unat a + unat i" if "unat i \<le> 3" for i
    using assms(2) that by (intro unat_plus_small) simp
  then have "unat (a + 1) = unat a + 1" "unat (a + 2) = unat a + 2" "unat (a + 3) = unat a + 3" by simp_all
  ultimately show ?thesis using assms by (simp add: plain_word_def word_less_nat_alt)
qed

lemma cacheable_low:
  assumes "aligned a" "unat a < 0xfff0"
  shows "cacheable 0x10000 a"
proof -
  define b where "b = line_addr 4 a"
  have b: "aligned b" "unat b < 0xfff0"
    using line_addr_le [of 4 a] assms(2) by (simp_all add: b_def line_addr_aligned word_le_nat_alt)
  have step: "aligned (x + 4) \<and> unat (x + 4) = unat x + 4" if "aligned x" "unat x < 0x10000" for x
    using aligned_plus_4 [OF that(1)] that(2) by simp
  have "plain_word 0x10000 b" using plain_low b by simp
  moreover have 4: "aligned (b + 4)" "unat (b + 4) = unat b + 4" using step [of b] b by auto
  moreover have 8: "aligned (b + 4 + 4)" "unat (b + 4 + 4) = unat b + 8" using step [of "b + 4"] b 4 by auto
  moreover have "aligned (b + 4 + 4 + 4)" "unat (b + 4 + 4 + 4) = unat b + 12" using step [of "b + 4 + 4"] b 8 by auto
  ultimately have "line_ok 0x10000 b"
    using plain_low [of "b + 4"] plain_low [of "b + 4 + 4"] plain_low [of "b + 4 + 4 + 4"] b(2)
    by (simp add: line_ok_def add.assoc)
  then show ?thesis using assms(1) by (simp add: cacheable_def b_def)
qed

lemma stack_area_low: "stack_area 0x10000 0x800 0xF000"
  using cacheable_low by (auto simp: stack_area_def word_le_nat_alt)

text \<open>The dribbler on with fill mark 8 and spill mark 48, the data cache on, 8 words cached.\<close>

definition machine0 :: machine where
  "machine0 = \<lparr>pc = 0x100, vars = 0x8000, frame = 0x8000, optop = 0x8000, oplim = 0, const_pool = 0x400,
     psr = 0x310480, trapbase = 0x10000, lockCount = (\<lambda>_. 0), lockAddr = (\<lambda>_. 0), userrange1 = 0, userrange2 = 0,
     gcConfig = 0, brk1a = 0, brk2a = 0, brk12c = 0, versionId = 0, hcr = 0x240000, scBottom = 0x8020,
     global0 = 0, global1 = 0, global2 = 0, global3 = 0, sc_bottom_min = 0x8020, sc_bottom_max = 0x8020,
     bPowerDownState = False, bResetState = False, bNMIState = False, uIRLState = 0, program_exit_code = 0,
     exit_on_warning = False, flag_return_opcode = False, flag_setting_up_trap_frame = False,
     flag_pico_write_brkpt_pending = 0, flag_sim_read_brkpt_pending = False,
     flag_sim_write_brkpt_pending = False, flag_fast_monitors = False, ias_scache = True,
     ias_fpu_present = True, wide_prefix = False, end_of_simulation = False, breakpoint_hit = False,
     proc_type = pico, icount = 0, exc = NO_EXCEPTION,
     saved = \<lparr>sv_pc = 0, sv_vars = 0, sv_frame = 0, sv_optop = 0, sv_const_pool = 0, sv_psr = 0, sv_trapbase = 0,
       sv_userrange1 = 0, sv_userrange2 = 0, sv_scBottom = 0\<rparr>,
     sCacheMem = (\<lambda>_. 0xdeadbeef), cm = mem64k, dc = dcache1k, ic = icache1k, brk = brkpt_table0,
     intr = \<lparr>last_intr_set = -1, next_intr_id = -1,
       intrs = replicate 1000 \<lparr>intr_irl = 0, next_intr_at = 0, intr_enabled = False, is_repeating = False,
         repeat_count = 0\<rparr>, next_sched_intr_icount = -1\<rparr>,
     cnt = \<lparr>checkcast_quick_insns = 0, checkcast_quick_traps = 0, instanceof_quick_insns = 0,
       instanceof_quick_traps = 0, monitorenter_insns = 0, monitorenter_misses = 0, monitorenter_overflows = 0,
       monitorexit_insns = 0, monitorexit_misses = 0, monitorexit_overflows = 0, monitorexit_releases = 0,
       acmp_branches = 0, icmp_branches = 0, lock_enter_hits = (\<lambda>_. 0), lock_exit_hits = (\<lambda>_. 0),
       fast_monitors_saved_the_day = 0, instr_since_last_intr = 0, instr_since_last_trap = 0,
       inlineStats = (\<lambda>_ _. 0)\<rparr>,
     serial = \<lparr>serial_read = None, serial_out = []\<rparr>, once_inited = True, flag_icache_once_inited = True,
     flag_dcache_once_inited = True, ias_boot8 = False, running_under_gdb = False, bInstructionLimit = True,
     nMaxInstructions = 5000000, opc_first_unused_index = 238,
     env_max_instructions = None, env_exit_on_warning = False,
     indet = (\<lambda>_. 0)\<rparr>"

lemma machine0_quiet: "quiet machine0" and machine0_mem: "mem_inv 0x10000 machine0"
  using dcache1k_inv
  by (simp_all add: quiet_def machine0_def brkpt_table0_def field_def mem_inv_def dc_on_def CHK_PSR_DCE_def)

lemma machine0_marks: "fill_mark machine0 = 8" "spill_mark machine0 = 48" "oplim_violated machine0 v = False"
  by (simp_all add: fill_mark_def spill_mark_def field_def machine0_def oplim_violated_def)

lemma machine0_stack: "stack_ok 0x10000 0x800 0xF000 machine0"
  using machine0_quiet machine0_mem stack_area_low machine0_marks(1)
  by (simp add: stack_ok_def) (simp add: machine0_def aligned_def)

text \<open>Pushing a frame of 96 words overflows the stack cache.\<close>

lemma optop_move_keeps_stack_witness:
  "\<exists>s'. vUpdateGR machine0 GR_optop 0x7E80 = Some s' \<and> stack_ok 0x10000 0x800 0xF000 s' \<and> optop s' = 0x7E80 \<and>
    8 \<le> nValidEntries s' \<and> nValidEntries s' \<le> 48"
  using optop_move_keeps_stack [OF machine0_stack, of "0x7E80"]
  by (auto simp: machine0_marks aligned_def)

lemma scache_flush_coherent_witness:
  "\<exists>s'. vSCacheFlush machine0 = Some s' \<and> mem_view s' 0x8020 = 0xdeadbeef"
proof -
  have "stack_word machine0 0x8020 = 0xdeadbeef"
    by (simp add: stack_word_def scache_hit_def machine0_def)
  moreover have "optop machine0 < 0x8020" "aligned 0x8020" by (simp_all add: machine0_def aligned_def)
  ultimately show ?thesis using scache_flush_coherent [OF machine0_stack] by auto
qed

text \<open>
  Property C36: the processor's data port behaves as a flat array of words. Any sequence of
  READ\_WORD and WRITE\_WORD of one cached kind completes without an exception and returns what the
  array would, whether or not the data cache is on.
\<close>

theorem data_port_flat:
  assumes "quiet s" "mem_inv n s" "port_acc c" "\<forall>x\<in>set xs. cacheable n (access_addr x)"
  shows "\<exists>s'. run_accesses (\<lambda>s a. READ_WORD s a c) (\<lambda>s a d. WRITE_WORD s a c d) s xs =
      Some (fst (run_flat (mem_view s) xs), s') \<and> quiet s' \<and> mem_inv n s' \<and>
    (\<forall>b. cacheable n b \<longrightarrow> mem_view s' b = snd (run_flat (mem_view s) xs) b)"
proof -
  have "port_load c = (\<lambda>s a. READ_WORD s a c)" "port_store c = (\<lambda>s a d. WRITE_WORD s a c d)"
    by (simp_all add: fun_eq_iff port_load_def port_store_def)
  then show ?thesis using port.run_accesses_flat [of s n c xs] assms by auto
qed

lemma data_port_flat_witness:
  "\<exists>s'. run_accesses (\<lambda>s a. READ_WORD s a acc_Z) (\<lambda>s a d. WRITE_WORD s a acc_Z d) machine0
     [Store 0x100 7, Store 0x508 9, Load 0x100, Load 0x508] = Some ([7, 9], s')"
  using data_port_flat [OF machine0_quiet machine0_mem, of acc_Z "[Store 0x100 7, Store 0x508 9, Load 0x100, Load 0x508]"]
    cacheable_examples
  by (auto simp: port_acc_def)

end
