(* ===== verification/Pico_Init.thy ===== *)
theory Pico_Init
  imports Stack_Cache
begin

text \<open>
  Power-on and reset, initPico of iam/src/iam.c, and the commands of iam/src/commands.c that
  configure the processor. The environment variables IAS\_MAX\_INSTRUCTIONS and
  PJSIM\_EXIT\_ON\_WARNING are fields of the state; the command words are taken as parsed. The
  host checks of initPico (32-bit, big-endian) hold for the model.
\<close>

section \<open>Initialisation\<close>

definition set_hcr :: "machine \<Rightarrow> nat \<Rightarrow> nat \<Rightarrow> u32 \<Rightarrow> machine" where
  "set_hcr s lo n v = s\<lparr>hcr := set_field (hcr s) lo n v\<rparr>"

definition init_icache :: "machine \<Rightarrow> u32 \<Rightarrow> machine option" where
  "init_icache s n = do { (r, c) \<leftarrow> icacheInit (proc_type s) (ic s) n; Some (s\<lparr>ic := c\<rparr>) }"

definition init_dcache :: "machine \<Rightarrow> u32 \<Rightarrow> machine option" where
  "init_dcache s n = do { (r, c) \<leftarrow> dcacheInit (dc s) n; Some (s\<lparr>dc := c\<rparr>) }"

text \<open>The part that runs once: cache sizes, plug-ins, breakpoints, interrupts, environment.\<close>

definition init_once :: "machine \<Rightarrow> machine option" where
  "init_once s =
     do { let s = set_hcr (set_hcr s 27 3 2) 24 3 (if proc_type s = pico then 1 else 2);
          s \<leftarrow> (if flag_icache_once_inited s then Some s
                else (let n = (if proc_type s = pico then 3 else 5) in init_icache (set_hcr s 18 3 n) n));
          s \<leftarrow> (if flag_dcache_once_inited s then Some s
                else (let n = (if proc_type s = pico then 4 else 5) in init_dcache (set_hcr s 21 3 n) n));
          let s = vSCacheInit s;
          let s = set_hcr s 17 1 (if ias_fpu_present s then 1 else 0);
          let s = set_hcr (set_hcr s 8 9 0) 30 2 0;
          let s = vClearAllExceptions (s\<lparr>intr := intr_init_module (intr s), brk := brkpt_init_module (brk s)\<rparr>);
          let s = (case env_max_instructions s of None \<Rightarrow> s
             | Some n \<Rightarrow> if ll_ltz n then s\<lparr>bInstructionLimit := False\<rparr> else s\<lparr>nMaxInstructions := n\<rparr>);
          let s = (if env_exit_on_warning s then s\<lparr>exit_on_warning := True\<rparr> else s);
          Some (if proc_type s \<noteq> pico \<and> proc_type s \<noteq> maya then s\<lparr>flag_fast_monitors := True\<rparr> else s) }"

definition initPico :: "machine \<Rightarrow> machine option" where
  "initPico s =
     do { let s = s\<lparr>bPowerDownState := False, bNMIState := False, uIRLState := 0,
             sc_bottom_min := 0xffffffff, sc_bottom_max := 0\<rparr>;
          s \<leftarrow> (if once_inited s then Some s else init_once s);
          let s = s\<lparr>vars := 0x3ffffc, oplim := 0, trapbase := 0, frame := 0, const_pool := 0,
             versionId := 0xffffffff, pc := 0, gcConfig := 0, brk12c := 0\<rparr>;
          s \<leftarrow> vUpdateGR s GR_psr 0x20;
          s \<leftarrow> (if ias_boot8 s then vUpdateGR s GR_psr (psr s OR 0x4000) else Some s);
          s \<leftarrow> vUpdateGR s GR_optop 0x3ffffc;
          s \<leftarrow> vUpdateGR s GR_sc_bottom (optop s);
          let s = s\<lparr>ias_scache := True, opc_first_unused_index := (if proc_type s = pico then 238 else 247)\<rparr>;
          let s = set_hcr s 0 8 (if proc_type s = pico then 0x10 else if proc_type s = maya then 0x20 else 0x21);
          Some (s\<lparr>once_inited := True\<rparr>) }"

section \<open>Configuration commands\<close>

text \<open>The code of a cache size in kilobytes; an unknown size keeps the current one.\<close>

definition size_code :: "int \<Rightarrow> u32 option" where
  "size_code k = (if k = 0 then Some 0 else if k = 1 then Some 1 else if k = 2 then Some 2
     else if k = 4 then Some 3 else if k = 8 then Some 4 else if k = 16 then Some 5 else None)"

definition doICacheCmd :: "machine \<Rightarrow> int \<Rightarrow> machine option" where
  "doICacheCmd s isize =
     do { let s = (case size_code isize of None \<Rightarrow> s | Some n \<Rightarrow> set_hcr s 18 3 n);
          s \<leftarrow> init_icache s (hcr_ics (hcr s));
          Some (s\<lparr>flag_icache_once_inited := True\<rparr>) }"

definition doDCacheCmd :: "machine \<Rightarrow> int \<Rightarrow> machine option" where
  "doDCacheCmd s dsize =
     do { let s = (case size_code dsize of None \<Rightarrow> s | Some n \<Rightarrow> set_hcr s 21 3 n);
          s \<leftarrow> init_dcache s (hcr_dcs (hcr s));
          Some (s\<lparr>flag_dcache_once_inited := True\<rparr>) }"

datatype fpu_word = FPU_present | FPU_absent | FPU_other

definition doFPUCmd :: "machine \<Rightarrow> fpu_word \<Rightarrow> machine" where
  "doFPUCmd s w = (case w of FPU_present \<Rightarrow> set_hcr s 17 1 1 | FPU_absent \<Rightarrow> set_hcr s 17 1 0 | FPU_other \<Rightarrow> s)"

definition doSCacheCmd :: "machine \<Rightarrow> bool \<Rightarrow> machine" where
  "doSCacheCmd s on = s\<lparr>ias_scache := on\<rparr>"

text \<open>
  The interrupt pins: level 0 is the non-maskable interrupt. The routine update\_psr of iam.c
  is called when the boot mode changes.
\<close>

definition vSetInterrupt :: "machine \<Rightarrow> u32 \<Rightarrow> machine" where
  "vSetInterrupt s irl = (if 0 < irl then s\<lparr>uIRLState := irl\<rparr> else s\<lparr>bNMIState := True\<rparr>)"

definition update_psr_boot8 :: "machine \<Rightarrow> machine option" where
  "update_psr_boot8 s = (if ias_boot8 s then vUpdateGR s GR_psr (psr s OR 0x4000) else Some s)"

end
