(* ===== verification/Traps.thy ===== *)
theory Traps
  imports Stack_Cache
begin

text \<open>
  Traps, iam/src/traps.c, and the dispatch of the pending exception, iam/src/exception.c. A trap
  pushes PSR, PC, vars and frame, looks its handler up in the trap table at trapbase and enters
  supervisor mode with interrupts off. An instruction that raised an exception is undone by
  restoring the registers that were saved when the first exception was raised.
\<close>

section \<open>Trap types\<close>

abbreviation (input) "async_err \<equiv> 1 :: u32"
abbreviation (input) "mem_prot_err \<equiv> 2 :: u32"
abbreviation (input) "data_acc_mem_err \<equiv> 3 :: u32"
abbreviation (input) "instr_acc_mem_err \<equiv> 4 :: u32"
abbreviation (input) "priv_instr \<equiv> 5 :: u32"
abbreviation (input) "illegal_instr \<equiv> 6 :: u32"
abbreviation (input) "breakpoint1 \<equiv> 7 :: u32"
abbreviation (input) "breakpoint2 \<equiv> 8 :: u32"
abbreviation (input) "mem_addr_not_aligned \<equiv> 9 :: u32"
abbreviation (input) "data_acc_io_err \<equiv> 10 :: u32"
abbreviation (input) "oplim_trap \<equiv> 12 :: u32"
abbreviation (input) "soft_trap \<equiv> 13 :: u32"
abbreviation (input) "arithmetic_excep \<equiv> 22 :: u32"
abbreviation (input) "indexoutofbnds_excep \<equiv> 25 :: u32"
abbreviation (input) "nullptr_excep \<equiv> 27 :: u32"
abbreviation (input) "lock_count_overflow_trap \<equiv> 35 :: u32"
abbreviation (input) "lock_enter_miss_trap \<equiv> 36 :: u32"
abbreviation (input) "lock_release_trap \<equiv> 37 :: u32"
abbreviation (input) "lock_exit_miss_trap \<equiv> 38 :: u32"
abbreviation (input) "gc_notify \<equiv> 39 :: u32"
abbreviation (input) "ZeroLineEmulationTrap \<equiv> 0x29 :: u32"
abbreviation (input) "nmi \<equiv> 0x30 :: u32"
abbreviation (input) "interrupt_level_tt_base \<equiv> 0x31 :: u32"

section \<open>Entering a trap\<close>

text \<open>
  The trap type becomes oplim\_trap when the frame itself would cross the stack limit; the check
  is then switched off.
\<close>

definition redirect_to_oplim :: "machine \<Rightarrow> u32 \<Rightarrow> bool" where
  "redirect_to_oplim s tt \<longleftrightarrow> tt \<noteq> oplim_trap \<and> optop s - 4 * 4 < oplim s AND 0x7FFFFFFF \<and> oplim s AND 0x80000000 \<noteq> 0"

definition set_trapbase :: "machine \<Rightarrow> u32 \<Rightarrow> machine" where
  "set_trapbase s tt = s\<lparr>trapbase := (trapbase s AND 0xfffff800) OR push_bit 3 tt\<rparr>"

definition trap_prologue :: "machine \<Rightarrow> u32 \<Rightarrow> machine" where
  "trap_prologue s tt =
     (let s = s\<lparr>cnt := (cnt s)\<lparr>instr_since_last_trap := 0\<rparr>, flag_setting_up_trap_frame := True\<rparr> in
      if redirect_to_oplim s tt then set_trapbase (s\<lparr>oplim := oplim s AND 0x7fffffff\<rparr>) oplim_trap
      else set_trapbase s tt)"

definition invoke_trap :: "machine \<Rightarrow> u32 \<Rightarrow> machine option" where
  "invoke_trap s tt =
     (let oldpc = pc s; s = trap_prologue s tt in
      do { (newpc, s) \<leftarrow> READ_WORD s (trapbase s) acc_X;
           s \<leftarrow> vUpdateGR s GR_optop (optop s - 4 * 4);
           s \<leftarrow> WRITE_WORD s (OPTOP_OFFSET s 4) acc_T (psr s);
           s \<leftarrow> WRITE_WORD s (OPTOP_OFFSET s 3) acc_T oldpc;
           s \<leftarrow> WRITE_WORD s (OPTOP_OFFSET s 2) acc_T (vars s);
           s \<leftarrow> WRITE_WORD s (OPTOP_OFFSET s 1) acc_T (frame s);
           let s = s\<lparr>pc := newpc, frame := optop s + 4 * 3\<rparr>;
           s \<leftarrow> vUpdateGR s GR_psr (psr s OR 0x20);
           s \<leftarrow> vUpdateGR s GR_psr (psr s AND 0xffffffef);
           Some (s\<lparr>flag_setting_up_trap_frame := False\<rparr>) })"

definition LOW_PRIORITY_TRAP :: "machine \<Rightarrow> u32 \<Rightarrow> machine option" where
  "LOW_PRIORITY_TRAP s tt = (if bAnyExceptionPending s then Some s else invoke_trap s tt)"

section \<open>Dispatching the pending exception\<close>

fun exc_trap :: "ExceptionId \<Rightarrow> u32 option" where
  "exc_trap NO_EXCEPTION = None"
| "exc_trap ASYNC_EXCEPTION = Some async_err"
| "exc_trap MEM_PROT_EXCEPTION = Some mem_prot_err"
| "exc_trap INSTR_ACC_EXCEPTION = Some instr_acc_mem_err"
| "exc_trap ILLEGAL_INSTR_EXCEPTION = Some illegal_instr"
| "exc_trap PRIV_INSTR_EXCEPTION = Some priv_instr"
| "exc_trap OPLIM_EXCEPTION = Some oplim_trap"
| "exc_trap UNALIGNED_EXCEPTION = Some mem_addr_not_aligned"
| "exc_trap DATA_ACC_EXCEPTION = Some data_acc_mem_err"
| "exc_trap IO_ACC_EXCEPTION = Some data_acc_io_err"
| "exc_trap DBR1_EXCEPTION = Some breakpoint1"
| "exc_trap DBR2_EXCEPTION = Some breakpoint2"

definition vDespatchPendingException :: "machine \<Rightarrow> machine option" where
  "vDespatchPendingException s =
     (if exc s = NO_EXCEPTION then Some s
      else (let eid = exc s; s = vClearAllExceptions (restore_saved s) in
        case exc_trap eid of None \<Rightarrow> Some s | Some tt \<Rightarrow> invoke_trap s tt))"

text \<open>A misaligned address raises an exception but does not end the instruction.\<close>

definition CHECK_ADDRESS_ALIGNMENT :: "machine \<Rightarrow> u32 \<Rightarrow> nat \<Rightarrow> machine" where
  "CHECK_ADDRESS_ALIGNMENT s addr data_size =
     (if addr AND mask data_size \<noteq> 0 then vSetupException s UNALIGNED_EXCEPTION else s)"

section \<open>Stack items and the instruction stream\<close>

text \<open>A load into a variable that already holds v, which a failed load leaves alone.\<close>

definition READ_INTO :: "machine \<Rightarrow> u32 \<Rightarrow> acc \<Rightarrow> u32 \<Rightarrow> (u32 \<times> machine) option" where
  "READ_INTO s addr c v = do { (d, s) \<leftarrow> javaMemRead s addr 2 c; Some (case d of Some w \<Rightarrow> w | None \<Rightarrow> v, s) }"

definition COPY_STACK_ITEM :: "machine \<Rightarrow> u32 \<Rightarrow> u32 \<Rightarrow> acc \<Rightarrow> acc \<Rightarrow> machine option" where
  "COPY_STACK_ITEM s dest src dest_type src_type =
     do { (tmp, s) \<leftarrow> READ_WORD s src src_type; WRITE_WORD s dest dest_type tmp }"

definition JUMP_AND_STACK :: "machine \<Rightarrow> u32 \<Rightarrow> u32 \<Rightarrow> machine option" where
  "JUMP_AND_STACK s offset k = vUpdateGR (s\<lparr>pc := pc s + offset\<rparr>) GR_optop (optop s - k * 4)"

text \<open>The signed results of the three stream readers, as words.\<close>

definition IstreamReadByte :: "machine \<Rightarrow> u32 \<Rightarrow> (u8 \<times> machine) option" where
  "IstreamReadByte s addr = get_new_instr s addr"

definition IstreamReadShort :: "machine \<Rightarrow> u32 \<Rightarrow> (u16 \<times> machine) option" where
  "IstreamReadShort s addr =
     do { (byte0, s) \<leftarrow> IstreamReadByte s addr; (byte1, s) \<leftarrow> IstreamReadByte s (addr + 1);
          Some (push_bit 8 (ucast byte0) OR ucast byte1, s) }"

definition IstreamReadWord :: "machine \<Rightarrow> u32 \<Rightarrow> (u32 \<times> machine) option" where
  "IstreamReadWord s addr =
     do { (byte0, s) \<leftarrow> IstreamReadByte s addr; (byte1, s) \<leftarrow> IstreamReadByte s (addr + 1);
          (byte2, s) \<leftarrow> IstreamReadByte s (addr + 2); (byte3, s) \<leftarrow> IstreamReadByte s (addr + 3);
          Some (push_bit 24 (ucast byte0) OR push_bit 16 (ucast byte1) OR push_bit 8 (ucast byte2) OR ucast byte3, s) }"

definition readProgMem :: "machine \<Rightarrow> u32 \<Rightarrow> (u32 \<times> machine) option" where
  "readProgMem s addr = READ_WORD s addr acc_G"

text \<open>Properties of references, object\_ops.h and array\_ops.h.\<close>

abbreviation IS_HANDLE :: "u32 \<Rightarrow> bool" where "IS_HANDLE objref \<equiv> objref AND 1 = 1"
abbreviation IS_NULL_OBJREF :: "u32 \<Rightarrow> bool" where "IS_NULL_OBJREF objref \<equiv> objref = 0"
abbreviation MASK_MV_PTR :: "u32 \<Rightarrow> u32" where "MASK_MV_PTR p \<equiv> p AND 0x3FFFFFF8"
abbreviation MASK_OBJREF :: "u32 \<Rightarrow> u32" where "MASK_OBJREF p \<equiv> p AND 0x3FFFFFFC"
abbreviation IS_LE_ADDRESS :: "u32 \<Rightarrow> bool" where "IS_LE_ADDRESS a \<equiv> a AND 0x40000000 \<noteq> 0"
abbreviation IS_NC_ADDRESS :: "u32 \<Rightarrow> bool" where "IS_NC_ADDRESS a \<equiv> a AND 0x30000000 = 0x30000000"

definition SWAP_SHORT :: "u16 \<Rightarrow> u16" where
  "SWAP_SHORT v = drop_bit 8 v OR push_bit 8 (v AND 0xFF)"

definition SWAP_WORD :: "u32 \<Rightarrow> u32" where
  "SWAP_WORD v = drop_bit 24 v OR push_bit 24 (v AND 0xFF) OR push_bit 8 (v AND 0xFF00) OR drop_bit 8 (v AND 0xFF0000)"

end
