(* ===== verification/Array_Ops.thy ===== *)
theory Array_Ops
  imports Traps
begin

text \<open>
  The array instructions, iam/src/array\_ops.c. An array reference points at the header; the word
  after it, or the word the handle points at, is the length and the elements follow it. The
  checks (null reference, bounds) take their trap at once and end the instruction.
\<close>

definition array_len_mask :: "machine \<Rightarrow> u32" where
  "array_len_mask s = (if proc_type s = pico then 0xFFFFFF else 0xFFFFFFFF)"

definition GET_ARRAY_STORAGE_ADDR :: "machine \<Rightarrow> u32 \<Rightarrow> (u32 \<times> machine) option" where
  "GET_ARRAY_STORAGE_ADDR s ref =
     (let r = ref AND 0x3FFFFFFC in
      if IS_HANDLE ref then READ_WORD s (r + 4) acc_H else Some (r + 4, s))"

text \<open>The length word is masked on pico only; the comparison is signed.\<close>

definition CHECK_ARRAY_BOUNDS :: "machine \<Rightarrow> u32 \<Rightarrow> u32 \<Rightarrow> (bool \<times> machine) option" where
  "CHECK_ARRAY_BOUNDS s arrayStorage i =
     do { (arrayLen, s) \<leftarrow> READ_WORD s arrayStorage acc_M;
          let arrayLen = arrayLen AND array_len_mask s;
          Some (sint i < 0 \<or> sint arrayLen \<le> sint i, s) }"

text \<open>The common head: reference in slot r, index in slot j, then k on storage address and index.\<close>

definition array_element ::
    "machine \<Rightarrow> u32 \<Rightarrow> u32 \<Rightarrow> (u32 \<Rightarrow> u32 \<Rightarrow> machine \<Rightarrow> machine option) \<Rightarrow> machine option" where
  "array_element s r j k =
     do { (arrayRef, s) \<leftarrow> READ_WORD s (OPTOP_OFFSET s r) acc_O;
          if IS_NULL_OBJREF arrayRef then invoke_trap s nullptr_excep
          else
            do { (arrayStorage, s) \<leftarrow> GET_ARRAY_STORAGE_ADDR s arrayRef;
                 (i, s) \<leftarrow> READ_WORD s (OPTOP_OFFSET s j) acc_O;
                 (bad, s) \<leftarrow> CHECK_ARRAY_BOUNDS s arrayStorage i;
                 if bad then invoke_trap s indexoutofbnds_excep else k arrayStorage i s } }"

definition doArrayLength :: "machine \<Rightarrow> machine option" where
  "doArrayLength s =
     do { (arrayRef, s) \<leftarrow> READ_WORD s (OPTOP_OFFSET s 1) acc_O;
          if IS_NULL_OBJREF arrayRef then invoke_trap s nullptr_excep
          else
            do { (arrayStorage, s) \<leftarrow> GET_ARRAY_STORAGE_ADDR s arrayRef;
                 (arrayLen, s) \<leftarrow> READ_WORD s arrayStorage acc_M;
                 s \<leftarrow> WRITE_WORD s (OPTOP_OFFSET s 1) acc_O (arrayLen AND array_len_mask s);
                 SIZE_AND_STACK_RETURN s 1 0 } }"

definition do32bArrayLoad :: "machine \<Rightarrow> machine option" where
  "do32bArrayLoad s = array_element s 2 1 (\<lambda>arrayStorage i s.
     do { (tmp, s) \<leftarrow> READ_WORD s (arrayStorage + (i + 1) * 4) acc_M;
          s \<leftarrow> WRITE_WORD s (OPTOP_OFFSET s 2) acc_O tmp;
          SIZE_AND_STACK_RETURN s 1 (-1) })"

definition do32bArrayStore :: "machine \<Rightarrow> machine option" where
  "do32bArrayStore s = array_element s 3 2 (\<lambda>arrayStorage i s.
     do { (tmp, s) \<leftarrow> READ_WORD s (OPTOP_OFFSET s 1) acc_O;
          s \<leftarrow> WRITE_WORD s (arrayStorage + (i + 1) * 4) acc_M tmp;
          SIZE_AND_STACK_RETURN s 1 (-3) })"

text \<open>The variable tmp keeps the first word when the second load fails.\<close>

definition do64bArrayLoad :: "machine \<Rightarrow> machine option" where
  "do64bArrayLoad s = array_element s 2 1 (\<lambda>arrayStorage i s.
     do { (tmp, s) \<leftarrow> READ_WORD s (arrayStorage + 4 + i * 8) acc_M;
          s \<leftarrow> WRITE_WORD s (OPTOP_OFFSET s 1) acc_O tmp;
          (tmp, s) \<leftarrow> READ_INTO s (arrayStorage + 8 + i * 8) acc_M tmp;
          s \<leftarrow> WRITE_WORD s (OPTOP_OFFSET s 2) acc_O tmp;
          SIZE_AND_STACK_RETURN s 1 0 })"

definition do64bArrayStore :: "machine \<Rightarrow> machine option" where
  "do64bArrayStore s = array_element s 4 3 (\<lambda>arrayStorage i s.
     do { (tmp, s) \<leftarrow> READ_WORD s (OPTOP_OFFSET s 1) acc_O;
          s \<leftarrow> WRITE_WORD s (arrayStorage + 4 + i * 8) acc_M tmp;
          (tmp, s) \<leftarrow> READ_INTO s (OPTOP_OFFSET s 2) acc_O tmp;
          s \<leftarrow> WRITE_WORD s (arrayStorage + 8 + i * 8) acc_M tmp;
          SIZE_AND_STACK_RETURN s 1 (-4) })"

definition doBaload :: "machine \<Rightarrow> machine option" where
  "doBaload s = array_element s 2 1 (\<lambda>arrayStorage i s.
     do { (c, s) \<leftarrow> READ_BYTE s (arrayStorage + 4 + i) acc_M;
          s \<leftarrow> WRITE_WORD s (OPTOP_OFFSET s 2) acc_O (sign_ext c 0);
          SIZE_AND_STACK_RETURN s 1 (-1) })"

definition doBastore :: "machine \<Rightarrow> machine option" where
  "doBastore s = array_element s 3 2 (\<lambda>arrayStorage i s.
     do { (tmp, s) \<leftarrow> READ_WORD s (OPTOP_OFFSET s 1) acc_O;
          s \<leftarrow> WRITE_BYTE s (arrayStorage + 4 + i) acc_M tmp;
          SIZE_AND_STACK_RETURN s 1 (-3) })"

definition doSaload :: "machine \<Rightarrow> machine option" where
  "doSaload s = array_element s 2 1 (\<lambda>arrayStorage i s.
     do { (h, s) \<leftarrow> READ_SHORT s (arrayStorage + 4 + i * 2) acc_M;
          s \<leftarrow> WRITE_WORD s (OPTOP_OFFSET s 2) acc_O (sign_ext h 1);
          SIZE_AND_STACK_RETURN s 1 (-1) })"

definition doSastore :: "machine \<Rightarrow> machine option" where
  "doSastore s = array_element s 3 2 (\<lambda>arrayStorage i s.
     do { (tmp, s) \<leftarrow> READ_WORD s (OPTOP_OFFSET s 1) acc_O;
          s \<leftarrow> WRITE_SHORT s (arrayStorage + 4 + i * 2) acc_M tmp;
          SIZE_AND_STACK_RETURN s 1 (-3) })"

definition doCaload :: "machine \<Rightarrow> machine option" where
  "doCaload s = array_element s 2 1 (\<lambda>arrayStorage i s.
     do { (h, s) \<leftarrow> READ_SHORT s (arrayStorage + 4 + i * 2) acc_M;
          s \<leftarrow> WRITE_WORD s (OPTOP_OFFSET s 2) acc_O (zero_ext h 1);
          SIZE_AND_STACK_RETURN s 1 (-1) })"

definition doCastore :: "machine \<Rightarrow> machine option" where
  "doCastore s = array_element s 3 2 (\<lambda>arrayStorage i s.
     do { (tmp, s) \<leftarrow> READ_WORD s (OPTOP_OFFSET s 1) acc_O;
          s \<leftarrow> WRITE_SHORT s (arrayStorage + 4 + i * 2) acc_M tmp;
          SIZE_AND_STACK_RETURN s 1 (-3) })"

end
