(* ===== verification/Opcodes.thy ===== *)
theory Opcodes
  imports Main
begin

text \<open>
  The numbers of the instructions, iam/src/opcodes.h and iam/src/ext\_ops.h (extended opcodes,
  which follow the prefix opc\_hardware), as abbreviations: they stand for the numeral itself, at the
  width the context gives it.
\<close>

section \<open>Opcodes\<close>

abbreviation (input) "opc_nop \<equiv> 0"
abbreviation (input) "opc_aconst_null \<equiv> 1"
abbreviation (input) "opc_iconst_m1 \<equiv> 2"
abbreviation (input) "opc_iconst_0 \<equiv> 3"
abbreviation (input) "opc_iconst_1 \<equiv> 4"
abbreviation (input) "opc_iconst_2 \<equiv> 5"
abbreviation (input) "opc_iconst_3 \<equiv> 6"
abbreviation (input) "opc_iconst_4 \<equiv> 7"
abbreviation (input) "opc_iconst_5 \<equiv> 8"
abbreviation (input) "opc_lconst_0 \<equiv> 9"
abbreviation (input) "opc_lconst_1 \<equiv> 10"
abbreviation (input) "opc_fconst_0 \<equiv> 11"
abbreviation (input) "opc_fconst_1 \<equiv> 12"
abbreviation (input) "opc_fconst_2 \<equiv> 13"
abbreviation (input) "opc_dconst_0 \<equiv> 14"
abbreviation (input) "opc_dconst_1 \<equiv> 15"
abbreviation (input) "opc_bipush \<equiv> 16"
abbreviation (input) "opc_sipush \<equiv> 17"
abbreviation (input) "opc_ldc \<equiv> 18"
abbreviation (input) "opc_ldc_w \<equiv> 19"
abbreviation (input) "opc_ldc2_w \<equiv> 20"
abbreviation (input) "opc_iload \<equiv> 21"
abbreviation (input) "opc_lload \<equiv> 22"
abbreviation (input) "opc_fload \<equiv> 23"
abbreviation (input) "opc_dload \<equiv> 24"
abbreviation (input) "opc_aload \<equiv> 25"
abbreviation (input) "opc_iload_0 \<equiv> 26"
abbreviation (input) "opc_iload_1 \<equiv> 27"
abbreviation (input) "opc_iload_2 \<equiv> 28"
abbreviation (input) "opc_iload_3 \<equiv> 29"
abbreviation (input) "opc_lload_0 \<equiv> 30"
abbreviation (input) "opc_lload_1 \<equiv> 31"
abbreviation (input) "opc_lload_2 \<equiv> 32"
abbreviation (input) "opc_lload_3 \<equiv> 33"
abbreviation (input) "opc_fload_0 \<equiv> 34"
abbreviation (input) "opc_fload_1 \<equiv> 35"
abbreviation (input) "opc_fload_2 \<equiv> 36"
abbreviation (input) "opc_fload_3 \<equiv> 37"
abbreviation (input) "opc_dload_0 \<equiv> 38"
abbreviation (input) "opc_dload_1 \<equiv> 39"
abbreviation (input) "opc_dload_2 \<equiv> 40"
abbreviation (input) "opc_dload_3 \<equiv> 41"
abbreviation (input) "opc_aload_0 \<equiv> 42"
abbreviation (input) "opc_aload_1 \<equiv> 43"
abbreviation (input) "opc_aload_2 \<equiv> 44"
abbreviation (input) "opc_aload_3 \<equiv> 45"
abbreviation (input) "opc_iaload \<equiv> 46"
abbreviation (input) "opc_laload \<equiv> 47"
abbreviation (input) "opc_faload \<equiv> 48"
abbreviation (input) "opc_daload \<equiv> 49"
abbreviation (input) "opc_aaload \<equiv> 50"
abbreviation (input) "opc_baload \<equiv> 51"
abbreviation (input) "opc_caload \<equiv> 52"
abbreviation (input) "opc_saload \<equiv> 53"
abbreviation (input) "opc_istore \<equiv> 54"
abbreviation (input) "opc_lstore \<equiv> 55"
abbreviation (input) "opc_fstore \<equiv> 56"
abbreviation (input) "opc_dstore \<equiv> 57"
abbreviation (input) "opc_astore \<equiv> 58"
abbreviation (input) "opc_istore_0 \<equiv> 59"
abbreviation (input) "opc_istore_1 \<equiv> 60"
abbreviation (input) "opc_istore_2 \<equiv> 61"
abbreviation (input) "opc_istore_3 \<equiv> 62"
abbreviation (input) "opc_lstore_0 \<equiv> 63"
abbreviation (input) "opc_lstore_1 \<equiv> 64"
abbreviation (input) "opc_lstore_2 \<equiv> 65"
abbreviation (input) "opc_lstore_3 \<equiv> 66"
abbreviation (input) "opc_fstore_0 \<equiv> 67"
abbreviation (input) "opc_fstore_1 \<equiv> 68"
abbreviation (input) "opc_fstore_2 \<equiv> 69"
abbreviation (input) "opc_fstore_3 \<equiv> 70"
abbreviation (input) "opc_dstore_0 \<equiv> 71"
abbreviation (input) "opc_dstore_1 \<equiv> 72"
abbreviation (input) "opc_dstore_2 \<equiv> 73"
abbreviation (input) "opc_dstore_3 \<equiv> 74"
abbreviation (input) "opc_astore_0 \<equiv> 75"
abbreviation (input) "opc_astore_1 \<equiv> 76"
abbreviation (input) "opc_astore_2 \<equiv> 77"
abbreviation (input) "opc_astore_3 \<equiv> 78"
abbreviation (input) "opc_iastore \<equiv> 79"
abbreviation (input) "opc_lastore \<equiv> 80"
abbreviation (input) "opc_fastore \<equiv> 81"
abbreviation (input) "opc_dastore \<equiv> 82"
abbreviation (input) "opc_aastore \<equiv> 83"
abbreviation (input) "opc_bastore \<equiv> 84"
abbreviation (input) "opc_castore \<equiv> 85"
abbreviation (input) "opc_sastore \<equiv> 86"
abbreviation (input) "opc_pop \<equiv> 87"
abbreviation (input) "opc_pop2 \<equiv> 88"
abbreviation (input) "opc_dup \<equiv> 89"
abbreviation (input) "opc_dup_x1 \<equiv> 90"
abbreviation (input) "opc_dup_x2 \<equiv> 91"
abbreviation (input) "opc_dup2 \<equiv> 92"
abbreviation (input) "opc_dup2_x1 \<equiv> 93"
abbreviation (input) "opc_dup2_x2 \<equiv> 94"
abbreviation (input) "opc_swap \<equiv> 95"
abbreviation (input) "opc_iadd \<equiv> 96"
abbreviation (input) "opc_ladd \<equiv> 97"
abbreviation (input) "opc_fadd \<equiv> 98"
abbreviation (input) "opc_dadd \<equiv> 99"
abbreviation (input) "opc_isub \<equiv> 100"
abbreviation (input) "opc_lsub \<equiv> 101"
abbreviation (input) "opc_fsub \<equiv> 102"
abbreviation (input) "opc_dsub \<equiv> 103"
abbreviation (input) "opc_imul \<equiv> 104"
abbreviation (input) "opc_lmul \<equiv> 105"
abbreviation (input) "opc_fmul \<equiv> 106"
abbreviation (input) "opc_dmul \<equiv> 107"
abbreviation (input) "opc_idiv \<equiv> 108"
abbreviation (input) "opc_ldiv \<equiv> 109"
abbreviation (input) "opc_fdiv \<equiv> 110"
abbreviation (input) "opc_ddiv \<equiv> 111"
abbreviation (input) "opc_irem \<equiv> 112"
abbreviation (input) "opc_lrem \<equiv> 113"
abbreviation (input) "opc_frem \<equiv> 114"
abbreviation (input) "opc_drem \<equiv> 115"
abbreviation (input) "opc_ineg \<equiv> 116"
abbreviation (input) "opc_lneg \<equiv> 117"
abbreviation (input) "opc_fneg \<equiv> 118"
abbreviation (input) "opc_dneg \<equiv> 119"
abbreviation (input) "opc_ishl \<equiv> 120"
abbreviation (input) "opc_lshl \<equiv> 121"
abbreviation (input) "opc_ishr \<equiv> 122"
abbreviation (input) "opc_lshr \<equiv> 123"
abbreviation (input) "opc_iushr \<equiv> 124"
abbreviation (input) "opc_lushr \<equiv> 125"
abbreviation (input) "opc_iand \<equiv> 126"
abbreviation (input) "opc_land \<equiv> 127"
abbreviation (input) "opc_ior \<equiv> 128"
abbreviation (input) "opc_lor \<equiv> 129"
abbreviation (input) "opc_ixor \<equiv> 130"
abbreviation (input) "opc_lxor \<equiv> 131"
abbreviation (input) "opc_iinc \<equiv> 132"
abbreviation (input) "opc_i2l \<equiv> 133"
abbreviation (input) "opc_i2f \<equiv> 134"
abbreviation (input) "opc_i2d \<equiv> 135"
abbreviation (input) "opc_l2i \<equiv> 136"
abbreviation (input) "opc_l2f \<equiv> 137"
abbreviation (input) "opc_l2d \<equiv> 138"
abbreviation (input) "opc_f2i \<equiv> 139"
abbreviation (input) "opc_f2l \<equiv> 140"
abbreviation (input) "opc_f2d \<equiv> 141"
abbreviation (input) "opc_d2i \<equiv> 142"
abbreviation (input) "opc_d2l \<equiv> 143"
abbreviation (input) "opc_d2f \<equiv> 144"
abbreviation (input) "opc_int2byte \<equiv> 145"
abbreviation (input) "opc_int2char \<equiv> 146"
abbreviation (input) "opc_int2short \<equiv> 147"
abbreviation (input) "opc_lcmp \<equiv> 148"
abbreviation (input) "opc_fcmpl \<equiv> 149"
abbreviation (input) "opc_fcmpg \<equiv> 150"
abbreviation (input) "opc_dcmpl \<equiv> 151"
abbreviation (input) "opc_dcmpg \<equiv> 152"
abbreviation (input) "opc_ifeq \<equiv> 153"
abbreviation (input) "opc_ifne \<equiv> 154"
abbreviation (input) "opc_iflt \<equiv> 155"
abbreviation (input) "opc_ifge \<equiv> 156"
abbreviation (input) "opc_ifgt \<equiv> 157"
abbreviation (input) "opc_ifle \<equiv> 158"
abbreviation (input) "opc_if_icmpeq \<equiv> 159"
abbreviation (input) "opc_if_icmpne \<equiv> 160"
abbreviation (input) "opc_if_icmplt \<equiv> 161"
abbreviation (input) "opc_if_icmpge \<equiv> 162"
abbreviation (input) "opc_if_icmpgt \<equiv> 163"
abbreviation (input) "opc_if_icmple \<equiv> 164"
abbreviation (input) "opc_if_acmpeq \<equiv> 165"
abbreviation (input) "opc_if_acmpne \<equiv> 166"
abbreviation (input) "opc_goto \<equiv> 167"
abbreviation (input) "opc_jsr \<equiv> 168"
abbreviation (input) "opc_ret \<equiv> 169"
abbreviation (input) "opc_tableswitch \<equiv> 170"
abbreviation (input) "opc_lookupswitch \<equiv> 171"
abbreviation (input) "opc_ireturn \<equiv> 172"
abbreviation (input) "opc_lreturn \<equiv> 173"
abbreviation (input) "opc_freturn \<equiv> 174"
abbreviation (input) "opc_dreturn \<equiv> 175"
abbreviation (input) "opc_areturn \<equiv> 176"
abbreviation (input) "opc_return \<equiv> 177"
abbreviation (input) "opc_getstatic \<equiv> 178"
abbreviation (input) "opc_putstatic \<equiv> 179"
abbreviation (input) "opc_getfield \<equiv> 180"
abbreviation (input) "opc_putfield \<equiv> 181"
abbreviation (input) "opc_invokevirtual \<equiv> 182"
abbreviation (input) "opc_invokespecial \<equiv> 183"
abbreviation (input) "opc_invokestatic \<equiv> 184"
abbreviation (input) "opc_invokeinterface \<equiv> 185"
abbreviation (input) "opc_xxxunusedxxx \<equiv> 186"
abbreviation (input) "opc_new \<equiv> 187"
abbreviation (input) "opc_newarray \<equiv> 188"
abbreviation (input) "opc_anewarray \<equiv> 189"
abbreviation (input) "opc_arraylength \<equiv> 190"
abbreviation (input) "opc_athrow \<equiv> 191"
abbreviation (input) "opc_checkcast \<equiv> 192"
abbreviation (input) "opc_instanceof \<equiv> 193"
abbreviation (input) "opc_monitorenter \<equiv> 194"
abbreviation (input) "opc_monitorexit \<equiv> 195"
abbreviation (input) "opc_wide \<equiv> 196"
abbreviation (input) "opc_multianewarray \<equiv> 197"
abbreviation (input) "opc_ifnull \<equiv> 198"
abbreviation (input) "opc_ifnonnull \<equiv> 199"
abbreviation (input) "opc_goto_w \<equiv> 200"
abbreviation (input) "opc_jsr_w \<equiv> 201"
abbreviation (input) "opc_breakpoint \<equiv> 202"
abbreviation (input) "opc_ldc_quick \<equiv> 203"
abbreviation (input) "opc_ldc_w_quick \<equiv> 204"
abbreviation (input) "opc_ldc2_w_quick \<equiv> 205"
abbreviation (input) "opc_getfield_quick \<equiv> 206"
abbreviation (input) "opc_putfield_quick \<equiv> 207"
abbreviation (input) "opc_getfield2_quick \<equiv> 208"
abbreviation (input) "opc_putfield2_quick \<equiv> 209"
abbreviation (input) "opc_getstatic_quick \<equiv> 210"
abbreviation (input) "opc_putstatic_quick \<equiv> 211"
abbreviation (input) "opc_getstatic2_quick \<equiv> 212"
abbreviation (input) "opc_putstatic2_quick \<equiv> 213"
abbreviation (input) "opc_invokevirtual_quick \<equiv> 214"
abbreviation (input) "opc_invokenonvirtual_quick \<equiv> 215"
abbreviation (input) "opc_invokesuper_quick \<equiv> 216"
abbreviation (input) "opc_invokestatic_quick \<equiv> 217"
abbreviation (input) "opc_invokeinterface_quick \<equiv> 218"
abbreviation (input) "opc_invokevirtualobject_quick \<equiv> 219"
abbreviation (input) "opc_aastore_quick \<equiv> 220"
abbreviation (input) "opc_new_quick \<equiv> 221"
abbreviation (input) "opc_anewarray_quick \<equiv> 222"
abbreviation (input) "opc_multianewarray_quick \<equiv> 223"
abbreviation (input) "opc_checkcast_quick \<equiv> 224"
abbreviation (input) "opc_instanceof_quick \<equiv> 225"
abbreviation (input) "opc_invokevirtual_quick_w \<equiv> 226"
abbreviation (input) "opc_getfield_quick_w \<equiv> 227"
abbreviation (input) "opc_putfield_quick_w \<equiv> 228"
abbreviation (input) "opc_nonnull_quick \<equiv> 229"
abbreviation (input) "opc_agetfield_quick \<equiv> 230"
abbreviation (input) "opc_aputfield_quick \<equiv> 231"
abbreviation (input) "opc_agetstatic_quick \<equiv> 232"
abbreviation (input) "opc_aputstatic_quick \<equiv> 233"
abbreviation (input) "opc_aldc_quick \<equiv> 234"
abbreviation (input) "opc_aldc_w_quick \<equiv> 235"
abbreviation (input) "opc_exit_sync_method \<equiv> 236"
abbreviation (input) "opc_sethi \<equiv> 237"
abbreviation (input) "opc_load_word_index \<equiv> 238"
abbreviation (input) "opc_load_short_index \<equiv> 239"
abbreviation (input) "opc_load_char_index \<equiv> 240"
abbreviation (input) "opc_load_byte_index \<equiv> 241"
abbreviation (input) "opc_load_ubyte_index \<equiv> 242"
abbreviation (input) "opc_store_word_index \<equiv> 243"
abbreviation (input) "opc_nastore_word_index \<equiv> 244"
abbreviation (input) "opc_store_short_index \<equiv> 245"
abbreviation (input) "opc_store_byte_index \<equiv> 246"
abbreviation (input) "opc_hardware \<equiv> 255"

section \<open>Extended opcodes\<close>

abbreviation (input) "opc_load_ubyte \<equiv> 0"
abbreviation (input) "opc_load_byte \<equiv> 1"
abbreviation (input) "opc_load_char \<equiv> 2"
abbreviation (input) "opc_load_short \<equiv> 3"
abbreviation (input) "opc_load_word \<equiv> 4"
abbreviation (input) "opc_load_char_oe \<equiv> 10"
abbreviation (input) "opc_load_short_oe \<equiv> 11"
abbreviation (input) "opc_load_word_oe \<equiv> 12"
abbreviation (input) "opc_ncload_ubyte \<equiv> 16"
abbreviation (input) "opc_ncload_byte \<equiv> 17"
abbreviation (input) "opc_ncload_char \<equiv> 18"
abbreviation (input) "opc_ncload_short \<equiv> 19"
abbreviation (input) "opc_ncload_word \<equiv> 20"
abbreviation (input) "opc_cache_invalidate \<equiv> 23"
abbreviation (input) "opc_ncload_char_oe \<equiv> 26"
abbreviation (input) "opc_ncload_short_oe \<equiv> 27"
abbreviation (input) "opc_ncload_word_oe \<equiv> 28"
abbreviation (input) "opc_store_byte \<equiv> 32"
abbreviation (input) "opc_store_short \<equiv> 34"
abbreviation (input) "opc_store_word \<equiv> 36"
abbreviation (input) "opc_soft_trap \<equiv> 37"
abbreviation (input) "opc_store_short_oe \<equiv> 42"
abbreviation (input) "opc_store_word_oe \<equiv> 44"
abbreviation (input) "opc_ncstore_byte \<equiv> 48"
abbreviation (input) "opc_ncstore_short \<equiv> 50"
abbreviation (input) "opc_ncstore_word \<equiv> 52"
abbreviation (input) "opc_ncstore_short_oe \<equiv> 58"
abbreviation (input) "opc_ncstore_word_oe \<equiv> 60"
abbreviation (input) "opc_priv_reset \<equiv> 54"
abbreviation (input) "opc_get_current_class \<equiv> 55"
abbreviation (input) "opc_priv_powerdown \<equiv> 22"
abbreviation (input) "opc_zero_line \<equiv> 62"
abbreviation (input) "opc_priv_update_optop \<equiv> 63"
abbreviation (input) "opc_cache_flush \<equiv> 30"
abbreviation (input) "opc_cache_index_flush \<equiv> 31"
abbreviation (input) "opc_priv_read_dcache_tag \<equiv> 6"
abbreviation (input) "opc_priv_write_dcache_tag \<equiv> 38"
abbreviation (input) "opc_priv_read_dcache_data \<equiv> 7"
abbreviation (input) "opc_priv_write_dcache_data \<equiv> 39"
abbreviation (input) "opc_priv_read_icache_tag \<equiv> 14"
abbreviation (input) "opc_priv_write_icache_tag \<equiv> 46"
abbreviation (input) "opc_priv_read_icache_data \<equiv> 15"
abbreviation (input) "opc_priv_write_icache_data \<equiv> 47"
abbreviation (input) "opc_priv_ret_from_trap \<equiv> 5"
abbreviation (input) "opc_call \<equiv> 61"
abbreviation (input) "opc_return0 \<equiv> 13"
abbreviation (input) "opc_return1 \<equiv> 29"
abbreviation (input) "opc_return2 \<equiv> 45"
abbreviation (input) "opc_read_pc \<equiv> 64"
abbreviation (input) "opc_read_vars \<equiv> 65"
abbreviation (input) "opc_read_frame \<equiv> 66"
abbreviation (input) "opc_read_optop \<equiv> 67"
abbreviation (input) "opc_priv_read_oplim \<equiv> 68"
abbreviation (input) "opc_read_const_pool \<equiv> 69"
abbreviation (input) "opc_priv_read_psr \<equiv> 70"
abbreviation (input) "opc_priv_read_trapbase \<equiv> 71"
abbreviation (input) "opc_priv_read_lockcount0 \<equiv> 72"
abbreviation (input) "opc_priv_read_lockcount1 \<equiv> 73"
abbreviation (input) "opc_priv_read_lockaddr0 \<equiv> 76"
abbreviation (input) "opc_priv_read_lockaddr1 \<equiv> 77"
abbreviation (input) "opc_priv_read_userrange1 \<equiv> 80"
abbreviation (input) "opc_priv_read_userrange2 \<equiv> 85"
abbreviation (input) "opc_priv_read_gc_config \<equiv> 81"
abbreviation (input) "opc_priv_read_brk1a \<equiv> 82"
abbreviation (input) "opc_priv_read_brk2a \<equiv> 83"
abbreviation (input) "opc_priv_read_brk12c \<equiv> 84"
abbreviation (input) "opc_priv_read_versionid \<equiv> 87"
abbreviation (input) "opc_priv_read_hcr \<equiv> 88"
abbreviation (input) "opc_priv_read_sc_bottom \<equiv> 89"
abbreviation (input) "opc_read_global0 \<equiv> 90"
abbreviation (input) "opc_read_global1 \<equiv> 91"
abbreviation (input) "opc_read_global2 \<equiv> 92"
abbreviation (input) "opc_read_global3 \<equiv> 93"
abbreviation (input) "opc_ret_from_sub \<equiv> 96"
abbreviation (input) "opc_write_pc \<equiv> 96"
abbreviation (input) "opc_write_vars \<equiv> 97"
abbreviation (input) "opc_write_frame \<equiv> 98"
abbreviation (input) "opc_write_optop \<equiv> 99"
abbreviation (input) "opc_priv_write_oplim \<equiv> 100"
abbreviation (input) "opc_write_const_pool \<equiv> 101"
abbreviation (input) "opc_priv_write_psr \<equiv> 102"
abbreviation (input) "opc_priv_write_trapbase \<equiv> 103"
abbreviation (input) "opc_priv_write_lockcount0 \<equiv> 104"
abbreviation (input) "opc_priv_write_lockcount1 \<equiv> 105"
abbreviation (input) "opc_priv_write_lockaddr0 \<equiv> 108"
abbreviation (input) "opc_priv_write_lockaddr1 \<equiv> 109"
abbreviation (input) "opc_priv_write_userrange1 \<equiv> 112"
abbreviation (input) "opc_priv_write_userrange2 \<equiv> 117"
abbreviation (input) "opc_priv_write_gc_config \<equiv> 113"
abbreviation (input) "opc_priv_write_brk1a \<equiv> 114"
abbreviation (input) "opc_priv_write_brk2a \<equiv> 115"
abbreviation (input) "opc_priv_write_brk12c \<equiv> 116"
abbreviation (input) "opc_priv_write_sc_bottom \<equiv> 121"
abbreviation (input) "opc_write_global0 \<equiv> 122"
abbreviation (input) "opc_write_global1 \<equiv> 123"
abbreviation (input) "opc_write_global2 \<equiv> 124"
abbreviation (input) "opc_write_global3 \<equiv> 125"
abbreviation (input) "opc_iucmp \<equiv> 21"

end
