(* ===== verification/Object_Ops.thy ===== *)
theory Object_Ops
  imports Array_Ops Opcodes
begin

text \<open>
  The instructions on objects, fields, methods, constants and locks, iam/src/object\_ops.c. The
  file's static variables hold values between instructions; each is set before it is used, so
  only a failed load exposes an old value, which counts as indeterminate.
\<close>

section \<open>Structures in the simulated memory\<close>

text \<open>Offsets of the fields of decafMethod, decafClass and decafObjectHint (decaf.h).\<close>

abbreviation (input) "m_code \<equiv> 0 :: u32"
abbreviation (input) "m_nlocals \<equiv> 4 :: u32"
abbreviation (input) "m_argsSize \<equiv> 8 :: u32"
abbreviation (input) "m_constpool \<equiv> 28 :: u32"
abbreviation (input) "m_class \<equiv> 32 :: u32"
abbreviation (input) "c_objHintBlk \<equiv> 24 :: u32"
abbreviation (input) "c_superClass \<equiv> 32 :: u32"
abbreviation (input) "h_methods \<equiv> 24 :: u32"

definition CP_OFFSET :: "machine \<Rightarrow> u32 \<Rightarrow> u32" where "CP_OFFSET s n = const_pool s + 4 * n"

definition opByte :: "machine \<Rightarrow> u32 \<Rightarrow> (u32 \<times> machine) option" where
  "opByte s k = do { (b, s) \<leftarrow> IstreamReadByte s (pc s + k); Some (ucast b, s) }"

definition opShort :: "machine \<Rightarrow> u32 \<Rightarrow> (u32 \<times> machine) option" where
  "opShort s k = do { (h, s) \<leftarrow> IstreamReadShort s (pc s + k); Some (ucast h, s) }"

section \<open>The garbage collector's write barrier\<close>

definition gc_trap :: "machine \<Rightarrow> u32 \<Rightarrow> u32 \<Rightarrow> bool" where
  "gc_trap s objref store_data \<longleftrightarrow>
     (let i = drop_bit 28 (objref AND 0xC0000000) OR drop_bit 30 (store_data AND 0xC0000000);
          region = (\<lambda>r. drop_bit 18 (r AND 0x1FFC0000) AND drop_bit 21 (gcConfig s AND 0xFFE00000));
          car = (\<lambda>r. drop_bit 13 (r AND 0x0003E000) AND drop_bit 16 (gcConfig s AND 0x001F0000))
      in gcConfig s AND push_bit (unat i) 1 \<noteq> 0 \<or>
         psr s AND 0x1000 \<noteq> 0 \<and> region objref = region store_data \<and> car objref \<noteq> car store_data)"

section \<open>Calling a method\<close>

text \<open>
  computeInlineStats looks at the host's copy of the memory, not through the caches, and ends the
  simulation when the byte at the caller's PC is not one of the five invoke instructions.
\<close>

definition host_byte :: "machine \<Rightarrow> u32 \<Rightarrow> u8 option" where
  "host_byte s a = (if a < CM_SIZE (cm s) then Some (commonMemory (cm s) a) else None)"

definition is_return :: "u8 \<Rightarrow> bool" where
  "is_return b \<longleftrightarrow> b \<in> {opc_return, opc_ireturn, opc_areturn, opc_freturn, opc_lreturn, opc_dreturn}"

definition read_if :: "bool \<Rightarrow> u8 option \<Rightarrow> (u8 \<Rightarrow> bool) \<Rightarrow> bool option" where
  "read_if c b p = (if c then do { x \<leftarrow> b; Some (p x) } else Some False)"

text \<open>The kind of the callee's body, an inlineType, or None.\<close>

definition inline_kind :: "machine \<Rightarrow> u32 \<Rightarrow> nat option option" where
  "inline_kind s target =
     do { t0 \<leftarrow> host_byte s target;
          getter \<leftarrow> read_if (t0 = opc_aload_0) (host_byte s (target + 4)) is_return;
          if getter then
            do { t1 \<leftarrow> host_byte s (target + 1);
                 Some (if t1 = opc_invokevirtual_quick then Some 0 else if t1 = opc_invokenonvirtual_quick then Some 1
                       else if t1 = opc_getfield_quick \<or> t1 = opc_getfield2_quick then Some 3 else None) }
          else
            do { p1 \<leftarrow> read_if (t0 = opc_aload_0) (host_byte s (target + 1)) (\<lambda>b. b \<in> {opc_aload_1, opc_iload_1, opc_fload_1, opc_dload_1, opc_lload_1});
                 p2 \<leftarrow> read_if p1 (host_byte s (target + 2)) (\<lambda>b. b \<in> {opc_putfield_quick, opc_putfield2_quick});
                 p3 \<leftarrow> read_if p2 (host_byte s (target + 5)) is_return;
                 if p3 then Some (Some 4)
                 else
                   do { r3 \<leftarrow> read_if True (host_byte s (target + 3)) is_return;
                        if r3 then Some (if t0 = opc_getstatic_quick \<or> t0 = opc_getstatic2_quick then Some 5 else if t0 = opc_invokestatic_quick then Some 2 else None)
                        else
                          do { q1 \<leftarrow> read_if (t0 \<in> {opc_aload_0, opc_iload_0, opc_fload_0, opc_dload_0, opc_lload_0}) (host_byte s (target + 1)) (\<lambda>b. b \<in> {opc_putstatic_quick, opc_putstatic2_quick});
                               q2 \<leftarrow> read_if q1 (host_byte s (target + 4)) is_return;
                               Some (if q2 then Some 6 else if t0 = opc_return then Some 7 else None) } } } }"

definition invoke_kind :: "u8 \<Rightarrow> nat option" where
  "invoke_kind b =
     (if b = opc_invokevirtual_quick then Some 0 else if b = opc_invokenonvirtual_quick then Some 1 else if b = opc_invokestatic_quick then Some 2
      else if b = opc_invokesuper_quick then Some 3 else if b = opc_invokevirtual_quick_w then Some 4 else None)"

definition computeInlineStats :: "machine \<Rightarrow> u32 \<Rightarrow> machine option" where
  "computeInlineStats s old_pc =
     do { b \<leftarrow> host_byte s old_pc;
          i \<leftarrow> invoke_kind b;
          k \<leftarrow> inline_kind s (pc s);
          Some (case k of None \<Rightarrow> s
            | Some j \<Rightarrow> s\<lparr>cnt := (cnt s)\<lparr>inlineStats :=
                (inlineStats (cnt s))(i := (inlineStats (cnt s) i)(j := inlineStats (cnt s) i j + 1))\<rparr>\<rparr>) }"

fun push_locals :: "nat \<Rightarrow> machine \<Rightarrow> machine option" where
  "push_locals 0 s = Some s"
| "push_locals (Suc k) s = do { s \<leftarrow> vUpdateGR s GR_optop (optop s - 4); push_locals k s }"

definition write_frame :: "machine \<Rightarrow> u32 \<Rightarrow> machine option" where
  "write_frame s method_desc =
     do { s \<leftarrow> WRITE_WORD s (OPTOP_OFFSET s 0) acc_O (pc s + 3);
          s \<leftarrow> WRITE_WORD s (OPTOP_OFFSET s (-1)) acc_O (vars s);
          s \<leftarrow> WRITE_WORD s (OPTOP_OFFSET s (-2)) acc_O (frame s);
          s \<leftarrow> WRITE_WORD s (OPTOP_OFFSET s (-3)) acc_O (const_pool s);
          WRITE_WORD s (OPTOP_OFFSET s (-4)) acc_O method_desc }"

definition setupMethodCall :: "machine \<Rightarrow> u32 \<Rightarrow> u32 \<Rightarrow> machine option" where
  "setupMethodCall s method_desc nargs =
     do { let old_pc = pc s;
          (new_pc, s) \<leftarrow> READ_WORD s (method_desc + m_code) acc_B;
          (nlocals, s) \<leftarrow> READ_WORD s (method_desc + m_nlocals) acc_B;
          let new_frame = optop s - nlocals;
          let new_vars = optop s + nargs;
          let old_optop = optop s;
          let new_optop = new_frame - 20;
          s \<leftarrow> vUpdateGR s GR_optop new_optop;
          if bAnyExceptionPending s then Some s
          else
            do { s \<leftarrow> vUpdateGR s GR_optop old_optop;
                 (new_cp, s) \<leftarrow> READ_WORD s (method_desc + m_constpool) acc_B;
                 s \<leftarrow> push_locals (unat (nlocals div 4)) s;
                 s \<leftarrow> write_frame s method_desc;
                 s \<leftarrow> vUpdateGR (s\<lparr>const_pool := new_cp, pc := new_pc, vars := new_vars, frame := new_frame\<rparr>)
                       GR_optop new_optop;
                 computeInlineStats s old_pc } }"

section \<open>Constants\<close>

definition doLdc_quick :: "machine \<Rightarrow> machine option" where
  "doLdc_quick s =
     do { (i, s) \<leftarrow> opByte s 1;
          (v, s) \<leftarrow> READ_WORD s (CP_OFFSET s i) acc_C;
          s \<leftarrow> WRITE_WORD s (OPTOP_OFFSET s 0) acc_O v;
          SIZE_AND_STACK_RETURN s 2 1 }"

definition doLdc_w_quick :: "machine \<Rightarrow> machine option" where
  "doLdc_w_quick s =
     do { (i, s) \<leftarrow> opShort s 1;
          (v, s) \<leftarrow> READ_WORD s (CP_OFFSET s i) acc_C;
          s \<leftarrow> WRITE_WORD s (OPTOP_OFFSET s 0) acc_O v;
          SIZE_AND_STACK_RETURN s 3 1 }"

definition doLdc2_w_quick :: "machine \<Rightarrow> machine option" where
  "doLdc2_w_quick s =
     do { (i, s) \<leftarrow> opShort s 1;
          (v, s) \<leftarrow> READ_DWORD s (CP_OFFSET s (i + 1)) acc_C;
          s \<leftarrow> WRITE_DWORD s (OPTOP_OFFSET s 0) acc_O v;
          SIZE_AND_STACK_RETURN s 3 2 }"

section \<open>Static fields\<close>

definition doGetstatic_quick :: "machine \<Rightarrow> machine option" where
  "doGetstatic_quick s =
     do { (i, s) \<leftarrow> opShort s 1;
          (fb, s) \<leftarrow> READ_WORD s (CP_OFFSET s i) acc_C;
          (v, s) \<leftarrow> READ_WORD s fb acc_B;
          s \<leftarrow> WRITE_WORD s (OPTOP_OFFSET s 0) acc_O v;
          SIZE_AND_STACK_RETURN s 3 1 }"

definition doPutstatic_quick :: "machine \<Rightarrow> machine option" where
  "doPutstatic_quick s =
     do { (i, s) \<leftarrow> opShort s 1;
          (fb, s) \<leftarrow> READ_WORD s (CP_OFFSET s i) acc_C;
          (v, s) \<leftarrow> READ_WORD s (OPTOP_OFFSET s 1) acc_O;
          s \<leftarrow> WRITE_WORD s fb acc_B v;
          SIZE_AND_STACK_RETURN s 3 (-1) }"

definition doAPutstatic_quick :: "machine \<Rightarrow> machine option" where
  "doAPutstatic_quick s =
     do { (i, s) \<leftarrow> opShort s 1;
          (fb, s) \<leftarrow> READ_WORD s (CP_OFFSET s i) acc_C;
          (v, s) \<leftarrow> READ_WORD s (OPTOP_OFFSET s 1) acc_O;
          if gc_trap s fb v then LOW_PRIORITY_TRAP s gc_notify
          else do { s \<leftarrow> WRITE_WORD s (MASK_OBJREF fb) acc_B v; SIZE_AND_STACK_RETURN s 3 (-1) } }"

definition doGetstatic2_quick :: "machine \<Rightarrow> machine option" where
  "doGetstatic2_quick s =
     do { (i, s) \<leftarrow> opShort s 1;
          (a, s) \<leftarrow> READ_WORD s (CP_OFFSET s i) acc_C;
          (v, s) \<leftarrow> READ_DWORD s ((a AND 0xFFFFFFFE) + 4) acc_B;
          s \<leftarrow> WRITE_DWORD s (OPTOP_OFFSET s 0) acc_O v;
          SIZE_AND_STACK_RETURN s 3 2 }"

definition doPutstatic2_quick :: "machine \<Rightarrow> machine option" where
  "doPutstatic2_quick s =
     do { (i, s) \<leftarrow> opShort s 1;
          (a, s) \<leftarrow> READ_WORD s (CP_OFFSET s i) acc_C;
          (v, s) \<leftarrow> READ_DWORD s (OPTOP_OFFSET s 2) acc_O;
          s \<leftarrow> WRITE_DWORD s ((a AND 0xFFFFFFFE) + 4) acc_B v;
          SIZE_AND_STACK_RETURN s 3 (-2) }"

section \<open>Instance fields\<close>

text \<open>The reference in slot r, checked for null, with k on the reference.\<close>

definition with_objref :: "machine \<Rightarrow> u32 \<Rightarrow> acc \<Rightarrow> (u32 \<Rightarrow> machine \<Rightarrow> machine option) \<Rightarrow> machine option" where
  "with_objref s r c k =
     do { (objref, s) \<leftarrow> READ_WORD s (OPTOP_OFFSET s r) c;
          if IS_NULL_OBJREF objref then invoke_trap s nullptr_excep else k objref s }"

text \<open>Where the fields of an object start, through its handle if it has one.\<close>

definition object_storage :: "machine \<Rightarrow> u32 \<Rightarrow> (u32 \<times> machine) option" where
  "object_storage s objref =
     (let r = MASK_OBJREF objref in if IS_HANDLE objref then READ_INTO s (r + 4) acc_H r else Some (r + 4, s))"

definition get_field :: "machine \<Rightarrow> u32 \<Rightarrow> machine option" where
  "get_field s i = with_objref s 1 acc_O (\<lambda>objref s.
     do { (base, s) \<leftarrow> object_storage s objref;
          (v, s) \<leftarrow> READ_WORD s (base + i * 4) acc_B;
          s \<leftarrow> WRITE_WORD s (OPTOP_OFFSET s 1) acc_O v;
          SIZE_AND_STACK_RETURN s 3 0 })"

definition doGetfield_quick :: "machine \<Rightarrow> machine option" where
  "doGetfield_quick s = do { (i, s) \<leftarrow> opByte s 1; get_field s i }"

definition doAGetfield_quick :: "machine \<Rightarrow> machine option" where
  "doAGetfield_quick s = do { (i, s) \<leftarrow> opShort s 1; get_field s i }"

definition doGetfield2_quick :: "machine \<Rightarrow> machine option" where
  "doGetfield2_quick s =
     do { (i, s) \<leftarrow> opByte s 1;
          with_objref s 1 acc_O (\<lambda>objref s.
            do { (base, s) \<leftarrow> object_storage s objref;
                 (v, s) \<leftarrow> READ_DWORD s (base + i * 4 + 4) acc_B;
                 s \<leftarrow> WRITE_DWORD s (OPTOP_OFFSET s 1) acc_O v;
                 SIZE_AND_STACK_RETURN s 3 1 }) }"

definition doAPutfield_quick :: "machine \<Rightarrow> machine option" where
  "doAPutfield_quick s =
     do { (i, s) \<leftarrow> opShort s 1;
          with_objref s 2 acc_O (\<lambda>objref s.
            do { (v, s) \<leftarrow> READ_WORD s (OPTOP_OFFSET s 1) acc_O;
                 if gc_trap s objref v then LOW_PRIORITY_TRAP s gc_notify
                 else
                   do { (base, s) \<leftarrow> object_storage s objref;
                        s \<leftarrow> WRITE_WORD s (base + i * 4) acc_B v;
                        SIZE_AND_STACK_RETURN s 3 (-2) } }) }"

definition doPutfield_quick :: "machine \<Rightarrow> machine option" where
  "doPutfield_quick s =
     do { (i, s) \<leftarrow> opByte s 1;
          with_objref s 2 acc_O (\<lambda>objref s.
            do { (base, s) \<leftarrow> object_storage s objref;
                 (v, s) \<leftarrow> READ_WORD s (OPTOP_OFFSET s 1) acc_O;
                 s \<leftarrow> WRITE_WORD s (base + i * 4) acc_B v;
                 SIZE_AND_STACK_RETURN s 3 (-2) }) }"

definition doPutfield2_quick :: "machine \<Rightarrow> machine option" where
  "doPutfield2_quick s =
     do { (i, s) \<leftarrow> opByte s 1;
          with_objref s 3 acc_O (\<lambda>objref s.
            do { (base, s) \<leftarrow> object_storage s objref;
                 (v, s) \<leftarrow> READ_DWORD s (OPTOP_OFFSET s 2) acc_O;
                 s \<leftarrow> WRITE_DWORD s (base + i * 4 + 4) acc_B v;
                 SIZE_AND_STACK_RETURN s 3 (-3) }) }"

end
