(* ===== verification/Method_Ops.thy ===== *)
theory Method_Ops
  imports Object_Ops
begin

text \<open>
  The second half of iam/src/object\_ops.c: method invocation, tableswitch, the type tests, the
  lock registers and the reference store with its write barrier.
\<close>

section \<open>Invocation\<close>

text \<open>The receiver is a type V access: it need not be in the stack cache.\<close>

definition doInvokevirtual_quick :: "machine \<Rightarrow> machine option" where
  "doInvokevirtual_quick s =
     do { (i, s) \<leftarrow> opByte s 1;
          (nargs, s) \<leftarrow> opByte s 2;
          with_objref s nargs acc_V (\<lambda>objref s.
            do { (mv, s) \<leftarrow> READ_WORD s (MASK_OBJREF objref) acc_B;
                 (method_desc, s) \<leftarrow> READ_WORD s (MASK_MV_PTR mv + i * 4) acc_B;
                 setupMethodCall s method_desc (nargs * 4) }) }"

text \<open>The constant pool entry is a descriptor whose argsSize word also holds the method index.\<close>

definition doInvokevirtual_quick_w :: "machine \<Rightarrow> machine option" where
  "doInvokevirtual_quick_w s =
     do { (i, s) \<leftarrow> opShort s 1;
          (desc, s) \<leftarrow> READ_WORD s (CP_OFFSET s i) acc_C;
          (word, s) \<leftarrow> READ_WORD s (desc + m_argsSize) acc_B;
          let method_index = drop_bit 16 (word AND 0xFFFF0000);
          let nargs = drop_bit 2 (word AND 0xFFFF);
          with_objref s nargs acc_V (\<lambda>objref s.
            do { (mv, s) \<leftarrow> READ_WORD s (MASK_OBJREF objref) acc_B;
                 (method_desc, s) \<leftarrow> READ_INTO s (MASK_MV_PTR mv + method_index * 4) acc_B desc;
                 setupMethodCall s method_desc (nargs * 4) }) }"

definition doInvokenonvirtual_quick :: "machine \<Rightarrow> machine option" where
  "doInvokenonvirtual_quick s =
     do { (i, s) \<leftarrow> opShort s 1;
          (method_desc, s) \<leftarrow> READ_WORD s (CP_OFFSET s i) acc_C;
          (word, s) \<leftarrow> READ_WORD s (method_desc + m_argsSize) acc_B;
          let nargs = drop_bit 2 (word AND 0xFFFF);
          with_objref s nargs acc_V (\<lambda>objref s. setupMethodCall s method_desc (nargs * 4)) }"

text \<open>From the current method to its class, the super class and that class's method table.\<close>

definition super_method :: "machine \<Rightarrow> u32 \<Rightarrow> (u32 \<times> machine) option" where
  "super_method s i =
     do { (current, s) \<leftarrow> READ_WORD s (frame s - 16) acc_V;
          (current_class, s) \<leftarrow> READ_WORD s (current + m_class) acc_B;
          (super_class, s) \<leftarrow> READ_WORD s (current_class + 4 + c_superClass) acc_B;
          (objhint, s) \<leftarrow> READ_WORD s (super_class + 4 + c_objHintBlk) acc_B;
          READ_INTO s (objhint + 8 + h_methods + push_bit 2 i) acc_B current }"

definition doInvokesuper_quick :: "machine \<Rightarrow> machine option" where
  "doInvokesuper_quick s =
     do { (i, s) \<leftarrow> opShort s 1;
          (method_desc, s) \<leftarrow> super_method s i;
          (word, s) \<leftarrow> READ_WORD s (method_desc + m_argsSize) acc_B;
          let nargs = drop_bit 2 (word AND 0xFFFF);
          with_objref s nargs acc_V (\<lambda>objref s. setupMethodCall s method_desc (nargs * 4)) }"

definition doInvokestatic_quick :: "machine \<Rightarrow> machine option" where
  "doInvokestatic_quick s =
     do { (i, s) \<leftarrow> opShort s 1;
          (method_desc, s) \<leftarrow> READ_WORD s (CP_OFFSET s i) acc_C;
          (nargs, s) \<leftarrow> READ_WORD s (method_desc + m_argsSize) acc_M;
          setupMethodCall s method_desc (nargs AND 0xFFFF) }"

section \<open>Switches\<close>

definition doTableSwitch :: "machine \<Rightarrow> machine option" where
  "doTableSwitch s =
     (let aligned_pc = (pc s AND 0xFFFFFFFC) + 4 in
      do { (DefaultOffset, s) \<leftarrow> READ_WORD s aligned_pc acc_Z;
           (LowIndex, s) \<leftarrow> READ_WORD s (aligned_pc + 4) acc_Z;
           (HighIndex, s) \<leftarrow> READ_WORD s (aligned_pc + 8) acc_Z;
           (i, s) \<leftarrow> READ_WORD s (OPTOP_OFFSET s 1) acc_O;
           (offset, s) \<leftarrow>
             (if sint i < sint LowIndex \<or> sint HighIndex < sint i then Some (DefaultOffset, s)
              else READ_WORD s (aligned_pc + 12 + (i - LowIndex) * 4) acc_Z);
           SIZE_AND_STACK_RETURN (s\<lparr>pc := pc s + offset\<rparr>) 0 (-1) })"

section \<open>Type tests\<close>

text \<open>The class of an object is the word 8 bytes below its method vector.\<close>

definition object_class :: "machine \<Rightarrow> u32 \<Rightarrow> (u32 \<times> machine) option" where
  "object_class s objref =
     do { (mv, s) \<leftarrow> READ_WORD s (MASK_OBJREF objref) acc_B; READ_WORD s (MASK_MV_PTR mv - 8) acc_B }"

definition doCheckCast_quick :: "machine \<Rightarrow> machine option" where
  "doCheckCast_quick s =
     do { (i, s) \<leftarrow> opShort s 1;
          let s = s\<lparr>cnt := (cnt s)\<lparr>checkcast_quick_insns := checkcast_quick_insns (cnt s) + 1\<rparr>\<rparr>;
          (objref, s) \<leftarrow> READ_WORD s (OPTOP_OFFSET s 1) acc_O;
          if IS_NULL_OBJREF objref then SIZE_AND_STACK_RETURN s 3 0
          else
            do { (other_class, s) \<leftarrow> READ_WORD s (CP_OFFSET s i) acc_C;
                 (current_class, s) \<leftarrow> object_class s objref;
                 if other_class = current_class then SIZE_AND_STACK_RETURN s 3 0
                 else
                   do { s \<leftarrow> LOW_PRIORITY_TRAP s opc_checkcast_quick;
                        Some (s\<lparr>cnt := (cnt s)\<lparr>checkcast_quick_traps := checkcast_quick_traps (cnt s) + 1\<rparr>\<rparr>) } } }"

definition doInstanceOf_quick :: "machine \<Rightarrow> machine option" where
  "doInstanceOf_quick s =
     do { let s = s\<lparr>cnt := (cnt s)\<lparr>instanceof_quick_insns := instanceof_quick_insns (cnt s) + 1\<rparr>\<rparr>;
          (i, s) \<leftarrow> opShort s 1;
          (objref, s) \<leftarrow> READ_WORD s (OPTOP_OFFSET s 1) acc_O;
          if IS_NULL_OBJREF objref
          then do { s \<leftarrow> WRITE_WORD s (OPTOP_OFFSET s 1) acc_O 0; SIZE_AND_STACK_RETURN s 3 0 }
          else
            do { (other_class, s) \<leftarrow> READ_WORD s (CP_OFFSET s i) acc_C;
                 (current_class, s) \<leftarrow> object_class s objref;
                 if other_class = current_class
                 then do { s \<leftarrow> WRITE_WORD s (OPTOP_OFFSET s 1) acc_O 1; SIZE_AND_STACK_RETURN s 3 0 }
                 else
                   do { s \<leftarrow> LOW_PRIORITY_TRAP s opc_instanceof_quick;
                        Some (s\<lparr>cnt := (cnt s)\<lparr>instanceof_quick_traps := instanceof_quick_traps (cnt s) + 1\<rparr>\<rparr>) } } }"

definition doNonnull_quick :: "machine \<Rightarrow> machine option" where
  "doNonnull_quick s = with_objref s 1 acc_O (\<lambda>objref s. SIZE_AND_STACK_RETURN s 1 (-1))"

definition doGetCurrentClass :: "machine \<Rightarrow> machine option" where
  "doGetCurrentClass s =
     do { (method_desc, s) \<leftarrow> READ_WORD s (frame s - 16) acc_V;
          (current_class, s) \<leftarrow> READ_WORD s (method_desc + m_class) acc_B;
          s \<leftarrow> WRITE_WORD s (OPTOP_OFFSET s 0) acc_O current_class;
          SIZE_AND_STACK_RETURN s 2 1 }"

section \<open>Locks\<close>

text \<open>
  The processor has two lock registers: an address with a count in bits 7 to 0, bit 15 for a lock
  taken in hardware and bit 14 for a lock with waiters. Both loops go over both registers.
\<close>

definition lock_count :: "u32 \<Rightarrow> u32" where "lock_count w = w AND 0xff"

definition lock_matches :: "machine \<Rightarrow> nat \<Rightarrow> u32 \<Rightarrow> bool" where
  "lock_matches s i objref \<longleftrightarrow> MASK_OBJREF (lockAddr s i) = objref"

definition set_count :: "machine \<Rightarrow> nat \<Rightarrow> u32 \<Rightarrow> machine" where
  "set_count s i j = s\<lparr>lockCount := (lockCount s)(i := (lockCount s i AND 0xFFFFFF00) OR (j AND 0xff))\<rparr>"

definition enter_one :: "u32 \<Rightarrow> nat \<Rightarrow> bool \<times> bool \<times> machine \<Rightarrow> bool \<times> bool \<times> machine" where
  "enter_one objref i st =
     (case st of (hit, overflow, s) \<Rightarrow>
        if lock_matches s i objref then
          (let s = set_count s i (lock_count (lockCount s i) + 1);
               s = s\<lparr>cnt := (cnt s)\<lparr>lock_enter_hits := (lock_enter_hits (cnt s))(i := lock_enter_hits (cnt s) i + 1)\<rparr>\<rparr>
           in (True, overflow \<or> lock_count (lockCount s i) = 0, s))
        else (hit, overflow, s))"

text \<open>With fast monitors, an object that nobody holds is locked in an empty register.\<close>

definition fast_enter :: "machine \<Rightarrow> u32 \<Rightarrow> (bool \<times> machine) option" where
  "fast_enter s objref =
     (let i = (if lockAddr s 0 = 0 then 0 else if lockAddr s 1 = 0 then 1 else 2) in
      if i = 2 then Some (False, s)
      else
        do { (locked, s) \<leftarrow> READ_WORD s objref acc_B;
             Some (if locked AND 1 = 0
               then (True, s\<lparr>lockAddr := (lockAddr s)(i := objref), lockCount := (lockCount s)(i := 0x8001),
                 cnt := (cnt s)\<lparr>fast_monitors_saved_the_day := fast_monitors_saved_the_day (cnt s) + 1\<rparr>\<rparr>)
               else (False, s)) })"

definition doMonitorEnter :: "machine \<Rightarrow> machine option" where
  "doMonitorEnter s =
     (let s = s\<lparr>cnt := (cnt s)\<lparr>monitorenter_insns := monitorenter_insns (cnt s) + 1\<rparr>\<rparr> in
      with_objref s 1 acc_O (\<lambda>ref s.
        do { let objref = MASK_OBJREF ref;
             let (hit, overflow, s) = enter_one objref 1 (enter_one objref 0 (False, False, s));
             (hit, s) \<leftarrow> (if flag_fast_monitors s \<and> \<not> hit then fast_enter s objref else Some (hit, s));
             if overflow then
               do { s \<leftarrow> LOW_PRIORITY_TRAP s lock_count_overflow_trap;
                    Some (s\<lparr>cnt := (cnt s)\<lparr>monitorenter_overflows := monitorenter_overflows (cnt s) + 1\<rparr>\<rparr>) }
             else if \<not> hit then
               LOW_PRIORITY_TRAP
                 (s\<lparr>cnt := (cnt s)\<lparr>monitorenter_misses := monitorenter_misses (cnt s) + 1\<rparr>\<rparr>) lock_enter_miss_trap
             else SIZE_AND_STACK_RETURN s 1 (-1) }))"

definition exit_one :: "u32 \<Rightarrow> nat \<Rightarrow> bool \<times> bool \<times> bool \<times> machine \<Rightarrow> bool \<times> bool \<times> bool \<times> machine" where
  "exit_one objref i st =
     (case st of (hit, overflow, release, s) \<Rightarrow>
        if lock_matches s i objref then
          (let s = set_count s i (lock_count (lockCount s i) - 1);
               s = s\<lparr>cnt := (cnt s)\<lparr>lock_exit_hits := (lock_exit_hits (cnt s))(i := lock_exit_hits (cnt s) i + 1)\<rparr>\<rparr>;
               w = lockCount s i;
               release = (release \<or> lock_count w = 0 \<and> w AND 0x4000 \<noteq> 0)
           in if flag_fast_monitors s \<and> lock_count w = 0 \<and> w AND 0x4000 = 0 \<and> w AND 0x8000 \<noteq> 0
              then (True, overflow, release,
                    s\<lparr>lockAddr := (lockAddr s)(i := 0), lockCount := (lockCount s)(i := 0)\<rparr>)
              else (True, overflow \<or> lock_count w = 0xff, release, s))
        else (hit, overflow, release, s))"

definition doMonitorExit :: "machine \<Rightarrow> machine option" where
  "doMonitorExit s =
     (let s = s\<lparr>cnt := (cnt s)\<lparr>monitorexit_insns := monitorexit_insns (cnt s) + 1\<rparr>\<rparr> in
      with_objref s 1 acc_O (\<lambda>ref s.
        (let objref = MASK_OBJREF ref;
             (hit, overflow, release, s) = exit_one objref 1 (exit_one objref 0 (False, False, False, s))
         in if overflow then
              LOW_PRIORITY_TRAP
                (s\<lparr>cnt := (cnt s)\<lparr>monitorexit_overflows := monitorexit_overflows (cnt s) + 1\<rparr>\<rparr>) lock_count_overflow_trap
            else if release then
              LOW_PRIORITY_TRAP
                (s\<lparr>cnt := (cnt s)\<lparr>monitorexit_releases := monitorexit_releases (cnt s) + 1\<rparr>\<rparr>) lock_release_trap
            else if \<not> hit then
              LOW_PRIORITY_TRAP
                (s\<lparr>cnt := (cnt s)\<lparr>monitorexit_misses := monitorexit_misses (cnt s) + 1\<rparr>\<rparr>) lock_exit_miss_trap
            else SIZE_AND_STACK_RETURN s 1 (-1))))"

section \<open>The reference store\<close>

text \<open>The reference is masked before its handle bit is tested, so a handle is never followed here.\<close>

definition doAastore_quick :: "machine \<Rightarrow> machine option" where
  "doAastore_quick s =
     do { (arrayRef, s) \<leftarrow> READ_WORD s (OPTOP_OFFSET s 3) acc_O;
          if IS_NULL_OBJREF arrayRef then invoke_trap s nullptr_excep
          else
            do { let arrayRef = arrayRef AND 0x3FFFFFFC;
                 (arrayStorage, s) \<leftarrow> GET_ARRAY_STORAGE_ADDR s arrayRef;
                 (i, s) \<leftarrow> READ_WORD s (OPTOP_OFFSET s 2) acc_O;
                 (bad, s) \<leftarrow> CHECK_ARRAY_BOUNDS s arrayStorage i;
                 if bad then invoke_trap s indexoutofbnds_excep
                 else
                   do { (tmp, s) \<leftarrow> READ_WORD s (OPTOP_OFFSET s 1) acc_O;
                        if gc_trap s arrayRef tmp then LOW_PRIORITY_TRAP s gc_notify
                        else
                          do { s \<leftarrow> WRITE_WORD s (arrayStorage + (i + 1) * 4) acc_M tmp;
                               SIZE_AND_STACK_RETURN s 1 (-3) } } } }"

end
