(* ===== verification/Jvm_Int_Ops.thy ===== *)
theory Jvm_Int_Ops
  imports Method_Ops
begin

text \<open>
  The instructions of iam/src/jvm\_ops.c that work on the stack, the local variables and the
  program counter, in the order of the file. A long takes two words, the more significant one
  nearer to the top. Signed arithmetic wraps as the host's does; the division of the least
  integer by -1 is undefined in C, hence None.
\<close>

section \<open>Local variables\<close>

text \<open>An unsigned operand: two bytes after a wide prefix, otherwise one.\<close>

definition local_offset :: "machine \<Rightarrow> (u32 \<times> machine) option" where
  "local_offset s = (if wide_prefix s then opShort s 2 else opByte s 1)"

definition insn_size :: "machine \<Rightarrow> u32 \<Rightarrow> u32 \<Rightarrow> u32" where
  "insn_size s wide short = (if wide_prefix s then wide else short)"

definition push_local :: "machine \<Rightarrow> u32 \<Rightarrow> u32 \<Rightarrow> machine option" where
  "push_local s n len =
     do { s \<leftarrow> COPY_STACK_ITEM s (OPTOP_OFFSET s 0) (VARS_OFFSET s (- n)) acc_O acc_V;
          SIZE_AND_STACK_RETURN s len 1 }"

definition push_local2 :: "machine \<Rightarrow> u32 \<Rightarrow> u32 \<Rightarrow> machine option" where
  "push_local2 s n len =
     do { s \<leftarrow> COPY_STACK_ITEM s (OPTOP_OFFSET s 0) (VARS_OFFSET s (- n)) acc_O acc_V;
          s \<leftarrow> COPY_STACK_ITEM s (OPTOP_OFFSET s (- 1)) (VARS_OFFSET s (- n - 1)) acc_O acc_V;
          SIZE_AND_STACK_RETURN s len 2 }"

definition pop_local :: "machine \<Rightarrow> u32 \<Rightarrow> u32 \<Rightarrow> machine option" where
  "pop_local s n len =
     do { s \<leftarrow> COPY_STACK_ITEM s (VARS_OFFSET s (- n)) (OPTOP_OFFSET s 1) acc_V acc_O;
          SIZE_AND_STACK_RETURN s len (- 1) }"

definition pop_local2 :: "machine \<Rightarrow> u32 \<Rightarrow> u32 \<Rightarrow> machine option" where
  "pop_local2 s n len =
     do { s \<leftarrow> COPY_STACK_ITEM s (VARS_OFFSET s (- n)) (OPTOP_OFFSET s 2) acc_V acc_O;
          s \<leftarrow> COPY_STACK_ITEM s (VARS_OFFSET s (- n - 1)) (OPTOP_OFFSET s 1) acc_V acc_O;
          SIZE_AND_STACK_RETURN s len (- 2) }"

definition op_local :: "(machine \<Rightarrow> u32 \<Rightarrow> u32 \<Rightarrow> machine option) \<Rightarrow> machine \<Rightarrow> machine option" where
  "op_local f s = do { (n, s) \<leftarrow> local_offset s; f s n (insn_size s 4 2) }"

definition op_iinc :: "machine \<Rightarrow> machine option" where
  "op_iinc s =
     do { (n, s) \<leftarrow> local_offset s;
          (inc, s) \<leftarrow> (if wide_prefix s
             then do { (h, s) \<leftarrow> IstreamReadShort s (pc s + 4); Some (scast h, s) }
             else do { (b, s) \<leftarrow> IstreamReadByte s (pc s + 2); Some (scast b, s) });
          (i, s) \<leftarrow> READ_WORD s (VARS_OFFSET s (- n)) acc_V;
          s \<leftarrow> WRITE_WORD s (VARS_OFFSET s (- n)) acc_V (i + inc);
          SIZE_AND_STACK_RETURN s (insn_size s 6 3) 0 }"

section \<open>Returns\<close>

text \<open>
  The frame holds the return address and, below it, the caller's vars, frame and constant pool.
  The three forms copy k words to the bottom of the frame that is left.
\<close>

definition return_words :: "nat \<Rightarrow> machine \<Rightarrow> machine option" where
  "return_words k s =
     (if k = 0 then Some s
      else if k = 1 then COPY_STACK_ITEM s (VARS_OFFSET s 0) (OPTOP_OFFSET s 1) acc_V acc_O
      else do { s \<leftarrow> COPY_STACK_ITEM s (VARS_OFFSET s 0) (OPTOP_OFFSET s 2) acc_V acc_O;
                COPY_STACK_ITEM s (VARS_OFFSET s (- 1)) (OPTOP_OFFSET s 1) acc_V acc_O })"

definition op_return :: "nat \<Rightarrow> machine \<Rightarrow> machine option" where
  "op_return k s =
     do { (w, s) \<leftarrow> READ_WORD s (FRAME_OFFSET s 0) acc_F;
          let s = s\<lparr>pc := w\<rparr>;
          (vars_tmp, s) \<leftarrow> READ_INTO s (FRAME_OFFSET s (- 1)) acc_F w;
          s \<leftarrow> return_words k s;
          let optop_tmp = vars s - 4 * of_nat k;
          let s = (if k = 2 then s\<lparr>vars := vars_tmp\<rparr> else s);
          (cp, s) \<leftarrow> READ_INTO s (FRAME_OFFSET s (- 3)) acc_F vars_tmp;
          let s = s\<lparr>const_pool := cp\<rparr>;
          (fr, s) \<leftarrow> READ_INTO s (FRAME_OFFSET s (- 2)) acc_F cp;
          let s = s\<lparr>frame := fr\<rparr>;
          let s = (if k = 0 then s\<lparr>vars := vars_tmp\<rparr> else s);
          s \<leftarrow> vUpdateGR s GR_optop optop_tmp;
          Some (if k = 1 then s\<lparr>vars := vars_tmp\<rparr> else s) }"

definition op_exit_sync_method :: "machine \<Rightarrow> machine option" where
  "op_exit_sync_method s =
     do { (w, s) \<leftarrow> READ_WORD s (FRAME_OFFSET s (- 5)) acc_F; SIZE_AND_STACK_RETURN (s\<lparr>pc := w\<rparr>) 0 0 }"

section \<open>Constants\<close>

definition push_const :: "machine \<Rightarrow> u32 \<Rightarrow> machine option" where
  "push_const s v = do { s \<leftarrow> WRITE_WORD s (OPTOP_OFFSET s 0) acc_O v; SIZE_AND_STACK_RETURN s 1 1 }"

definition push_const2 :: "machine \<Rightarrow> u64 \<Rightarrow> machine option" where
  "push_const2 s v = do { s \<leftarrow> WRITE_DWORD s (OPTOP_OFFSET s 0) acc_O v; SIZE_AND_STACK_RETURN s 1 2 }"

definition op_bipush :: "machine \<Rightarrow> machine option" where
  "op_bipush s =
     do { (b, s) \<leftarrow> get_new_instr s (pc s + 1);
          s \<leftarrow> WRITE_WORD s (OPTOP_OFFSET s 0) acc_O (scast b);
          SIZE_AND_STACK_RETURN s 2 1 }"

definition op_sipush :: "machine \<Rightarrow> machine option" where
  "op_sipush s =
     do { (h, s) \<leftarrow> IstreamReadShort s (pc s + 1);
          s \<leftarrow> WRITE_WORD s (OPTOP_OFFSET s 0) acc_O (scast h);
          SIZE_AND_STACK_RETURN s 3 1 }"

definition op_sethi :: "machine \<Rightarrow> machine option" where
  "op_sethi s =
     do { (h, s) \<leftarrow> IstreamReadShort s (pc s + 1);
          (w, s) \<leftarrow> READ_WORD s (OPTOP_OFFSET s 1) acc_O;
          s \<leftarrow> WRITE_WORD s (OPTOP_OFFSET s 1) acc_O ((w AND 0xFFFF) OR push_bit 16 (scast h));
          SIZE_AND_STACK_RETURN s 3 0 }"

section \<open>Integer arithmetic\<close>

text \<open>One word replaced by a function of it.\<close>

definition unary_op :: "(u32 \<Rightarrow> u32) \<Rightarrow> machine \<Rightarrow> machine option" where
  "unary_op f s =
     do { (i, s) \<leftarrow> READ_WORD s (OPTOP_OFFSET s 1) acc_O;
          s \<leftarrow> WRITE_WORD s (OPTOP_OFFSET s 1) acc_O (f i);
          SIZE_AND_STACK_RETURN s 1 0 }"

definition unary_op2 :: "(u64 \<Rightarrow> u64) \<Rightarrow> machine \<Rightarrow> machine option" where
  "unary_op2 f s =
     do { (l, s) \<leftarrow> READ_DWORD s (OPTOP_OFFSET s 2) acc_O;
          s \<leftarrow> WRITE_DWORD s (OPTOP_OFFSET s 2) acc_O (f l);
          SIZE_AND_STACK_RETURN s 1 0 }"

text \<open>BINARY\_INT\_OP: the word below the top, then the top.\<close>

definition binary_int_op :: "(u32 \<Rightarrow> u32 \<Rightarrow> u32 option) \<Rightarrow> bool \<Rightarrow> machine \<Rightarrow> machine option" where
  "binary_int_op f test s =
     do { (i1, s) \<leftarrow> READ_WORD s (OPTOP_OFFSET s 1) acc_O;
          if test \<and> i1 = 0 then LOW_PRIORITY_TRAP s arithmetic_excep
          else
            do { (i2, s) \<leftarrow> READ_WORD s (OPTOP_OFFSET s 2) acc_O;
                 v \<leftarrow> f i2 i1;
                 s \<leftarrow> WRITE_WORD s (OPTOP_OFFSET s 2) acc_O v;
                 SIZE_AND_STACK_RETURN s 1 (- 1) } }"

text \<open>The long forms; multiplication, division and remainder are emulated in software.\<close>

definition binary_long_op :: "(u64 \<Rightarrow> u64 \<Rightarrow> u64) \<Rightarrow> machine \<Rightarrow> machine option" where
  "binary_long_op f s =
     do { (l1, s) \<leftarrow> READ_DWORD s (OPTOP_OFFSET s 2) acc_O;
          (l2, s) \<leftarrow> READ_DWORD s (OPTOP_OFFSET s 4) acc_O;
          s \<leftarrow> WRITE_DWORD s (OPTOP_OFFSET s 4) acc_O (f l2 l1);
          SIZE_AND_STACK_RETURN s 1 (- 2) }"

definition trapping_long_op :: "u8 \<Rightarrow> machine \<Rightarrow> machine option" where
  "trapping_long_op op s =
     do { (l1, s) \<leftarrow> READ_DWORD s (OPTOP_OFFSET s 2) acc_O; LOW_PRIORITY_TRAP s (ucast op) }"

definition int_div :: "u32 \<Rightarrow> u32 \<Rightarrow> u32 option" where
  "int_div a b = (if a = 0x80000000 \<and> b = - 1 then None else Some (word_of_int (c_div (sint a) (sint b))))"

definition int_rem :: "u32 \<Rightarrow> u32 \<Rightarrow> u32 option" where
  "int_rem a b = (if a = 0x80000000 \<and> b = - 1 then None else Some (word_of_int (c_mod (sint a) (sint b))))"

definition shift_op :: "(nat \<Rightarrow> u32 \<Rightarrow> u32) \<Rightarrow> machine \<Rightarrow> machine option" where
  "shift_op f s =
     do { (i1, s) \<leftarrow> READ_WORD s (OPTOP_OFFSET s 1) acc_O;
          (i2, s) \<leftarrow> READ_WORD s (OPTOP_OFFSET s 2) acc_O;
          s \<leftarrow> WRITE_WORD s (OPTOP_OFFSET s 2) acc_O (f (unat (i1 AND 0x1F)) i2);
          SIZE_AND_STACK_RETURN s 1 (- 1) }"

definition shift_op2 :: "(nat \<Rightarrow> u64 \<Rightarrow> u64) \<Rightarrow> machine \<Rightarrow> machine option" where
  "shift_op2 f s =
     do { (i1, s) \<leftarrow> READ_WORD s (OPTOP_OFFSET s 1) acc_O;
          (l, s) \<leftarrow> READ_DWORD s (OPTOP_OFFSET s 3) acc_O;
          s \<leftarrow> WRITE_DWORD s (OPTOP_OFFSET s 3) acc_O (f (unat (i1 AND 0x3F)) l);
          SIZE_AND_STACK_RETURN s 1 (- 1) }"

definition op_i2l :: "machine \<Rightarrow> machine option" where
  "op_i2l s =
     do { (i, s) \<leftarrow> READ_WORD s (OPTOP_OFFSET s 1) acc_O;
          s \<leftarrow> WRITE_DWORD s (OPTOP_OFFSET s 1) acc_O (scast i);
          SIZE_AND_STACK_RETURN s 1 1 }"

definition op_l2i :: "machine \<Rightarrow> machine option" where
  "op_l2i s =
     do { (l, s) \<leftarrow> READ_DWORD s (OPTOP_OFFSET s 2) acc_O;
          s \<leftarrow> WRITE_WORD s (OPTOP_OFFSET s 2) acc_O (ucast l);
          SIZE_AND_STACK_RETURN s 1 (- 1) }"

definition op_lcmp :: "machine \<Rightarrow> machine option" where
  "op_lcmp s =
     do { (l, s) \<leftarrow> READ_DWORD s (OPTOP_OFFSET s 4) acc_O;
          (r, s) \<leftarrow> READ_DWORD s (OPTOP_OFFSET s 2) acc_O;
          s \<leftarrow> WRITE_WORD s (OPTOP_OFFSET s 4) acc_O (if sint l < sint r then - 1 else if sint r < sint l then 1 else 0);
          SIZE_AND_STACK_RETURN s 1 (- 3) }"

section \<open>Jumps\<close>

definition op_jsr :: "machine \<Rightarrow> machine option" where
  "op_jsr s =
     do { let x = pc s + 3;
          (skip, s) \<leftarrow> IstreamReadShort s (pc s + 1);
          s \<leftarrow> WRITE_WORD s (OPTOP_OFFSET s 0) acc_O x;
          SIZE_AND_STACK_RETURN s (scast skip) 1 }"

definition op_goto :: "machine \<Rightarrow> machine option" where
  "op_goto s = do { (skip, s) \<leftarrow> IstreamReadShort s (pc s + 1); JUMP_AND_STACK s (scast skip) 0 }"

definition op_jsr_w :: "machine \<Rightarrow> machine option" where
  "op_jsr_w s =
     do { let x = pc s + 5;
          (skip, s) \<leftarrow> IstreamReadWord s (pc s + 1);
          s \<leftarrow> WRITE_WORD s (OPTOP_OFFSET s 0) acc_O x;
          SIZE_AND_STACK_RETURN s skip 1 }"

definition op_goto_w :: "machine \<Rightarrow> machine option" where
  "op_goto_w s = do { (skip, s) \<leftarrow> IstreamReadWord s (pc s + 1); JUMP_AND_STACK s skip 0 }"

definition op_ret :: "machine \<Rightarrow> machine option" where
  "op_ret s =
     do { (n, s) \<leftarrow> local_offset s;
          (w, s) \<leftarrow> READ_WORD s (VARS_OFFSET s (- n)) acc_V;
          SIZE_AND_STACK_RETURN (s\<lparr>pc := w\<rparr>) 0 0 }"

text \<open>The end of a conditional branch; k is the number of words compared.\<close>

definition count_icmp :: "machine \<Rightarrow> machine" where
  "count_icmp s = s\<lparr>cnt := (cnt s)\<lparr>icmp_branches := icmp_branches (cnt s) + 1\<rparr>\<rparr>"

definition count_acmp :: "machine \<Rightarrow> machine" where
  "count_acmp s = s\<lparr>cnt := (cnt s)\<lparr>acmp_branches := acmp_branches (cnt s) + 1\<rparr>\<rparr>"

definition branch_if :: "bool \<Rightarrow> (machine \<Rightarrow> machine) \<Rightarrow> u32 \<Rightarrow> machine \<Rightarrow> machine option" where
  "branch_if c count k s =
     (if c then do { (skip, s) \<leftarrow> IstreamReadShort s (pc s + 1); JUMP_AND_STACK (count s) (scast skip) (- k) }
      else JUMP_AND_STACK s 3 (- k))"

definition op_if_icmp :: "(int \<Rightarrow> int \<Rightarrow> bool) \<Rightarrow> machine \<Rightarrow> machine option" where
  "op_if_icmp R s =
     do { (i1, s) \<leftarrow> READ_WORD s (OPTOP_OFFSET s 1) acc_O;
          (i2, s) \<leftarrow> READ_WORD s (OPTOP_OFFSET s 2) acc_O;
          branch_if (R (sint i2) (sint i1)) count_icmp 2 s }"

definition op_if :: "(int \<Rightarrow> int \<Rightarrow> bool) \<Rightarrow> machine \<Rightarrow> machine option" where
  "op_if R s =
     do { (i1, s) \<leftarrow> READ_WORD s (OPTOP_OFFSET s 1) acc_O; branch_if (R (sint i1) 0) count_icmp 1 s }"

definition op_if_acmp :: "bool \<Rightarrow> machine \<Rightarrow> machine option" where
  "op_if_acmp eq s =
     do { (a1, s) \<leftarrow> READ_WORD s (OPTOP_OFFSET s 1) acc_O;
          (a2, s) \<leftarrow> READ_WORD s (OPTOP_OFFSET s 2) acc_O;
          branch_if ((MASK_OBJREF a1 = MASK_OBJREF a2) = eq) count_acmp 2 s }"

definition op_ifnull :: "bool \<Rightarrow> machine \<Rightarrow> machine option" where
  "op_ifnull eq s =
     do { (v, s) \<leftarrow> READ_WORD s (OPTOP_OFFSET s 1) acc_O; branch_if ((v = 0) = eq) count_acmp 1 s }"

section \<open>Stack manipulation\<close>

text \<open>Copies within the stack, in order, given as pairs (destination slot, source slot).\<close>

fun copy_items :: "(u32 \<times> u32) list \<Rightarrow> machine \<Rightarrow> machine option" where
  "copy_items [] s = Some s"
| "copy_items ((d, a) # xs) s =
     do { s \<leftarrow> COPY_STACK_ITEM s (OPTOP_OFFSET s d) (OPTOP_OFFSET s a) acc_O acc_O; copy_items xs s }"

definition op_dup :: "machine \<Rightarrow> machine option" where
  "op_dup s = do { s \<leftarrow> copy_items [(0, 1)] s; SIZE_AND_STACK_RETURN s 1 1 }"

definition op_dup2 :: "machine \<Rightarrow> machine option" where
  "op_dup2 s = do { s \<leftarrow> copy_items [(0, 2), (- 1, 1)] s; SIZE_AND_STACK_RETURN s 1 2 }"

text \<open>These four move optop by k words before they copy.\<close>

definition op_dup_under :: "u32 \<Rightarrow> (u32 \<times> u32) list \<Rightarrow> machine \<Rightarrow> machine option" where
  "op_dup_under k xs s =
     do { s \<leftarrow> vUpdateGR s GR_optop (optop s - 4 * k); s \<leftarrow> copy_items xs s; SIZE_AND_STACK_RETURN s 1 0 }"

definition op_dup_x1 :: "machine \<Rightarrow> machine option" where
  "op_dup_x1 = op_dup_under 1 [(1, 2), (2, 3), (3, 1)]"

definition op_dup_x2 :: "machine \<Rightarrow> machine option" where
  "op_dup_x2 = op_dup_under 1 [(1, 2), (2, 3), (3, 4), (4, 1)]"

definition op_dup2_x1 :: "machine \<Rightarrow> machine option" where
  "op_dup2_x1 = op_dup_under 2 [(1, 3), (2, 4), (3, 5), (4, 1), (5, 2)]"

definition op_dup2_x2 :: "machine \<Rightarrow> machine option" where
  "op_dup2_x2 = op_dup_under 2 [(1, 3), (2, 4), (3, 5), (4, 6), (5, 1), (6, 2)]"

definition op_swap :: "machine \<Rightarrow> machine option" where
  "op_swap s =
     do { (i, s) \<leftarrow> READ_WORD s (OPTOP_OFFSET s 1) acc_O;
          s \<leftarrow> COPY_STACK_ITEM s (OPTOP_OFFSET s 1) (OPTOP_OFFSET s 2) acc_O acc_O;
          s \<leftarrow> WRITE_WORD s (OPTOP_OFFSET s 2) acc_O i;
          SIZE_AND_STACK_RETURN s 1 0 }"

end
