(* ===== verification/Soft_Float.thy ===== *)
theory Soft_Float
  imports Prelude
begin

text \<open>
  The arithmetic of C's float and double on bit patterns, as IEEE 754 prescribes it and the host
  processor of the simulator performs it: every operation is exact on integers and rounded once,
  to nearest with ties to even. A finite number is m * 2 ^ e with a sign. The result of an
  operation is a bit pattern, or None for a NaN, whose pattern the simulator chooses itself.
\<close>

record ffmt =
  ebits :: nat
  mbits :: nat

definition float_fmt :: ffmt where "float_fmt = \<lparr>ebits = 8, mbits = 23\<rparr>"
definition double_fmt :: ffmt where "double_fmt = \<lparr>ebits = 11, mbits = 52\<rparr>"

datatype fp = FNaN | FInf bool | FNum bool nat int

section \<open>Bit patterns\<close>

definition emin :: "ffmt \<Rightarrow> int" where
  "emin F = 2 - 2 ^ (ebits F - 1) - int (mbits F)"

definition inf_bits :: "ffmt \<Rightarrow> nat" where
  "inf_bits F = (2 ^ ebits F - 1) * 2 ^ mbits F"

definition sign_bits :: "ffmt \<Rightarrow> bool \<Rightarrow> nat" where
  "sign_bits F s = (if s then 2 ^ (ebits F + mbits F) else 0)"

definition decode :: "ffmt \<Rightarrow> nat \<Rightarrow> fp" where
  "decode F w =
     (let s = odd (w div 2 ^ (ebits F + mbits F)); ex = w div 2 ^ mbits F mod 2 ^ ebits F; m = w mod 2 ^ mbits F
      in if ex = 2 ^ ebits F - 1 then (if m = 0 then FInf s else FNaN)
         else if ex = 0 then FNum s m (emin F)
         else FNum s (m + 2 ^ mbits F) (emin F + int ex - 1))"

fun bit_length :: "nat \<Rightarrow> nat" where
  "bit_length n = (if n = 0 then 0 else Suc (bit_length (n div 2)))"

declare bit_length.simps [simp del]

text \<open>
  The magnitude of the number m * 2 ^ e, or of one strictly between it and (m + 1) * 2 ^ e if
  sticky, rounded to a pattern: q is the exponent of the last place. A carry out of the
  significand and an overflow to infinity need no case of their own.
\<close>

definition round_bits :: "ffmt \<Rightarrow> nat \<Rightarrow> int \<Rightarrow> bool \<Rightarrow> nat" where
  "round_bits F m e sticky =
     (let q = max (e + int (bit_length m) - int (mbits F) - 1) (emin F) in
      if m = 0 then 0
      else
        (let M = (if q \<le> e then m * 2 ^ nat (e - q)
             else (let d = nat (q - e); m0 = m div 2 ^ d; r = m mod 2 ^ d; half = 2 ^ (d - 1)
                   in if half < r \<or> (r = half \<and> (sticky \<or> odd m0)) then m0 + 1 else m0))
         in min (inf_bits F) (nat (q - emin F) * 2 ^ mbits F + M)))"

definition encode :: "ffmt \<Rightarrow> bool \<Rightarrow> nat \<Rightarrow> int \<Rightarrow> bool \<Rightarrow> nat" where
  "encode F s m e sticky = sign_bits F s + round_bits F m e sticky"

definition encode_inf :: "ffmt \<Rightarrow> bool \<Rightarrow> nat" where
  "encode_inf F s = sign_bits F s + inf_bits F"

section \<open>Arithmetic\<close>

definition fp_neg :: "fp \<Rightarrow> fp" where
  "fp_neg x = (case x of FNaN \<Rightarrow> FNaN | FInf s \<Rightarrow> FInf (\<not> s) | FNum s m e \<Rightarrow> FNum (\<not> s) m e)"

definition signed :: "bool \<Rightarrow> nat \<Rightarrow> int" where
  "signed s m = (if s then - int m else int m)"

text \<open>A sum of zero is negative only when both numbers are.\<close>

fun fp_add :: "ffmt \<Rightarrow> fp \<Rightarrow> fp \<Rightarrow> nat option" where
  "fp_add F FNaN y = None"
| "fp_add F (FInf s) FNaN = None"
| "fp_add F (FInf s) (FInf t) = (if s = t then Some (encode_inf F s) else None)"
| "fp_add F (FInf s) (FNum t m e) = Some (encode_inf F s)"
| "fp_add F (FNum s m e) FNaN = None"
| "fp_add F (FNum s m e) (FInf t) = Some (encode_inf F t)"
| "fp_add F (FNum s m e) (FNum t n f) =
     (let g = min e f; v = signed s (m * 2 ^ nat (e - g)) + signed t (n * 2 ^ nat (f - g))
      in Some (encode F (if v = 0 then s \<and> t else v < 0) (nat \<bar>v\<bar>) g False))"

definition fp_sub :: "ffmt \<Rightarrow> fp \<Rightarrow> fp \<Rightarrow> nat option" where
  "fp_sub F x y = fp_add F x (fp_neg y)"

fun fp_mul :: "ffmt \<Rightarrow> fp \<Rightarrow> fp \<Rightarrow> nat option" where
  "fp_mul F FNaN y = None"
| "fp_mul F (FInf s) FNaN = None"
| "fp_mul F (FInf s) (FInf t) = Some (encode_inf F (s \<noteq> t))"
| "fp_mul F (FInf s) (FNum t m e) = (if m = 0 then None else Some (encode_inf F (s \<noteq> t)))"
| "fp_mul F (FNum s m e) FNaN = None"
| "fp_mul F (FNum s m e) (FInf t) = (if m = 0 then None else Some (encode_inf F (s \<noteq> t)))"
| "fp_mul F (FNum s m e) (FNum t n f) = Some (encode F (s \<noteq> t) (m * n) (e + f) False)"

fun fp_div :: "ffmt \<Rightarrow> fp \<Rightarrow> fp \<Rightarrow> nat option" where
  "fp_div F FNaN y = None"
| "fp_div F (FInf s) FNaN = None"
| "fp_div F (FInf s) (FInf t) = None"
| "fp_div F (FInf s) (FNum t m e) = Some (encode_inf F (s \<noteq> t))"
| "fp_div F (FNum s m e) FNaN = None"
| "fp_div F (FNum s m e) (FInf t) = Some (sign_bits F (s \<noteq> t))"
| "fp_div F (FNum s m e) (FNum t n f) =
     (if n = 0 then (if m = 0 then None else Some (encode_inf F (s \<noteq> t)))
      else (let k = mbits F + 4 + bit_length n; a = m * 2 ^ k
            in Some (encode F (s \<noteq> t) (a div n) (e - f - int k) (a mod n \<noteq> 0))))"

text \<open>fmod: the remainder of truncating division, exact, with the sign of the dividend.\<close>

fun fp_mod :: "ffmt \<Rightarrow> fp \<Rightarrow> fp \<Rightarrow> nat option" where
  "fp_mod F FNaN y = None"
| "fp_mod F (FInf s) y = None"
| "fp_mod F (FNum s m e) FNaN = None"
| "fp_mod F (FNum s m e) (FInf t) = Some (encode F s m e False)"
| "fp_mod F (FNum s m e) (FNum t n f) =
     (if n = 0 then None
      else (let g = min e f in Some (encode F s (m * 2 ^ nat (e - g) mod (n * 2 ^ nat (f - g))) g False)))"

section \<open>Comparison\<close>

text \<open>The order on numbers; every comparison with a NaN is false.\<close>

fun fp_less :: "fp \<Rightarrow> fp \<Rightarrow> bool" where
  "fp_less FNaN y = False"
| "fp_less (FInf s) FNaN = False"
| "fp_less (FInf s) (FInf t) = (s \<and> \<not> t)"
| "fp_less (FInf s) (FNum t m e) = s"
| "fp_less (FNum s m e) FNaN = False"
| "fp_less (FNum s m e) (FInf t) = (\<not> t)"
| "fp_less (FNum s m e) (FNum t n f) =
     (let g = min e f in signed s (m * 2 ^ nat (e - g)) < signed t (n * 2 ^ nat (f - g)))"

section \<open>Conversions\<close>

definition fp_of_int :: "ffmt \<Rightarrow> int \<Rightarrow> nat" where
  "fp_of_int F i = encode F (i < 0) (nat \<bar>i\<bar>) 0 False"

text \<open>Between the formats; None for a NaN.\<close>

fun fp_convert :: "ffmt \<Rightarrow> fp \<Rightarrow> nat option" where
  "fp_convert F FNaN = None"
| "fp_convert F (FInf s) = Some (encode_inf F s)"
| "fp_convert F (FNum s m e) = Some (encode F s m e False)"

text \<open>
  To a signed integer of w bits, towards zero. In C the conversion of a number that does not fit
  is undefined.
\<close>

fun fp_to_int :: "nat \<Rightarrow> fp \<Rightarrow> int option" where
  "fp_to_int w FNaN = None"
| "fp_to_int w (FInf s) = None"
| "fp_to_int w (FNum s m e) =
     (let v = signed s (if 0 \<le> e then m * 2 ^ nat e else m div 2 ^ nat (- e))
      in if - (2 ^ (w - 1)) \<le> v \<and> v < 2 ^ (w - 1) then Some v else None)"

end
