(* ===== verification/Fp_Ops.thy ===== *)
theory Fp_Ops
  imports Jvm_Int_Ops Soft_Float
begin

text \<open>
  The floating point instructions of iam/src/jvm\_ops.c. They trap when the unit is absent or
  switched off. A NaN operand is passed on (the lower operand first), a NaN that an operation
  makes gets the processor's own pattern, and a NaN result never has its sign bit set.
\<close>

abbreviation (input) "INanPattern \<equiv> 0x7fff0000 :: u32"
abbreviation (input) "DINanPattern \<equiv> 0x7fffe00000000000 :: u64"

definition f_of :: "u32 \<Rightarrow> fp" where "f_of w = decode float_fmt (unat w)"
definition d_of :: "u64 \<Rightarrow> fp" where "d_of w = decode double_fmt (unat w)"

definition fpu_on :: "machine \<Rightarrow> bool" where
  "fpu_on s \<longleftrightarrow> hcr_fpp (hcr s) = 1 \<and> psr s AND 0x800 \<noteq> 0"

definition TRAP_IF_FPU_OFF :: "u8 \<Rightarrow> machine \<Rightarrow> (machine \<Rightarrow> machine option) \<Rightarrow> machine option" where
  "TRAP_IF_FPU_OFF op s k = (if fpu_on s then k s else invoke_trap s (ucast op))"

section \<open>Results\<close>

definition f_result :: "u32 \<Rightarrow> u32 \<Rightarrow> nat option \<Rightarrow> u32" where
  "f_result f2 f1 r =
     (let f = (if f_of f2 = FNaN then f2 else if f_of f1 = FNaN then f1
               else case r of None \<Rightarrow> INanPattern | Some n \<Rightarrow> word_of_nat n)
      in if f_of f = FNaN then f AND 0x7FFFFFFF else f)"

definition d_result :: "u64 \<Rightarrow> u64 \<Rightarrow> nat option \<Rightarrow> u64" where
  "d_result d2 d1 r =
     (let d = (if d_of d2 = FNaN then d2 else if d_of d1 = FNaN then d1
               else case r of None \<Rightarrow> DINanPattern | Some n \<Rightarrow> word_of_nat n)
      in if d_of d = FNaN then d AND 0x7FFFFFFFFFFFFFFF else d)"

definition fcmp_value :: "fp \<Rightarrow> fp \<Rightarrow> bool \<Rightarrow> u32" where
  "fcmp_value l r less_on_nan =
     (if fp_less l r then - 1 else if fp_less r l then 1
      else if l \<noteq> FNaN \<and> r \<noteq> FNaN then 0 else if less_on_nan then - 1 else 1)"

section \<open>Arithmetic\<close>

definition float_op :: "u8 \<Rightarrow> (fp \<Rightarrow> fp \<Rightarrow> nat option) \<Rightarrow> machine \<Rightarrow> machine option" where
  "float_op op f s = TRAP_IF_FPU_OFF op s (\<lambda>s.
     do { (f1, s) \<leftarrow> READ_WORD s (OPTOP_OFFSET s 1) acc_O;
          (f2, s) \<leftarrow> READ_WORD s (OPTOP_OFFSET s 2) acc_O;
          s \<leftarrow> WRITE_WORD s (OPTOP_OFFSET s 2) acc_O (f_result f2 f1 (f (f_of f2) (f_of f1)));
          SIZE_AND_STACK_RETURN s 1 (- 1) })"

definition double_body :: "(fp \<Rightarrow> fp \<Rightarrow> nat option) \<Rightarrow> machine \<Rightarrow> machine option" where
  "double_body f s =
     do { (d1, s) \<leftarrow> READ_DWORD s (OPTOP_OFFSET s 2) acc_O;
          (d2, s) \<leftarrow> READ_DWORD s (OPTOP_OFFSET s 4) acc_O;
          s \<leftarrow> WRITE_DWORD s (OPTOP_OFFSET s 4) acc_O (d_result d2 d1 (f (d_of d2) (d_of d1)));
          SIZE_AND_STACK_RETURN s 1 (- 2) }"

definition double_op :: "u8 \<Rightarrow> (fp \<Rightarrow> fp \<Rightarrow> nat option) \<Rightarrow> machine \<Rightarrow> machine option" where
  "double_op op f s = TRAP_IF_FPU_OFF op s (double_body f)"

text \<open>PSR bit 15 makes the double remainder trap.\<close>

definition op_drem :: "machine \<Rightarrow> machine option" where
  "op_drem s = TRAP_IF_FPU_OFF opc_drem s (\<lambda>s.
     if psr s AND 0x8000 \<noteq> 0 then LOW_PRIORITY_TRAP s opc_drem
     else double_body (fp_mod double_fmt) s)"

text \<open>The sign is flipped without the unit.\<close>

definition op_fneg :: "machine \<Rightarrow> machine option" where
  "op_fneg = unary_op (\<lambda>i. i XOR 0x80000000)"

definition op_dneg :: "machine \<Rightarrow> machine option" where
  "op_dneg = unary_op2 (\<lambda>l. l XOR 0x8000000000000000)"

definition op_fcmp :: "u8 \<Rightarrow> machine \<Rightarrow> machine option" where
  "op_fcmp op s = TRAP_IF_FPU_OFF op s (\<lambda>s.
     do { (l, s) \<leftarrow> READ_WORD s (OPTOP_OFFSET s 2) acc_O;
          (r, s) \<leftarrow> READ_WORD s (OPTOP_OFFSET s 1) acc_O;
          s \<leftarrow> WRITE_WORD s (OPTOP_OFFSET s 2) acc_O (fcmp_value (f_of l) (f_of r) (op = opc_fcmpl));
          SIZE_AND_STACK_RETURN s 1 (- 1) })"

definition op_dcmp :: "u8 \<Rightarrow> machine \<Rightarrow> machine option" where
  "op_dcmp op s = TRAP_IF_FPU_OFF op s (\<lambda>s.
     do { (l, s) \<leftarrow> READ_DWORD s (OPTOP_OFFSET s 4) acc_O;
          (r, s) \<leftarrow> READ_DWORD s (OPTOP_OFFSET s 2) acc_O;
          s \<leftarrow> WRITE_WORD s (OPTOP_OFFSET s 4) acc_O (fcmp_value (d_of l) (d_of r) (op = opc_dcmpl));
          SIZE_AND_STACK_RETURN s 1 (- 3) })"

section \<open>Conversions\<close>

text \<open>From w words to v words, with the stack change the code gives.\<close>

definition conv_1_1 :: "u8 \<Rightarrow> (u32 \<Rightarrow> u32 option) \<Rightarrow> machine \<Rightarrow> machine option" where
  "conv_1_1 op f s = TRAP_IF_FPU_OFF op s (\<lambda>s.
     do { (i, s) \<leftarrow> READ_WORD s (OPTOP_OFFSET s 1) acc_O; v \<leftarrow> f i;
          s \<leftarrow> WRITE_WORD s (OPTOP_OFFSET s 1) acc_O v; SIZE_AND_STACK_RETURN s 1 0 })"

definition conv_1_2 :: "u8 \<Rightarrow> (u32 \<Rightarrow> u64 option) \<Rightarrow> machine \<Rightarrow> machine option" where
  "conv_1_2 op f s = TRAP_IF_FPU_OFF op s (\<lambda>s.
     do { (i, s) \<leftarrow> READ_WORD s (OPTOP_OFFSET s 1) acc_O; v \<leftarrow> f i;
          s \<leftarrow> WRITE_DWORD s (OPTOP_OFFSET s 1) acc_O v; SIZE_AND_STACK_RETURN s 1 1 })"

definition conv_2_1 :: "u8 \<Rightarrow> (u64 \<Rightarrow> u32 option) \<Rightarrow> machine \<Rightarrow> machine option" where
  "conv_2_1 op f s = TRAP_IF_FPU_OFF op s (\<lambda>s.
     do { (i, s) \<leftarrow> READ_DWORD s (OPTOP_OFFSET s 2) acc_O; v \<leftarrow> f i;
          s \<leftarrow> WRITE_WORD s (OPTOP_OFFSET s 2) acc_O v; SIZE_AND_STACK_RETURN s 1 (- 1) })"

definition conv_2_2 :: "u8 \<Rightarrow> (u64 \<Rightarrow> u64 option) \<Rightarrow> machine \<Rightarrow> machine option" where
  "conv_2_2 op f s = TRAP_IF_FPU_OFF op s (\<lambda>s.
     do { (i, s) \<leftarrow> READ_DWORD s (OPTOP_OFFSET s 2) acc_O; v \<leftarrow> f i;
          s \<leftarrow> WRITE_DWORD s (OPTOP_OFFSET s 2) acc_O v; SIZE_AND_STACK_RETURN s 1 0 })"

text \<open>A NaN converts to zero; a number out of range is undefined.\<close>

definition int_of_fp :: "nat \<Rightarrow> fp \<Rightarrow> int option" where
  "int_of_fp w x = (if x = FNaN then Some 0 else fp_to_int w x)"

definition i2f :: "u32 \<Rightarrow> u32" where "i2f i = word_of_nat (fp_of_int float_fmt (sint i))"
definition i2d :: "u32 \<Rightarrow> u64" where "i2d i = word_of_nat (fp_of_int double_fmt (sint i))"
definition l2f :: "u64 \<Rightarrow> u32" where "l2f l = word_of_nat (fp_of_int float_fmt (sint l))"
definition l2d :: "u64 \<Rightarrow> u64" where "l2d l = word_of_nat (fp_of_int double_fmt (sint l))"
definition f2i :: "u32 \<Rightarrow> u32 option" where "f2i f = do { i \<leftarrow> int_of_fp 32 (f_of f); Some (word_of_int i) }"
definition f2l :: "u32 \<Rightarrow> u64 option" where "f2l f = do { i \<leftarrow> int_of_fp 64 (f_of f); Some (word_of_int i) }"
definition d2i :: "u64 \<Rightarrow> u32 option" where "d2i d = do { i \<leftarrow> int_of_fp 32 (d_of d); Some (word_of_int i) }"
definition d2l :: "u64 \<Rightarrow> u64 option" where "d2l d = do { i \<leftarrow> int_of_fp 64 (d_of d); Some (word_of_int i) }"

definition f2d :: "u32 \<Rightarrow> u64" where
  "f2d f = (case fp_convert double_fmt (f_of f) of
     None \<Rightarrow> 0x7ff0000000000000 OR push_bit 29 (ucast (f AND 0x007FFFFF)) | Some n \<Rightarrow> word_of_nat n)"

definition d2f :: "u64 \<Rightarrow> u32" where
  "d2f d = (case fp_convert float_fmt (d_of d) of None \<Rightarrow> INanPattern | Some n \<Rightarrow> word_of_nat n)"

end
