(* ===== verification/Jvm_Ops.thy ===== *)
theory Jvm_Ops
  imports Fp_Ops
begin

text \<open>
  The dispatch of iam/src/jvm\_ops.c: vDoJVMOp executes one instruction whose opcode has been
  fetched. The groups are tried in the order of the switch; the indexed loads and stores exist
  on the processors after pico only, and what no case takes is an illegal instruction.
\<close>

section \<open>Indexed loads and stores\<close>

text \<open>A local variable plus a signed byte, scaled; the address as computed, bits 31 and 30 included.\<close>

definition index_address :: "machine \<Rightarrow> u32 \<Rightarrow> (u32 \<times> machine) option" where
  "index_address s scale =
     do { (lvar, s) \<leftarrow> opByte s 1;
          (b, s) \<leftarrow> IstreamReadByte s (pc s + 2);
          (base, s) \<leftarrow> READ_WORD s (VARS_OFFSET s (- lvar)) acc_V;
          Some (base + scast b * scale, s) }"

definition nc_or :: "u32 \<Rightarrow> acc \<Rightarrow> acc" where
  "nc_or a c = (if IS_NC_ADDRESS a then acc_N else c)"

abbreviation STRIP :: "u32 \<Rightarrow> u32" where "STRIP a \<equiv> a AND 0x3FFFFFFF"

definition op_load_word_index :: "machine \<Rightarrow> machine option" where
  "op_load_word_index s =
     do { (a, s) \<leftarrow> index_address s 4;
          let s = CHECK_ADDRESS_ALIGNMENT s a 2;
          (w, s) \<leftarrow> READ_WORD s (STRIP a) (nc_or a acc_Z);
          s \<leftarrow> WRITE_WORD s (OPTOP_OFFSET s 0) acc_O (if IS_LE_ADDRESS a then SWAP_WORD w else w);
          SIZE_AND_STACK_RETURN s 3 1 }"

text \<open>sx tells load\_short\_index from load\_char\_index, and load\_byte\_index from load\_ubyte\_index.\<close>

definition op_load_half_index :: "bool \<Rightarrow> machine \<Rightarrow> machine option" where
  "op_load_half_index sx s =
     do { (a, s) \<leftarrow> index_address s 2;
          let s = CHECK_ADDRESS_ALIGNMENT s a 1;
          (w, s) \<leftarrow> READ_SHORT s (STRIP a) (nc_or a acc_Z);
          let h = (if IS_LE_ADDRESS a then SWAP_SHORT (ucast w) else ucast w);
          s \<leftarrow> WRITE_WORD s (OPTOP_OFFSET s 0) acc_O (if sx then scast h else ucast h);
          SIZE_AND_STACK_RETURN s 3 1 }"

definition op_load_byte_index :: "bool \<Rightarrow> machine \<Rightarrow> machine option" where
  "op_load_byte_index sx s =
     do { (a, s) \<leftarrow> index_address s 1;
          (w, s) \<leftarrow> READ_BYTE s (STRIP a) (nc_or a acc_Z);
          let b = (ucast w :: u8);
          s \<leftarrow> WRITE_WORD s (OPTOP_OFFSET s 0) acc_O (if sx then scast b else ucast b);
          SIZE_AND_STACK_RETURN s 3 1 }"

text \<open>store\_word\_index and nastore\_word\_index, by the kind of their access.\<close>

definition op_store_word_index :: "acc \<Rightarrow> machine \<Rightarrow> machine option" where
  "op_store_word_index c s =
     do { (a, s) \<leftarrow> index_address s 4;
          let s = CHECK_ADDRESS_ALIGNMENT s a 2;
          (w, s) \<leftarrow> READ_WORD s (OPTOP_OFFSET s 1) acc_O;
          s \<leftarrow> WRITE_WORD s (STRIP a) (nc_or a c) (if IS_LE_ADDRESS a then SWAP_WORD w else w);
          SIZE_AND_STACK_RETURN s 3 (- 1) }"

definition op_store_short_index :: "machine \<Rightarrow> machine option" where
  "op_store_short_index s =
     do { (a, s) \<leftarrow> index_address s 2;
          let s = CHECK_ADDRESS_ALIGNMENT s a 1;
          (w, s) \<leftarrow> READ_WORD s (OPTOP_OFFSET s 1) acc_O;
          let h = (if IS_LE_ADDRESS a then SWAP_SHORT (ucast w) else ucast w);
          s \<leftarrow> WRITE_SHORT s (STRIP a) (nc_or a acc_Z) (ucast h);
          SIZE_AND_STACK_RETURN s 3 (- 1) }"

definition op_store_byte_index :: "machine \<Rightarrow> machine option" where
  "op_store_byte_index s =
     do { (a, s) \<leftarrow> index_address s 1;
          (w, s) \<leftarrow> READ_WORD s (OPTOP_OFFSET s 1) acc_O;
          s \<leftarrow> WRITE_BYTE s (STRIP a) (nc_or a acc_Z) w;
          SIZE_AND_STACK_RETURN s 3 (- 1) }"

definition index_op :: "machine \<Rightarrow> u8 \<Rightarrow> machine option" where
  "index_op s op =
     (if op = opc_load_word_index then op_load_word_index s
      else if op = opc_load_short_index then op_load_half_index True s
      else if op = opc_load_char_index then op_load_half_index False s
      else if op = opc_load_byte_index then op_load_byte_index True s
      else if op = opc_load_ubyte_index then op_load_byte_index False s
      else if op = opc_store_word_index then op_store_word_index acc_Z s
      else if op = opc_store_short_index then op_store_short_index s
      else if op = opc_store_byte_index then op_store_byte_index s
      else if op = opc_nastore_word_index then op_store_word_index acc_A s
      else Some (vSetupException s ILLEGAL_INSTR_EXCEPTION))"

section \<open>The groups\<close>

text \<open>Each group gives None for an opcode that is not one of its own.\<close>

definition local_ops :: "u8 \<Rightarrow> (machine \<Rightarrow> machine option) option" where
  "local_ops op =
     (if op = opc_nop then Some (\<lambda>s. SIZE_AND_STACK_RETURN s 1 0)
      else if op \<in> {opc_aload, opc_iload, opc_fload} then Some (op_local push_local)
      else if op \<in> {opc_lload, opc_dload} then Some (op_local push_local2)
      else if op \<in> {opc_iload_0, opc_aload_0, opc_fload_0} then Some (\<lambda>s. push_local s 0 1)
      else if op \<in> {opc_lload_0, opc_dload_0} then Some (\<lambda>s. push_local2 s 0 1)
      else if op \<in> {opc_iload_1, opc_aload_1, opc_fload_1} then Some (\<lambda>s. push_local s 1 1)
      else if op \<in> {opc_lload_1, opc_dload_1} then Some (\<lambda>s. push_local2 s 1 1)
      else if op \<in> {opc_iload_2, opc_aload_2, opc_fload_2} then Some (\<lambda>s. push_local s 2 1)
      else if op \<in> {opc_lload_2, opc_dload_2} then Some (\<lambda>s. push_local2 s 2 1)
      else if op \<in> {opc_iload_3, opc_aload_3, opc_fload_3} then Some (\<lambda>s. push_local s 3 1)
      else if op \<in> {opc_lload_3, opc_dload_3} then Some (\<lambda>s. push_local2 s 3 1)
      else if op \<in> {opc_istore, opc_astore, opc_fstore} then Some (op_local pop_local)
      else if op \<in> {opc_lstore, opc_dstore} then Some (op_local pop_local2)
      else if op \<in> {opc_istore_0, opc_astore_0, opc_fstore_0} then Some (\<lambda>s. pop_local s 0 1)
      else if op \<in> {opc_lstore_0, opc_dstore_0} then Some (\<lambda>s. pop_local2 s 0 1)
      else if op \<in> {opc_istore_1, opc_astore_1, opc_fstore_1} then Some (\<lambda>s. pop_local s 1 1)
      else if op \<in> {opc_lstore_1, opc_dstore_1} then Some (\<lambda>s. pop_local2 s 1 1)
      else if op \<in> {opc_istore_2, opc_astore_2, opc_fstore_2} then Some (\<lambda>s. pop_local s 2 1)
      else if op \<in> {opc_lstore_2, opc_dstore_2} then Some (\<lambda>s. pop_local2 s 2 1)
      else if op \<in> {opc_istore_3, opc_astore_3, opc_fstore_3} then Some (\<lambda>s. pop_local s 3 1)
      else if op \<in> {opc_lstore_3, opc_dstore_3} then Some (\<lambda>s. pop_local2 s 3 1)
      else if op = opc_iinc then Some op_iinc
      else if op \<in> {opc_areturn, opc_ireturn, opc_freturn} then Some (op_return 1)
      else if op \<in> {opc_lreturn, opc_dreturn} then Some (op_return 2)
      else if op = opc_return then Some (op_return 0)
      else None)"

definition const_ops :: "u8 \<Rightarrow> (machine \<Rightarrow> machine option) option" where
  "const_ops op =
     (if op = opc_bipush then Some op_bipush
      else if op = opc_sipush then Some op_sipush
      else if op = opc_aconst_null then Some (\<lambda>s. push_const s 0)
      else if op = opc_iconst_m1 then Some (\<lambda>s. push_const s (- 1))
      else if op = opc_iconst_0 then Some (\<lambda>s. push_const s 0)
      else if op = opc_iconst_1 then Some (\<lambda>s. push_const s 1)
      else if op = opc_iconst_2 then Some (\<lambda>s. push_const s 2)
      else if op = opc_iconst_3 then Some (\<lambda>s. push_const s 3)
      else if op = opc_iconst_4 then Some (\<lambda>s. push_const s 4)
      else if op = opc_iconst_5 then Some (\<lambda>s. push_const s 5)
      else if op = opc_fconst_0 then Some (\<lambda>s. push_const s 0)
      else if op = opc_fconst_1 then Some (\<lambda>s. push_const s 0x3f800000)
      else if op = opc_fconst_2 then Some (\<lambda>s. push_const s 0x40000000)
      else if op = opc_dconst_0 then Some (\<lambda>s. push_const2 s 0)
      else if op = opc_dconst_1 then Some (\<lambda>s. push_const2 s 0x3ff0000000000000)
      else if op = opc_lconst_0 then Some (\<lambda>s. push_const2 s 0)
      else if op = opc_lconst_1 then Some (\<lambda>s. push_const2 s 1)
      else if op = opc_sethi then Some op_sethi
      else None)"

definition int_ops :: "u8 \<Rightarrow> (machine \<Rightarrow> machine option) option" where
  "int_ops op =
     (if op = opc_i2l then Some op_i2l
      else if op = opc_l2i then Some op_l2i
      else if op = opc_int2byte then Some (unary_op (\<lambda>i. scast (ucast i :: u8)))
      else if op = opc_int2char then Some (unary_op (\<lambda>i. i AND 0xFFFF))
      else if op = opc_int2short then Some (unary_op (\<lambda>i. scast (ucast i :: u16)))
      else if op = opc_lcmp then Some op_lcmp
      else if op = opc_iadd then Some (binary_int_op (\<lambda>a b. Some (a + b)) False)
      else if op = opc_ladd then Some (binary_long_op (+))
      else if op = opc_isub then Some (binary_int_op (\<lambda>a b. Some (a - b)) False)
      else if op = opc_lsub then Some (binary_long_op (-))
      else if op = opc_imul then Some (binary_int_op (\<lambda>a b. Some (a * b)) False)
      else if op \<in> {opc_lmul, opc_ldiv, opc_lrem} then Some (trapping_long_op op)
      else if op = opc_iand then Some (binary_int_op (\<lambda>a b. Some (a AND b)) False)
      else if op = opc_land then Some (binary_long_op (AND))
      else if op = opc_ior then Some (binary_int_op (\<lambda>a b. Some (a OR b)) False)
      else if op = opc_lor then Some (binary_long_op (OR))
      else if op = opc_ixor then Some (binary_int_op (\<lambda>a b. Some (a XOR b)) False)
      else if op = opc_lxor then Some (binary_long_op (XOR))
      else if op = opc_idiv then Some (binary_int_op int_div True)
      else if op = opc_irem then Some (binary_int_op int_rem True)
      else if op = opc_ishl then Some (shift_op push_bit)
      else if op = opc_lshl then Some (shift_op2 push_bit)
      else if op = opc_ishr then Some (shift_op signed_drop_bit)
      else if op = opc_lshr then Some (shift_op2 signed_drop_bit)
      else if op = opc_iushr then Some (shift_op drop_bit)
      else if op = opc_lushr then Some (shift_op2 drop_bit)
      else if op = opc_ineg then Some (unary_op uminus)
      else if op = opc_lneg then Some (unary_op2 uminus)
      else None)"

definition fp_ops :: "u8 \<Rightarrow> (machine \<Rightarrow> machine option) option" where
  "fp_ops op =
     (if op = opc_i2f then Some (conv_1_1 op (\<lambda>i. Some (i2f i)))
      else if op = opc_i2d then Some (conv_1_2 op (\<lambda>i. Some (i2d i)))
      else if op = opc_l2f then Some (conv_2_1 op (\<lambda>l. Some (l2f l)))
      else if op = opc_l2d then Some (conv_2_2 op (\<lambda>l. Some (l2d l)))
      else if op = opc_f2i then Some (conv_1_1 op f2i)
      else if op = opc_f2l then Some (conv_1_2 op f2l)
      else if op = opc_d2i then Some (conv_2_1 op d2i)
      else if op = opc_d2l then Some (conv_2_2 op d2l)
      else if op = opc_f2d then Some (conv_1_2 op (\<lambda>f. Some (f2d f)))
      else if op = opc_d2f then Some (conv_2_1 op (\<lambda>d. Some (d2f d)))
      else if op \<in> {opc_fcmpl, opc_fcmpg} then Some (op_fcmp op)
      else if op \<in> {opc_dcmpl, opc_dcmpg} then Some (op_dcmp op)
      else if op = opc_fadd then Some (float_op op (fp_add float_fmt))
      else if op = opc_dadd then Some (double_op op (fp_add double_fmt))
      else if op = opc_fsub then Some (float_op op (fp_sub float_fmt))
      else if op = opc_dsub then Some (double_op op (fp_sub double_fmt))
      else if op = opc_fmul then Some (float_op op (fp_mul float_fmt))
      else if op = opc_dmul then Some (double_op op (fp_mul double_fmt))
      else if op = opc_fdiv then Some (float_op op (fp_div float_fmt))
      else if op = opc_ddiv then Some (double_op op (fp_div double_fmt))
      else if op = opc_frem then Some (float_op op (fp_mod float_fmt))
      else if op = opc_drem then Some op_drem
      else if op = opc_fneg then Some op_fneg
      else if op = opc_dneg then Some op_dneg
      else None)"

definition jump_ops :: "u8 \<Rightarrow> (machine \<Rightarrow> machine option) option" where
  "jump_ops op =
     (if op = opc_jsr then Some op_jsr
      else if op = opc_goto then Some op_goto
      else if op = opc_jsr_w then Some op_jsr_w
      else if op = opc_goto_w then Some op_goto_w
      else if op = opc_ret then Some op_ret
      else if op = opc_if_icmpeq then Some (op_if_icmp (=))
      else if op = opc_ifeq then Some (op_if (=))
      else if op = opc_if_acmpeq then Some (op_if_acmp True)
      else if op = opc_ifnull then Some (op_ifnull True)
      else if op = opc_if_icmpne then Some (op_if_icmp (\<noteq>))
      else if op = opc_ifne then Some (op_if (\<noteq>))
      else if op = opc_if_acmpne then Some (op_if_acmp False)
      else if op = opc_ifnonnull then Some (op_ifnull False)
      else if op = opc_if_icmplt then Some (op_if_icmp (<))
      else if op = opc_iflt then Some (op_if (<))
      else if op = opc_if_icmpgt then Some (op_if_icmp (>))
      else if op = opc_ifgt then Some (op_if (>))
      else if op = opc_if_icmple then Some (op_if_icmp (\<le>))
      else if op = opc_ifle then Some (op_if (\<le>))
      else if op = opc_if_icmpge then Some (op_if_icmp (\<ge>))
      else if op = opc_ifge then Some (op_if (\<ge>))
      else None)"

definition stack_ops :: "u8 \<Rightarrow> (machine \<Rightarrow> machine option) option" where
  "stack_ops op =
     (if op = opc_pop then Some (\<lambda>s. SIZE_AND_STACK_RETURN s 1 (- 1))
      else if op = opc_pop2 then Some (\<lambda>s. SIZE_AND_STACK_RETURN s 1 (- 2))
      else if op = opc_dup then Some op_dup
      else if op = opc_dup2 then Some op_dup2
      else if op = opc_dup_x1 then Some op_dup_x1
      else if op = opc_dup_x2 then Some op_dup_x2
      else if op = opc_dup2_x1 then Some op_dup2_x1
      else if op = opc_dup2_x2 then Some op_dup2_x2
      else if op = opc_swap then Some op_swap
      else if op = opc_exit_sync_method then Some op_exit_sync_method
      else None)"

text \<open>Instructions that are emulated by a trap handler.\<close>

definition trap_ops :: "u8 \<Rightarrow> (machine \<Rightarrow> machine option) option" where
  "trap_ops op =
     (if op \<in> {opc_ldc, opc_ldc_w, opc_ldc2_w, opc_getstatic, opc_putstatic, opc_getfield, opc_putfield,
          opc_new, opc_newarray, opc_anewarray, opc_checkcast, opc_instanceof, opc_multianewarray,
          opc_invokevirtual, opc_invokespecial, opc_invokestatic, opc_invokeinterface, opc_aastore,
          opc_athrow, opc_breakpoint, opc_lookupswitch, opc_new_quick, opc_anewarray_quick,
          opc_multianewarray_quick, opc_invokeinterface_quick, opc_getfield_quick_w,
          opc_putfield_quick_w, opc_wide}
      then Some (\<lambda>s. LOW_PRIORITY_TRAP s (ucast op))
      else None)"

definition object_ops :: "u8 \<Rightarrow> (machine \<Rightarrow> machine option) option" where
  "object_ops op =
     (if op = opc_invokestatic_quick then Some doInvokestatic_quick
      else if op = opc_invokenonvirtual_quick then Some doInvokenonvirtual_quick
      else if op \<in> {opc_agetstatic_quick, opc_getstatic_quick} then Some doGetstatic_quick
      else if op = opc_aputstatic_quick then Some doAPutstatic_quick
      else if op = opc_putstatic_quick then Some doPutstatic_quick
      else if op = opc_getstatic2_quick then Some doGetstatic2_quick
      else if op = opc_putstatic2_quick then Some doPutstatic2_quick
      else if op = opc_invokevirtual_quick then Some doInvokevirtual_quick
      else if op = opc_invokevirtual_quick_w then Some doInvokevirtual_quick_w
      else if op = opc_putfield_quick then Some doPutfield_quick
      else if op = opc_aputfield_quick then Some doAPutfield_quick
      else if op = opc_putfield2_quick then Some doPutfield2_quick
      else if op = opc_agetfield_quick then Some doAGetfield_quick
      else if op = opc_getfield_quick then Some doGetfield_quick
      else if op = opc_getfield2_quick then Some doGetfield2_quick
      else if op \<in> {opc_aldc_quick, opc_ldc_quick} then Some doLdc_quick
      else if op \<in> {opc_aldc_w_quick, opc_ldc_w_quick} then Some doLdc_w_quick
      else if op = opc_ldc2_w_quick then Some doLdc2_w_quick
      else if op = opc_invokesuper_quick then Some doInvokesuper_quick
      else if op = opc_tableswitch then Some doTableSwitch
      else if op = opc_checkcast_quick then Some doCheckCast_quick
      else if op = opc_instanceof_quick then Some doInstanceOf_quick
      else if op = opc_nonnull_quick then Some doNonnull_quick
      else if op = opc_monitorenter then Some doMonitorEnter
      else if op = opc_monitorexit then Some doMonitorExit
      else None)"

definition array_ops :: "u8 \<Rightarrow> (machine \<Rightarrow> machine option) option" where
  "array_ops op =
     (if op = opc_arraylength then Some doArrayLength
      else if op \<in> {opc_aaload, opc_iaload, opc_faload} then Some do32bArrayLoad
      else if op = opc_aastore_quick then
        Some (\<lambda>s. if proc_type s \<noteq> pico \<and> proc_type s \<noteq> maya then doAastore_quick s
                  else LOW_PRIORITY_TRAP s (ucast op))
      else if op \<in> {opc_iastore, opc_fastore} then Some do32bArrayStore
      else if op \<in> {opc_laload, opc_daload} then Some do64bArrayLoad
      else if op \<in> {opc_lastore, opc_dastore} then Some do64bArrayStore
      else if op = opc_baload then Some doBaload
      else if op = opc_bastore then Some doBastore
      else if op = opc_saload then Some doSaload
      else if op = opc_sastore then Some doSastore
      else if op = opc_caload then Some doCaload
      else if op = opc_castore then Some doCastore
      else None)"

fun first_some :: "'a option list \<Rightarrow> 'a option" where
  "first_some [] = None"
| "first_some (Some x # xs) = Some x"
| "first_some (None # xs) = first_some xs"

definition vDoJVMOp :: "machine \<Rightarrow> u8 \<Rightarrow> machine option" where
  "vDoJVMOp s op =
     (case first_some [local_ops op, int_ops op, fp_ops op, const_ops op, jump_ops op, stack_ops op,
          trap_ops op, object_ops op, array_ops op] of
        Some f \<Rightarrow> f s
      | None \<Rightarrow> if proc_type s \<noteq> pico then index_op s op
                else Some (vSetupException s ILLEGAL_INSTR_EXCEPTION))"

end
