(* ===== verification/Ext_Ops.thy ===== *)
theory Ext_Ops
  imports Pico_Init Jvm_Ops
begin

text \<open>
  The extended instructions, vDoExtOp of iam/src/ext\_ops.c: diagnostic and maintenance access to
  the caches, register reads and writes, C calls, memory accesses of every width with either
  byte order, and the mailbox words through which a program ends the simulation, acknowledges an
  interrupt or commands the profiler (which is not modelled).
\<close>

section \<open>Privilege and address checks\<close>

definition TRAP_IF_NONPRIV :: "machine \<Rightarrow> (machine \<Rightarrow> machine option) \<Rightarrow> machine option" where
  "TRAP_IF_NONPRIV s k = (if psr s AND 0x20 = 0 then Some (vSetupException s PRIV_INSTR_EXCEPTION) else k s)"

text \<open>
  The check before zero\_line and cache\_invalidate. The call of causes\_mem\_prot\_error lacks its
  second argument, so the kind of access it sees is indeterminate.
\<close>

definition indet_acc :: "machine \<Rightarrow> acc \<times> machine" where
  "indet_acc s = (let (d, s) = fresh s in (if d AND 1 = 0 then acc_Z else acc_O, s))"

definition line_op_fault :: "machine \<Rightarrow> u32 \<Rightarrow> ExceptionId option \<times> machine" where
  "line_op_fault s a =
     (let (c, s) = indet_acc s in
      (if causes_mem_prot_error s a c then Some MEM_PROT_EXCEPTION
       else if pico_breakpoint_match s False a True False then Some DBR1_EXCEPTION
       else if pico_breakpoint_match s True a True False then Some DBR2_EXCEPTION
       else None, s))"

section \<open>Cache maintenance\<close>

definition op_zero_line :: "machine \<Rightarrow> machine option" where
  "op_zero_line s =
     do { (a, s) \<leftarrow> READ_WORD s (OPTOP_OFFSET s 1) acc_O;
          if CHK_PSR_DCE s \<and> \<not> IS_NC_ADDRESS a then
            (let a = STRIP a; (fault, s) = line_op_fault s a in
             case fault of
               Some eid \<Rightarrow> Some (vSetupException s eid)
             | None \<Rightarrow>
                 do { (r, d, m) \<leftarrow> dCacheZeroLine (dc s) (cm s) a;
                      let s = s\<lparr>dc := d, cm := m\<rparr>;
                      if r = DSV_FAIL then Some s else SIZE_AND_STACK_RETURN s 2 (- 1) })
          else LOW_PRIORITY_TRAP s ZeroLineEmulationTrap }"

definition op_cache_flush :: "machine \<Rightarrow> machine option" where
  "op_cache_flush s =
     do { (a, s) \<leftarrow> READ_WORD s (OPTOP_OFFSET s 1) acc_O;
          (v, s) \<leftarrow> READ_WORD s (OPTOP_OFFSET s 2) acc_O;
          (r, res, d, i, m) \<leftarrow> cacheFlush (CHK_PSR_DCE s) (CHK_PSR_ICE s) (dc s) (ic s) (cm s) a v;
          let s = s\<lparr>dc := d, ic := i, cm := m\<rparr>;
          if r = DSV_FAIL then Some s
          else do { s \<leftarrow> WRITE_WORD s (OPTOP_OFFSET s 1) acc_O res; SIZE_AND_STACK_RETURN s 2 0 } }"

definition op_cache_index_flush :: "machine \<Rightarrow> machine option" where
  "op_cache_index_flush s =
     do { (a, s) \<leftarrow> READ_WORD s (OPTOP_OFFSET s 1) acc_O;
          (v, s) \<leftarrow> READ_WORD s (OPTOP_OFFSET s 2) acc_O;
          (r, res, d, i, m) \<leftarrow> cacheIndexFlush (CHK_PSR_DCE s) (dc s) (ic s) (cm s) a v a;
          let s = s\<lparr>dc := d, ic := i, cm := m\<rparr>;
          if r = DSV_FAIL then Some s
          else do { s \<leftarrow> WRITE_WORD s (OPTOP_OFFSET s 1) acc_O res; SIZE_AND_STACK_RETURN s 2 0 } }"

definition op_cache_invalidate :: "machine \<Rightarrow> machine option" where
  "op_cache_invalidate s =
     do { (a, s) \<leftarrow> READ_WORD s (OPTOP_OFFSET s 1) acc_O;
          let (fault, s) = line_op_fault s a;
          case fault of
            Some eid \<Rightarrow> Some (vSetupException s eid)
          | None \<Rightarrow>
              do { (v, s) \<leftarrow> READ_WORD s (OPTOP_OFFSET s 2) acc_O;
                   (r, res, d, i) \<leftarrow> cacheInvalidate (CHK_PSR_DCE s) (CHK_PSR_ICE s) (dc s) (ic s) a v;
                   let s = s\<lparr>dc := d, ic := i\<rparr>;
                   if r = DSV_FAIL then Some s
                   else do { s \<leftarrow> WRITE_WORD s (OPTOP_OFFSET s 1) acc_O res; SIZE_AND_STACK_RETURN s 2 0 } } }"

text \<open>The diagnostic reads and writes, over the routines of the caches.\<close>

definition diag_read :: "(machine \<Rightarrow> u32 \<Rightarrow> u32 \<Rightarrow> (dsv \<times> u32) option) \<Rightarrow> machine \<Rightarrow> machine option" where
  "diag_read f s = TRAP_IF_NONPRIV s (\<lambda>s.
     do { (a, s) \<leftarrow> READ_WORD s (OPTOP_OFFSET s 1) acc_O;
          let (v, s) = fresh s;
          (r, v) \<leftarrow> f s a v;
          if r = DSV_FAIL then Some s
          else do { s \<leftarrow> WRITE_WORD s (OPTOP_OFFSET s 1) acc_O v; SIZE_AND_STACK_RETURN s 2 0 } })"

definition diag_write :: "(machine \<Rightarrow> u32 \<Rightarrow> u32 \<Rightarrow> (dsv \<times> machine) option) \<Rightarrow> machine \<Rightarrow> machine option" where
  "diag_write f s = TRAP_IF_NONPRIV s (\<lambda>s.
     do { (a, s) \<leftarrow> READ_WORD s (OPTOP_OFFSET s 1) acc_O;
          (v, s) \<leftarrow> READ_WORD s (OPTOP_OFFSET s 2) acc_O;
          (r, s) \<leftarrow> f s a v;
          if r = DSV_FAIL then Some s else SIZE_AND_STACK_RETURN s 2 (- 2) })"

definition on_dc :: "(dcache \<Rightarrow> u32 \<Rightarrow> u32 \<Rightarrow> (dsv \<times> dcache) option) \<Rightarrow> machine \<Rightarrow> u32 \<Rightarrow> u32 \<Rightarrow> (dsv \<times> machine) option" where
  "on_dc f s a v = do { (r, c) \<leftarrow> f (dc s) a v; Some (r, s\<lparr>dc := c\<rparr>) }"

definition on_ic :: "(icache \<Rightarrow> u32 \<Rightarrow> u32 \<Rightarrow> (dsv \<times> icache) option) \<Rightarrow> machine \<Rightarrow> u32 \<Rightarrow> u32 \<Rightarrow> (dsv \<times> machine) option" where
  "on_ic f s a v = do { (r, c) \<leftarrow> f (ic s) a v; Some (r, s\<lparr>ic := c\<rparr>) }"

definition cache_ops :: "u8 \<Rightarrow> (machine \<Rightarrow> machine option) option" where
  "cache_ops op =
     (if op = opc_zero_line then Some op_zero_line
      else if op = opc_cache_flush then Some op_cache_flush
      else if op = opc_cache_index_flush then Some op_cache_index_flush
      else if op = opc_cache_invalidate then Some op_cache_invalidate
      else if op = opc_soft_trap then Some (\<lambda>s. LOW_PRIORITY_TRAP s soft_trap)
      else if op = opc_priv_read_dcache_tag then Some (diag_read (\<lambda>s. readDcacheTag (dc s)))
      else if op = opc_priv_write_dcache_tag then Some (diag_write (on_dc writeDcacheTag))
      else if op = opc_priv_read_dcache_data then Some (diag_read (\<lambda>s. readDcacheData (dc s)))
      else if op = opc_priv_write_dcache_data then Some (diag_write (on_dc writeDcacheData))
      else if op = opc_priv_read_icache_tag then Some (diag_read (\<lambda>s. readIcacheTag (ic s)))
      else if op = opc_priv_write_icache_tag then Some (diag_write (on_ic writeIcacheTag))
      else if op = opc_priv_read_icache_data then Some (diag_read (\<lambda>s. readIcacheData (ic s)))
      else if op = opc_priv_write_icache_data then Some (diag_write (on_ic writeIcacheData))
      else None)"

section \<open>Registers\<close>

definition op_priv_update_optop :: "machine \<Rightarrow> machine option" where
  "op_priv_update_optop s = TRAP_IF_NONPRIV s (\<lambda>s.
     do { (lim, s) \<leftarrow> READ_WORD s (OPTOP_OFFSET s 2) acc_O;
          s \<leftarrow> vUpdateGR s GR_oplim (lim AND 0x7FFFFFFF);
          (v, s) \<leftarrow> READ_WORD s (OPTOP_OFFSET s 1) acc_O;
          s \<leftarrow> vUpdateGR s GR_optop v;
          s \<leftarrow> vUpdateGR s GR_oplim lim;
          SIZE_AND_STACK_RETURN s 2 0 })"

definition read_reg :: "(machine \<Rightarrow> u32) \<Rightarrow> machine \<Rightarrow> machine option" where
  "read_reg r s = do { s \<leftarrow> WRITE_WORD s (OPTOP_OFFSET s 0) acc_O (r s); SIZE_AND_STACK_RETURN s 2 1 }"

definition priv_read_reg :: "(machine \<Rightarrow> u32) \<Rightarrow> machine \<Rightarrow> machine option" where
  "priv_read_reg r s = TRAP_IF_NONPRIV s (read_reg r)"

definition read_ops :: "u8 \<Rightarrow> (machine \<Rightarrow> machine option) option" where
  "read_ops op =
     (if op = opc_read_pc then Some (read_reg pc)
      else if op = opc_read_vars then Some (read_reg vars)
      else if op = opc_read_frame then Some (read_reg frame)
      else if op = opc_read_optop then Some (read_reg optop)
      else if op = opc_priv_read_oplim then Some (priv_read_reg oplim)
      else if op = opc_read_const_pool then Some (read_reg const_pool)
      else if op = opc_priv_read_psr then Some (priv_read_reg psr)
      else if op = opc_priv_read_trapbase then Some (priv_read_reg trapbase)
      else if op = opc_priv_read_lockcount0 then Some (priv_read_reg (\<lambda>s. lockCount s 0))
      else if op = opc_priv_read_lockcount1 then Some (priv_read_reg (\<lambda>s. lockCount s 1))
      else if op = opc_priv_read_lockaddr0 then Some (priv_read_reg (\<lambda>s. lockAddr s 0))
      else if op = opc_priv_read_lockaddr1 then Some (priv_read_reg (\<lambda>s. lockAddr s 1))
      else if op = opc_priv_read_userrange1 then Some (priv_read_reg userrange1)
      else if op = opc_priv_read_userrange2 then Some (priv_read_reg userrange2)
      else if op = opc_priv_read_gc_config then Some (priv_read_reg gcConfig)
      else if op = opc_priv_read_brk1a then Some (priv_read_reg brk1a)
      else if op = opc_priv_read_brk2a then Some (priv_read_reg brk2a)
      else if op = opc_priv_read_brk12c then Some (priv_read_reg brk12c)
      else if op = opc_priv_read_versionid then Some (priv_read_reg versionId)
      else if op = opc_priv_read_hcr then Some (priv_read_reg hcr)
      else if op = opc_priv_read_sc_bottom then Some (priv_read_reg scBottom)
      else if op = opc_read_global0 then Some (read_reg global0)
      else if op = opc_read_global1 then Some (read_reg global1)
      else if op = opc_read_global2 then Some (read_reg global2)
      else if op = opc_read_global3 then Some (read_reg global3)
      else None)"

definition write_reg :: "(u32 \<Rightarrow> machine \<Rightarrow> machine) \<Rightarrow> machine \<Rightarrow> machine option" where
  "write_reg f s =
     do { (v, s) \<leftarrow> READ_WORD s (OPTOP_OFFSET s 1) acc_O; SIZE_AND_STACK_RETURN (f v s) 2 (- 1) }"

definition priv_write_reg :: "(u32 \<Rightarrow> machine \<Rightarrow> machine) \<Rightarrow> machine \<Rightarrow> machine option" where
  "priv_write_reg f s = TRAP_IF_NONPRIV s (write_reg f)"

definition op_write_pc :: "machine \<Rightarrow> machine option" where
  "op_write_pc s =
     do { (v, s) \<leftarrow> READ_WORD s (OPTOP_OFFSET s 1) acc_O; SIZE_AND_STACK_RETURN (s\<lparr>pc := v\<rparr>) 0 (- 1) }"

definition op_write_optop :: "machine \<Rightarrow> machine option" where
  "op_write_optop s =
     do { (v, s) \<leftarrow> READ_WORD s (OPTOP_OFFSET s 1) acc_O;
          s \<leftarrow> vUpdateGR s GR_optop (v AND 0xFFFFFFFC);
          SIZE_AND_STACK_RETURN s 2 0 }"

text \<open>The reserved fields res0, res1 and res2 of brk12c (bits 23, 15 to 12 and 7 to 4) read as zero.\<close>

definition clear_brk_res :: "u32 \<Rightarrow> u32" where
  "clear_brk_res w = set_field (set_field (set_field w 23 1 0) 12 4 0) 4 4 0"

definition write_ops :: "u8 \<Rightarrow> (machine \<Rightarrow> machine option) option" where
  "write_ops op =
     (if op = opc_write_pc then Some op_write_pc
      else if op = opc_write_vars then Some (write_reg (\<lambda>v s. s\<lparr>vars := v AND 0xFFFFFFFC\<rparr>))
      else if op = opc_write_frame then Some (write_reg (\<lambda>v s. s\<lparr>frame := v AND 0xFFFFFFFC\<rparr>))
      else if op = opc_write_optop then Some op_write_optop
      else if op = opc_priv_write_oplim then Some (priv_write_reg (\<lambda>v s. update_oplim s (v AND 0xFFFFFFFC)))
      else if op = opc_write_const_pool then Some (write_reg (\<lambda>v s. s\<lparr>const_pool := v AND 0xFFFFFFFC\<rparr>))
      else if op = opc_priv_write_psr then Some (priv_write_reg (\<lambda>v s. update_psr s v))
      else if op = opc_priv_write_trapbase then
        Some (priv_write_reg (\<lambda>v s. s\<lparr>trapbase := (v AND 0xFFFFF800) OR (trapbase s AND 0x7F8)\<rparr>))
      else if op = opc_priv_write_lockcount0 then
        Some (priv_write_reg (\<lambda>v s. s\<lparr>lockCount := (lockCount s)(0 := v AND 0xC0FF)\<rparr>))
      else if op = opc_priv_write_lockcount1 then
        Some (priv_write_reg (\<lambda>v s. s\<lparr>lockCount := (lockCount s)(1 := v AND 0xC0FF)\<rparr>))
      else if op = opc_priv_write_lockaddr0 then
        Some (priv_write_reg (\<lambda>v s. s\<lparr>lockAddr := (lockAddr s)(0 := v AND 0xFFFFFFFC)\<rparr>))
      else if op = opc_priv_write_lockaddr1 then
        Some (priv_write_reg (\<lambda>v s. s\<lparr>lockAddr := (lockAddr s)(1 := v AND 0xFFFFFFFC)\<rparr>))
      else if op = opc_priv_write_userrange1 then Some (priv_write_reg (\<lambda>v s. s\<lparr>userrange1 := v\<rparr>))
      else if op = opc_priv_write_userrange2 then Some (priv_write_reg (\<lambda>v s. s\<lparr>userrange2 := v\<rparr>))
      else if op = opc_priv_write_gc_config then Some (priv_write_reg (\<lambda>v s. s\<lparr>gcConfig := v\<rparr>))
      else if op = opc_priv_write_brk1a then Some (priv_write_reg (\<lambda>v s. s\<lparr>brk1a := v\<rparr>))
      else if op = opc_priv_write_brk2a then Some (priv_write_reg (\<lambda>v s. s\<lparr>brk2a := v\<rparr>))
      else if op = opc_priv_write_brk12c then Some (priv_write_reg (\<lambda>v s. s\<lparr>brk12c := clear_brk_res v\<rparr>))
      else if op = opc_priv_write_sc_bottom then Some (priv_write_reg (\<lambda>v s. update_sc_bottom s (v AND 0xFFFFFFFC)))
      else if op = opc_write_global0 then Some (write_reg (\<lambda>v s. s\<lparr>global0 := v\<rparr>))
      else if op = opc_write_global1 then Some (write_reg (\<lambda>v s. s\<lparr>global1 := v\<rparr>))
      else if op = opc_write_global2 then Some (write_reg (\<lambda>v s. s\<lparr>global2 := v\<rparr>))
      else if op = opc_write_global3 then Some (write_reg (\<lambda>v s. s\<lparr>global3 := v\<rparr>))
      else None)"

section \<open>Calls of C functions, traps and power\<close>

definition op_priv_ret_from_trap :: "machine \<Rightarrow> machine option" where
  "op_priv_ret_from_trap s = TRAP_IF_NONPRIV s (\<lambda>s.
     do { (psr_tmp, s) \<leftarrow> READ_WORD s (FRAME_OFFSET s 1) acc_F;
          (w, s) \<leftarrow> READ_WORD s (FRAME_OFFSET s 0) acc_F;
          let s = s\<lparr>pc := w\<rparr>;
          let optop_tmp = vars s;
          (vars_tmp, s) \<leftarrow> READ_WORD s (FRAME_OFFSET s (- 1)) acc_F;
          (fr, s) \<leftarrow> READ_INTO s (FRAME_OFFSET s (- 2)) acc_F w;
          let s = s\<lparr>frame := fr, vars := vars_tmp\<rparr>;
          s \<leftarrow> vUpdateGR s GR_psr psr_tmp;
          vUpdateGR s GR_optop optop_tmp })"

definition op_call :: "machine \<Rightarrow> machine option" where
  "op_call s =
     do { (nargs, s) \<leftarrow> READ_WORD s (OPTOP_OFFSET s 1) acc_O;
          (target_pc, s) \<leftarrow> READ_WORD s (OPTOP_OFFSET s 2) acc_O;
          s \<leftarrow> WRITE_WORD s (OPTOP_OFFSET s 2) acc_O (vars s);
          s \<leftarrow> WRITE_WORD s (OPTOP_OFFSET s 1) acc_O (pc s + 2);
          Some (s\<lparr>vars := optop s + nargs * 4, pc := target_pc\<rparr>) }"

definition op_return0 :: "machine \<Rightarrow> machine option" where
  "op_return0 s =
     do { (return_pc, s) \<leftarrow> READ_WORD s (OPTOP_OFFSET s 1) acc_O;
          (return_vars, s) \<leftarrow> READ_WORD s (OPTOP_OFFSET s 2) acc_O;
          s \<leftarrow> vUpdateGR (s\<lparr>pc := return_pc\<rparr>) GR_optop (vars s);
          Some (s\<lparr>vars := return_vars\<rparr>) }"

definition op_return1 :: "machine \<Rightarrow> machine option" where
  "op_return1 s =
     do { (return_val, s) \<leftarrow> READ_WORD s (OPTOP_OFFSET s 1) acc_O;
          (return_pc, s) \<leftarrow> READ_WORD s (OPTOP_OFFSET s 2) acc_O;
          (return_vars, s) \<leftarrow> READ_WORD s (OPTOP_OFFSET s 3) acc_O;
          s \<leftarrow> vUpdateGR (s\<lparr>pc := return_pc\<rparr>) GR_optop (vars s - 4);
          let s = s\<lparr>vars := return_vars\<rparr>;
          WRITE_WORD s (OPTOP_OFFSET s 1) acc_O return_val }"

definition op_return2 :: "machine \<Rightarrow> machine option" where
  "op_return2 s =
     do { (return_val1, s) \<leftarrow> READ_WORD s (OPTOP_OFFSET s 1) acc_O;
          (return_val0, s) \<leftarrow> READ_WORD s (OPTOP_OFFSET s 2) acc_O;
          (return_pc, s) \<leftarrow> READ_WORD s (OPTOP_OFFSET s 3) acc_O;
          (return_vars, s) \<leftarrow> READ_WORD s (OPTOP_OFFSET s 4) acc_O;
          s \<leftarrow> vUpdateGR (s\<lparr>pc := return_pc\<rparr>) GR_optop (vars s - 2 * 4);
          let s = s\<lparr>vars := return_vars\<rparr>;
          s \<leftarrow> WRITE_WORD s (OPTOP_OFFSET s 1) acc_O return_val1;
          WRITE_WORD s (OPTOP_OFFSET s 2) acc_O return_val0 }"

definition op_priv_reset :: "machine \<Rightarrow> machine option" where
  "op_priv_reset s = TRAP_IF_NONPRIV s (\<lambda>s. do { s \<leftarrow> initPico s; Some (s\<lparr>pc := 0\<rparr>) })"

definition op_priv_powerdown :: "machine \<Rightarrow> machine option" where
  "op_priv_powerdown s = TRAP_IF_NONPRIV s (\<lambda>s. SIZE_AND_STACK_RETURN (s\<lparr>bPowerDownState := True\<rparr>) 2 0)"

definition control_ops :: "u8 \<Rightarrow> (machine \<Rightarrow> machine option) option" where
  "control_ops op =
     (if op = opc_priv_update_optop then Some op_priv_update_optop
      else if op = opc_get_current_class then Some doGetCurrentClass
      else if op = opc_priv_ret_from_trap then Some op_priv_ret_from_trap
      else if op = opc_call then Some op_call
      else if op = opc_return0 then Some op_return0
      else if op = opc_return1 then Some op_return1
      else if op = opc_return2 then Some op_return2
      else if op = opc_priv_reset then Some op_priv_reset
      else if op = opc_priv_powerdown then Some op_priv_powerdown
      else None)"

section \<open>Loads and stores\<close>

text \<open>
  The word DEBUGGER\_SERIAL\_PORT\_ADDRESS is the serial port for a non-cacheable byte. Without a
  port the byte loaded is indeterminate and the byte stored is lost.
\<close>

abbreviation (input) "DEBUGGER_SERIAL_PORT_ADDRESS \<equiv> 0x2f0000e0 :: u32"

definition serial_get :: "machine \<Rightarrow> u8 \<times> machine" where
  "serial_get s = (case serial_read (serial s) of
     None \<Rightarrow> (let (d, s) = fresh s in (ucast d, s))
   | Some f \<Rightarrow> (f 0, s\<lparr>serial := (serial s)\<lparr>serial_read := Some (\<lambda>n. f (Suc n))\<rparr>\<rparr>))"

definition serial_put :: "machine \<Rightarrow> u8 \<Rightarrow> machine" where
  "serial_put s b = (case serial_read (serial s) of
     None \<Rightarrow> s | Some f \<Rightarrow> s\<lparr>serial := (serial s)\<lparr>serial_out := serial_out (serial s) @ [b]\<rparr>\<rparr>)"

definition op_load_byte :: "u8 \<Rightarrow> machine \<Rightarrow> machine option" where
  "op_load_byte op s =
     do { (a, s) \<leftarrow> READ_WORD s (OPTOP_OFFSET s 1) acc_O;
          let nc = (op \<in> {opc_ncload_byte, opc_ncload_ubyte} \<or> IS_NC_ADDRESS a);
          (b, s) \<leftarrow>
            (if nc \<and> STRIP a = DEBUGGER_SERIAL_PORT_ADDRESS then Some (serial_get s)
             else do { (w, s) \<leftarrow> READ_BYTE s (STRIP a) (if nc then acc_N else acc_Z); Some (ucast w, s) });
          s \<leftarrow> WRITE_WORD s (OPTOP_OFFSET s 1) acc_O
                (if op \<in> {opc_load_byte, opc_ncload_byte} then scast b else ucast b);
          SIZE_AND_STACK_RETURN s 2 0 }"

definition op_load_half :: "u8 \<Rightarrow> machine \<Rightarrow> machine option" where
  "op_load_half op s =
     do { (a, s) \<leftarrow> READ_WORD s (OPTOP_OFFSET s 1) acc_O;
          let s = CHECK_ADDRESS_ALIGNMENT s a 1;
          let le = ((op \<in> {opc_load_char_oe, opc_load_short_oe, opc_ncload_char_oe, opc_ncload_short_oe}) \<noteq> IS_LE_ADDRESS a);
          let nc = (op \<in> {opc_ncload_short, opc_ncload_char, opc_ncload_short_oe, opc_ncload_char_oe} \<or> IS_NC_ADDRESS a);
          (w, s) \<leftarrow> READ_SHORT s (STRIP a) (if nc then acc_N else acc_Z);
          let h = (if le then SWAP_SHORT (ucast w) else ucast w);
          s \<leftarrow> WRITE_WORD s (OPTOP_OFFSET s 1) acc_O
                (if op \<in> {opc_load_short, opc_ncload_short, opc_load_short_oe, opc_ncload_short_oe} then scast h else ucast h);
          SIZE_AND_STACK_RETURN s 2 0 }"

definition op_load_word :: "u8 \<Rightarrow> machine \<Rightarrow> machine option" where
  "op_load_word op s =
     do { (a, s) \<leftarrow> READ_WORD s (OPTOP_OFFSET s 1) acc_O;
          let s = CHECK_ADDRESS_ALIGNMENT s a 2;
          let le = ((op \<in> {opc_load_word_oe, opc_ncload_word_oe}) \<noteq> IS_LE_ADDRESS a);
          let nc = (op \<in> {opc_ncload_word, opc_ncload_word_oe} \<or> IS_NC_ADDRESS a);
          (w, s) \<leftarrow> READ_WORD s (STRIP a) (if nc then acc_N else acc_Z);
          s \<leftarrow> WRITE_WORD s (OPTOP_OFFSET s 1) acc_O (if le then SWAP_WORD w else w);
          SIZE_AND_STACK_RETURN s 2 0 }"

definition op_store_byte :: "u8 \<Rightarrow> machine \<Rightarrow> machine option" where
  "op_store_byte op s =
     do { (a, s) \<leftarrow> READ_WORD s (OPTOP_OFFSET s 1) acc_O;
          let nc = (op = opc_ncstore_byte \<or> IS_NC_ADDRESS a);
          (w, s) \<leftarrow> READ_WORD s (OPTOP_OFFSET s 2) acc_O;
          s \<leftarrow> (if nc \<and> STRIP a = DEBUGGER_SERIAL_PORT_ADDRESS then Some (serial_put s (ucast w))
                else WRITE_BYTE s (STRIP a) (if nc then acc_N else acc_Z) w);
          SIZE_AND_STACK_RETURN s 2 (- 2) }"

definition op_store_short :: "u8 \<Rightarrow> machine \<Rightarrow> machine option" where
  "op_store_short op s =
     do { (a, s) \<leftarrow> READ_WORD s (OPTOP_OFFSET s 1) acc_O;
          let s = CHECK_ADDRESS_ALIGNMENT s a 1;
          let le = ((op \<in> {opc_store_short_oe, opc_ncstore_short_oe}) \<noteq> IS_LE_ADDRESS a);
          let nc = (op \<in> {opc_ncstore_short, opc_ncstore_short_oe} \<or> IS_NC_ADDRESS a);
          (w, s) \<leftarrow> READ_WORD s (OPTOP_OFFSET s 2) acc_O;
          let h = (if le then SWAP_SHORT (ucast w) else ucast w);
          s \<leftarrow> WRITE_SHORT s (STRIP a) (if nc then acc_N else acc_Z) (ucast h);
          SIZE_AND_STACK_RETURN s 2 (- 2) }"

text \<open>
  The mailbox words, written by a non-cacheable word store. The address has lost its top bits,
  so that END\_ADDRESS1 = 0xFFFFFFFC never matches.
\<close>

definition mailbox :: "u32 \<Rightarrow> u32 \<Rightarrow> machine \<Rightarrow> machine option" where
  "mailbox a w s =
     (if a = 0xFFFC \<or> a = 0xFFFFFFFC then Some (s\<lparr>end_of_simulation := True, program_exit_code := w\<rparr>)
      else if a = 0xFFF8 then Some (s\<lparr>uIRLState := 0, bNMIState := False\<rparr>)
      else if a = 0xffc0 then do { (_, s) \<leftarrow> READ_WORD s 0xffc4 acc_G; Some s }
      else Some s)"

definition op_store_word :: "u8 \<Rightarrow> machine \<Rightarrow> machine option" where
  "op_store_word op s =
     do { (a, s) \<leftarrow> READ_WORD s (OPTOP_OFFSET s 1) acc_O;
          let s = CHECK_ADDRESS_ALIGNMENT s a 2;
          let le = ((op \<in> {opc_store_word_oe, opc_ncstore_word_oe}) \<noteq> IS_LE_ADDRESS a);
          let nc = (op \<in> {opc_ncstore_word, opc_ncstore_word_oe} \<or> IS_NC_ADDRESS a);
          (w, s) \<leftarrow> READ_WORD s (OPTOP_OFFSET s 2) acc_O;
          let w = (if le then SWAP_WORD w else w);
          s \<leftarrow> WRITE_WORD s (STRIP a) (if nc then acc_N else acc_Z) w;
          s \<leftarrow> (if op \<in> {opc_ncstore_word, opc_ncstore_word_oe} then mailbox (STRIP a) w s else Some s);
          SIZE_AND_STACK_RETURN s 2 (- 2) }"

definition op_iucmp :: "machine \<Rightarrow> machine option" where
  "op_iucmp s =
     do { (v2, s) \<leftarrow> READ_WORD s (OPTOP_OFFSET s 1) acc_O;
          (v1, s) \<leftarrow> READ_WORD s (OPTOP_OFFSET s 2) acc_O;
          s \<leftarrow> WRITE_WORD s (OPTOP_OFFSET s 2) acc_O (if v1 = v2 then 0 else if v1 < v2 then - 1 else 1);
          SIZE_AND_STACK_RETURN s 2 (- 1) }"

definition memory_ops :: "u8 \<Rightarrow> (machine \<Rightarrow> machine option) option" where
  "memory_ops op =
     (if op \<in> {opc_load_ubyte, opc_load_byte, opc_ncload_byte, opc_ncload_ubyte} then Some (op_load_byte op)
      else if op \<in> {opc_load_char, opc_load_short, opc_ncload_char, opc_ncload_short, opc_load_char_oe,
          opc_load_short_oe, opc_ncload_char_oe, opc_ncload_short_oe} then Some (op_load_half op)
      else if op \<in> {opc_load_word, opc_ncload_word, opc_load_word_oe, opc_ncload_word_oe} then Some (op_load_word op)
      else if op \<in> {opc_store_byte, opc_ncstore_byte} then Some (op_store_byte op)
      else if op \<in> {opc_store_short, opc_ncstore_short, opc_store_short_oe, opc_ncstore_short_oe} then Some (op_store_short op)
      else if op \<in> {opc_store_word, opc_ncstore_word, opc_store_word_oe, opc_ncstore_word_oe} then Some (op_store_word op)
      else None)"

section \<open>Dispatch\<close>

definition vDoExtOp :: "machine \<Rightarrow> u8 \<Rightarrow> machine option" where
  "vDoExtOp s op =
     (case first_some [control_ops op, cache_ops op, read_ops op, write_ops op, memory_ops op] of
        Some f \<Rightarrow> f s
      | None \<Rightarrow> if proc_type s \<noteq> pico \<and> op = opc_iucmp then op_iucmp s else LOW_PRIORITY_TRAP s illegal_instr)"

end
