(* ===== verification/Iam.thy ===== *)
theory Iam
  imports Ext_Ops
begin

text \<open>
  The interpreter loop, executeBytecode of iam/src/iam.c. One pass of the loop checks the
  instruction limit, the simulator's breakpoints, the interrupts and the processor's code
  breakpoints, fetches and executes one instruction, and dispatches the exception that is
  pending afterwards. A pass that takes an interrupt or finds the processor powered down executes
  nothing and counts no instruction. Control-C is not modelled.
\<close>

datatype control = Next machine | Stop machine

section \<open>Interrupts\<close>

definition schedule_interrupts :: "machine \<Rightarrow> machine option" where
  "schedule_interrupts s =
     (if icount s = next_sched_intr_icount (intr s) then
        do { (irl, t) \<leftarrow> intr_dispatch (intr s) (icount s);
             let s = vSetInterrupt (s\<lparr>intr := t\<rparr>) (word_of_int irl);
             t \<leftarrow> intr_schedule_next (intr s);
             Some (s\<lparr>intr := t\<rparr>) }
      else Some s)"

text \<open>The trap of the interrupt to take now, if any: the non-maskable one first.\<close>

definition pending_interrupt :: "machine \<Rightarrow> u32 option" where
  "pending_interrupt s =
     (if psr s AND 0x10 = 0 then None
      else if bNMIState s then Some nmi
      else if psr s AND 0xf < uIRLState s then Some (interrupt_level_tt_base + uIRLState s - 1)
      else None)"

definition take_interrupt :: "machine \<Rightarrow> u32 \<Rightarrow> machine option" where
  "take_interrupt s tt =
     invoke_trap (s\<lparr>cnt := (cnt s)\<lparr>instr_since_last_intr := 0\<rparr>, bPowerDownState := False\<rparr>) tt"

section \<open>One instruction\<close>

definition CheckExceptions :: "machine \<Rightarrow> machine option" where
  "CheckExceptions s =
     do { s \<leftarrow> (if bAnyExceptionPending s then vDespatchPendingException s else Some s);
          Some (s\<lparr>icount := icount s + 1,
            cnt := (cnt s)\<lparr>instr_since_last_intr := instr_since_last_intr (cnt s) + 1,
              instr_since_last_trap := instr_since_last_trap (cnt s) + 1\<rparr>\<rparr>) }"

definition unimplemented :: "machine \<Rightarrow> u8 \<Rightarrow> bool" where
  "unimplemented s op \<longleftrightarrow>
     op = opc_invokevirtualobject_quick \<or> op = 0xba \<or>
     (opc_first_unused_index s \<le> ucast op \<and> op < opc_hardware) \<or>
     (proc_type s = pico \<or> proc_type s = maya) \<and> op = opc_aastore_quick"

definition is_jvm_return :: "u8 \<Rightarrow> bool" where
  "is_jvm_return op \<longleftrightarrow> op \<in> {opc_areturn, opc_ireturn, opc_freturn, opc_dreturn, opc_lreturn, opc_return}"

definition execute_insn :: "machine \<Rightarrow> u8 \<Rightarrow> control option" where
  "execute_insn s op =
     (if op \<noteq> opc_hardware then
        (let s = s\<lparr>flag_return_opcode := is_jvm_return op\<rparr> in
         if op = opc_breakpoint \<and> running_under_gdb s then Some (Stop (s\<lparr>breakpoint_hit := True\<rparr>))
         else do { s \<leftarrow> (if unimplemented s op then LOW_PRIORITY_TRAP s (ucast op) else vDoJVMOp s op);
                   s \<leftarrow> CheckExceptions s; Some (Next s) })
      else
        do { (ext, s) \<leftarrow> IstreamReadByte s (pc s + 1);
             s \<leftarrow> (if bAnyExceptionPending s then Some s
                   else vDoExtOp (s\<lparr>flag_return_opcode := ext \<in> {opc_return0, opc_return1, opc_return2}\<rparr>) ext);
             s \<leftarrow> CheckExceptions s; Some (Next s) })"

definition fetch_execute :: "machine \<Rightarrow> control option" where
  "fetch_execute s =
     (if pico_breakpoint_match s False (pc s) False False then
        do { s \<leftarrow> CheckExceptions (vSetupException s DBR1_EXCEPTION); Some (Next s) }
      else if pico_breakpoint_match s True (pc s) False False then
        do { s \<leftarrow> CheckExceptions (vSetupException s DBR2_EXCEPTION); Some (Next s) }
      else
        do { (op, s) \<leftarrow> IstreamReadByte (s\<lparr>wide_prefix := False\<rparr>) (pc s);
             if bAnyExceptionPending s then do { s \<leftarrow> CheckExceptions s; Some (Next s) }
             else execute_insn s op })"

section \<open>The loop\<close>

text \<open>The simulator's breakpoints; code breakpoints are not looked at for the first instruction of a run.\<close>

definition sim_breakpoint :: "bool \<Rightarrow> machine \<Rightarrow> (bool \<times> machine) option" where
  "sim_breakpoint first s =
     (if flag_sim_read_brkpt_pending s \<or> flag_sim_write_brkpt_pending s then Some (True, s)
      else if first then Some (False, s)
      else do { (r, t) \<leftarrow> brkpt_match (brk s) (pc s) 0 BRKPT_EXEC; Some (r \<noteq> None, s\<lparr>brk := t\<rparr>) })"

definition loop_pass :: "bool \<Rightarrow> machine \<Rightarrow> control option" where
  "loop_pass first s =
     (if bInstructionLimit s \<and> \<not> ll_lt (icount s) (nMaxInstructions s) then None
      else
        do { (hit, s) \<leftarrow> sim_breakpoint first (vClearAllExceptions s);
             if hit then Some (Stop (s\<lparr>breakpoint_hit := True\<rparr>))
             else
               do { s \<leftarrow> schedule_interrupts s;
                    case pending_interrupt s of
                      Some tt \<Rightarrow> do { s \<leftarrow> take_interrupt s tt; Some (Next s) }
                    | None \<Rightarrow> if bPowerDownState s then Some (Next s) else fetch_execute s } })"

text \<open>executeBytecode for a given number of steps.\<close>

fun run_steps :: "nat \<Rightarrow> bool \<Rightarrow> machine \<Rightarrow> machine option" where
  "run_steps n first s =
     (if end_of_simulation s then Some s
      else case n of
        0 \<Rightarrow> Some (s\<lparr>breakpoint_hit := True\<rparr>)
      | Suc k \<Rightarrow> do { c \<leftarrow> loop_pass first s;
                     case c of Stop s \<Rightarrow> Some s | Next s \<Rightarrow> run_steps k False s })"

declare run_steps.simps [simp del]

definition run_setup :: "bool \<Rightarrow> machine \<Rightarrow> machine" where
  "run_setup sim_continue s =
     (if sim_continue then s else s\<lparr>pc := 0\<rparr>)
       \<lparr>breakpoint_hit := False, end_of_simulation := False,
        flag_sim_read_brkpt_pending := False, flag_sim_write_brkpt_pending := False\<rparr>"

definition executeBytecode :: "nat \<Rightarrow> bool \<Rightarrow> machine \<Rightarrow> machine option" where
  "executeBytecode numOfSteps sim_continue s = run_steps numOfSteps True (run_setup sim_continue s)"

text \<open>
  Without a limit on the steps (numOfSteps = -1) the loop may go on for ever, as when the
  processor is powered down and no interrupt is due; the result is None then.
\<close>

partial_function (option) run_on :: "bool \<Rightarrow> machine \<Rightarrow> machine option" where
  "run_on first s =
     (if end_of_simulation s then Some s
      else Option.bind (loop_pass first s) (\<lambda>c. case c of Stop s \<Rightarrow> Some s | Next s \<Rightarrow> run_on False s))"

definition executeBytecode_unlimited :: "bool \<Rightarrow> machine \<Rightarrow> machine option" where
  "executeBytecode_unlimited sim_continue s = run_on True (run_setup sim_continue s)"

end
