(* ===== verification/Stack_Access.thy ===== *)
theory Stack_Access
  imports Dribbler Iam
begin

text \<open>
  The way the properties of instructions are proved. located s0 f s says that s is s0 with
  its memory system changed, settled, and that every aligned word of s, as a stack access sees it,
  is given by f. Each access of an instruction moves from one such state to another; wp is total
  correctness of a step that may fail, and its rules are applied along the code of the
  instruction. The stack area lies apart from the words that instructions reach through the data
  port (heap\_word).
\<close>

section \<open>Total correctness\<close>

definition wp :: "'a option \<Rightarrow> ('a \<Rightarrow> bool) \<Rightarrow> bool" where
  "wp m Q = (case m of None \<Rightarrow> False | Some x \<Rightarrow> Q x)"

lemma wp_simps [simp]:
  "wp (Some x) Q = Q x" "wp None Q = False"
  "wp (Option.bind m k) Q = wp m (\<lambda>x. wp (k x) Q)"
  by (simp_all add: wp_def split: bind_split)

lemma wp_iff: "wp m Q \<longleftrightarrow> (\<exists>x. m = Some x \<and> Q x)"
  by (cases m) simp_all

lemma wp_if: "wp (if b then m else k) Q = (if b then wp m Q else wp k Q)"
  by simp

lemma wp_mono: "wp m P \<Longrightarrow> (\<And>x. P x \<Longrightarrow> Q x) \<Longrightarrow> wp m Q"
  by (auto simp: wp_iff)

section \<open>States between two register updates\<close>

definition settled :: "u32 \<Rightarrow> u32 \<Rightarrow> u32 \<Rightarrow> machine \<Rightarrow> bool" where
  "settled n lo hi s \<longleftrightarrow> stack_ok n lo hi s \<and> unat (scBottom s) \<le> unat (optop s) + 224"

definition mem_only :: "machine \<Rightarrow> machine \<Rightarrow> bool" where
  "mem_only s s' \<longleftrightarrow> (\<exists>z d m. s' = s\<lparr>sCacheMem := z, dc := d, cm := m\<rparr>)"

lemma mem_only_refl [simp]: "mem_only s s"
proof -
  have "s = s\<lparr>sCacheMem := sCacheMem s, dc := dc s, cm := cm s\<rparr>" by (cases s) simp
  then show ?thesis unfolding mem_only_def by blast
qed

lemma mem_only_trans: "mem_only s t \<Longrightarrow> mem_only t u \<Longrightarrow> mem_only s u"
  unfolding mem_only_def by fastforce

lemma same_outside_mem_only: "same_outside s t \<Longrightarrow> mem_only s t"
proof -
  assume "same_outside s t"
  then obtain d m where "t = s\<lparr>dc := d, cm := m\<rparr>" unfolding same_outside_def by blast
  moreover have "s\<lparr>dc := d, cm := m\<rparr> = s\<lparr>sCacheMem := sCacheMem s, dc := d, cm := m\<rparr>" by (cases s) simp
  ultimately show ?thesis unfolding mem_only_def by blast
qed

lemma mem_only_sCacheMem [simp]: "mem_only s (s\<lparr>sCacheMem := z\<rparr>)"
proof -
  have "s\<lparr>sCacheMem := z\<rparr> = s\<lparr>sCacheMem := z, dc := dc s, cm := cm s\<rparr>" by (cases s) simp
  then show ?thesis unfolding mem_only_def by blast
qed

lemma mem_only_fields:
  assumes "mem_only s t"
  shows "optop t = optop s" "pc t = pc s" "vars t = vars s" "frame t = frame s" "const_pool t = const_pool s"
    "psr t = psr s" "scBottom t = scBottom s" "oplim t = oplim s" "exc t = exc s" "trapbase t = trapbase s"
    "proc_type t = proc_type s" "flag_setting_up_trap_frame t = flag_setting_up_trap_frame s"
    "hcr t = hcr s" "wide_prefix t = wide_prefix s" "gcConfig t = gcConfig s" "lockAddr t = lockAddr s"
    "lockCount t = lockCount s" "flag_fast_monitors t = flag_fast_monitors s" "cnt t = cnt s"
    "fill_mark t = fill_mark s" "ic t = ic s"
  using assms by (auto simp: mem_only_def fill_mark_def)

definition located :: "u32 \<Rightarrow> u32 \<Rightarrow> u32 \<Rightarrow> machine \<Rightarrow> (u32 \<Rightarrow> u32) \<Rightarrow> machine \<Rightarrow> bool" where
  "located n lo hi s0 f s \<longleftrightarrow> settled n lo hi s \<and> mem_only s0 s \<and> (\<forall>a. aligned a \<longrightarrow> stack_word s a = f a)"

lemma located_self: "settled n lo hi s \<Longrightarrow> located n lo hi s (stack_word s) s"
  by (simp add: located_def)

definition stack_slot :: "u32 \<Rightarrow> u32 \<Rightarrow> u32 \<Rightarrow> bool" where
  "stack_slot lo hi a \<longleftrightarrow> aligned a \<and> lo \<le> a \<and> a \<le> hi"

definition heap_word :: "u32 \<Rightarrow> u32 \<Rightarrow> u32 \<Rightarrow> u32 \<Rightarrow> bool" where
  "heap_word n lo hi a \<longleftrightarrow> cacheable n a \<and> (hi < a \<or> unat a + 256 \<le> unat lo)"

section \<open>The stack cache and the memory below it as one store\<close>

lemma settled_facts:
  assumes "settled n lo hi s"
  shows "quiet s" "mem_inv n s" "stack_area n lo hi" "aligned (optop s)" "aligned (scBottom s)" "lo \<le> optop s"
    "optop s \<le> scBottom s" "unat (scBottom s) \<le> unat (optop s) + 224" "scBottom s \<le> hi" "ias_scache s"
    "psr s AND 0x80 \<noteq> 0" "0 < fill_mark s" "512 \<le> unat lo" "unat hi < 2 ^ 30" "512 \<le> unat (scBottom s)"
proof -
  show *: "quiet s" "mem_inv n s" "stack_area n lo hi" "aligned (optop s)" "aligned (scBottom s)" "lo \<le> optop s"
    "optop s \<le> scBottom s" "unat (scBottom s) \<le> unat (optop s) + 224" "scBottom s \<le> hi" "ias_scache s"
    "psr s AND 0x80 \<noteq> 0" "0 < fill_mark s"
    using assms by (simp_all add: settled_def stack_ok_def)
  show "512 \<le> unat lo" "unat hi < 2 ^ 30" using *(3) by (simp_all add: stack_area_def)
  then show "512 \<le> unat (scBottom s)" using *(6,7) by (simp add: word_le_nat_alt)
qed

text \<open>A change of the memory system that keeps its invariant keeps the state settled.\<close>

lemma settled_mem_only:
  assumes "settled n lo hi s" "mem_only s t" "mem_inv n t" "quiet t"
  shows "settled n lo hi t"
proof -
  have "ias_scache t = ias_scache s" using assms(2) by (auto simp: mem_only_def)
  then show ?thesis
    using assms(1,3,4) mem_only_fields [OF assms(2)] by (simp add: settled_def stack_ok_def)
qed

lemma mem_inv_sCacheMem [simp]: "mem_inv n (s\<lparr>sCacheMem := z\<rparr>) = mem_inv n s" "quiet (s\<lparr>sCacheMem := z\<rparr>) = quiet s"
  "mem_view (s\<lparr>sCacheMem := z\<rparr>) = mem_view s" "scache_hit (s\<lparr>sCacheMem := z\<rparr>) a = scache_hit s a"
  by (simp_all add: mem_inv_def quiet_def mem_view_def dc_on_def CHK_PSR_DCE_def scache_hit_def)

lemma heap_not_hit:
  assumes "settled n lo hi s" "heap_word n lo hi a"
  shows "\<not> scache_hit s a"
proof -
  note st = settled_facts [OF assms(1)]
  have "unat lo \<le> unat (scBottom s)" "unat (scBottom s) \<le> unat hi" using st(6,7,9) by (simp_all add: word_le_nat_alt)
  then show ?thesis
    using assms(2) st(15) by (auto simp: heap_word_def scache_hit_unat word_less_nat_alt)
qed

lemma hit_window:
  assumes "settled n lo hi s" "aligned a" "aligned b" "scache_hit s a" "scache_hit s b" "sc_index a = sc_index b"
  shows "a = b"
proof -
  have "256 \<le> unat (scBottom s)" using settled_facts(15) [OF assms(1)] by simp
  then have "unat a < unat b + 256" "unat b < unat a + 256" using assms(4,5) by (auto simp: scache_hit_unat)
  then show ?thesis
    using sc_index_inject [OF assms(2,3)] sc_index_inject [OF assms(3,2)] assms(6) by (metis nat_le_linear)
qed

lemma stack_word_of_mem:
  assumes "same_outside s t" "\<forall>b. aligned b \<longrightarrow> mem_view t b = g b" "aligned a"
  shows "stack_word t a = (if scache_hit s a then sCacheMem s (sc_index a) else g a)"
  using assms same_outside_fields [OF assms(1)] by (simp add: stack_word_def scache_hit_def)

text \<open>Loads: a stack access (types O, V and F) anywhere in the stack area.\<close>

lemma stack_load:
  assumes "settled n lo hi s" "stack_slot lo hi a" "c \<in> {acc_O, acc_V, acc_F}"
  shows "\<exists>t. javaMemRead s a 2 c = Some (Some (stack_word s a), t) \<and> settled n lo hi t \<and> mem_only s t \<and>
    (\<forall>b. aligned b \<longrightarrow> stack_word t b = stack_word s b)"
proof -
  note st = settled_facts [OF assms(1)]
  have al: "aligned a" and ca: "cacheable n a" using assms(2) st(3) by (simp_all add: stack_slot_def stack_area_def)
  have cc: "c \<noteq> acc_T" "c \<noteq> acc_G" using assms(3) by auto
  show ?thesis
  proof (cases "scache_hit s a")
    case True
    then have "javaMemRead s a 2 c = Some (Some (stack_word s a), s)"
      using st(1,10) assms(3) cc al
      by (auto simp: javaMemRead_def Let_def quiet_checks aligned_align stack_word_def)
    then show ?thesis using assms(1) by auto
  next
    case False
    have "javaMemRead s a 2 c = mem_load s a c"
      using st(1) cc al False by (auto simp: javaMemRead_def Let_def quiet_checks aligned_align)
    moreover have "mem_load s a c = mem_load s a acc_Z"
      using assms(3) by (auto simp: mem_load_def)
    moreover obtain t where t: "mem_load s a acc_Z = Some (Some (mem_view s a), t)" "same_outside s t" "quiet t"
      "mem_inv n t" "\<forall>b. aligned b \<longrightarrow> mem_view t b = mem_view s b"
      using mem_load_law [OF st(1,2) ca, of acc_Z] by (auto simp: port_acc_def)
    ultimately have "javaMemRead s a 2 c = Some (Some (stack_word s a), t)"
      using False by (simp add: stack_word_def)
    moreover have "stack_word t b = stack_word s b" if "aligned b" for b
      using stack_word_of_mem [OF t(2,5) that] by (simp add: stack_word_def)
    ultimately show ?thesis
      using settled_mem_only [OF assms(1) same_outside_mem_only [OF t(2)] t(4,3)] same_outside_mem_only [OF t(2)] by blast
  qed
qed

text \<open>Stores, those of a trap frame included.\<close>

lemma stack_write:
  assumes "settled n lo hi s" "stack_slot lo hi a" "c \<in> {acc_O, acc_V, acc_F, acc_T}"
  shows "\<exists>t. WRITE_WORD s a c v = Some t \<and> settled n lo hi t \<and> mem_only s t \<and>
    (\<forall>b. aligned b \<longrightarrow> stack_word t b = (if b = a then v else stack_word s b))"
proof -
  note st = settled_facts [OF assms(1)]
  have al: "aligned a" and ca: "cacheable n a" using assms(2) st(3) by (simp_all add: stack_slot_def stack_area_def)
  define d where "d = (if c = acc_T then acc_O else c)"
  have dd: "d \<in> {acc_O, acc_V, acc_F}" using assms(3) by (auto simp: d_def)
  have cg: "c \<noteq> acc_G" using assms(3) by auto
  show ?thesis
  proof (cases "scache_hit s a")
    case True
    let ?t = "s\<lparr>sCacheMem := (sCacheMem s)(sc_index a := v)\<rparr>"
    have "javaMemWrite s a v 2 c = Some ?t"
      using st(1,10) dd cg al True
      by (auto simp: javaMemWrite_def Let_def quiet_checks zero_ext_def d_def aligned_def split: if_splits)
    moreover have "stack_word ?t b = (if b = a then v else stack_word s b)" if "aligned b" for b
      using hit_window [OF assms(1) al that True] True by (auto simp: stack_word_def)
    ultimately show ?thesis
      using settled_mem_only [OF assms(1), of ?t] st(1,2) by (auto simp: WRITE_WORD_def)
  next
    case False
    have "javaMemWrite s a v 2 c = mem_store s a v 2 d"
      using st(1) cg al False by (auto simp: javaMemWrite_def Let_def quiet_checks d_def aligned_def)
    moreover have "mem_store s a v 2 d = mem_store s a v 2 acc_Z"
      using dd by (auto simp: mem_store_def)
    moreover obtain t where t: "mem_store s a v 2 acc_Z = Some t" "same_outside s t" "quiet t" "mem_inv n t"
      "\<forall>b. aligned b \<longrightarrow> mem_view t b = (if b = a then v else mem_view s b)"
      using mem_store_law [OF st(1,2) ca, of acc_Z] by (auto simp: port_acc_def)
    moreover have "stack_word t b = (if b = a then v else stack_word s b)" if "aligned b" for b
      using stack_word_of_mem [OF t(2,5) that] False by (auto simp: stack_word_def)
    ultimately show ?thesis
      using settled_mem_only [OF assms(1) same_outside_mem_only [OF t(2)] t(4,3)] same_outside_mem_only [OF t(2)]
      by (auto simp: WRITE_WORD_def)
  qed
qed

text \<open>The data port, outside the stack area.\<close>

lemma heap_load:
  assumes "settled n lo hi s" "heap_word n lo hi a" "port_acc c"
  shows "\<exists>t. javaMemRead s a 2 c = Some (Some (stack_word s a), t) \<and> settled n lo hi t \<and> mem_only s t \<and>
    (\<forall>b. aligned b \<longrightarrow> stack_word t b = stack_word s b)"
proof -
  note st = settled_facts [OF assms(1)]
  have ca: "cacheable n a" using assms(2) by (simp add: heap_word_def)
  obtain t where t: "javaMemRead s a 2 c = Some (Some (mem_view s a), t)" "same_outside s t" "quiet t" "mem_inv n t"
    "\<forall>b. aligned b \<longrightarrow> mem_view t b = mem_view s b"
    using port_load_law [OF st(1,2) ca assms(3)] by blast
  moreover have "stack_word t b = stack_word s b" if "aligned b" for b
    using stack_word_of_mem [OF t(2,5) that] by (simp add: stack_word_def)
  moreover have "stack_word s a = mem_view s a"
    using heap_not_hit [OF assms(1,2)] by (simp add: stack_word_def)
  ultimately show ?thesis
    using settled_mem_only [OF assms(1) same_outside_mem_only [OF t(2)] t(4,3)] same_outside_mem_only [OF t(2)] by auto
qed

lemma heap_write:
  assumes "settled n lo hi s" "heap_word n lo hi a" "port_acc c"
  shows "\<exists>t. WRITE_WORD s a c v = Some t \<and> settled n lo hi t \<and> mem_only s t \<and>
    (\<forall>b. aligned b \<longrightarrow> stack_word t b = (if b = a then v else stack_word s b))"
proof -
  note st = settled_facts [OF assms(1)]
  have ca: "cacheable n a" using assms(2) by (simp add: heap_word_def)
  obtain t where t: "WRITE_WORD s a c v = Some t" "same_outside s t" "quiet t" "mem_inv n t"
    "\<forall>b. aligned b \<longrightarrow> mem_view t b = (if b = a then v else mem_view s b)"
    using port_store_law [OF st(1,2) ca assms(3), of v] by (auto simp: WRITE_WORD_def)
  moreover have "stack_word t b = (if b = a then v else stack_word s b)" if "aligned b" for b
    using stack_word_of_mem [OF t(2,5) that] heap_not_hit [OF assms(1,2)] by (auto simp: stack_word_def)
  ultimately show ?thesis
    using settled_mem_only [OF assms(1) same_outside_mem_only [OF t(2)] t(4,3)] same_outside_mem_only [OF t(2)] by blast
qed

section \<open>Rules for the accesses of an instruction\<close>

lemma located_step:
  assumes "located n lo hi s0 f s" "settled n lo hi t" "mem_only s t" "\<forall>b. aligned b \<longrightarrow> stack_word t b = g b"
  shows "located n lo hi s0 g t"
  using assms mem_only_trans [of s0 s t] by (simp add: located_def)

lemma located_fields:
  assumes "located n lo hi s0 f s"
  shows "optop s = optop s0" "vars s = vars s0" "frame s = frame s0" "pc s = pc s0" "const_pool s = const_pool s0"
    "psr s = psr s0" "proc_type s = proc_type s0" "exc s = NO_EXCEPTION" "settled n lo hi s" "oplim s = oplim s0"
    "gcConfig s = gcConfig s0" "wide_prefix s = wide_prefix s0" "hcr s = hcr s0"
    "lockAddr s = lockAddr s0" "lockCount s = lockCount s0" "flag_fast_monitors s = flag_fast_monitors s0"
    "cnt s = cnt s0" "trapbase s = trapbase s0"
    "flag_setting_up_trap_frame s = flag_setting_up_trap_frame s0" "fill_mark s = fill_mark s0"
proof -
  have "mem_only s0 s" "settled n lo hi s" using assms by (simp_all add: located_def)
  then show "optop s = optop s0" "vars s = vars s0" "frame s = frame s0" "pc s = pc s0" "const_pool s = const_pool s0"
    "psr s = psr s0" "proc_type s = proc_type s0" "exc s = NO_EXCEPTION" "settled n lo hi s" "oplim s = oplim s0"
    "gcConfig s = gcConfig s0" "wide_prefix s = wide_prefix s0" "hcr s = hcr s0"
    "lockAddr s = lockAddr s0" "lockCount s = lockCount s0" "flag_fast_monitors s = flag_fast_monitors s0"
    "cnt s = cnt s0" "trapbase s = trapbase s0"
    "flag_setting_up_trap_frame s = flag_setting_up_trap_frame s0" "fill_mark s = fill_mark s0"
    using mem_only_fields settled_facts(1) [of n lo hi s] by (simp_all add: quiet_def)
qed

text \<open>A load that succeeds gives the two macros the same value.\<close>

lemma load_succeeds:
  assumes "javaMemRead s a 2 c = Some (Some d, t)"
  shows "READ_WORD s a c = Some (d, t)" "READ_INTO s a c v = Some (d, t)"
  using assms by (simp_all add: READ_WORD_def READ_INTO_def or_indet_def)

lemma located_stack_load:
  assumes "located n lo hi s0 f s" "stack_slot lo hi a" "c \<in> {acc_O, acc_V, acc_F}"
  shows "\<exists>t. javaMemRead s a 2 c = Some (Some (f a), t) \<and> located n lo hi s0 f t"
proof -
  have "settled n lo hi s" "stack_word s a = f a" using assms(1,2) by (simp_all add: located_def stack_slot_def)
  then obtain t where "javaMemRead s a 2 c = Some (Some (f a), t)" "settled n lo hi t" "mem_only s t"
    "\<forall>b. aligned b \<longrightarrow> stack_word t b = stack_word s b"
    using stack_load [OF _ assms(2,3)] by metis
  then show ?thesis using located_step [OF assms(1)] assms(1) by (auto simp: located_def)
qed

lemma located_heap_load:
  assumes "located n lo hi s0 f s" "heap_word n lo hi a" "port_acc c"
  shows "\<exists>t. javaMemRead s a 2 c = Some (Some (f a), t) \<and> located n lo hi s0 f t"
proof -
  have "settled n lo hi s" "stack_word s a = f a" using assms(1,2) by (simp_all add: located_def heap_word_def cacheable_def)
  then obtain t where "javaMemRead s a 2 c = Some (Some (f a), t)" "settled n lo hi t" "mem_only s t"
    "\<forall>b. aligned b \<longrightarrow> stack_word t b = stack_word s b"
    using heap_load [OF _ assms(2,3)] by metis
  then show ?thesis using located_step [OF assms(1)] assms(1) by (auto simp: located_def)
qed

lemma wp_stack_read:
  assumes "located n lo hi s0 f s" "stack_slot lo hi a" "c \<in> {acc_O, acc_V, acc_F}"
    "\<And>t. located n lo hi s0 f t \<Longrightarrow> Q (f a, t)"
  shows "wp (READ_WORD s a c) Q" "wp (READ_INTO s a c v) Q"
proof -
  obtain t where "javaMemRead s a 2 c = Some (Some (f a), t)" "Q (f a, t)"
    using located_stack_load [OF assms(1-3)] assms(4) by blast
  then show "wp (READ_WORD s a c) Q" "wp (READ_INTO s a c v) Q" by (simp_all add: load_succeeds)
qed

lemma wp_stack_write:
  assumes "located n lo hi s0 f s" "stack_slot lo hi a" "c \<in> {acc_O, acc_V, acc_F, acc_T}"
    "\<And>t. located n lo hi s0 (f(a := v)) t \<Longrightarrow> Q t"
  shows "wp (WRITE_WORD s a c v) Q"
proof -
  obtain t where "WRITE_WORD s a c v = Some t" "settled n lo hi t" "mem_only s t"
    "\<forall>b. aligned b \<longrightarrow> stack_word t b = (if b = a then v else stack_word s b)"
    using stack_write [OF _ assms(2,3)] assms(1) unfolding located_def by blast
  moreover have "\<forall>b. aligned b \<longrightarrow> stack_word s b = f b" using assms(1) by (simp add: located_def)
  ultimately show ?thesis using assms(4) located_step [OF assms(1), of t "f(a := v)"] by (auto simp: wp_iff)
qed

lemma wp_heap_read:
  assumes "located n lo hi s0 f s" "heap_word n lo hi a" "port_acc c"
    "\<And>t. located n lo hi s0 f t \<Longrightarrow> Q (f a, t)"
  shows "wp (READ_WORD s a c) Q" "wp (READ_INTO s a c v) Q"
proof -
  obtain t where "javaMemRead s a 2 c = Some (Some (f a), t)" "Q (f a, t)"
    using located_heap_load [OF assms(1-3)] assms(4) by blast
  then show "wp (READ_WORD s a c) Q" "wp (READ_INTO s a c v) Q" by (simp_all add: load_succeeds)
qed

lemma wp_heap_write:
  assumes "located n lo hi s0 f s" "heap_word n lo hi a" "port_acc c"
    "\<And>t. located n lo hi s0 (f(a := v)) t \<Longrightarrow> Q t"
  shows "wp (WRITE_WORD s a c v) Q"
proof -
  obtain t where "WRITE_WORD s a c v = Some t" "settled n lo hi t" "mem_only s t"
    "\<forall>b. aligned b \<longrightarrow> stack_word t b = (if b = a then v else stack_word s b)"
    using heap_write [OF _ assms(2,3)] assms(1) unfolding located_def by blast
  moreover have "\<forall>b. aligned b \<longrightarrow> stack_word s b = f b" using assms(1) by (simp add: located_def)
  ultimately show ?thesis using assms(4) located_step [OF assms(1), of t "f(a := v)"] by (auto simp: wp_iff)
qed

text \<open>Where the operands are: slots of the operand stack, of the local variables and of the frame.\<close>

definition opslot :: "u32 \<Rightarrow> u32 \<Rightarrow> u32" where "opslot b k = b + 4 * k"

lemma wp_op_read:
  assumes "located n lo hi s0 f s" "stack_slot lo hi (opslot (optop s0) k)"
    "\<And>t. located n lo hi s0 f t \<Longrightarrow> Q (f (opslot (optop s0) k), t)"
  shows "wp (READ_WORD s (OPTOP_OFFSET s k) acc_O) Q"
  using wp_stack_read(1) [OF assms(1,2), of acc_O Q] assms(3) located_fields(1) [OF assms(1)]
  by (simp add: OPTOP_OFFSET_def opslot_def)

lemma wp_op_write:
  assumes "located n lo hi s0 f s" "stack_slot lo hi (opslot (optop s0) k)"
    "\<And>t. located n lo hi s0 (f(opslot (optop s0) k := v)) t \<Longrightarrow> Q t"
  shows "wp (WRITE_WORD s (OPTOP_OFFSET s k) acc_O v) Q"
  using wp_stack_write [OF assms(1,2), of acc_O v Q] assms(3) located_fields(1) [OF assms(1)]
  by (simp add: OPTOP_OFFSET_def opslot_def)

definition dword :: "u32 \<Rightarrow> u32 \<Rightarrow> u64" where
  "dword h l = push_bit 32 (ucast h) OR ucast l"

lemma opslot_pred: "opslot b k - 4 = opslot b (k - 1)"
  by (simp add: opslot_def algebra_simps)

lemma wp_op_read2:
  assumes "located n lo hi s0 f s" "stack_slot lo hi (opslot (optop s0) k)" "stack_slot lo hi (opslot (optop s0) (k - 1))"
    "\<And>t. located n lo hi s0 f t \<Longrightarrow> Q (dword (f (opslot (optop s0) (k - 1))) (f (opslot (optop s0) k)), t)"
  shows "wp (READ_DWORD s (OPTOP_OFFSET s k) acc_O) Q"
proof -
  have off: "OPTOP_OFFSET s k = opslot (optop s0) k" "opslot (optop s0) k - 4 = opslot (optop s0) (k - 1)"
    using located_fields(1) [OF assms(1)] by (simp_all add: OPTOP_OFFSET_def opslot_def algebra_simps)
  have low: "wp (READ_WORD u (opslot (optop s0) k) acc_O) (\<lambda>(l, u). Q (dword (f (opslot (optop s0) (k - 1))) l, u))"
    if "located n lo hi s0 f u" for u
    using that assms(4) by (intro wp_stack_read(1) [OF that assms(2)]) auto
  show ?thesis
    unfolding READ_DWORD_def off
    by (simp add: case_prod_unfold, rule wp_stack_read(1) [OF assms(1,3)])
      (use low in \<open>auto simp: dword_def case_prod_unfold\<close>)
qed

lemma wp_op_write2:
  assumes "located n lo hi s0 f s" "stack_slot lo hi (opslot (optop s0) k)" "stack_slot lo hi (opslot (optop s0) (k - 1))"
    "\<And>t. located n lo hi s0 (f(opslot (optop s0) (k - 1) := ucast (drop_bit 32 v), opslot (optop s0) k := ucast v)) t \<Longrightarrow> Q t"
  shows "wp (WRITE_DWORD s (OPTOP_OFFSET s k) acc_O v) Q"
proof -
  have off: "OPTOP_OFFSET s k = opslot (optop s0) k" "opslot (optop s0) k - 4 = opslot (optop s0) (k - 1)"
    using located_fields(1) [OF assms(1)] by (simp_all add: OPTOP_OFFSET_def opslot_def algebra_simps)
  have low: "wp (WRITE_WORD u (opslot (optop s0) k) acc_O (ucast v)) Q"
    if "located n lo hi s0 (f(opslot (optop s0) (k - 1) := ucast (drop_bit 32 v))) u" for u
    using assms(4) by (intro wp_stack_write [OF that assms(2)]) auto
  show ?thesis
    unfolding WRITE_DWORD_def off
    by (simp, rule wp_stack_write [OF assms(1,3)]) (use low in auto)
qed

section \<open>Moving the top of the stack\<close>

definition room :: "u32 \<Rightarrow> u32 \<Rightarrow> machine \<Rightarrow> u32 \<Rightarrow> bool" where
  "room lo hi s v \<longleftrightarrow> aligned v \<and> lo \<le> v \<and> unat v + 4 * fill_mark s \<le> unat hi \<and>
     unat (optop s) \<le> unat v + 32 \<and> \<not> oplim_violated s v"

text \<open>What a move of optop to v leaves as it was.\<close>

definition moved :: "machine \<Rightarrow> machine \<Rightarrow> bool" where
  "moved s t \<longleftrightarrow> (\<exists>v b x y z d m. t = s\<lparr>optop := v, scBottom := b, sc_bottom_min := x, sc_bottom_max := y,
     sCacheMem := z, dc := d, cm := m\<rparr>)"

lemma moved_fields:
  assumes "moved s t"
  shows "pc t = pc s" "vars t = vars s" "frame t = frame s" "const_pool t = const_pool s" "psr t = psr s"
    "oplim t = oplim s" "exc t = exc s" "fill_mark t = fill_mark s" "spill_mark t = spill_mark s"
    "trapbase t = trapbase s" "proc_type t = proc_type s" "lockAddr t = lockAddr s" "lockCount t = lockCount s"
    "flag_setting_up_trap_frame t = flag_setting_up_trap_frame s" "cnt t = cnt s" "hcr t = hcr s"
    "flag_return_opcode t = flag_return_opcode s" "gcConfig t = gcConfig s" "ic t = ic s" "wide_prefix t = wide_prefix s"
  using assms by (auto simp: moved_def fill_mark_def spill_mark_def)

lemma mem_only_moved: "mem_only s t \<Longrightarrow> moved s t"
proof -
  assume "mem_only s t"
  then obtain z d m where "t = s\<lparr>sCacheMem := z, dc := d, cm := m\<rparr>" unfolding mem_only_def by blast
  moreover have "s\<lparr>sCacheMem := z, dc := d, cm := m\<rparr> = s\<lparr>optop := optop s, scBottom := scBottom s,
      sc_bottom_min := sc_bottom_min s, sc_bottom_max := sc_bottom_max s, sCacheMem := z, dc := d, cm := m\<rparr>"
    by (cases s) simp
  ultimately show ?thesis unfolding moved_def by blast
qed

lemma dribbles_moved: "dribbles (s\<lparr>optop := v\<rparr>) t \<Longrightarrow> moved s t"
  unfolding dribbles_def moved_def by fastforce

lemma moved_trans: "moved s t \<Longrightarrow> moved t u \<Longrightarrow> moved s u"
proof -
  assume "moved s t" "moved t u"
  then obtain v b x y z d m v' b' x' y' z' d' m' where
    "t = s\<lparr>optop := v, scBottom := b, sc_bottom_min := x, sc_bottom_max := y, sCacheMem := z, dc := d, cm := m\<rparr>"
    "u = t\<lparr>optop := v', scBottom := b', sc_bottom_min := x', sc_bottom_max := y', sCacheMem := z', dc := d', cm := m'\<rparr>"
    unfolding moved_def by blast
  then have "u = s\<lparr>optop := v', scBottom := b', sc_bottom_min := x', sc_bottom_max := y', sCacheMem := z',
      dc := d', cm := m'\<rparr>" by (cases s) simp
  then show ?thesis unfolding moved_def by blast
qed

lemma moved_refl [simp]: "moved s s"
  by (rule mem_only_moved) simp

text \<open>The words that a move of the top to v leaves alone: those above v, and the memory below the stack.\<close>

definition kept :: "u32 \<Rightarrow> u32 \<Rightarrow> u32 \<Rightarrow> bool" where
  "kept lo v a \<longleftrightarrow> aligned a \<and> (v < a \<or> unat a + 256 \<le> unat lo)"

lemma keptI: "aligned a \<Longrightarrow> v < a \<Longrightarrow> kept lo v a"
  by (simp add: kept_def)

lemma kept_mono: "kept lo v a \<Longrightarrow> w \<le> v \<Longrightarrow> kept lo w a"
  by (auto simp: kept_def)

lemma kept_not_slot: "kept lo v a \<Longrightarrow> lo \<le> b \<Longrightarrow> b \<le> v \<Longrightarrow> a \<noteq> b"
  by (auto simp: kept_def word_le_nat_alt word_less_nat_alt)

lemma heap_kept: "heap_word n lo hi a \<Longrightarrow> v \<le> hi \<Longrightarrow> kept lo v a"
  by (auto simp: heap_word_def kept_def cacheable_def)

lemma set_optop_settled:
  assumes "settled n lo hi s" "room lo hi s v"
  shows "\<exists>t. set_optop s v = Some t \<and> settled n lo hi t \<and> optop t = v \<and> moved s t \<and>
    (\<forall>a. kept lo v a \<longrightarrow> stack_word t a = stack_word s a)"
proof -
  note st = settled_facts [OF assms(1)]
  have r: "aligned v" "lo \<le> v" "unat v + 4 * fill_mark s \<le> unat hi" "unat (optop s) \<le> unat v + 32"
    "\<not> oplim_violated s v" using assms(2) by (simp_all add: room_def)
  have so: "stack_ok n lo hi s" using assms(1) by (simp add: settled_def)
  obtain t where t: "set_optop s v = Some t" "stack_ok n lo hi t" "optop t = v" "dribbles (s\<lparr>optop := v\<rparr>) t"
    "nValidEntries t \<le> int (max (fill_mark s) (spill_mark s))"
    "\<forall>a. aligned a \<longrightarrow> unat (optop s) < unat a \<or> unat (scBottom s) \<le> unat v + 256 \<longrightarrow> unat v < unat a \<longrightarrow>
       stack_word t a = stack_word s a"
    "\<forall>a. aligned a \<longrightarrow> a < lo \<longrightarrow> mem_view t a = mem_view s a"
    using set_optop_law [OF so r(1,2,3,5)] by blast
  have to: "scBottom t \<le> hi" "aligned (optop t)" "aligned (scBottom t)" "optop t \<le> scBottom t"
    using t(2) by (simp_all add: stack_ok_def)
  have "unat (optop t) < 2 ^ 30" "unat (scBottom t) < 2 ^ 30" using to(1) st(14) r(3) t(3) by (simp_all add: word_le_nat_alt)
  then have "4 * nValidEntries t = int (unat (scBottom t)) - int (unat (optop t))"
    using nValidEntries_nat [of t] to(2,3) by simp
  moreover have "nValidEntries t \<le> 56" using t(5) marks_bound [of s] by linarith
  ultimately have "unat (scBottom t) \<le> unat (optop t) + 224" by linarith
  then have "settled n lo hi t" using t(2) by (simp add: settled_def)
  moreover have "unat (scBottom s) \<le> unat v + 256" using st(8) r(4) by linarith
  then have "stack_word t a = stack_word s a" if "kept lo v a" for a
  proof (cases "v < a")
    case True
    then show ?thesis using t(6) that \<open>unat (scBottom s) \<le> unat v + 256\<close> by (simp add: kept_def word_less_nat_alt)
  next
    case False
    then have a: "aligned a" "unat a + 256 \<le> unat lo" using that by (auto simp: kept_def)
    have "lo \<le> optop t" using r(2) t(3) by simp
    then have "\<not> scache_hit s a" "\<not> scache_hit t a"
      using a(2) st(6,7,15) to(4) settled_facts(7,15) [OF \<open>settled n lo hi t\<close>]
      by (auto simp: scache_hit_unat word_le_nat_alt)
    moreover have "mem_view t a = mem_view s a" using t(7) a by (simp add: word_less_nat_alt)
    ultimately show ?thesis by (simp add: stack_word_def)
  qed
  ultimately show ?thesis using t(1,3) dribbles_moved [OF t(4)] by blast
qed

text \<open>
  ended s0 f v p t: the instruction that started in s0 has ended in t with the top of stack at v
  and the program counter at p, and the words that this leaves alone are those of f.
\<close>

definition ended :: "u32 \<Rightarrow> u32 \<Rightarrow> u32 \<Rightarrow> machine \<Rightarrow> (u32 \<Rightarrow> u32) \<Rightarrow> u32 \<Rightarrow> u32 \<Rightarrow> machine \<Rightarrow> bool" where
  "ended n lo hi s0 f v p t \<longleftrightarrow> settled n lo hi t \<and> optop t = v \<and> pc t = p \<and> moved (s0\<lparr>pc := p\<rparr>) t \<and>
     (\<forall>a. kept lo v a \<longrightarrow> stack_word t a = f a)"

lemma located_room: "located n lo hi s0 f s \<Longrightarrow> room lo hi s v = room lo hi s0 v"
  using located_fields [of n lo hi s0 f s] by (simp add: room_def oplim_violated_def)

lemma wp_set_optop:
  assumes "located n lo hi s0 f s" "room lo hi s0 v"
    "\<And>t. located n lo hi t (stack_word t) t \<Longrightarrow> optop t = v \<Longrightarrow> moved s0 t \<Longrightarrow>
       (\<forall>a. kept lo v a \<longrightarrow> stack_word t a = f a) \<Longrightarrow> Q t"
  shows "wp (set_optop s v) Q"
proof -
  have s: "settled n lo hi s" "mem_only s0 s" "\<forall>a. aligned a \<longrightarrow> stack_word s a = f a"
    using assms(1) by (simp_all add: located_def)
  obtain t where "set_optop s v = Some t" "settled n lo hi t" "optop t = v" "moved s t"
    "\<forall>a. kept lo v a \<longrightarrow> stack_word t a = stack_word s a"
    using set_optop_settled [OF s(1)] assms(1,2) located_room [OF assms(1)] by blast
  moreover have "kept lo v a \<Longrightarrow> aligned a" for a by (simp add: kept_def)
  ultimately show ?thesis
    using assms(3) located_self [of n lo hi t] moved_trans [OF mem_only_moved [OF s(2)]] s(3) by (auto simp: wp_iff)
qed

lemma settled_pc: "settled n lo hi (s\<lparr>pc := p\<rparr>) = settled n lo hi s"
  by (simp add: settled_def stack_ok_def quiet_def mem_inv_def dc_on_def CHK_PSR_DCE_def fill_mark_def)

lemma stack_word_pc [simp]: "stack_word (s\<lparr>pc := p\<rparr>) = stack_word s"
  by (simp add: stack_word_def scache_hit_def mem_view_def dc_on_def CHK_PSR_DCE_def fun_eq_iff)

lemma moved_pc: "moved s t \<Longrightarrow> moved (s\<lparr>pc := p\<rparr>) (t\<lparr>pc := p\<rparr>)"
proof -
  assume "moved s t"
  then obtain v b x y z d m where "t = s\<lparr>optop := v, scBottom := b, sc_bottom_min := x, sc_bottom_max := y,
      sCacheMem := z, dc := d, cm := m\<rparr>" unfolding moved_def by blast
  then have "t\<lparr>pc := p\<rparr> = s\<lparr>pc := p, optop := v, scBottom := b, sc_bottom_min := x, sc_bottom_max := y,
      sCacheMem := z, dc := d, cm := m\<rparr>" by (cases s) simp
  then show ?thesis unfolding moved_def by blast
qed

lemma moved_pc_swap: "moved (s\<lparr>pc := p\<rparr>) t \<Longrightarrow> pc t = p"
  using moved_fields(1) [of "s\<lparr>pc := p\<rparr>" t] by simp

lemma wp_SIZE_AND_STACK_RETURN:
  assumes "located n lo hi s0 f s" "room lo hi s0 (opslot (optop s0) (- k))"
    "\<And>t. ended n lo hi s0 f (opslot (optop s0) (- k)) (pc s0 + sz) t \<Longrightarrow> Q t"
  shows "wp (SIZE_AND_STACK_RETURN s sz k) Q"
proof -
  have v: "optop s - 4 * k = opslot (optop s0) (- k)"
    using located_fields(1) [OF assms(1)] by (simp add: opslot_def)
  show ?thesis
    unfolding SIZE_AND_STACK_RETURN_def v
  proof (simp, rule wp_set_optop [OF assms(1,2)])
    fix t assume t: "located n lo hi t (stack_word t) t" "optop t = opslot (optop s0) (- k)" "moved s0 t"
      "\<forall>a. kept lo (opslot (optop s0) (- k)) a \<longrightarrow> stack_word t a = f a"
    have p: "pc t = pc s0" using moved_fields [OF t(3)] by simp
    show "Q (t\<lparr>pc := pc t + sz\<rparr>)"
      using t moved_pc [OF t(3)] by (intro assms(3)) (simp add: ended_def p located_def settled_pc)
  qed
qed

end
