(* ===== verification/Operand_Stack.thy ===== *)
theory Operand_Stack
  imports Stack_Access
begin

text \<open>
  The operand stack as a list of words, the top first, and what it means for an instruction to
  refine a function on such lists. The laws below are the ones of the building blocks of
  Jvm\_Int\_Ops and Fp\_Ops; a whole group of opcodes follows from them.
\<close>

section \<open>Slots\<close>

lemma opslot_opslot [simp]: "opslot (opslot b j) k = opslot b (j + k)"
  by (simp add: opslot_def algebra_simps)

lemma opslot_0 [simp]: "opslot b 0 = b"
  by (simp add: opslot_def)

lemma opslot_eq [simp]: "opslot b j = opslot b k \<longleftrightarrow> 4 * j = 4 * k"
  "opslot b j = b \<longleftrightarrow> 4 * j = 0" "b = opslot b j \<longleftrightarrow> 4 * j = 0"
  by (simp_all add: opslot_def)

lemma aligned_opslot [simp]: "aligned b \<Longrightarrow> aligned (opslot b k)"
  by (auto simp: aligned_dvd opslot_def unat_word_ariths intro!: dvd_mod dvd_add)

lemma unat_opslot_up: "unat b < 2 ^ 30 \<Longrightarrow> unat k \<le> 64 \<Longrightarrow> unat (opslot b k) = unat b + 4 * unat k"
  by (simp add: opslot_def unat_word_ariths)

lemma unat_opslot_down:
  assumes "512 \<le> unat b" "unat k \<le> 64"
  shows "unat (opslot b (- k)) = unat b - 4 * unat k"
proof -
  have "4 * unat k < 2 ^ 32" using assms(2) by simp
  then have k: "unat (4 * k) = 4 * unat k" by (simp add: unat_word_ariths)
  have "opslot b (- k) = b - 4 * k" by (simp add: opslot_def)
  moreover have "4 * k \<le> b" using assms k by (simp add: word_le_nat_alt)
  ultimately show ?thesis using k by (simp add: unat_sub)
qed

text \<open>The words of a list above an address.\<close>

fun items :: "(u32 \<Rightarrow> u32) \<Rightarrow> u32 \<Rightarrow> u32 list \<Rightarrow> bool" where
  "items f b [] \<longleftrightarrow> True"
| "items f b (x # xs) \<longleftrightarrow> f (opslot b 1) = x \<and> items f (opslot b 1) xs"

definition operands :: "u32 \<Rightarrow> machine \<Rightarrow> u32 list \<Rightarrow> bool" where
  "operands hi s xs \<longleftrightarrow> items (stack_word s) (optop s) xs \<and> length xs \<le> 8 \<and> unat (optop s) + 4 * length xs \<le> unat hi"

text \<open>Where the top is after xs has been replaced by ys.\<close>

definition new_top :: "machine \<Rightarrow> u32 list \<Rightarrow> u32 list \<Rightarrow> u32" where
  "new_top s xs ys = opslot (optop s) (of_nat (length xs) - of_nat (length ys))"

text \<open>
  The instruction of sz bytes put ys in the place of xs: every word above xs, the local variables
  and the frames of the callers among them, and every word below the stack area reads as g says,
  and of the registers only pc and optop (and the bookkeeping of the stack cache) have changed.
  Most instructions store nothing elsewhere; then g is what was there before.
\<close>

definition stored :: "u32 \<Rightarrow> u32 \<Rightarrow> u32 \<Rightarrow> u32 \<Rightarrow> machine \<Rightarrow> u32 list \<Rightarrow> u32 list \<Rightarrow> (u32 \<Rightarrow> u32) \<Rightarrow> machine \<Rightarrow> bool" where
  "stored n lo hi sz s xs ys g t \<longleftrightarrow>
     settled n lo hi t \<and> optop t = new_top s xs ys \<and> pc t = pc s + sz \<and> items (stack_word t) (optop t) ys \<and>
     moved (s\<lparr>pc := pc s + sz\<rparr>) t \<and>
     (\<forall>a. kept lo (opslot (optop s) (of_nat (length xs))) a \<longrightarrow> stack_word t a = g a)"

abbreviation replaced :: "u32 \<Rightarrow> u32 \<Rightarrow> u32 \<Rightarrow> u32 \<Rightarrow> machine \<Rightarrow> u32 list \<Rightarrow> u32 list \<Rightarrow> machine \<Rightarrow> bool" where
  "replaced n lo hi sz s xs ys t \<equiv> stored n lo hi sz s xs ys (stack_word s) t"

text \<open>In every state that satisfies P.\<close>

definition implements :: "(machine \<Rightarrow> bool) \<Rightarrow> (machine \<Rightarrow> machine option) \<Rightarrow> (u32 list \<Rightarrow> u32 list option) \<Rightarrow> bool" where
  "implements P impl sp \<longleftrightarrow> (\<forall>n lo hi s xs ys. P s \<longrightarrow> settled n lo hi s \<longrightarrow> operands hi s xs \<longrightarrow> sp xs = Some ys \<longrightarrow>
     room lo hi s (new_top s xs ys) \<longrightarrow> wp (impl s) (replaced n lo hi 1 s xs ys))"

lemma implements_mono: "implements P impl sp \<Longrightarrow> (\<And>s. R s \<Longrightarrow> P s) \<Longrightarrow> implements R impl sp"
  by (auto simp: implements_def)

section \<open>An instruction in progress\<close>

text \<open>
  The instruction that replaces xs by ys in s0 has come to u, where a stack access sees f, and
  what it leaves alone has become g. A slot
  is used when it belongs to the words consumed or to the words produced.
\<close>

definition working ::
    "u32 \<Rightarrow> u32 \<Rightarrow> u32 \<Rightarrow> machine \<Rightarrow> u32 list \<Rightarrow> u32 list \<Rightarrow> (u32 \<Rightarrow> u32) \<Rightarrow> (u32 \<Rightarrow> u32) \<Rightarrow> machine \<Rightarrow> bool" where
  "working n lo hi s0 xs ys g f u \<longleftrightarrow>
     located n lo hi s0 f u \<and> settled n lo hi s0 \<and> operands hi s0 xs \<and> length ys \<le> 8 \<and> room lo hi s0 (new_top s0 xs ys) \<and>
     (\<forall>a. kept lo (opslot (optop s0) (of_nat (length xs))) a \<longrightarrow> f a = g a)"

definition used :: "u32 list \<Rightarrow> u32 list \<Rightarrow> u32 \<Rightarrow> bool" where
  "used xs ys k \<longleftrightarrow> 0 < k \<and> unat k \<le> length xs \<or>
     (let j = k - (of_nat (length xs) - of_nat (length ys)) in 0 < j \<and> unat j \<le> length ys)"

lemma top_of_operands:
  assumes "settled n lo hi s" "operands hi s xs"
  shows "unat (opslot (optop s) (of_nat (length xs))) = unat (optop s) + 4 * length xs"
proof -
  have l: "length xs \<le> 8" "unat (optop s) < 2 ^ 30"
    using assms(2) settled_facts(14) [OF assms(1)] by (simp_all add: operands_def)
  then have "unat (of_nat (length xs) :: u32) = length xs" by (simp add: unat_of_nat)
  then show ?thesis using l by (subst unat_opslot_up) simp_all
qed

lemma used_slot:
  assumes "working n lo hi s xs ys g f u" "used xs ys k"
  shows "stack_slot lo hi (opslot (optop s) k)" "opslot (optop s) k \<le> opslot (optop s) (of_nat (length xs))"
proof -
  have w: "settled n lo hi s" "operands hi s xs" "length ys \<le> 8" "room lo hi s (new_top s xs ys)"
    using assms(1) by (simp_all add: working_def)
  note st = settled_facts [OF w(1)]
  have x: "length xs \<le> 8" "unat (optop s) + 4 * length xs \<le> unat hi" using w(2) by (simp_all add: operands_def)
  define v where "v = new_top s xs ys"
  have v: "lo \<le> v" "unat v \<le> unat hi" using w(4) by (simp_all add: room_def v_def)
  note top = top_of_operands [OF w(1,2)]
  have yl: "unat (of_nat (length ys) :: u32) = length ys" using w(3) by (simp add: unat_of_nat)
  have vt: "opslot v (of_nat (length ys)) = opslot (optop s) (of_nat (length xs))" by (simp add: v_def new_top_def)
  have "unat (opslot v (of_nat (length ys))) = unat v + 4 * length ys"
    using v(2) st(14) yl w(3) by (subst unat_opslot_up) simp_all
  then have vy: "unat v + 4 * length ys = unat (optop s) + 4 * length xs" using vt top by simp
  have "unat lo \<le> unat (opslot (optop s) k) \<and> unat (opslot (optop s) k) \<le> unat (optop s) + 4 * length xs"
    using assms(2) unfolding used_def Let_def
  proof (elim disjE conjE)
    assume "0 < k" "unat k \<le> length xs"
    moreover from this have "unat (opslot (optop s) k) = unat (optop s) + 4 * unat k"
      using x st(14) by (intro unat_opslot_up) simp_all
    ultimately show ?thesis using st(6) by (simp add: word_le_nat_alt)
  next
    let ?j = "k - (of_nat (length xs) - of_nat (length ys))"
    assume j: "0 < ?j" "unat ?j \<le> length ys"
    have "opslot (optop s) k = opslot v ?j" by (simp add: v_def new_top_def)
    moreover have "unat (opslot v ?j) = unat v + 4 * unat ?j"
      using v(2) st(14) j w(3) by (intro unat_opslot_up) simp_all
    ultimately show ?thesis using v(1) vy j(2) by (simp add: word_le_nat_alt)
  qed
  then show "stack_slot lo hi (opslot (optop s) k)" "opslot (optop s) k \<le> opslot (optop s) (of_nat (length xs))"
    using st(4) top x(2) by (simp_all add: stack_slot_def word_le_nat_alt)
qed

lemma working_read: "working n lo hi s xs ys g f u \<Longrightarrow> located n lo hi s f t \<Longrightarrow> working n lo hi s xs ys g f t"
  by (simp add: working_def)

lemma working_write:
  assumes "working n lo hi s xs ys g f u" "used xs ys k" "located n lo hi s (f(opslot (optop s) k := v)) t"
  shows "working n lo hi s xs ys g (f(opslot (optop s) k := v)) t"
  using assms(1,3) kept_not_slot used_slot [OF assms(1,2)] by (auto simp: working_def stack_slot_def)

lemma working_located: "working n lo hi s xs ys g f u \<Longrightarrow> located n lo hi s f u"
  by (simp add: working_def)

lemma wp_pop:
  assumes "working n lo hi s xs ys g f u" "used xs ys k"
    "\<And>t. working n lo hi s xs ys g f t \<Longrightarrow> Q (f (opslot (optop s) k), t)"
  shows "wp (READ_WORD u (OPTOP_OFFSET u k) acc_O) Q"
  using wp_op_read [OF working_located [OF assms(1)] used_slot(1) [OF assms(1,2)], of Q]
    working_read [OF assms(1)] assms(3) by simp

lemma wp_put:
  assumes "working n lo hi s xs ys g f u" "used xs ys k"
    "\<And>t. working n lo hi s xs ys g (f(opslot (optop s) k := v)) t \<Longrightarrow> Q t"
  shows "wp (WRITE_WORD u (OPTOP_OFFSET u k) acc_O v) Q"
  using wp_op_write [OF working_located [OF assms(1)] used_slot(1) [OF assms(1,2)], of v Q]
    working_write [OF assms(1,2)] assms(3) by simp

lemma wp_pop2:
  assumes "working n lo hi s xs ys g f u" "used xs ys k" "used xs ys (k - 1)"
    "\<And>t. working n lo hi s xs ys g f t \<Longrightarrow> Q (dword (f (opslot (optop s) (k - 1))) (f (opslot (optop s) k)), t)"
  shows "wp (READ_DWORD u (OPTOP_OFFSET u k) acc_O) Q"
  using wp_op_read2 [OF working_located [OF assms(1)] used_slot(1) [OF assms(1,2)] used_slot(1) [OF assms(1,3)], of Q]
    working_read [OF assms(1)] assms(4) by simp

lemma wp_put2:
  assumes "working n lo hi s xs ys g f u" "used xs ys k" "used xs ys (k - 1)"
    "\<And>t. working n lo hi s xs ys g
       (f(opslot (optop s) (k - 1) := ucast (drop_bit 32 v), opslot (optop s) k := ucast v)) t \<Longrightarrow> Q t"
  shows "wp (WRITE_DWORD u (OPTOP_OFFSET u k) acc_O v) Q"
proof (rule wp_op_write2 [OF working_located [OF assms(1)] used_slot(1) [OF assms(1,2)] used_slot(1) [OF assms(1,3)]])
  fix t assume "located n lo hi s (f(opslot (optop s) (k - 1) := ucast (drop_bit 32 v), opslot (optop s) k := ucast v)) t"
  moreover have "\<forall>a. kept lo (opslot (optop s) (of_nat (length xs))) a \<longrightarrow>
      (f(opslot (optop s) (k - 1) := ucast (drop_bit 32 v), opslot (optop s) k := ucast v)) a = g a"
    using assms(1) kept_not_slot used_slot [OF assms(1,2)] used_slot [OF assms(1,3)]
    by (auto simp: working_def stack_slot_def)
  ultimately show "Q t" using assms(1) by (intro assms(4)) (simp add: working_def)
qed

lemma wp_field:
  assumes "working n lo hi s xs ys g f u" "heap_word n lo hi a" "port_acc c"
    "\<And>t. working n lo hi s xs ys g f t \<Longrightarrow> Q (f a, t)"
  shows "wp (READ_WORD u a c) Q" "wp (READ_INTO u a c v) Q"
  using wp_heap_read [OF working_located [OF assms(1)] assms(2,3), of Q] working_read [OF assms(1)] assms(4) by simp_all

lemma heap_not_operand:
  assumes "working n lo hi s xs ys g f u" "heap_word n lo hi a" "used xs ys k"
  shows "a \<noteq> opslot (optop s) k"
  using used_slot(1) [OF assms(1,3)] assms(2) by (auto simp: stack_slot_def heap_word_def word_le_nat_alt word_less_nat_alt)

lemma wp_store:
  assumes "working n lo hi s xs ys g f u" "heap_word n lo hi a" "port_acc c"
    "\<And>t. working n lo hi s xs ys (g(a := v)) (f(a := v)) t \<Longrightarrow> Q t"
  shows "wp (WRITE_WORD u a c v) Q"
proof (rule wp_heap_write [OF working_located [OF assms(1)] assms(2,3)])
  fix t assume "located n lo hi s (f(a := v)) t"
  then show "Q t" using assms(1) by (intro assms(4)) (simp add: working_def)
qed

lemma items_ended:
  assumes "ended n lo hi s f v p t" "items f b xs" "v \<le> b" "unat b + 4 * length xs < 2 ^ 30" "aligned b"
  shows "items (stack_word t) b xs"
  using assms(2-5)
proof (induction xs arbitrary: b)
  case (Cons x xs)
  have u: "unat (opslot b 1) = unat b + 4" using Cons.prems by (subst unat_opslot_up) simp_all
  then have "v < opslot b 1" using Cons.prems(2) by (simp add: word_le_nat_alt word_less_nat_alt)
  then have "stack_word t (opslot b 1) = f (opslot b 1)" using assms(1) Cons.prems(4) by (simp add: ended_def keptI)
  moreover have "items (stack_word t) (opslot b 1) xs"
    using Cons.prems u \<open>v < opslot b 1\<close> by (intro Cons.IH) simp_all
  ultimately show ?case using Cons.prems(1) by simp
qed simp

text \<open>The macro that ends most instructions.\<close>

lemma wp_finish:
  assumes "working n lo hi s xs ys g f u" "k = of_nat (length ys) - of_nat (length xs)" "items f (new_top s xs ys) ys"
  shows "wp (SIZE_AND_STACK_RETURN u sz k) (stored n lo hi sz s xs ys g)"
proof -
  have w: "settled n lo hi s" "operands hi s xs" "length ys \<le> 8" "room lo hi s (new_top s xs ys)"
    "\<And>a. kept lo (opslot (optop s) (of_nat (length xs))) a \<Longrightarrow> f a = g a"
    using assms(1) by (simp_all add: working_def)
  define v where "v = new_top s xs ys"
  have v: "v = opslot (optop s) (- k)" by (simp add: v_def new_top_def assms(2))
  have top: "opslot v (of_nat (length ys)) = opslot (optop s) (of_nat (length xs))" by (simp add: v_def new_top_def)
  have r: "aligned v" "unat v < 2 ^ 30" using w(4) settled_facts(14) [OF w(1)] by (simp_all add: room_def v_def)
  have "unat (of_nat (length ys) :: u32) = length ys" using w(3) by (simp add: unat_of_nat)
  then have vy: "unat (opslot v (of_nat (length ys))) = unat v + 4 * length ys"
    using r(2) w(3) by (subst unat_opslot_up) simp_all
  then have b: "unat v + 4 * length ys < 2 ^ 30" "v \<le> opslot (optop s) (of_nat (length xs))"
    using top top_of_operands [OF w(1,2)] w(2) settled_facts(14) [OF w(1)]
    by (simp_all add: operands_def word_le_nat_alt)
  show ?thesis
  proof (rule wp_SIZE_AND_STACK_RETURN [OF working_located [OF assms(1)]])
    show "room lo hi s (opslot (optop s) (- k))" using w(4) v by (simp add: v_def)
    fix t assume t: "ended n lo hi s f (opslot (optop s) (- k)) (pc s + sz) t"
    then have e: "settled n lo hi t" "optop t = v" "pc t = pc s + sz" "moved (s\<lparr>pc := pc s + sz\<rparr>) t"
      "\<forall>a. kept lo v a \<longrightarrow> stack_word t a = f a" by (simp_all add: ended_def v)
    have "items (stack_word t) v ys"
      using items_ended [OF t, of v ys] assms(3) b r v by (simp add: v_def)
    moreover have "stack_word t a = g a" if "kept lo (opslot (optop s) (of_nat (length xs))) a" for a
      using e(5) w(5) kept_mono that b(2) by metis
    ultimately show "stored n lo hi sz s xs ys g t"
      using e by (simp add: stored_def v_def)
  qed
qed

lemma implementsI:
  assumes "\<And>n lo hi s xs ys. P s \<Longrightarrow> working n lo hi s xs ys (stack_word s) (stack_word s) s \<Longrightarrow> items (stack_word s) (optop s) xs \<Longrightarrow>
    sp xs = Some ys \<Longrightarrow> wp (impl s) (replaced n lo hi 1 s xs ys)" "\<And>xs ys. sp xs = Some ys \<Longrightarrow> length ys \<le> 8"
  shows "implements P impl sp"
  using assms located_self by (simp add: implements_def working_def operands_def)

lemma working_top: "working n lo hi s xs ys g f u \<Longrightarrow> OPTOP_OFFSET u k = opslot (optop s) k"
  using located_fields(1) [OF working_located] by (simp add: OPTOP_OFFSET_def opslot_def)

text \<open>A copy names both places before it reads.\<close>

lemma wp_copy:
  assumes "working n lo hi s xs ys g f u" "used xs ys d" "used xs ys k"
    "\<And>t. working n lo hi s xs ys g (f(opslot (optop s) d := f (opslot (optop s) k))) t \<Longrightarrow> Q t"
  shows "wp (COPY_STACK_ITEM u (OPTOP_OFFSET u d) (OPTOP_OFFSET u k) acc_O acc_O) Q"
proof -
  have "wp (WRITE_WORD t (OPTOP_OFFSET u d) acc_O (f (opslot (optop s) k))) Q" if "working n lo hi s xs ys g f t" for t
    using wp_put [OF that assms(2) assms(4)] by (simp add: working_top [OF that] working_top [OF assms(1)])
  then show ?thesis
    unfolding COPY_STACK_ITEM_def by (auto intro!: wp_pop [OF assms(1,3)])
qed

lemmas instr_rules = wp_copy wp_pop wp_put wp_pop2 wp_put2 wp_finish

section \<open>Functions on the first words of the stack\<close>

fun pop0 :: "u32 list option \<Rightarrow> u32 list \<Rightarrow> u32 list option" where
  "pop0 r [] = r" | "pop0 r _ = None"

fun pop1 :: "(u32 \<Rightarrow> u32 list option) \<Rightarrow> u32 list \<Rightarrow> u32 list option" where
  "pop1 f [a] = f a" | "pop1 f _ = None"

fun pop2 :: "(u32 \<Rightarrow> u32 \<Rightarrow> u32 list option) \<Rightarrow> u32 list \<Rightarrow> u32 list option" where
  "pop2 f [a, b] = f a b" | "pop2 f _ = None"

fun pop3 :: "(u32 \<Rightarrow> u32 \<Rightarrow> u32 \<Rightarrow> u32 list option) \<Rightarrow> u32 list \<Rightarrow> u32 list option" where
  "pop3 f [a, b, c] = f a b c" | "pop3 f _ = None"

fun pop4 :: "(u32 \<Rightarrow> u32 \<Rightarrow> u32 \<Rightarrow> u32 \<Rightarrow> u32 list option) \<Rightarrow> u32 list \<Rightarrow> u32 list option" where
  "pop4 f [a, b, c, d] = f a b c d" | "pop4 f _ = None"

text \<open>A long as it lies on the stack.\<close>

definition long :: "u64 \<Rightarrow> u32 list" where
  "long v = [ucast (drop_bit 32 v), ucast v]"

lemma pop0I:
  assumes "\<And>n lo hi s ys. P s \<Longrightarrow> working n lo hi s [] ys (stack_word s) (stack_word s) s \<Longrightarrow> r = Some ys \<Longrightarrow>
    wp (impl s) (replaced n lo hi 1 s [] ys)" "\<And>ys. r = Some ys \<Longrightarrow> length ys \<le> 8"
  shows "implements P impl (pop0 r)"
  by (rule implementsI) (auto elim!: pop0.elims intro: assms dest: sym [of "Some _"])

lemma pop1I:
  assumes "\<And>n lo hi s a ys. P s \<Longrightarrow> working n lo hi s [a] ys (stack_word s) (stack_word s) s \<Longrightarrow>
    stack_word s (opslot (optop s) 1) = a \<Longrightarrow> f a = Some ys \<Longrightarrow>
    wp (impl s) (replaced n lo hi 1 s [a] ys)" "\<And>a ys. f a = Some ys \<Longrightarrow> length ys \<le> 8"
  shows "implements P impl (pop1 f)"
  by (rule implementsI) (auto elim!: pop1.elims intro: assms dest: sym [of "Some _"])

lemma pop2I:
  assumes "\<And>n lo hi s a b ys. P s \<Longrightarrow> working n lo hi s [a, b] ys (stack_word s) (stack_word s) s \<Longrightarrow>
    stack_word s (opslot (optop s) 1) = a \<Longrightarrow> stack_word s (opslot (optop s) 2) = b \<Longrightarrow> f a b = Some ys \<Longrightarrow>
    wp (impl s) (replaced n lo hi 1 s [a, b] ys)" "\<And>a b ys. f a b = Some ys \<Longrightarrow> length ys \<le> 8"
  shows "implements P impl (pop2 f)"
  by (rule implementsI) (auto elim!: pop2.elims intro: assms dest: sym [of "Some _"])

lemma pop3I:
  assumes "\<And>n lo hi s a b c ys. P s \<Longrightarrow> working n lo hi s [a, b, c] ys (stack_word s) (stack_word s) s \<Longrightarrow>
    stack_word s (opslot (optop s) 1) = a \<Longrightarrow> stack_word s (opslot (optop s) 2) = b \<Longrightarrow>
    stack_word s (opslot (optop s) 3) = c \<Longrightarrow> f a b c = Some ys \<Longrightarrow>
    wp (impl s) (replaced n lo hi 1 s [a, b, c] ys)" "\<And>a b c ys. f a b c = Some ys \<Longrightarrow> length ys \<le> 8"
  shows "implements P impl (pop3 f)"
  by (rule implementsI) (auto elim!: pop3.elims intro: assms dest: sym [of "Some _"])

lemma pop4I:
  assumes "\<And>n lo hi s a b c d ys. P s \<Longrightarrow> working n lo hi s [a, b, c, d] ys (stack_word s) (stack_word s) s \<Longrightarrow>
    stack_word s (opslot (optop s) 1) = a \<Longrightarrow> stack_word s (opslot (optop s) 2) = b \<Longrightarrow>
    stack_word s (opslot (optop s) 3) = c \<Longrightarrow> stack_word s (opslot (optop s) 4) = d \<Longrightarrow> f a b c d = Some ys \<Longrightarrow>
    wp (impl s) (replaced n lo hi 1 s [a, b, c, d] ys)" "\<And>a b c d ys. f a b c d = Some ys \<Longrightarrow> length ys \<le> 8"
  shows "implements P impl (pop4 f)"
  by (rule implementsI) (auto elim!: pop4.elims intro: assms dest: sym [of "Some _"])

section \<open>The building blocks of the integer instructions\<close>

named_theorems stack_laws \<open>the function each building block implements\<close>

lemma unary_op_implements [stack_laws]: "implements P (unary_op f) (pop1 (\<lambda>a. Some [f a]))"
  by (rule pop1I) (fastforce simp: unary_op_def used_def new_top_def intro!: instr_rules)+

lemma binary_int_op_implements [stack_laws]:
  "implements P (binary_int_op f test) (pop2 (\<lambda>a b. if test \<and> a = 0 then None else map_option (\<lambda>v. [v]) (f b a)))"
  by (rule pop2I) (fastforce simp: binary_int_op_def used_def new_top_def intro!: instr_rules split: if_splits)+

lemma unary_op2_implements [stack_laws]: "implements P (unary_op2 f) (pop2 (\<lambda>h l. Some (long (f (dword h l)))))"
  by (rule pop2I) (fastforce simp: unary_op2_def used_def new_top_def long_def intro!: instr_rules)+

lemma binary_long_op_implements [stack_laws]:
  "implements P (binary_long_op f) (pop4 (\<lambda>h1 l1 h2 l2. Some (long (f (dword h2 l2) (dword h1 l1)))))"
  by (rule pop4I) (fastforce simp: binary_long_op_def used_def new_top_def long_def intro!: instr_rules)+

lemma shift_op_implements [stack_laws]:
  "implements P (shift_op f) (pop2 (\<lambda>a b. Some [f (unat (a AND 0x1F)) b]))"
  by (rule pop2I) (fastforce simp: shift_op_def used_def new_top_def intro!: instr_rules)+

lemma shift_op2_implements [stack_laws]:
  "implements P (shift_op2 f) (pop3 (\<lambda>a h l. Some (long (f (unat (a AND 0x3F)) (dword h l)))))"
  by (rule pop3I) (fastforce simp: shift_op2_def used_def new_top_def long_def intro!: instr_rules)+

lemma ucast_dword [simp]: "ucast (dword h l) = l" "ucast (drop_bit 32 (dword h l)) = h"
  by (rule bit_word_eqI, use bit_imp_le_length [of l] in \<open>fastforce simp: dword_def bit_simps\<close>)+

lemma op_i2l_implements [stack_laws]: "implements P op_i2l (pop1 (\<lambda>a. Some (long (scast a))))"
  by (rule pop1I) (fastforce simp: op_i2l_def used_def new_top_def long_def intro!: instr_rules)+

lemma op_l2i_implements [stack_laws]: "implements P op_l2i (pop2 (\<lambda>h l. Some [l]))"
  by (rule pop2I) (fastforce simp: op_l2i_def used_def new_top_def intro!: instr_rules)+

definition three_way :: "int \<Rightarrow> int \<Rightarrow> u32" where
  "three_way l r = (if l < r then - 1 else if r < l then 1 else 0)"

lemma op_lcmp_implements [stack_laws]:
  "implements P op_lcmp (pop4 (\<lambda>h1 l1 h2 l2. Some [three_way (sint (dword h2 l2)) (sint (dword h1 l1))]))"
  by (rule pop4I) (fastforce simp: op_lcmp_def used_def new_top_def three_way_def intro!: instr_rules)+

section \<open>Constants and rearrangements\<close>

lemma push_const_implements [stack_laws]: "implements P (\<lambda>s. push_const s v) (pop0 (Some [v]))"
  by (rule pop0I) (fastforce simp: push_const_def used_def new_top_def intro!: instr_rules)+

lemma push_const2_implements [stack_laws]: "implements P (\<lambda>s. push_const2 s v) (pop0 (Some (long v)))"
  by (rule pop0I) (fastforce simp: push_const2_def used_def new_top_def long_def intro!: instr_rules)+

lemma pop_implements [stack_laws]: "implements P (\<lambda>s. SIZE_AND_STACK_RETURN s 1 (- 1)) (pop1 (\<lambda>a. Some []))"
  by (rule pop1I) (fastforce simp: intro!: instr_rules)+

lemma pop2_implements [stack_laws]: "implements P (\<lambda>s. SIZE_AND_STACK_RETURN s 1 (- 2)) (pop2 (\<lambda>a b. Some []))"
  by (rule pop2I) (fastforce simp: intro!: instr_rules)+

lemma nop_implements [stack_laws]: "implements P (\<lambda>s. SIZE_AND_STACK_RETURN s 1 0) (pop0 (Some []))"
  by (rule pop0I) (fastforce simp: intro!: instr_rules)+

lemma op_dup_implements [stack_laws]: "implements P op_dup (pop1 (\<lambda>a. Some [a, a]))"
  by (rule pop1I) (fastforce simp: op_dup_def used_def new_top_def intro!: instr_rules)+

lemma op_dup2_implements [stack_laws]: "implements P op_dup2 (pop2 (\<lambda>a b. Some [a, b, a, b]))"
  by (rule pop2I) (fastforce simp: op_dup2_def used_def new_top_def intro!: instr_rules)+

lemma op_swap_implements [stack_laws]: "implements P op_swap (pop2 (\<lambda>a b. Some [b, a]))"
  by (rule pop2I) (fastforce simp: op_swap_def used_def new_top_def intro!: instr_rules)+

section \<open>Floating point\<close>

lemma float_op_implements [stack_laws]:
  "implements fpu_on (float_op op f) (pop2 (\<lambda>a b. Some [f_result b a (f (f_of b) (f_of a))]))"
  by (rule pop2I) (fastforce simp: float_op_def TRAP_IF_FPU_OFF_def used_def new_top_def intro!: instr_rules)+

lemma double_body_implements [stack_laws]:
  "implements P (double_body f) (pop4 (\<lambda>h1 l1 h2 l2. let d1 = dword h1 l1; d2 = dword h2 l2 in
     Some (long (d_result d2 d1 (f (d_of d2) (d_of d1))))))"
  by (rule pop4I) (fastforce simp: double_body_def used_def new_top_def long_def Let_def intro!: instr_rules)+

lemma op_fcmp_implements [stack_laws]:
  "implements fpu_on (op_fcmp op) (pop2 (\<lambda>a b. Some [fcmp_value (f_of b) (f_of a) (op = opc_fcmpl)]))"
  by (rule pop2I) (fastforce simp: op_fcmp_def TRAP_IF_FPU_OFF_def used_def new_top_def intro!: instr_rules)+

lemma op_dcmp_implements [stack_laws]:
  "implements fpu_on (op_dcmp op) (pop4 (\<lambda>h1 l1 h2 l2.
     Some [fcmp_value (d_of (dword h2 l2)) (d_of (dword h1 l1)) (op = opc_dcmpl)]))"
  by (rule pop4I) (fastforce simp: op_dcmp_def TRAP_IF_FPU_OFF_def used_def new_top_def intro!: instr_rules)+

lemma conv_1_1_implements [stack_laws]:
  "implements fpu_on (conv_1_1 op f) (pop1 (\<lambda>a. map_option (\<lambda>v. [v]) (f a)))"
  by (rule pop1I) (fastforce simp: conv_1_1_def TRAP_IF_FPU_OFF_def used_def new_top_def intro!: instr_rules)+

lemma conv_1_2_implements [stack_laws]: "implements fpu_on (conv_1_2 op f) (pop1 (\<lambda>a. map_option long (f a)))"
  by (rule pop1I) (fastforce simp: conv_1_2_def TRAP_IF_FPU_OFF_def used_def new_top_def long_def intro!: instr_rules)+

lemma conv_2_1_implements [stack_laws]:
  "implements fpu_on (conv_2_1 op f) (pop2 (\<lambda>h l. map_option (\<lambda>v. [v]) (f (dword h l))))"
  by (rule pop2I) (fastforce simp: conv_2_1_def TRAP_IF_FPU_OFF_def used_def new_top_def intro!: instr_rules)+

lemma conv_2_2_implements [stack_laws]:
  "implements fpu_on (conv_2_2 op f) (pop2 (\<lambda>h l. map_option long (f (dword h l))))"
  by (rule pop2I) (fastforce simp: conv_2_2_def TRAP_IF_FPU_OFF_def used_def new_top_def long_def intro!: instr_rules)+

section \<open>The four instructions that move the top before they copy\<close>

lemma items_words: "items f b (map (\<lambda>j. f (opslot b (of_nat (Suc j)))) [0..<k] @ xs) = items f (opslot b (of_nat k)) xs"
proof (induction k arbitrary: b)
  case (Suc k)
  have "map (\<lambda>j. f (opslot b (of_nat (Suc j)))) [0..<Suc k] =
      f (opslot b 1) # map (\<lambda>j. f (opslot (opslot b 1) (of_nat (Suc j)))) [0..<k]"
    by (rule nth_equalityI) (simp_all add: nth_Cons nth_append algebra_simps del: upt_Suc split: nat.splits)
  then show ?case using Suc.IH [of "opslot b 1"] by (simp add: algebra_simps del: upt_Suc)
qed simp

lemma items_above:
  assumes "items f b xs" "unat b + 4 * length xs < 2 ^ 30" "aligned b" "\<And>a. aligned a \<Longrightarrow> b < a \<Longrightarrow> g a = f a"
  shows "items g b xs"
  using assms
proof (induction xs arbitrary: b)
  case (Cons x xs)
  have u: "unat (opslot b 1) = unat b + 4" using Cons.prems(2) by (subst unat_opslot_up) simp_all
  then have "b < opslot b 1" by (simp add: word_less_nat_alt)
  then show ?case using Cons.prems u by (auto intro!: Cons.IH)
qed simp

lemma dup_under_implements:
  assumes "implements (\<lambda>_. True) (\<lambda>s. Option.bind (copy_items cs s) (\<lambda>s. SIZE_AND_STACK_RETURN s 1 0)) sp'"
    "\<And>xs ys. sp xs = Some ys \<Longrightarrow> length ys = k + length xs \<and> length ys \<le> 8"
    "\<And>xs ys zs. sp xs = Some ys \<Longrightarrow> length zs = k \<Longrightarrow> sp' (zs @ xs) = Some ys"
  shows "implements P (op_dup_under (of_nat k) cs) sp"
  unfolding implements_def
proof (intro allI impI)
  fix n lo hi s xs ys
  assume h: "settled n lo hi s" "operands hi s xs" "sp xs = Some ys" "room lo hi s (new_top s xs ys)"
  define v where "v = new_top s xs ys"
  note len = assms(2) [OF h(3)]
  have v: "v = optop s - 4 * of_nat k" using len by (simp add: v_def new_top_def opslot_def)
  have rm: "room lo hi s v" using h(4) by (simp add: v_def)
  have up: "opslot v (of_nat k) = optop s" by (simp add: v opslot_def)
  have r: "aligned v" "unat v < 2 ^ 30" "lo \<le> v" "unat v + 4 * fill_mark s \<le> unat hi" "\<not> oplim_violated s v"
    using rm settled_facts(14) [OF h(1)] by (simp_all add: room_def)
  have kl: "unat (of_nat k :: u32) = k" using len by (simp add: unat_of_nat)
  then have vk: "unat (optop s) = unat v + 4 * k"
    using unat_opslot_up [OF r(2), of "of_nat k"] len up by simp
  show "wp (op_dup_under (of_nat k) cs s) (replaced n lo hi 1 s xs ys)"
    unfolding op_dup_under_def
  proof (simp add: v [symmetric], rule wp_set_optop [OF located_self [OF h(1)] rm])
    fix t assume t: "located n lo hi t (stack_word t) t" "optop t = v" "moved s t"
      "\<forall>a. kept lo v a \<longrightarrow> stack_word t a = stack_word s a"
    define zs where "zs = map (\<lambda>j. stack_word t (opslot v (of_nat (Suc j)))) [0..<k]"
    have zl: "length zs = k" by (simp add: zs_def)
    have ts: "settled n lo hi t" using t(1) by (simp add: located_def)
    have f: "fill_mark t = fill_mark s" "oplim t = oplim s" "pc t = pc s" using moved_fields [OF t(3)] by simp_all
    have nt: "new_top t (zs @ xs) ys = v" using len by (simp add: new_top_def t(2) zl)
    have "items (stack_word t) (optop s) xs"
    proof (rule items_above)
      show "items (stack_word s) (optop s) xs" "unat (optop s) + 4 * length xs < 2 ^ 30"
        using h(2) settled_facts(14) [OF h(1)] by (simp_all add: operands_def)
      show "aligned (optop s)" by (rule settled_facts(4) [OF h(1)])
      fix a assume "aligned a" "optop s < a"
      then show "stack_word t a = stack_word s a" using t(4) vk by (simp add: word_less_nat_alt keptI)
    qed
    then have "operands hi t (zs @ xs)"
      using h(2) len vk unfolding operands_def t(2) zs_def by (simp only: items_words up) simp
    moreover have "room lo hi t (new_top t (zs @ xs) ys)"
      unfolding nt using r f t(2) by (simp add: room_def oplim_violated_def)
    ultimately have "wp (Option.bind (copy_items cs t) (\<lambda>s. SIZE_AND_STACK_RETURN s 1 0)) (replaced n lo hi 1 t (zs @ xs) ys)"
      using assms(1) ts assms(3) [OF h(3) zl] by (simp add: implements_def)
    then have "wp (Option.bind (copy_items cs t) (\<lambda>s. SIZE_AND_STACK_RETURN s 1 0)) (replaced n lo hi 1 s xs ys)"
    proof (rule wp_mono)
      fix u assume u: "replaced n lo hi 1 t (zs @ xs) ys u"
      have "opslot (optop t) (of_nat (length (zs @ xs))) = opslot (optop s) (of_nat (length xs))"
        by (simp add: t(2) zl up [symmetric])
      moreover have "kept lo v a" if "kept lo (opslot (optop s) (of_nat (length xs))) a" for a
        using kept_mono [OF that] top_of_operands [OF h(1,2)] vk by (simp add: word_le_nat_alt)
      moreover have "moved (s\<lparr>pc := pc s + 1\<rparr>) u"
        using u moved_trans [OF moved_pc [OF t(3)]] f(3) by (simp add: stored_def)
      moreover have "items (stack_word u) v ys" using u nt by (auto simp: stored_def)
      ultimately show "replaced n lo hi 1 s xs ys u"
        using u nt t(4) f(3) by (simp add: stored_def v_def)
    qed
    then show "wp (copy_items cs t) (\<lambda>s'. wp (SIZE_AND_STACK_RETURN s' 1 0) (replaced n lo hi 1 s xs ys))" by simp
  qed
qed

lemma copies_implement:
  "implements P (\<lambda>s. Option.bind (copy_items [(1, 2), (2, 3), (3, 1)] s) (\<lambda>s. SIZE_AND_STACK_RETURN s 1 0))
     (\<lambda>zs. case zs of [_, a, b] \<Rightarrow> Some [a, b, a] | _ \<Rightarrow> None)"
  "implements P (\<lambda>s. Option.bind (copy_items [(1, 2), (2, 3), (3, 4), (4, 1)] s) (\<lambda>s. SIZE_AND_STACK_RETURN s 1 0))
     (\<lambda>zs. case zs of [_, a, b, c] \<Rightarrow> Some [a, b, c, a] | _ \<Rightarrow> None)"
  "implements P (\<lambda>s. Option.bind (copy_items [(1, 3), (2, 4), (3, 5), (4, 1), (5, 2)] s) (\<lambda>s. SIZE_AND_STACK_RETURN s 1 0))
     (\<lambda>zs. case zs of [_, _, a, b, c] \<Rightarrow> Some [a, b, c, a, b] | _ \<Rightarrow> None)"
  "implements P (\<lambda>s. Option.bind (copy_items [(1, 3), (2, 4), (3, 5), (4, 6), (5, 1), (6, 2)] s) (\<lambda>s. SIZE_AND_STACK_RETURN s 1 0))
     (\<lambda>zs. case zs of [_, _, a, b, c, d] \<Rightarrow> Some [a, b, c, d, a, b] | _ \<Rightarrow> None)"
  by (rule implementsI; fastforce simp: used_def new_top_def intro!: instr_rules split: list.splits)+

lemma op_dup_x1_implements [stack_laws]: "implements P op_dup_x1 (pop2 (\<lambda>a b. Some [a, b, a]))"
  using dup_under_implements [OF copies_implement(1), of "pop2 (\<lambda>a b. Some [a, b, a])" 1 P]
  by (fastforce simp: op_dup_x1_def length_Suc_conv elim!: pop2.elims)

lemma op_dup_x2_implements [stack_laws]: "implements P op_dup_x2 (pop3 (\<lambda>a b c. Some [a, b, c, a]))"
  using dup_under_implements [OF copies_implement(2), of "pop3 (\<lambda>a b c. Some [a, b, c, a])" 1 P]
  by (fastforce simp: op_dup_x2_def length_Suc_conv elim!: pop3.elims)

lemma op_dup2_x1_implements [stack_laws]: "implements P op_dup2_x1 (pop3 (\<lambda>a b c. Some [a, b, c, a, b]))"
  using dup_under_implements [OF copies_implement(3), of "pop3 (\<lambda>a b c. Some [a, b, c, a, b])" 2 P]
  by (fastforce simp: op_dup2_x1_def length_Suc_conv numeral_2_eq_2 elim!: pop3.elims)

lemma op_dup2_x2_implements [stack_laws]: "implements P op_dup2_x2 (pop4 (\<lambda>a b c d. Some [a, b, c, d, a, b]))"
  using dup_under_implements [OF copies_implement(4), of "pop4 (\<lambda>a b c d. Some [a, b, c, d, a, b])" 2 P]
  by (fastforce simp: op_dup2_x2_def length_Suc_conv numeral_2_eq_2 elim!: pop4.elims)

end
