(* ===== verification/Example_Machines.thy ===== *)
theory Example_Machines
  imports Operand_Stack
begin

text \<open>
  Machines on which the properties are evaluated: machine0 of Dribbler and variants of it. All
  have a stack area from 0x800 to 0xF000, optop = 0x8000 and eight words, each 0xdeadbeef, in
  the stack cache.
\<close>

lemma machine0_fields [simp]:
  "pc machine0 = 0x100" "vars machine0 = 0x8000" "frame machine0 = 0x8000" "optop machine0 = 0x8000"
  "oplim machine0 = 0" "const_pool machine0 = 0x400" "psr machine0 = 0x310480" "trapbase machine0 = 0x10000"
  "hcr machine0 = 0x240000" "scBottom machine0 = 0x8020" "sCacheMem machine0 = (\<lambda>_. 0xdeadbeef)"
  "exc machine0 = NO_EXCEPTION" "proc_type machine0 = pico" "dc machine0 = dcache1k" "cm machine0 = mem64k"
  "wide_prefix machine0 = False" "gcConfig machine0 = 0"
  by (simp_all add: machine0_def)

lemma settled_machine0: "settled 0x10000 0x800 0xF000 machine0"
  using machine0_stack by (simp add: settled_def)

text \<open>machine0 with the floating point unit on.\<close>

definition machine_fpu :: machine where
  "machine_fpu = machine0\<lparr>psr := psr machine0 OR 0x800, hcr := hcr machine0 OR 0x20000\<rparr>"

lemma machine_fpu_fields [simp]:
  "psr machine_fpu = 0x310c80" "hcr machine_fpu = 0x260000" "optop machine_fpu = 0x8000" "scBottom machine_fpu = 0x8020"
  "sCacheMem machine_fpu = (\<lambda>_. 0xdeadbeef)" "oplim machine_fpu = 0"
  by (simp_all add: machine_fpu_def)

lemma settled_machine_fpu: "settled 0x10000 0x800 0xF000 machine_fpu"
  using machine0_quiet machine0_mem stack_area_low
  by (simp add: settled_def stack_ok_def quiet_def mem_inv_def dc_on_def CHK_PSR_DCE_def fill_mark_def field_def aligned_def)
    (simp add: machine_fpu_def machine0_def brkpt_table0_def)

lemma stack0_word: "0x8004 \<le> unat a \<Longrightarrow> unat a \<le> 0x8020 \<Longrightarrow> stack_word machine0 a = 0xdeadbeef"
  "0x8004 \<le> unat a \<Longrightarrow> unat a \<le> 0x8020 \<Longrightarrow> stack_word machine_fpu a = 0xdeadbeef"
  by (simp_all add: stack_word_def scache_hit_unat)

lemma room_machine0:
  "aligned v \<Longrightarrow> 0x7FE0 \<le> unat v \<Longrightarrow> unat v \<le> 0xEFE0 \<Longrightarrow> room 0x800 0xF000 machine0 v"
  "aligned v \<Longrightarrow> 0x7FE0 \<le> unat v \<Longrightarrow> unat v \<le> 0xEFE0 \<Longrightarrow> room 0x800 0xF000 machine_fpu v"
  by (simp_all add: room_def fill_mark_def field_def oplim_violated_def word_le_nat_alt)

lemmas example_simps = operands_def stack0_word new_top_def opslot_def room_machine0 aligned_def

end
