(* ===== verification/Jvm_Properties.thy ===== *)
theory Jvm_Properties
  imports Example_Machines
begin

text \<open>
  The instructions of vDoJVMOp that only compute on the operand stack refine functions on lists
  of words: the tables below say what each opcode makes of the words at the top, and the
  properties say that the code does it, through the stack cache and the data cache, leaving
  every other word and register alone.
\<close>

section \<open>What the opcodes compute\<close>

definition int_spec :: "u8 \<Rightarrow> (u32 list \<Rightarrow> u32 list option) option" where
  "int_spec op =
     (if op = opc_i2l then Some (pop1 (\<lambda>a. Some (long (scast a))))
      else if op = opc_l2i then Some (pop2 (\<lambda>h l. Some [l]))
      else if op = opc_int2byte then Some (pop1 (\<lambda>a. Some [scast (ucast a :: u8)]))
      else if op = opc_int2char then Some (pop1 (\<lambda>a. Some [a AND 0xFFFF]))
      else if op = opc_int2short then Some (pop1 (\<lambda>a. Some [scast (ucast a :: u16)]))
      else if op = opc_lcmp then
        Some (pop4 (\<lambda>h1 l1 h2 l2. Some [three_way (sint (dword h2 l2)) (sint (dword h1 l1))]))
      else if op = opc_iadd then Some (pop2 (\<lambda>a b. Some [b + a]))
      else if op = opc_ladd then Some (pop4 (\<lambda>h1 l1 h2 l2. Some (long (dword h2 l2 + dword h1 l1))))
      else if op = opc_isub then Some (pop2 (\<lambda>a b. Some [b - a]))
      else if op = opc_lsub then Some (pop4 (\<lambda>h1 l1 h2 l2. Some (long (dword h2 l2 - dword h1 l1))))
      else if op = opc_imul then Some (pop2 (\<lambda>a b. Some [b * a]))
      else if op = opc_iand then Some (pop2 (\<lambda>a b. Some [b AND a]))
      else if op = opc_land then Some (pop4 (\<lambda>h1 l1 h2 l2. Some (long (dword h2 l2 AND dword h1 l1))))
      else if op = opc_ior then Some (pop2 (\<lambda>a b. Some [b OR a]))
      else if op = opc_lor then Some (pop4 (\<lambda>h1 l1 h2 l2. Some (long (dword h2 l2 OR dword h1 l1))))
      else if op = opc_ixor then Some (pop2 (\<lambda>a b. Some [b XOR a]))
      else if op = opc_lxor then Some (pop4 (\<lambda>h1 l1 h2 l2. Some (long (dword h2 l2 XOR dword h1 l1))))
      else if op = opc_idiv then Some (pop2 (\<lambda>a b. if a = 0 \<or> b = 0x80000000 \<and> a = - 1 then None
        else Some [word_of_int (c_div (sint b) (sint a))]))
      else if op = opc_irem then Some (pop2 (\<lambda>a b. if a = 0 \<or> b = 0x80000000 \<and> a = - 1 then None
        else Some [word_of_int (c_mod (sint b) (sint a))]))
      else if op = opc_ishl then Some (pop2 (\<lambda>a b. Some [push_bit (unat (a AND 0x1F)) b]))
      else if op = opc_lshl then Some (pop3 (\<lambda>a h l. Some (long (push_bit (unat (a AND 0x3F)) (dword h l)))))
      else if op = opc_ishr then Some (pop2 (\<lambda>a b. Some [signed_drop_bit (unat (a AND 0x1F)) b]))
      else if op = opc_lshr then Some (pop3 (\<lambda>a h l. Some (long (signed_drop_bit (unat (a AND 0x3F)) (dword h l)))))
      else if op = opc_iushr then Some (pop2 (\<lambda>a b. Some [drop_bit (unat (a AND 0x1F)) b]))
      else if op = opc_lushr then Some (pop3 (\<lambda>a h l. Some (long (drop_bit (unat (a AND 0x3F)) (dword h l)))))
      else if op = opc_ineg then Some (pop1 (\<lambda>a. Some [- a]))
      else if op = opc_lneg then Some (pop2 (\<lambda>h l. Some (long (- dword h l))))
      else None)"

definition const_spec :: "u8 \<Rightarrow> (u32 list \<Rightarrow> u32 list option) option" where
  "const_spec op =
     (if op = opc_aconst_null then Some (pop0 (Some [0]))
      else if op = opc_iconst_0 then Some (pop0 (Some [0]))
      else if op = opc_fconst_0 then Some (pop0 (Some [0]))
      else if op = opc_iconst_m1 then Some (pop0 (Some [- 1]))
      else if op = opc_iconst_1 then Some (pop0 (Some [1]))
      else if op = opc_iconst_2 then Some (pop0 (Some [2]))
      else if op = opc_iconst_3 then Some (pop0 (Some [3]))
      else if op = opc_iconst_4 then Some (pop0 (Some [4]))
      else if op = opc_iconst_5 then Some (pop0 (Some [5]))
      else if op = opc_fconst_1 then Some (pop0 (Some [0x3f800000]))
      else if op = opc_fconst_2 then Some (pop0 (Some [0x40000000]))
      else if op = opc_dconst_0 then Some (pop0 (Some [0, 0]))
      else if op = opc_lconst_0 then Some (pop0 (Some [0, 0]))
      else if op = opc_dconst_1 then Some (pop0 (Some [0x3ff00000, 0]))
      else if op = opc_lconst_1 then Some (pop0 (Some [0, 1]))
      else None)"

definition stack_spec :: "u8 \<Rightarrow> (u32 list \<Rightarrow> u32 list option) option" where
  "stack_spec op =
     (if op = opc_nop then Some (pop0 (Some []))
      else if op = opc_pop then Some (pop1 (\<lambda>a. Some []))
      else if op = opc_pop2 then Some (pop2 (\<lambda>a b. Some []))
      else if op = opc_dup then Some (pop1 (\<lambda>a. Some [a, a]))
      else if op = opc_dup2 then Some (pop2 (\<lambda>a b. Some [a, b, a, b]))
      else if op = opc_dup_x1 then Some (pop2 (\<lambda>a b. Some [a, b, a]))
      else if op = opc_dup_x2 then Some (pop3 (\<lambda>a b c. Some [a, b, c, a]))
      else if op = opc_dup2_x1 then Some (pop3 (\<lambda>a b c. Some [a, b, c, a, b]))
      else if op = opc_dup2_x2 then Some (pop4 (\<lambda>a b c d. Some [a, b, c, d, a, b]))
      else if op = opc_swap then Some (pop2 (\<lambda>a b. Some [b, a]))
      else None)"

definition pure_spec :: "u8 \<Rightarrow> (u32 list \<Rightarrow> u32 list option) option" where
  "pure_spec op = first_some [int_spec op, const_spec op, stack_spec op]"

text \<open>With the floating point unit on; the operands are a and b, or d1 and d2 = the lower one.\<close>

definition fp_word :: "(u32 \<Rightarrow> u32 \<Rightarrow> u32) \<Rightarrow> u32 list \<Rightarrow> u32 list option" where
  "fp_word f = pop2 (\<lambda>a b. Some [f b a])"

definition fp_long :: "(u64 \<Rightarrow> u64 \<Rightarrow> u32 list) \<Rightarrow> u32 list \<Rightarrow> u32 list option" where
  "fp_long f = pop4 (\<lambda>h1 l1 h2 l2. Some (f (dword h2 l2) (dword h1 l1)))"

definition fp_spec :: "u8 \<Rightarrow> (u32 list \<Rightarrow> u32 list option) option" where
  "fp_spec op =
     (if op = opc_i2f then Some (pop1 (\<lambda>a. Some [i2f a]))
      else if op = opc_i2d then Some (pop1 (\<lambda>a. Some (long (i2d a))))
      else if op = opc_l2f then Some (pop2 (\<lambda>h l. Some [l2f (dword h l)]))
      else if op = opc_l2d then Some (pop2 (\<lambda>h l. Some (long (l2d (dword h l)))))
      else if op = opc_f2i then Some (pop1 (\<lambda>a. map_option (\<lambda>v. [v]) (f2i a)))
      else if op = opc_f2l then Some (pop1 (\<lambda>a. map_option long (f2l a)))
      else if op = opc_d2i then Some (pop2 (\<lambda>h l. map_option (\<lambda>v. [v]) (d2i (dword h l))))
      else if op = opc_d2l then Some (pop2 (\<lambda>h l. map_option long (d2l (dword h l))))
      else if op = opc_f2d then Some (pop1 (\<lambda>a. Some (long (f2d a))))
      else if op = opc_d2f then Some (pop2 (\<lambda>h l. Some [d2f (dword h l)]))
      else if op = opc_fcmpl then Some (fp_word (\<lambda>b a. fcmp_value (f_of b) (f_of a) True))
      else if op = opc_fcmpg then Some (fp_word (\<lambda>b a. fcmp_value (f_of b) (f_of a) False))
      else if op = opc_dcmpl then Some (fp_long (\<lambda>b a. [fcmp_value (d_of b) (d_of a) True]))
      else if op = opc_dcmpg then Some (fp_long (\<lambda>b a. [fcmp_value (d_of b) (d_of a) False]))
      else if op = opc_fadd then Some (fp_word (\<lambda>b a. f_result b a (fp_add float_fmt (f_of b) (f_of a))))
      else if op = opc_dadd then Some (fp_long (\<lambda>b a. long (d_result b a (fp_add double_fmt (d_of b) (d_of a)))))
      else if op = opc_fsub then Some (fp_word (\<lambda>b a. f_result b a (fp_sub float_fmt (f_of b) (f_of a))))
      else if op = opc_dsub then Some (fp_long (\<lambda>b a. long (d_result b a (fp_sub double_fmt (d_of b) (d_of a)))))
      else if op = opc_fmul then Some (fp_word (\<lambda>b a. f_result b a (fp_mul float_fmt (f_of b) (f_of a))))
      else if op = opc_dmul then Some (fp_long (\<lambda>b a. long (d_result b a (fp_mul double_fmt (d_of b) (d_of a)))))
      else if op = opc_fdiv then Some (fp_word (\<lambda>b a. f_result b a (fp_div float_fmt (f_of b) (f_of a))))
      else if op = opc_ddiv then Some (fp_long (\<lambda>b a. long (d_result b a (fp_div double_fmt (d_of b) (d_of a)))))
      else if op = opc_frem then Some (fp_word (\<lambda>b a. f_result b a (fp_mod float_fmt (f_of b) (f_of a))))
      else if op = opc_drem then Some (fp_long (\<lambda>b a. long (d_result b a (fp_mod double_fmt (d_of b) (d_of a)))))
      else if op = opc_fneg then Some (pop1 (\<lambda>a. Some [a XOR 0x80000000]))
      else if op = opc_dneg then Some (pop2 (\<lambda>h l. Some (long (dword h l XOR 0x8000000000000000))))
      else None)"

text \<open>The state in which each of them is executed by the hardware.\<close>

definition fp_ready :: "machine \<Rightarrow> bool" where
  "fp_ready s \<longleftrightarrow> fpu_on s \<and> psr s AND 0x8000 = 0"

section \<open>The groups of the dispatch\<close>

lemma binary_total_implements [stack_laws]:
  "implements P (binary_int_op (\<lambda>a b. Some (f a b)) False) (pop2 (\<lambda>a b. Some [f b a]))"
  using binary_int_op_implements [of P "\<lambda>a b. Some (f a b)" False] by simp

lemma int_div_implements [stack_laws]:
  "implements P (binary_int_op int_div True) (pop2 (\<lambda>a b. if a = 0 \<or> b = 0x80000000 \<and> a = - 1 then None
     else Some [word_of_int (c_div (sint b) (sint a))]))"
proof -
  have "(\<lambda>a b. if a = 0 \<or> b = 0x80000000 \<and> a = - 1 then None else Some [word_of_int (c_div (sint b) (sint a))]) =
      (\<lambda>a b. if True \<and> a = 0 then None else map_option (\<lambda>v. [v]) (int_div b a))"
    by (intro ext) (simp add: int_div_def)
  then show ?thesis using binary_int_op_implements [of P int_div True] by simp
qed

lemma int_rem_implements [stack_laws]:
  "implements P (binary_int_op int_rem True) (pop2 (\<lambda>a b. if a = 0 \<or> b = 0x80000000 \<and> a = - 1 then None
     else Some [word_of_int (c_mod (sint b) (sint a))]))"
proof -
  have "(\<lambda>a b. if a = 0 \<or> b = 0x80000000 \<and> a = - 1 then None else Some [word_of_int (c_mod (sint b) (sint a))]) =
      (\<lambda>a b. if True \<and> a = 0 then None else map_option (\<lambda>v. [v]) (int_rem b a))"
    by (intro ext) (simp add: int_rem_def)
  then show ?thesis using binary_int_op_implements [of P int_rem True] by simp
qed

lemma double_op_implements [stack_laws]:
  "implements fpu_on (double_op op f) (pop4 (\<lambda>h1 l1 h2 l2.
     Some (long (d_result (dword h2 l2) (dword h1 l1) (f (d_of (dword h2 l2)) (d_of (dword h1 l1)))))))"
  using double_body_implements [of fpu_on f] by (simp add: implements_def double_op_def TRAP_IF_FPU_OFF_def Let_def)

lemma op_drem_implements [stack_laws]:
  "implements (\<lambda>s. fpu_on s \<and> psr s AND 0x8000 = 0) op_drem (pop4 (\<lambda>h1 l1 h2 l2.
     Some (long (d_result (dword h2 l2) (dword h1 l1) (fp_mod double_fmt (d_of (dword h2 l2)) (d_of (dword h1 l1)))))))"
  using double_body_implements [of fpu_on "fp_mod double_fmt"]
  by (simp add: implements_def op_drem_def TRAP_IF_FPU_OFF_def Let_def)

lemma push_long_implements [stack_laws]:
  "long v = [a, b] \<Longrightarrow> implements P (\<lambda>s. push_const2 s v) (pop0 (Some [a, b]))"
  using push_const2_implements [of P v] by simp

lemma fp_neg_implements [stack_laws]:
  "implements P op_fneg (pop1 (\<lambda>a. Some [a XOR 0x80000000]))"
  "implements P op_dneg (pop2 (\<lambda>h l. Some (long (dword h l XOR 0x8000000000000000))))"
  unfolding op_fneg_def op_dneg_def by (rule stack_laws)+

lemma int_group: "int_spec op = Some sp \<Longrightarrow> \<exists>f. (\<forall>s. vDoJVMOp s op = f s) \<and> implements P f sp"
proof -
  assume "int_spec op = Some sp"
  then have "local_ops op = None \<and> (\<exists>f. int_ops op = Some f \<and> implements P f sp)"
    unfolding int_spec_def
    by (simp split: if_splits) (auto simp: local_ops_def int_ops_def intro!: stack_laws)
  then show ?thesis by (force simp: vDoJVMOp_def)
qed

lemma const_group: "const_spec op = Some sp \<Longrightarrow> \<exists>f. (\<forall>s. vDoJVMOp s op = f s) \<and> implements P f sp"
proof -
  assume "const_spec op = Some sp"
  then have "local_ops op = None \<and> int_ops op = None \<and> fp_ops op = None \<and> (\<exists>f. const_ops op = Some f \<and> implements P f sp)"
    unfolding const_spec_def
    by (simp split: if_splits)
      (auto simp: local_ops_def int_ops_def fp_ops_def const_ops_def long_def intro!: stack_laws)
  then show ?thesis by (force simp: vDoJVMOp_def)
qed

lemma stack_group: "stack_spec op = Some sp \<Longrightarrow> \<exists>f. (\<forall>s. vDoJVMOp s op = f s) \<and> implements P f sp"
proof -
  assume "stack_spec op = Some sp"
  then have "(\<exists>f. local_ops op = Some f \<and> implements P f sp) \<or>
      local_ops op = None \<and> int_ops op = None \<and> fp_ops op = None \<and> const_ops op = None \<and> jump_ops op = None \<and>
      (\<exists>f. stack_ops op = Some f \<and> implements P f sp)"
    unfolding stack_spec_def
    by (simp split: if_splits)
      (auto simp: local_ops_def int_ops_def fp_ops_def const_ops_def jump_ops_def stack_ops_def intro!: stack_laws)
  then show ?thesis by (force simp: vDoJVMOp_def)
qed

lemma pure_group: "pure_spec op = Some sp \<Longrightarrow> \<exists>f. (\<forall>s. vDoJVMOp s op = f s) \<and> implements P f sp"
  unfolding pure_spec_def
  by (cases "int_spec op"; cases "const_spec op"; cases "stack_spec op")
    (auto intro: int_group const_group stack_group)

lemmas conversion_laws =
  conv_1_1_implements [where f = "\<lambda>x. Some (f x)" for f, simplified]
  conv_1_2_implements [where f = "\<lambda>x. Some (f x)" for f, simplified]
  conv_2_1_implements [where f = "\<lambda>x. Some (f x)" for f, simplified]
  conv_2_2_implements [where f = "\<lambda>x. Some (f x)" for f, simplified]

lemmas comparison_laws =
  op_fcmp_implements [of opc_fcmpl, simplified] op_fcmp_implements [of opc_fcmpg, simplified]
  op_dcmp_implements [of opc_dcmpl, simplified] op_dcmp_implements [of opc_dcmpg, simplified]

lemma fp_group: "fp_spec op = Some sp \<Longrightarrow> \<exists>f. (\<forall>s. vDoJVMOp s op = f s) \<and> implements fp_ready f sp"
proof -
  assume "fp_spec op = Some sp"
  then have "local_ops op = None \<and> int_ops op = None \<and> (\<exists>f. fp_ops op = Some f \<and> implements fp_ready f sp)"
    unfolding fp_spec_def
    by (simp split: if_splits)
      (auto simp: local_ops_def int_ops_def fp_ops_def fp_word_def fp_long_def fp_ready_def Let_def
        intro!: stack_laws [THEN implements_mono] conversion_laws [THEN implements_mono]
          comparison_laws [THEN implements_mono])
  then show ?thesis by (force simp: vDoJVMOp_def)
qed

lemma dispatched:
  assumes "\<exists>f. (\<forall>s. vDoJVMOp s op = f s) \<and> implements P f sp" "P s" "settled n lo hi s" "operands hi s xs"
    "sp xs = Some ys" "room lo hi s (new_top s xs ys)"
  shows "\<exists>t. vDoJVMOp s op = Some t \<and> replaced n lo hi 1 s xs ys t"
  using assms by (fastforce simp: implements_def wp_iff)

section \<open>The properties\<close>

text \<open>
  Property C1: each of the 52 opcodes that compute on integers, push a constant or rearrange the
  operand stack refines its function on lists of words: with the operands xs on the stack and
  room for the result, vDoJVMOp completes, leaves ys in their place, advances pc by one, and
  changes no other register and no word above the operands. Overflow wraps at the width of the
  operand, shift counts are taken modulo the width.
\<close>

theorem pure_ops_refine:
  assumes "pure_spec op = Some sp" "settled n lo hi s" "operands hi s xs" "sp xs = Some ys"
    "room lo hi s (new_top s xs ys)"
  shows "\<exists>t. vDoJVMOp s op = Some t \<and> replaced n lo hi 1 s xs ys t"
  using dispatched [OF pure_group [of op sp "\<lambda>_. True"]] assms by simp

text \<open>
  Property C24: with the floating point unit on, each of the 26 floating point opcodes refines the
  IEEE operation, comparison or conversion of its operands, with the processor's rules for NaN.
\<close>

theorem fp_ops_refine:
  assumes "fp_spec op = Some sp" "fp_ready s" "settled n lo hi s" "operands hi s xs" "sp xs = Some ys"
    "room lo hi s (new_top s xs ys)"
  shows "\<exists>t. vDoJVMOp s op = Some t \<and> replaced n lo hi 1 s xs ys t"
  using dispatched [OF fp_group] assms by simp

text \<open>0xdeadbeef + 0xdeadbeef, with the carry lost.\<close>

lemma pure_ops_refine_witness:
  "\<exists>t. vDoJVMOp machine0 opc_iadd = Some t \<and>
     replaced 0x10000 0x800 0xF000 1 machine0 [0xdeadbeef, 0xdeadbeef] [0xBD5B7DDE] t"
  by (rule pure_ops_refine [where sp = "pop2 (\<lambda>a b. Some [b + a])", OF _ settled_machine0])
    (simp_all add: pure_spec_def int_spec_def example_simps)

text \<open>A float compared with itself.\<close>

lemma fp_ops_refine_witness:
  "\<exists>t. vDoJVMOp machine_fpu opc_fcmpl = Some t \<and>
     replaced 0x10000 0x800 0xF000 1 machine_fpu [0xdeadbeef, 0xdeadbeef] [0] t"
  by (rule fp_ops_refine [where sp = "fp_word (\<lambda>b a. fcmp_value (f_of b) (f_of a) True)", OF _ _ settled_machine_fpu])
    (simp_all add: fp_spec_def fp_ready_def fpu_on_def field_def fp_word_def example_simps,
     simp_all add: fcmp_value_def f_of_def decode_def float_fmt_def Let_def)

end
