(* ===== verification/Trap_Properties.thy ===== *)
theory Trap_Properties
  imports Example_Machines
begin

text \<open>
  Traps: what invoke\_trap leaves on the stack and in the registers, the return from it, and the
  exceptions that lead to one.
\<close>

section \<open>Changes of the processor status that the stack does not see\<close>

text \<open>The bits the memory system depends on: the dribbler and its marks, the data cache, protection.\<close>

definition same_memory_bits :: "u32 \<Rightarrow> u32 \<Rightarrow> bool" where
  "same_memory_bits p q \<longleftrightarrow> (\<forall>i \<in> {7, 10, 13, 16, 17, 18}. bit p i = bit q i)"

lemma and_bit: "p AND 0x80 = 0 \<longleftrightarrow> \<not> bit (p :: u32) 7" "p AND 0x2000 = 0 \<longleftrightarrow> \<not> bit p 13"
  "p AND 0x20 = 0 \<longleftrightarrow> \<not> bit p 5" "p AND 0x10 = 0 \<longleftrightarrow> \<not> bit p 4"
  using and_exp_eq_0_iff_not_bit [of p 7] and_exp_eq_0_iff_not_bit [of p 13]
    and_exp_eq_0_iff_not_bit [of p 5] and_exp_eq_0_iff_not_bit [of p 4] by simp_all

lemma fill_field: "same_memory_bits p q \<Longrightarrow> field p 16 3 = field q 16 3"
  unfolding field_def
  by (rule bit_word_eqI) (auto simp: bit_simps same_memory_bits_def less_Suc_eq numeral_3_eq_3)

lemma settled_psr:
  assumes "settled n lo hi s" "same_memory_bits p (psr s)"
  shows "settled n lo hi (s\<lparr>psr := p\<rparr>)" "stack_word (s\<lparr>psr := p\<rparr>) = stack_word s"
proof -
  have b: "bit p 7 = bit (psr s) 7" "bit p 10 = bit (psr s) 10" "bit p 13 = bit (psr s) 13"
    using assms(2) by (simp_all add: same_memory_bits_def)
  show "settled n lo hi (s\<lparr>psr := p\<rparr>)"
    using assms(1) b fill_field [OF assms(2)]
    by (simp add: settled_def stack_ok_def quiet_def mem_inv_def dc_on_def CHK_PSR_DCE_def fill_mark_def and_bit)
  show "stack_word (s\<lparr>psr := p\<rparr>) = stack_word s"
    using b by (simp add: stack_word_def scache_hit_def mem_view_def dc_on_def CHK_PSR_DCE_def fun_eq_iff)
qed

lemma settled_registers:
  "settled n lo hi (s\<lparr>pc := a, frame := b, psr := c, flag_setting_up_trap_frame := d\<rparr>) = settled n lo hi (s\<lparr>psr := c\<rparr>)"
  "stack_word (s\<lparr>pc := a, frame := b, psr := c, flag_setting_up_trap_frame := d\<rparr>) = stack_word (s\<lparr>psr := c\<rparr>)"
  by (simp_all add: settled_def stack_ok_def quiet_def mem_inv_def dc_on_def CHK_PSR_DCE_def fill_mark_def
      stack_word_def scache_hit_def mem_view_def fun_eq_iff)

section \<open>The registers of a trap\<close>

definition trap_psr :: "u32 \<Rightarrow> u32" where
  "trap_psr p = (p OR 0x20) AND 0x007FFFEF"

lemma trap_psr_steps: "(((p OR 0x20) AND 0x007FFFFF) AND 0xffffffef) AND 0x007FFFFF = trap_psr p"
  by (simp add: trap_psr_def and.assoc)

lemma bit_trap_masks: "bit (0x007FFFEF :: u32) i \<longleftrightarrow> i < 23 \<and> i \<noteq> 4" "bit (0x20 :: u32) i \<longleftrightarrow> i = 5"
proof -
  have m: "(0x007FFFEF :: u32) = mask 23 AND NOT (push_bit 4 1)" "(0x20 :: u32) = push_bit 5 1"
    by (simp_all add: mask_eq_exp_minus_1)
  show "bit (0x007FFFEF :: u32) i \<longleftrightarrow> i < 23 \<and> i \<noteq> 4"
    by (simp only: m bit_and_iff bit_mask_iff bit_not_iff bit_push_bit_iff bit_1_iff) auto
  show "bit (0x20 :: u32) i \<longleftrightarrow> i = 5"
    by (simp only: m bit_push_bit_iff bit_1_iff) auto
qed

lemma bit_trap_psr: "bit (trap_psr p) i \<longleftrightarrow> i = 5 \<or> i < 23 \<and> i \<noteq> 4 \<and> bit p i"
  unfolding trap_psr_def bit_and_iff bit_or_iff bit_trap_masks by auto

lemma trap_psr_memory: "same_memory_bits (trap_psr p) p"
  by (simp add: same_memory_bits_def bit_trap_psr)

text \<open>The prologue changes nothing the stack depends on.\<close>

lemma prologue_settled:
  "settled n lo hi (trap_prologue s tt) = settled n lo hi s" "stack_word (trap_prologue s tt) = stack_word s"
  "optop (trap_prologue s tt) = optop s" "pc (trap_prologue s tt) = pc s" "vars (trap_prologue s tt) = vars s"
  "frame (trap_prologue s tt) = frame s" "psr (trap_prologue s tt) = psr s" "const_pool (trap_prologue s tt) = const_pool s"
  "fill_mark (trap_prologue s tt) = fill_mark s"
  by (simp_all add: trap_prologue_def Let_def set_trapbase_def settled_def stack_ok_def quiet_def mem_inv_def dc_on_def
      CHK_PSR_DCE_def fill_mark_def stack_word_def scache_hit_def mem_view_def fun_eq_iff)

text \<open>Moves down by up to eight words; the words above the old top stay.\<close>

lemma wp_frame_write:
  assumes "located n lo hi s0 f s" "stack_slot lo hi (opslot (optop s0) k)"
    "\<And>t. located n lo hi s0 (f(opslot (optop s0) k := v)) t \<Longrightarrow> Q t"
  shows "wp (WRITE_WORD s (OPTOP_OFFSET s k) acc_T v) Q"
  using wp_stack_write [OF assms(1,2), of acc_T v Q] assms(3) located_fields(1) [OF assms(1)]
  by (simp add: OPTOP_OFFSET_def opslot_def)

definition trap_entered :: "u32 \<Rightarrow> u32 \<Rightarrow> u32 \<Rightarrow> machine \<Rightarrow> u32 \<Rightarrow> machine \<Rightarrow> bool" where
  "trap_entered n lo hi s tt t \<longleftrightarrow>
     (let p = trap_prologue s tt in
      settled n lo hi t \<and> pc t = stack_word s (trapbase p) \<and> optop t = opslot (optop s) (- 4) \<and>
      frame t = opslot (optop s) (- 1) \<and> vars t = vars s \<and> const_pool t = const_pool s \<and>
      psr t = trap_psr (psr s) \<and> trapbase t = trapbase p \<and> oplim t = oplim p \<and>
      \<not> flag_setting_up_trap_frame t \<and> items (stack_word t) (opslot (optop s) (- 4)) [frame s, vars s, pc s, psr s] \<and>
      (\<forall>a. kept lo (optop s) a \<longrightarrow> stack_word t a = stack_word s a))"

lemma opslot_down_slots:
  assumes "settled n lo hi s" "lo \<le> opslot (optop s) (- 4)"
  shows "stack_slot lo hi (opslot (optop s) (- 3))" "stack_slot lo hi (opslot (optop s) (- 2))"
    "stack_slot lo hi (opslot (optop s) (- 1))" "stack_slot lo hi (optop s)"
    "opslot (optop s) (- 4) < opslot (optop s) (- 3)" "opslot (optop s) (- 3) < opslot (optop s) (- 2)"
    "opslot (optop s) (- 2) < opslot (optop s) (- 1)" "opslot (optop s) (- 1) < optop s"
proof -
  note st = settled_facts [OF assms(1)]
  have b: "512 \<le> unat (optop s)" "unat (optop s) \<le> unat hi" using st(6,7,9,13) by (simp_all add: word_le_nat_alt)
  have u: "unat (opslot (optop s) (- k)) = unat (optop s) - 4 * unat k" if "unat k \<le> 4" for k
    using unat_opslot_down [of "optop s" k] b that by simp
  show "stack_slot lo hi (opslot (optop s) (- 3))" "stack_slot lo hi (opslot (optop s) (- 2))"
    "stack_slot lo hi (opslot (optop s) (- 1))" "stack_slot lo hi (optop s)"
    "opslot (optop s) (- 4) < opslot (optop s) (- 3)" "opslot (optop s) (- 3) < opslot (optop s) (- 2)"
    "opslot (optop s) (- 2) < opslot (optop s) (- 1)" "opslot (optop s) (- 1) < optop s"
    using assms(2) st(4) b u [of 4] u [of 3] u [of 2] u [of 1]
    by (auto simp: stack_slot_def word_le_nat_alt word_less_nat_alt)
qed

text \<open>The frame of four words.\<close>

definition trap_frame :: "machine \<Rightarrow> u32 \<Rightarrow> machine option" where
  "trap_frame s oldpc =
     do { s \<leftarrow> vUpdateGR s GR_optop (optop s - 4 * 4);
          s \<leftarrow> WRITE_WORD s (OPTOP_OFFSET s 4) acc_T (psr s);
          s \<leftarrow> WRITE_WORD s (OPTOP_OFFSET s 3) acc_T oldpc;
          s \<leftarrow> WRITE_WORD s (OPTOP_OFFSET s 2) acc_T (vars s);
          WRITE_WORD s (OPTOP_OFFSET s 1) acc_T (frame s) }"

lemma four_writes:
  assumes "located n lo hi t f t" "stack_slot lo hi (opslot (optop t) 1)" "stack_slot lo hi (opslot (optop t) 2)"
    "stack_slot lo hi (opslot (optop t) 3)" "stack_slot lo hi (opslot (optop t) 4)"
    "\<And>u. located n lo hi t (f(opslot (optop t) 4 := psr t, opslot (optop t) 3 := w, opslot (optop t) 2 := vars t,
       opslot (optop t) 1 := frame t)) u \<Longrightarrow> Q u"
  shows "wp (do { s \<leftarrow> WRITE_WORD t (OPTOP_OFFSET t 4) acc_T (psr t);
          s \<leftarrow> WRITE_WORD s (OPTOP_OFFSET s 3) acc_T w;
          s \<leftarrow> WRITE_WORD s (OPTOP_OFFSET s 2) acc_T (vars s);
          WRITE_WORD s (OPTOP_OFFSET s 1) acc_T (frame s) }) Q"
proof -
  have f: "vars u = vars t" "frame u = frame t" if "located n lo hi t g u" for g u
    using located_fields [OF that] by simp_all
  show ?thesis
    by (simp, rule wp_frame_write [OF assms(1,5)], rule wp_frame_write [OF _ assms(4)], assumption,
        rule wp_frame_write [OF _ assms(3)], assumption, rule wp_frame_write [OF _ assms(2)], assumption)
      (rule assms(6), simp add: f)
qed

lemma trap_frame_law:
  assumes "settled n lo hi p" "located n lo hi p (stack_word p) u" "room lo hi p (opslot (optop p) (- 4))"
  shows "wp (trap_frame u w) (\<lambda>t. settled n lo hi t \<and> moved p t \<and> optop t = opslot (optop p) (- 4) \<and>
    items (stack_word t) (opslot (optop p) (- 4)) [frame p, vars p, w, psr p] \<and>
    (\<forall>a. kept lo (optop p) a \<longrightarrow> stack_word t a = stack_word p a))"
proof -
  have lo: "lo \<le> opslot (optop p) (- 4)" using assms(3) by (simp add: room_def)
  note sl = opslot_down_slots [OF assms(1) lo]
  have v: "optop u - 4 * 4 = opslot (optop p) (- 4)" using located_fields(1) [OF assms(2)] by (simp add: opslot_def)
  show ?thesis
    unfolding trap_frame_def v vUpdateGR.simps
  proof (subst wp_simps(3), rule wp_set_optop [OF assms(2,3)])
    fix t assume t: "located n lo hi t (stack_word t) t" "optop t = opslot (optop p) (- 4)" "moved p t"
      "\<forall>a. kept lo (opslot (optop p) (- 4)) a \<longrightarrow> stack_word t a = stack_word p a"
    show "wp (do { s \<leftarrow> WRITE_WORD t (OPTOP_OFFSET t 4) acc_T (psr t);
          s \<leftarrow> WRITE_WORD s (OPTOP_OFFSET s 3) acc_T w;
          s \<leftarrow> WRITE_WORD s (OPTOP_OFFSET s 2) acc_T (vars s);
          WRITE_WORD s (OPTOP_OFFSET s 1) acc_T (frame s) })
        (\<lambda>t. settled n lo hi t \<and> moved p t \<and> optop t = opslot (optop p) (- 4) \<and>
          items (stack_word t) (opslot (optop p) (- 4)) [frame p, vars p, w, psr p] \<and>
          (\<forall>a. kept lo (optop p) a \<longrightarrow> stack_word t a = stack_word p a))"
    proof (rule four_writes [OF t(1)])
      fix x assume x: "located n lo hi t ((stack_word t)(opslot (optop t) 4 := psr t, opslot (optop t) 3 := w,
        opslot (optop t) 2 := vars t, opslot (optop t) 1 := frame t)) x"
      note wx = x [unfolded located_def, THEN conjunct2, THEN conjunct2, rule_format]
      have "stack_word x a = stack_word p a" if a: "kept lo (optop p) a" for a
      proof -
        have "aligned a" "kept lo (opslot (optop p) (- 4)) a"
          using a sl(5-8) kept_mono [OF a] by (simp_all add: kept_def)
        moreover have "a \<noteq> opslot (optop p) (- 3)" "a \<noteq> opslot (optop p) (- 2)" "a \<noteq> opslot (optop p) (- 1)" "a \<noteq> optop p"
          using kept_not_slot [OF a] sl by (auto simp: stack_slot_def)
        ultimately show ?thesis using wx t(2,4) by auto
      qed
      moreover have "moved p x" using moved_trans [OF t(3) mem_only_moved] x by (simp add: located_def)
      moreover have "aligned (optop p)" using sl(4) by (simp add: stack_slot_def)
      ultimately show "settled n lo hi x \<and> moved p x \<and> optop x = opslot (optop p) (- 4) \<and>
          items (stack_word x) (opslot (optop p) (- 4)) [frame p, vars p, w, psr p] \<and>
          (\<forall>a. kept lo (optop p) a \<longrightarrow> stack_word x a = stack_word p a)"
        using wx located_fields(1,9) [OF x] t(2) moved_fields [OF t(3)] by simp
    qed (use sl in \<open>simp_all add: t(2)\<close>)
  qed
qed

lemma invoke_trap_law:
  assumes "settled n lo hi s" "room lo hi (trap_prologue s tt) (opslot (optop s) (- 4))"
    "heap_word n lo hi (trapbase (trap_prologue s tt))"
  shows "wp (invoke_trap s tt) (trap_entered n lo hi s tt)"
proof -
  define p where "p = trap_prologue s tt"
  have ps: "settled n lo hi p" "stack_word p = stack_word s" "optop p = optop s" "pc p = pc s" "vars p = vars s"
    "frame p = frame s" "psr p = psr s" "const_pool p = const_pool s"
    using assms(1) by (simp_all add: p_def prologue_settled)
  have rm: "room lo hi p (opslot (optop p) (- 4))" using assms(2) ps(3) by (simp add: p_def)
  have split: "invoke_trap s tt =
      do { (newpc, s') \<leftarrow> READ_WORD p (trapbase p) acc_X;
           s' \<leftarrow> trap_frame s' (pc s);
           Some (s'\<lparr>pc := newpc, frame := optop s' + 4 * 3, psr := trap_psr (psr s'),
             flag_setting_up_trap_frame := False\<rparr>) }"
    by (simp add: invoke_trap_def trap_frame_def p_def [symmetric] Let_def update_psr_def trap_psr_steps case_prod_unfold)
  have frame: "wp (trap_frame u (pc s))
      (\<lambda>t. trap_entered n lo hi s tt (t\<lparr>pc := stack_word p (trapbase p), frame := optop t + 4 * 3,
        psr := trap_psr (psr t), flag_setting_up_trap_frame := False\<rparr>))"
    if u: "located n lo hi p (stack_word p) u" for u
  proof (rule wp_mono [OF trap_frame_law [OF ps(1) u rm]])
    fix t assume t: "settled n lo hi t \<and> moved p t \<and> optop t = opslot (optop p) (- 4) \<and>
        items (stack_word t) (opslot (optop p) (- 4)) [frame p, vars p, pc s, psr p] \<and>
        (\<forall>a. kept lo (optop p) a \<longrightarrow> stack_word t a = stack_word p a)"
    have m: "psr t = psr s" "vars t = vars s" "const_pool t = const_pool s" "trapbase t = trapbase p" "oplim t = oplim p"
      using t moved_fields [of p t] ps by simp_all
    have "settled n lo hi (t\<lparr>psr := trap_psr (psr t)\<rparr>)" "stack_word (t\<lparr>psr := trap_psr (psr t)\<rparr>) = stack_word t"
      using settled_psr [of n lo hi t] t trap_psr_memory by simp_all
    moreover have "optop t = opslot (optop s) (- 4)" "optop t + 12 = opslot (optop s) (- 1)"
      using t ps(3) by (simp_all add: opslot_def)
    ultimately show "trap_entered n lo hi s tt (t\<lparr>pc := stack_word p (trapbase p), frame := optop t + 4 * 3,
        psr := trap_psr (psr t), flag_setting_up_trap_frame := False\<rparr>)"
      using t m ps by (simp add: trap_entered_def Let_def p_def [symmetric] settled_registers)
  qed
  show ?thesis
    unfolding split
    by (simp, rule wp_heap_read(1) [OF located_self [OF ps(1)] assms(3) [folded p_def]])
      (use frame in \<open>simp_all add: port_acc_def\<close>)
qed

section \<open>Returning from a trap\<close>

lemma wp_frame_read:
  assumes "located n lo hi s0 f s" "stack_slot lo hi (opslot (frame s0) k)"
    "\<And>t. located n lo hi s0 f t \<Longrightarrow> Q (f (opslot (frame s0) k), t)"
  shows "wp (READ_WORD s (FRAME_OFFSET s k) acc_F) Q" "wp (READ_INTO s (FRAME_OFFSET s k) acc_F v) Q"
  using wp_stack_read [OF assms(1,2), of acc_F Q] assms(3) located_fields(3) [OF assms(1)]
  by (simp_all add: FRAME_OFFSET_def opslot_def)

lemma located_pc: "located n lo hi s0 f s \<Longrightarrow> located n lo hi (s0\<lparr>pc := w\<rparr>) f (s\<lparr>pc := w\<rparr>)"
proof -
  assume a: "located n lo hi s0 f s"
  then obtain z d m where "s = s0\<lparr>sCacheMem := z, dc := d, cm := m\<rparr>" by (auto simp: located_def mem_only_def)
  then have "s\<lparr>pc := w\<rparr> = s0\<lparr>pc := w, sCacheMem := z, dc := d, cm := m\<rparr>" by (cases s0) simp
  then have "mem_only (s0\<lparr>pc := w\<rparr>) (s\<lparr>pc := w\<rparr>)" unfolding mem_only_def by blast
  then show ?thesis using a by (simp add: located_def settled_pc)
qed

text \<open>Registers the memory system does not depend on.\<close>

lemma settled_register [simp]:
  "settled n lo hi (s\<lparr>frame := w\<rparr>) = settled n lo hi s" "stack_word (s\<lparr>frame := w\<rparr>) = stack_word s"
  "settled n lo hi (s\<lparr>vars := w\<rparr>) = settled n lo hi s" "stack_word (s\<lparr>vars := w\<rparr>) = stack_word s"
  "settled n lo hi (s\<lparr>const_pool := w\<rparr>) = settled n lo hi s" "stack_word (s\<lparr>const_pool := w\<rparr>) = stack_word s"
  "settled n lo hi (s\<lparr>trapbase := w\<rparr>) = settled n lo hi s" "stack_word (s\<lparr>trapbase := w\<rparr>) = stack_word s"
  by (simp_all add: settled_def stack_ok_def quiet_def mem_inv_def dc_on_def CHK_PSR_DCE_def fill_mark_def
      stack_word_def scache_hit_def mem_view_def fun_eq_iff)

text \<open>
  What a handler may do before it executes priv\_ret\_from\_trap: anything, as long as it is still in
  supervisor mode with its frame in place, has set vars to the old top and has left the words from
  its frame up as they were.
\<close>

definition handler_done :: "u32 \<Rightarrow> u32 \<Rightarrow> u32 \<Rightarrow> machine \<Rightarrow> machine \<Rightarrow> machine \<Rightarrow> bool" where
  "handler_done n lo hi s t u \<longleftrightarrow> settled n lo hi u \<and> frame u = frame t \<and> vars u = optop s \<and> psr u AND 0x20 \<noteq> 0 \<and>
     same_memory_bits (psr u) (psr t) \<and> room lo hi u (optop s) \<and>
     (\<forall>a. kept lo (optop t) a \<longrightarrow> stack_word u a = stack_word t a)"

definition resumed :: "u32 \<Rightarrow> u32 \<Rightarrow> u32 \<Rightarrow> machine \<Rightarrow> machine \<Rightarrow> bool" where
  "resumed n lo hi s w \<longleftrightarrow> settled n lo hi w \<and> pc w = pc s \<and> optop w = optop s \<and> vars w = vars s \<and> frame w = frame s \<and>
     psr w = psr s AND 0x7FFFFF \<and> (\<forall>a. kept lo (optop s) a \<longrightarrow> stack_word w a = stack_word s a)"

lemma bit_psr_mask: "bit (p AND 0x7FFFFF) i \<longleftrightarrow> i < 23 \<and> bit (p :: u32) i"
proof -
  have "(0x7FFFFF :: u32) = mask 23" by (simp add: mask_eq_exp_minus_1)
  then have "p AND 0x7FFFFF = p AND mask 23" by (simp only:)
  then show ?thesis by (auto simp: bit_simps dest: bit_imp_le_length)
qed

lemma ret_from_trap_law:
  assumes "settled n lo hi s" "trap_entered n lo hi s tt t" "handler_done n lo hi s t u" "lo \<le> opslot (optop s) (- 4)"
  shows "wp (op_priv_ret_from_trap u) (resumed n lo hi s)"
proof -
  have t: "optop t = opslot (optop s) (- 4)" "frame t = opslot (optop s) (- 1)" "psr t = trap_psr (psr s)"
    "items (stack_word t) (opslot (optop s) (- 4)) [frame s, vars s, pc s, psr s]"
    "\<forall>a. kept lo (optop s) a \<longrightarrow> stack_word t a = stack_word s a"
    using assms(2) by (auto simp: trap_entered_def Let_def)
  have u: "settled n lo hi u" "frame u = opslot (optop s) (- 1)" "vars u = optop s" "psr u AND 0x20 \<noteq> 0"
    "same_memory_bits (psr u) (trap_psr (psr s))" "room lo hi u (optop s)"
    "\<forall>a. kept lo (opslot (optop s) (- 4)) a \<longrightarrow> stack_word u a = stack_word t a"
    using assms(3) t(1-3) by (simp_all add: handler_done_def)
  note sl = opslot_down_slots [OF assms(1,4)]
  note st = settled_facts [OF assms(1)]
  have w: "stack_word u (opslot (optop s) (- 3)) = frame s" "stack_word u (opslot (optop s) (- 2)) = vars s"
    "stack_word u (opslot (optop s) (- 1)) = pc s" "stack_word u (optop s) = psr s"
    using t(4) u(7) sl(5-8) st(4) by (simp_all add: keptI)
  have up: "stack_word u a = stack_word s a" if a: "kept lo (optop s) a" for a
    using u(7) t(5) a kept_mono [OF a] sl(5-8) by simp
  have bits: "same_memory_bits (psr s AND 0x7FFFFF) (psr u)"
    using u(5) by (simp add: same_memory_bits_def bit_psr_mask bit_trap_psr)
  have finish: "wp (set_optop (v\<lparr>frame := frame s, vars := vars s, psr := psr s AND 0x7FFFFF\<rparr>) (optop s)) (resumed n lo hi s)"
    if v: "located n lo hi (u\<lparr>pc := pc s\<rparr>) (stack_word u) v" for v
  proof -
    let ?b = "v\<lparr>frame := frame s, vars := vars s, psr := psr s AND 0x7FFFFF\<rparr>"
    have vf: "optop v = optop u" "psr v = psr u" "oplim v = oplim u" "pc v = pc s" "settled n lo hi v"
      using located_fields [OF v] by simp_all
    have b: "settled n lo hi ?b" "stack_word ?b = stack_word v"
      using settled_psr [of n lo hi "v\<lparr>frame := frame s, vars := vars s\<rparr>" "psr s AND 0x7FFFFF"] vf bits by simp_all
    have "fill_mark ?b = fill_mark u" using fill_field [OF bits] by (simp add: fill_mark_def)
    then have "room lo hi ?b (optop s)" using u(6) vf by (simp add: room_def oplim_violated_def)
    then show ?thesis
    proof (rule wp_set_optop [OF located_self [OF b(1)]])
      fix x assume x: "located n lo hi x (stack_word x) x" "optop x = optop s" "moved ?b x"
        "\<forall>a. kept lo (optop s) a \<longrightarrow> stack_word x a = stack_word ?b a"
      have "stack_word x a = stack_word s a" if "kept lo (optop s) a" for a
        using x(4) b(2) v up that by (simp add: located_def kept_def)
      then show "resumed n lo hi s x"
        using x(1,2) moved_fields [OF x(3)] vf by (simp add: resumed_def located_def)
    qed
  qed
  note reads = u(2) sl w
  have read4: "wp (READ_INTO x (FRAME_OFFSET x (- 2)) acc_F (pc s))
      (\<lambda>(fr, y). wp (set_optop (y\<lparr>frame := fr, vars := vars s, psr := psr s AND 0x7FFFFF\<rparr>) (optop s)) (resumed n lo hi s))"
    if x: "located n lo hi (u\<lparr>pc := pc s\<rparr>) (stack_word u) x" for x
    using wp_frame_read(2) [OF x] finish reads by simp
  have read3: "wp (READ_WORD x (FRAME_OFFSET x (- 1)) acc_F)
      (\<lambda>(vt, y). wp (READ_INTO y (FRAME_OFFSET y (- 2)) acc_F (pc s))
        (\<lambda>(fr, y). wp (set_optop (y\<lparr>frame := fr, vars := vt, psr := psr s AND 0x7FFFFF\<rparr>) (optop s)) (resumed n lo hi s)))"
    if x: "located n lo hi (u\<lparr>pc := pc s\<rparr>) (stack_word u) x" for x
    using wp_frame_read(1) [OF x] read4 reads by simp
  have read2: "wp (READ_WORD x (FRAME_OFFSET x 0) acc_F)
      (\<lambda>(r, y). wp (READ_WORD (y\<lparr>pc := r\<rparr>) (FRAME_OFFSET (y\<lparr>pc := r\<rparr>) (- 1)) acc_F)
        (\<lambda>(vt, z). wp (READ_INTO z (FRAME_OFFSET z (- 2)) acc_F r)
          (\<lambda>(fr, z). wp (set_optop (z\<lparr>frame := fr, vars := vt, psr := psr s AND 0x7FFFFF\<rparr>) (vars y)) (resumed n lo hi s))))"
    if x: "located n lo hi u (stack_word u) x" for x
  proof (rule wp_frame_read(1) [OF x])
    fix t assume t: "located n lo hi u (stack_word u) t"
    show "case (stack_word u (opslot (frame u) 0), t) of (r, y) \<Rightarrow>
        wp (READ_WORD (y\<lparr>pc := r\<rparr>) (FRAME_OFFSET (y\<lparr>pc := r\<rparr>) (- 1)) acc_F)
        (\<lambda>(vt, z). wp (READ_INTO z (FRAME_OFFSET z (- 2)) acc_F r)
          (\<lambda>(fr, z). wp (set_optop (z\<lparr>frame := fr, vars := vt, psr := psr s AND 0x7FFFFF\<rparr>) (vars y)) (resumed n lo hi s)))"
      using read3 [OF located_pc [OF t]] located_fields(2) [OF t] reads u(3) by simp
  qed (simp add: reads)
  show ?thesis
    using u(4) unfolding op_priv_ret_from_trap_def TRAP_IF_NONPRIV_def
    by (simp add: case_prod_unfold Let_def update_psr_def, intro wp_frame_read(1) [OF located_self [OF u(1)]])
      (use read2 in \<open>simp_all add: reads case_prod_unfold\<close>)
qed

text \<open>
  Property C2: entering a trap and returning from it. invoke\_trap pushes frame, vars, pc and psr
  on the stack, in that order from the top, jumps to the handler named by the trap table and
  enters supervisor mode with interrupts off; the check of the stack limit gives way to the
  limit's own trap. Whatever the handler then does within its obligations, priv\_ret\_from\_trap
  resumes the interrupted program: pc, optop, vars, frame, psr and every word of the stack are
  those of the state in which the trap was taken.
\<close>

theorem trap_roundtrip:
  assumes "settled n lo hi s" "room lo hi (trap_prologue s tt) (opslot (optop s) (- 4))"
    "heap_word n lo hi (trapbase (trap_prologue s tt))"
  shows "\<exists>t. invoke_trap s tt = Some t \<and> trap_entered n lo hi s tt t \<and>
    (\<forall>u. handler_done n lo hi s t u \<longrightarrow> (\<exists>w. op_priv_ret_from_trap u = Some w \<and> resumed n lo hi s w))"
proof -
  obtain t where t: "invoke_trap s tt = Some t" "trap_entered n lo hi s tt t"
    using invoke_trap_law [OF assms] by (auto simp: wp_iff)
  have "lo \<le> opslot (optop s) (- 4)" using assms(2) by (simp add: room_def)
  then show ?thesis using t ret_from_trap_law [OF assms(1) t(2)] by (auto simp: wp_iff)
qed

section \<open>Traps taken in the middle of an instruction\<close>

text \<open>After reads only, a trap is entered as from the state in which the instruction started.\<close>

lemma trap_after_reads:
  assumes "located n lo hi s (stack_word s) u" "settled n lo hi s"
    "room lo hi (trap_prologue s tt) (opslot (optop s) (- 4))" "heap_word n lo hi (trapbase (trap_prologue s tt))"
  shows "wp (invoke_trap u tt) (trap_entered n lo hi s tt)" "wp (LOW_PRIORITY_TRAP u tt) (trap_entered n lo hi s tt)"
proof -
  note f = located_fields [OF assms(1)]
  have p: "trapbase (trap_prologue u tt) = trapbase (trap_prologue s tt)"
    "oplim (trap_prologue u tt) = oplim (trap_prologue s tt)"
    using f by (simp_all add: trap_prologue_def Let_def set_trapbase_def redirect_to_oplim_def)
  have "room lo hi (trap_prologue u tt) v = room lo hi (trap_prologue s tt) v" for v
    using f p by (simp add: room_def oplim_violated_def prologue_settled)
  then have w: "wp (invoke_trap u tt) (trap_entered n lo hi u tt)"
    using assms(3,4) f p by (intro invoke_trap_law) simp_all
  have "aligned (trapbase (trap_prologue s tt))" using assms(4) by (simp add: heap_word_def cacheable_def)
  then have "trap_entered n lo hi u tt t \<Longrightarrow> trap_entered n lo hi s tt t" for t
    using assms(1) f p by (simp add: trap_entered_def Let_def located_def kept_def)
  then show *: "wp (invoke_trap u tt) (trap_entered n lo hi s tt)" using w wp_mono by blast
  show "wp (LOW_PRIORITY_TRAP u tt) (trap_entered n lo hi s tt)"
    using * f(8) by (simp add: LOW_PRIORITY_TRAP_def bAnyExceptionPending_def)
qed

text \<open>
  Property C27: an integer division or remainder by zero takes the arithmetic trap, with the
  operands still on the stack and the frame's return address at the instruction.
\<close>

theorem division_by_zero_traps:
  assumes "op = opc_idiv \<or> op = opc_irem" "settled n lo hi s" "operands hi s [0, b]"
    "room lo hi (trap_prologue s arithmetic_excep) (opslot (optop s) (- 4))"
    "heap_word n lo hi (trapbase (trap_prologue s arithmetic_excep))"
  shows "\<exists>t. vDoJVMOp s op = Some t \<and> trap_entered n lo hi s arithmetic_excep t"
proof -
  have d: "vDoJVMOp s opc_idiv = binary_int_op int_div True s" "vDoJVMOp s opc_irem = binary_int_op int_rem True s"
    by (simp_all add: vDoJVMOp_def local_ops_def int_ops_def)
  have top: "stack_word s (opslot (optop s) 1) = 0" using assms(3) by (simp add: operands_def)
  have "unat (opslot (optop s) 1) = unat (optop s) + 4"
    using assms(3) settled_facts(14) [OF assms(2)] by (subst unat_opslot_up) (simp_all add: operands_def)
  then have "stack_slot lo hi (opslot (optop s) 1)"
    using assms(3) settled_facts(4,6) [OF assms(2)] by (simp add: stack_slot_def operands_def word_le_nat_alt)
  then have "wp (binary_int_op f True s) (trap_entered n lo hi s arithmetic_excep)" for f
    unfolding binary_int_op_def
    by (simp, intro wp_op_read [OF located_self [OF assms(2)]])
      (simp_all add: top trap_after_reads(2) [OF _ assms(2,4,5)])
  then show ?thesis using assms(1) by (elim disjE) (simp_all only: d wp_iff)
qed

section \<open>Exceptions\<close>

text \<open>
  An instruction that goes wrong in several places: each event raises an exception and is
  followed by whatever the instruction does next, short of touching the exception state.
\<close>

definition keeps_exception :: "(machine \<Rightarrow> machine) \<Rightarrow> bool" where
  "keeps_exception f \<longleftrightarrow> (\<forall>s. exc (f s) = exc s \<and> saved (f s) = saved s)"

definition raise_all :: "(ExceptionId \<times> (machine \<Rightarrow> machine)) list \<Rightarrow> machine \<Rightarrow> machine" where
  "raise_all evs s = foldl (\<lambda>s (e, f). f (vSetupException s e)) s evs"

definition same_registers :: "machine \<Rightarrow> machine \<Rightarrow> bool" where
  "same_registers s t \<longleftrightarrow> pc t = pc s \<and> vars t = vars s \<and> frame t = frame s \<and> optop t = optop s \<and>
     const_pool t = const_pool s \<and> psr t = psr s \<and> trapbase t = trapbase s \<and> userrange1 t = userrange1 s \<and>
     userrange2 t = userrange2 s \<and> scBottom t = scBottom s"

lemma raise_all_pending:
  assumes "exc s \<noteq> NO_EXCEPTION" "\<forall>(e, f) \<in> set evs. e \<noteq> NO_EXCEPTION \<and> keeps_exception f"
  shows "exc (raise_all evs s) = Min (insert (exc s) (fst ` set evs)) \<and> saved (raise_all evs s) = saved s"
  using assms
proof (induction evs arbitrary: s)
  case Nil
  then show ?case by (simp add: raise_all_def)
next
  case (Cons ev evs)
  obtain e f where ev: "ev = (e, f)" by (cases ev)
  let ?s = "f (vSetupException s e)"
  have e: "e \<noteq> NO_EXCEPTION" "keeps_exception f" using Cons.prems(2) ev by auto
  have x: "exc ?s = min e (exc s)" "saved ?s = saved s"
    using e Cons.prems(1) by (simp_all add: keeps_exception_def vSetupException_exc) (simp add: vSetupException_def)
  then have "exc ?s \<noteq> NO_EXCEPTION" using e(1) Cons.prems(1) by (simp add: min_def)
  then have "exc (raise_all evs ?s) = Min (insert (exc ?s) (fst ` set evs)) \<and> saved (raise_all evs ?s) = saved ?s"
    using Cons.prems(2) by (intro Cons.IH) auto
  moreover have "raise_all (ev # evs) s = raise_all evs ?s" by (simp add: raise_all_def ev)
  moreover have "Min (insert (min e (exc s)) (fst ` set evs)) = Min (insert (exc s) (insert e (fst ` set evs)))"
    by (cases "evs = []") (simp_all add: ac_simps)
  ultimately show ?case using x ev by simp
qed

text \<open>
  Property C23: exceptions are precise and prioritised. Of all the exceptions an instruction
  raises, the one of the highest priority (the least number) decides the trap, and whatever the
  instruction had done to the registers by then, the trap is entered with the registers as they
  were when the first of them was raised, with no exception pending.
\<close>

theorem exceptions_precise:
  assumes "exc s = NO_EXCEPTION" "evs \<noteq> []" "\<forall>(e, f) \<in> set evs. e \<noteq> NO_EXCEPTION \<and> keeps_exception f"
  shows "\<exists>u tt. vDespatchPendingException (raise_all evs s) = invoke_trap u tt \<and>
    exc_trap (Min (fst ` set evs)) = Some tt \<and> same_registers s u \<and> exc u = NO_EXCEPTION"
proof -
  obtain e f es where evs: "evs = (e, f) # es" using assms(2) by (cases evs) auto
  let ?s = "f (vSetupException s e)"
  have e: "e \<noteq> NO_EXCEPTION" "keeps_exception f" using assms(3) evs by auto
  have x: "exc ?s = e" "saved ?s = saved (vSaveCPUState s)"
    using e assms(1) by (simp_all add: keeps_exception_def vSetupException_def)
  have "exc (raise_all es ?s) = Min (insert e (fst ` set es)) \<and> saved (raise_all es ?s) = saved (vSaveCPUState s)"
    using raise_all_pending [of ?s es] x e assms(3) evs by auto
  moreover have "raise_all evs s = raise_all es ?s" by (simp add: raise_all_def evs)
  ultimately have r: "exc (raise_all evs s) = Min (fst ` set evs)" "saved (raise_all evs s) = saved (vSaveCPUState s)"
    using evs by simp_all
  have "Min (fst ` set evs) \<in> fst ` set evs" using evs by (intro Min_in) auto
  then have n: "Min (fst ` set evs) \<noteq> NO_EXCEPTION" using assms(3) by auto
  then obtain tt where tt: "exc_trap (Min (fst ` set evs)) = Some tt" by (cases "Min (fst ` set evs)") auto
  let ?u = "vClearAllExceptions (restore_saved (raise_all evs s))"
  have "vDespatchPendingException (raise_all evs s) = invoke_trap ?u tt"
    using r(1) n tt by (simp add: vDespatchPendingException_def Let_def)
  moreover have "same_registers s ?u" "exc ?u = NO_EXCEPTION"
    using r(2) by (simp_all add: same_registers_def vClearAllExceptions_def restore_saved_def vSaveCPUState_def Let_def)
  ultimately show ?thesis using tt by blast
qed

section \<open>Examples\<close>

definition machine_trap :: machine where "machine_trap = machine0\<lparr>trapbase := 0xF800\<rparr>"

lemma settled_machine_trap: "settled 0x10000 0x800 0xF000 machine_trap"
  using settled_machine0 by (simp add: machine_trap_def)

lemma machine_trap_ready:
  "room 0x800 0xF000 (trap_prologue machine_trap 25) (opslot (optop machine_trap) (- 4))"
  "heap_word 0x10000 0x800 0xF000 (trapbase (trap_prologue machine_trap 25))"
  using cacheable_low [of "0xF8C8"]
  by (simp_all add: machine_trap_def trap_prologue_def set_trapbase_def redirect_to_oplim_def Let_def opslot_def
      room_def fill_mark_def field_def oplim_violated_def aligned_def heap_word_def)

lemma trap_roundtrip_witness:
  "\<exists>t w. invoke_trap machine_trap indexoutofbnds_excep = Some t \<and> optop t = 0x7FF0 \<and> frame t = 0x7FFC \<and>
     op_priv_ret_from_trap (t\<lparr>vars := 0x8000\<rparr>) = Some w \<and> pc w = 0x100 \<and> psr w = 0x310480"
proof -
  obtain t where t: "invoke_trap machine_trap 25 = Some t" "trap_entered 0x10000 0x800 0xF000 machine_trap 25 t"
    "\<And>u. handler_done 0x10000 0x800 0xF000 machine_trap t u \<Longrightarrow>
      \<exists>w. op_priv_ret_from_trap u = Some w \<and> resumed 0x10000 0x800 0xF000 machine_trap w"
    using trap_roundtrip [OF settled_machine_trap machine_trap_ready] by auto
  have f: "optop t = 0x7FF0" "frame t = 0x7FFC" "psr t = 0x3104a0" "oplim t = 0" "settled 0x10000 0x800 0xF000 t"
    using t(2) by (simp_all add: trap_entered_def Let_def opslot_def machine_trap_def trap_psr_def
        trap_prologue_def set_trapbase_def redirect_to_oplim_def)
  then have "handler_done 0x10000 0x800 0xF000 machine_trap t (t\<lparr>vars := 0x8000\<rparr>)"
    by (simp add: handler_done_def machine_trap_def same_memory_bits_def room_def aligned_def fill_mark_def field_def
        oplim_violated_def)
  from t(3) [OF this] show ?thesis
    using t(1) f(1,2) by (auto simp: resumed_def machine_trap_def)
qed

lemma exceptions_precise_witness:
  "\<exists>u. vDespatchPendingException (raise_all [(UNALIGNED_EXCEPTION, \<lambda>s. s\<lparr>pc := 7\<rparr>), (OPLIM_EXCEPTION, \<lambda>s. s)] machine0) =
     invoke_trap u oplim_trap \<and> pc u = 0x100"
  using exceptions_precise [of machine0 "[(UNALIGNED_EXCEPTION, \<lambda>s. s\<lparr>pc := 7\<rparr>), (OPLIM_EXCEPTION, \<lambda>s. s)]"]
  by (auto simp: keeps_exception_def min_def less_eq_ExceptionId_def same_registers_def)

definition machine_zero :: machine where "machine_zero = machine_trap\<lparr>sCacheMem := \<lambda>_. 0\<rparr>"

lemma division_by_zero_traps_witness:
  "\<exists>t. vDoJVMOp machine_zero opc_idiv = Some t \<and> trap_entered 0x10000 0x800 0xF000 machine_zero arithmetic_excep t"
proof (rule division_by_zero_traps [where b = 0])
  show "settled 0x10000 0x800 0xF000 machine_zero"
    using settled_mem_only [OF settled_machine_trap] settled_facts(1,2) [OF settled_machine_trap]
    by (simp add: machine_zero_def)
  show "operands 0xF000 machine_zero [0, 0]"
    by (simp add: operands_def machine_zero_def machine_trap_def stack_word_def scache_hit_unat opslot_def)
qed (use cacheable_low [of "0xF8B0"] in \<open>simp_all add: machine_zero_def machine_trap_def trap_prologue_def set_trapbase_def
    redirect_to_oplim_def Let_def opslot_def room_def fill_mark_def field_def oplim_violated_def aligned_def heap_word_def\<close>)

end
