(* ===== verification/Array_Properties.thy ===== *)
theory Array_Properties
  imports Trap_Properties
begin

text \<open>
  The array instructions: what a load and a store of an element do, and that no access is made
  without the two checks. Arrays lie outside the stack area, behind a handle or not.
\<close>

section \<open>Arrays in memory\<close>

definition array_header :: "u32 \<Rightarrow> u32" where
  "array_header ref = (ref AND 0x3FFFFFFC) + 4"

definition array_base :: "machine \<Rightarrow> u32 \<Rightarrow> u32" where
  "array_base s ref = (if IS_HANDLE ref then stack_word s (array_header ref) else array_header ref)"

definition array_len :: "machine \<Rightarrow> u32 \<Rightarrow> int" where
  "array_len s ref = sint (stack_word s (array_base s ref) AND array_len_mask s)"

text \<open>A reference that can be followed: its header and its length are words outside the stack.\<close>

definition array_at :: "u32 \<Rightarrow> u32 \<Rightarrow> u32 \<Rightarrow> machine \<Rightarrow> u32 \<Rightarrow> bool" where
  "array_at n lo hi s ref \<longleftrightarrow> ref \<noteq> 0 \<and> heap_word n lo hi (array_header ref) \<and> heap_word n lo hi (array_base s ref)"

definition in_bounds :: "machine \<Rightarrow> u32 \<Rightarrow> u32 \<Rightarrow> bool" where
  "in_bounds s ref i \<longleftrightarrow> 0 \<le> sint i \<and> sint i < array_len s ref"

section \<open>The common head of the instructions\<close>

lemma wp_storage:
  assumes "located n lo hi s (stack_word s) u" "array_at n lo hi s ref"
    "\<And>t. located n lo hi s (stack_word s) t \<Longrightarrow> Q (array_base s ref, t)"
  shows "wp (GET_ARRAY_STORAGE_ADDR u ref) Q"
  using assms wp_heap_read(1) [OF assms(1), of "array_header ref" acc_H Q]
  by (auto simp: GET_ARRAY_STORAGE_ADDR_def Let_def array_at_def array_base_def array_header_def port_acc_def)

lemma wp_bounds:
  assumes "located n lo hi s (stack_word s) u" "array_at n lo hi s ref"
    "\<And>t. located n lo hi s (stack_word s) t \<Longrightarrow> Q (\<not> in_bounds s ref i, t)"
  shows "wp (CHECK_ARRAY_BOUNDS u (array_base s ref) i) Q"
proof -
  have m: "array_len_mask t = array_len_mask s" if "located n lo hi s (stack_word s) t" for t
    using located_fields(7) [OF that] by (simp add: array_len_mask_def)
  show ?thesis
    unfolding CHECK_ARRAY_BOUNDS_def
    by (simp add: case_prod_unfold Let_def, rule wp_heap_read(1) [OF assms(1)])
      (use assms(2) assms(3) [unfolded in_bounds_def array_len_def de_Morgan_conj not_le not_less] m in
        \<open>auto simp: array_at_def port_acc_def\<close>)
qed

text \<open>Slots r and j hold the reference and the index.\<close>

definition array_operands :: "u32 \<Rightarrow> u32 \<Rightarrow> machine \<Rightarrow> u32 \<Rightarrow> u32 \<Rightarrow> u32 \<Rightarrow> u32 \<Rightarrow> bool" where
  "array_operands lo hi s r j ref i \<longleftrightarrow>
     stack_slot lo hi (opslot (optop s) r) \<and> stack_slot lo hi (opslot (optop s) j) \<and>
     stack_word s (opslot (optop s) r) = ref \<and> stack_word s (opslot (optop s) j) = i"

lemma wp_array_element:
  assumes "located n lo hi s (stack_word s) u" "array_operands lo hi s r j ref i"
    "ref = 0 \<Longrightarrow> (\<And>t. located n lo hi s (stack_word s) t \<Longrightarrow> wp (invoke_trap t nullptr_excep) Q)"
    "ref \<noteq> 0 \<Longrightarrow> array_at n lo hi s ref"
    "ref \<noteq> 0 \<Longrightarrow> \<not> in_bounds s ref i \<Longrightarrow> (\<And>t. located n lo hi s (stack_word s) t \<Longrightarrow> wp (invoke_trap t indexoutofbnds_excep) Q)"
    "ref \<noteq> 0 \<Longrightarrow> in_bounds s ref i \<Longrightarrow> (\<And>t. located n lo hi s (stack_word s) t \<Longrightarrow> wp (k (array_base s ref) i t) Q)"
  shows "wp (array_element u r j k) Q"
proof -
  have o: "stack_slot lo hi (opslot (optop s) r)" "stack_slot lo hi (opslot (optop s) j)"
    "stack_word s (opslot (optop s) r) = ref" "stack_word s (opslot (optop s) j) = i"
    using assms(2) by (simp_all add: array_operands_def)
  have check: "wp (CHECK_ARRAY_BOUNDS t (array_base s ref) i)
      (\<lambda>(bad, t). wp (if bad then invoke_trap t indexoutofbnds_excep else k (array_base s ref) i t) Q)"
    if "ref \<noteq> 0" "located n lo hi s (stack_word s) t" for t
    using wp_bounds [OF that(2) assms(4) [OF that(1)]] assms(5,6) that(1) by simp
  have idx: "wp (READ_WORD t (OPTOP_OFFSET t j) acc_O) (\<lambda>(i, t). wp (CHECK_ARRAY_BOUNDS t (array_base s ref) i)
      (\<lambda>(bad, t). wp (if bad then invoke_trap t indexoutofbnds_excep else k (array_base s ref) i t) Q))"
    if "ref \<noteq> 0" "located n lo hi s (stack_word s) t" for t
    using wp_op_read [OF that(2) o(2)] check [OF that(1)] o(4) by simp
  have "wp (GET_ARRAY_STORAGE_ADDR t ref) (\<lambda>(b, t). wp (READ_WORD t (OPTOP_OFFSET t j) acc_O)
      (\<lambda>(i, t). wp (CHECK_ARRAY_BOUNDS t b i) (\<lambda>(bad, t). wp (if bad then invoke_trap t indexoutofbnds_excep else k b i t) Q)))"
    if "ref \<noteq> 0" "located n lo hi s (stack_word s) t" for t
    using wp_storage [OF that(2) assms(4) [OF that(1)]] idx [OF that(1)] by simp
  then have "wp (if ref = 0 then invoke_trap t nullptr_excep
      else do { (b, t) \<leftarrow> GET_ARRAY_STORAGE_ADDR t ref; (i, t) \<leftarrow> READ_WORD t (OPTOP_OFFSET t j) acc_O;
        (bad, t) \<leftarrow> CHECK_ARRAY_BOUNDS t b i; if bad then invoke_trap t indexoutofbnds_excep else k b i t }) Q"
    if "located n lo hi s (stack_word s) t" for t
    using that assms(3) by (cases "ref = 0") (simp_all add: case_prod_unfold split del: if_split)
  then show ?thesis
    unfolding array_element_def
    by (subst wp_simps(3), intro wp_op_read [OF assms(1) o(1)]) (simp add: o(3))
qed

lemma working_of_operands:
  assumes "settled n lo hi s" "operands hi s xs" "length ys \<le> 8" "room lo hi s (new_top s xs ys)" "located n lo hi s (stack_word s) t"
  shows "working n lo hi s xs ys (stack_word s) (stack_word s) t"
  using assms by (simp add: working_def)

lemma array_operands_used:
  assumes "working n lo hi s xs ys g f u" "used xs ys r" "used xs ys j"
  shows "array_operands lo hi s r j (stack_word s (opslot (optop s) r)) (stack_word s (opslot (optop s) j))"
  using used_slot(1) [OF assms(1,2)] used_slot(1) [OF assms(1,3)] by (simp add: array_operands_def)

section \<open>Loads and stores of words and pairs of words\<close>

text \<open>The words of element i, the one that goes to the top of the stack first.\<close>

definition element_words :: "bool \<Rightarrow> u32 \<Rightarrow> u32 \<Rightarrow> u32 list" where
  "element_words wide base i = (if wide then [base + 4 + i * 8, base + 8 + i * 8] else [base + (i + 1) * 4])"

definition load_element :: "bool \<Rightarrow> machine \<Rightarrow> machine option" where
  "load_element wide = (if wide then do64bArrayLoad else do32bArrayLoad)"

definition store_element :: "bool \<Rightarrow> machine \<Rightarrow> machine option" where
  "store_element wide = (if wide then do64bArrayStore else do32bArrayStore)"

lemma load_word_body:
  assumes "working n lo hi s [i, ref] [stack_word s a] (stack_word s) (stack_word s) t" "heap_word n lo hi a"
  shows "wp (do { (tmp, t) \<leftarrow> READ_WORD t a acc_M; t \<leftarrow> WRITE_WORD t (OPTOP_OFFSET t 2) acc_O tmp;
      SIZE_AND_STACK_RETURN t 1 (-1) }) (replaced n lo hi 1 s [i, ref] [stack_word s a])"
  using assms by (fastforce simp: port_acc_def used_def new_top_def intro!: wp_field instr_rules)

lemma load_long_body:
  assumes "working n lo hi s [i, ref] [stack_word s a, stack_word s b] (stack_word s) (stack_word s) t"
    "heap_word n lo hi a" "heap_word n lo hi b"
  shows "wp (do { (tmp, t) \<leftarrow> READ_WORD t a acc_M; t \<leftarrow> WRITE_WORD t (OPTOP_OFFSET t 1) acc_O tmp;
      (tmp, t) \<leftarrow> READ_INTO t b acc_M tmp; t \<leftarrow> WRITE_WORD t (OPTOP_OFFSET t 2) acc_O tmp;
      SIZE_AND_STACK_RETURN t 1 0 }) (replaced n lo hi 1 s [i, ref] [stack_word s a, stack_word s b])"
proof -
  have "b \<noteq> opslot (optop s) 1"
    by (rule heap_not_operand [OF assms(1,3)]) (simp add: used_def)
  then show ?thesis
    using assms by (fastforce simp: port_acc_def used_def new_top_def intro!: wp_field instr_rules)
qed

lemma store_word_body:
  assumes "working n lo hi s [v, i, ref] [] (stack_word s) (stack_word s) t" "heap_word n lo hi a"
    "stack_word s (opslot (optop s) 1) = v"
  shows "wp (do { (tmp, t) \<leftarrow> READ_WORD t (OPTOP_OFFSET t 1) acc_O; t \<leftarrow> WRITE_WORD t a acc_M tmp;
      SIZE_AND_STACK_RETURN t 1 (-3) }) (stored n lo hi 1 s [v, i, ref] [] ((stack_word s)(a := v)))"
  using assms by (fastforce simp: port_acc_def used_def new_top_def intro!: wp_store instr_rules)

lemma wp_pop_into:
  assumes "working n lo hi s xs ys g f u" "used xs ys k"
    "\<And>t. working n lo hi s xs ys g f t \<Longrightarrow> Q (f (opslot (optop s) k), t)"
  shows "wp (READ_INTO u (OPTOP_OFFSET u k) acc_O v) Q"
  using wp_stack_read(2) [OF working_located [OF assms(1)] used_slot(1) [OF assms(1,2)], of acc_O Q]
    working_read [OF assms(1)] assms(3) by (simp add: working_top [OF assms(1)])

lemma store_long_body:
  assumes "working n lo hi s [v, w, i, ref] [] (stack_word s) (stack_word s) t" "heap_word n lo hi a" "heap_word n lo hi b"
    "stack_word s (opslot (optop s) 1) = v" "stack_word s (opslot (optop s) 2) = w"
  shows "wp (do { (tmp, t) \<leftarrow> READ_WORD t (OPTOP_OFFSET t 1) acc_O; t \<leftarrow> WRITE_WORD t a acc_M tmp;
      (tmp, t) \<leftarrow> READ_INTO t (OPTOP_OFFSET t 2) acc_O tmp; t \<leftarrow> WRITE_WORD t b acc_M tmp;
      SIZE_AND_STACK_RETURN t 1 (-4) }) (stored n lo hi 1 s [v, w, i, ref] [] ((stack_word s)(a := v, b := w)))"
proof -
  have "a \<noteq> opslot (optop s) 2"
    by (rule heap_not_operand [OF assms(1,2)]) (simp add: used_def)
  then show ?thesis
    using assms by (fastforce simp: port_acc_def used_def new_top_def intro!: wp_store wp_pop_into instr_rules)
qed

lemma load_element_law:
  assumes "settled n lo hi s" "operands hi s [i, ref]" "array_at n lo hi s ref" "in_bounds s ref i"
    "\<forall>a \<in> set (element_words wide (array_base s ref) i). heap_word n lo hi a"
    "vs = map (stack_word s) (element_words wide (array_base s ref) i)" "room lo hi s (new_top s [i, ref] vs)"
  shows "wp (load_element wide s) (replaced n lo hi 1 s [i, ref] vs)"
proof -
  have "length vs \<le> 8" by (simp add: assms(6) element_words_def)
  note w = working_of_operands [OF assms(1,2) this assms(7)]
  have top: "stack_word s (opslot (optop s) 2) = ref" "stack_word s (opslot (optop s) 1) = i"
    using assms(2) by (simp_all add: operands_def)
  have o: "array_operands lo hi s 2 1 ref i"
    using array_operands_used [OF w [OF located_self [OF assms(1)]], of 2 1] top by (simp add: used_def)
  have ok: "ref \<noteq> 0" using assms(3) by (simp add: array_at_def)
  show ?thesis
  proof (cases wide)
    case True
    then have vs: "vs = [stack_word s (array_base s ref + 4 + i * 8), stack_word s (array_base s ref + 8 + i * 8)]"
      using assms(6) by (simp add: element_words_def)
    show ?thesis
      unfolding load_element_def do64bArrayLoad_def using True
      by simp (rule wp_array_element [OF located_self [OF assms(1)] o];
        use assms(3-5) ok True load_long_body [OF w [unfolded vs]] in \<open>simp add: element_words_def vs\<close>)
  next
    case False
    then have vs: "vs = [stack_word s (array_base s ref + (i + 1) * 4)]"
      using assms(6) by (simp add: element_words_def)
    show ?thesis
      unfolding load_element_def do32bArrayLoad_def using False
      by simp (rule wp_array_element [OF located_self [OF assms(1)] o];
        use assms(3-5) ok False load_word_body [OF w [unfolded vs]] in \<open>simp add: element_words_def vs\<close>)
  qed
qed

definition overwritten :: "(u32 \<Rightarrow> u32) \<Rightarrow> u32 list \<Rightarrow> u32 list \<Rightarrow> u32 \<Rightarrow> u32" where
  "overwritten f as vs = foldl (\<lambda>f (a, v). f(a := v)) f (zip as vs)"

lemma store_element_law:
  assumes "settled n lo hi s" "operands hi s (vs @ [i, ref])" "length vs = (if wide then 2 else 1)"
    "array_at n lo hi s ref" "in_bounds s ref i"
    "\<forall>a \<in> set (element_words wide (array_base s ref) i). heap_word n lo hi a"
    "room lo hi s (new_top s (vs @ [i, ref]) [])"
  shows "wp (store_element wide s) (stored n lo hi 1 s (vs @ [i, ref]) []
    (overwritten (stack_word s) (element_words wide (array_base s ref) i) vs))"
proof -
  note w = working_of_operands [OF assms(1,2) _ assms(7)]
  have ok: "ref \<noteq> 0" using assms(4) by (simp add: array_at_def)
  show ?thesis
  proof (cases wide)
    case True
    then obtain v v' where vs: "vs = [v, v']" using assms(3) by (auto simp: length_Suc_conv numeral_2_eq_2)
    have top: "stack_word s (opslot (optop s) 1) = v" "stack_word s (opslot (optop s) 2) = v'"
      "stack_word s (opslot (optop s) 3) = i" "stack_word s (opslot (optop s) 4) = ref"
      using assms(2) by (simp_all add: operands_def vs)
    have "array_operands lo hi s 4 3 ref i"
      using array_operands_used [OF w [OF _ located_self [OF assms(1)]], of 4 3] top by (simp add: used_def vs)
    from wp_array_element [OF located_self [OF assms(1)] this]
    show ?thesis
      unfolding store_element_def do64bArrayStore_def using True
      by simp (use assms(4-6) ok store_long_body [OF w [unfolded vs, simplified] _ _ top(1,2)] in
        \<open>simp add: element_words_def overwritten_def vs\<close>)
  next
    case False
    then obtain v where vs: "vs = [v]" using assms(3) by (auto simp: length_Suc_conv)
    have top: "stack_word s (opslot (optop s) 1) = v"
      "stack_word s (opslot (optop s) 2) = i" "stack_word s (opslot (optop s) 3) = ref"
      using assms(2) by (simp_all add: operands_def vs)
    have "array_operands lo hi s 3 2 ref i"
      using array_operands_used [OF w [OF _ located_self [OF assms(1)]], of 3 2] top by (simp add: used_def vs)
    from wp_array_element [OF located_self [OF assms(1)] this]
    show ?thesis
      unfolding store_element_def do32bArrayStore_def using False
      by simp (use assms(4-6) ok store_word_body [OF w [unfolded vs, simplified] _ top(1)] in
        \<open>simp add: element_words_def overwritten_def vs\<close>)
  qed
qed

section \<open>The opcodes\<close>

definition array_load_op :: "u8 \<Rightarrow> bool option" where
  "array_load_op op =
     (if op = opc_aaload then Some False else if op = opc_iaload then Some False else if op = opc_faload then Some False
      else if op = opc_laload then Some True else if op = opc_daload then Some True else None)"

definition array_store_op :: "u8 \<Rightarrow> bool option" where
  "array_store_op op =
     (if op = opc_iastore then Some False else if op = opc_fastore then Some False
      else if op = opc_lastore then Some True else if op = opc_dastore then Some True else None)"

lemmas opcode_tables = vDoJVMOp_def local_ops_def int_ops_def fp_ops_def const_ops_def jump_ops_def stack_ops_def
  trap_ops_def object_ops_def array_ops_def

lemma array_load_dispatch: "array_load_op op = Some wide \<Longrightarrow> vDoJVMOp s op = load_element wide s"
  unfolding array_load_op_def by (simp split: if_splits) (auto simp: opcode_tables load_element_def)

lemma array_store_dispatch: "array_store_op op = Some wide \<Longrightarrow> vDoJVMOp s op = store_element wide s"
  unfolding array_store_op_def by (simp split: if_splits) (auto simp: opcode_tables store_element_def)



section \<open>The checks\<close>

text \<open>The slots of reference and index, for every opcode that accesses an element.\<close>

definition array_access_op :: "u8 \<Rightarrow> (u32 \<times> u32) option" where
  "array_access_op op =
     (if op = opc_iaload then Some (2, 1) else if op = opc_laload then Some (2, 1) else if op = opc_faload then Some (2, 1)
      else if op = opc_daload then Some (2, 1) else if op = opc_aaload then Some (2, 1) else if op = opc_baload then Some (2, 1)
      else if op = opc_caload then Some (2, 1) else if op = opc_saload then Some (2, 1)
      else if op = opc_iastore then Some (3, 2) else if op = opc_fastore then Some (3, 2) else if op = opc_bastore then Some (3, 2)
      else if op = opc_castore then Some (3, 2) else if op = opc_sastore then Some (3, 2)
      else if op = opc_lastore then Some (4, 3) else if op = opc_dastore then Some (4, 3) else None)"

lemma array_access_dispatch: "array_access_op op = Some (r, j) \<Longrightarrow> \<exists>k. \<forall>s. vDoJVMOp s op = array_element s r j k"
  unfolding array_access_op_def
  by (simp split: if_splits)
    (auto simp: opcode_tables do32bArrayLoad_def do64bArrayLoad_def do32bArrayStore_def do64bArrayStore_def
      doBaload_def doCaload_def doSaload_def doBastore_def doCastore_def doSastore_def)

text \<open>
  Property C19: memory safety of the array instructions. Each of the fifteen opcodes that access an
  element of an array takes the null pointer trap when the reference is null and the index trap
  when the index is negative or not below the length, before it has written anything: the trap
  is entered as from the state before the instruction.
\<close>

theorem array_checks:
  assumes "array_access_op op = Some (r, j)" "settled n lo hi s" "array_operands lo hi s r j ref i"
    "ref = 0 \<and> tt = nullptr_excep \<or> array_at n lo hi s ref \<and> \<not> in_bounds s ref i \<and> tt = indexoutofbnds_excep"
    "room lo hi (trap_prologue s tt) (opslot (optop s) (- 4))" "heap_word n lo hi (trapbase (trap_prologue s tt))"
  shows "\<exists>t. vDoJVMOp s op = Some t \<and> trap_entered n lo hi s tt t"
proof -
  obtain k where k: "\<And>s. vDoJVMOp s op = array_element s r j k" using array_access_dispatch [OF assms(1)] by blast
  have "wp (array_element s r j k) (trap_entered n lo hi s tt)"
    by (rule wp_array_element [OF located_self [OF assms(2)] assms(3)])
      (use assms(4) trap_after_reads(1) [OF _ assms(2,5,6)] in \<open>auto simp: array_at_def\<close>)
  then show ?thesis by (simp add: k wp_iff)
qed

section \<open>Examples\<close>

text \<open>
  An array of two words at 0xF100, behind no handle, with length 2 and contents 70 and 71; x, y
  and z are the words on top of the stack.
\<close>

definition array_memory :: cmem where
  "array_memory = mem64k\<lparr>commonMemory := (\<lambda>_. 0)(0xF107 := 2, 0xF10B := 70, 0xF10F := 71)\<rparr>"

definition machine_array :: "u32 \<Rightarrow> u32 \<Rightarrow> u32 \<Rightarrow> machine" where
  "machine_array x y z = machine_trap\<lparr>sCacheMem := (\<lambda>_. 0)(1 := x, 2 := y, 3 := z), cm := array_memory\<rparr>"

lemma machine_array_settled: "settled 0x10000 0x800 0xF000 (machine_array x y z)"
proof -
  have q: "quiet (machine_array x y z)" using machine0_quiet by (simp add: quiet_def machine_array_def machine_trap_def)
  have "dc_inv 0x10000 dcache1k array_memory"
    using dcacheInit_law [OF dcache1k_init, of array_memory 0] by (simp add: mem64k_def array_memory_def)
  then have m: "mem_inv 0x10000 (machine_array x y z)"
    by (simp add: mem_inv_def machine_array_def machine_trap_def dc_on_def CHK_PSR_DCE_def field_def)
  have "mem_only machine_trap (machine_array x y z)"
    unfolding mem_only_def machine_array_def
    by (rule exI [of _ "(\<lambda>_. 0)(1 := x, 2 := y, 3 := z)"], rule exI [of _ "dc machine_trap"],
        rule exI [of _ array_memory]) (cases machine_trap, simp)
  then show ?thesis using settled_mem_only [OF settled_machine_trap] m q by blast
qed

lemma machine_array_words:
  "stack_word (machine_array x y z) 0x8004 = x" "stack_word (machine_array x y z) 0x8008 = y"
  "stack_word (machine_array x y z) 0x800C = z"
  "stack_word (machine_array x y z) 0xF104 = 2" "stack_word (machine_array x y z) 0xF10C = 71"
proof -
  have v: "dc_view dcache1k array_memory a = cm_word array_memory a" for a
    using dcacheInit_law [OF dcache1k_init, of array_memory a] by simp
  show "stack_word (machine_array x y z) 0x8004 = x" "stack_word (machine_array x y z) 0x8008 = y"
    "stack_word (machine_array x y z) 0x800C = z"
    by (simp_all add: stack_word_def scache_hit_unat machine_array_def machine_trap_def sc_index_def)
  show "stack_word (machine_array x y z) 0xF104 = 2" "stack_word (machine_array x y z) 0xF10C = 71"
    by (simp_all add: stack_word_def scache_hit_unat machine_array_def machine_trap_def mem_view_def dc_on_def
        CHK_PSR_DCE_def field_def v) (simp_all add: cm_word_def array_memory_def mem64k_def)
qed

lemma machine_array_fields [simp]:
  "optop (machine_array x y z) = 0x8000" "proc_type (machine_array x y z) = pico"
  by (simp_all add: machine_array_def machine_trap_def)

lemma machine_array_room:
  "aligned v \<Longrightarrow> 0x7FE0 \<le> unat v \<Longrightarrow> unat v \<le> 0xEFE0 \<Longrightarrow> room 0x800 0xF000 (machine_array x y z) v"
  by (simp add: room_def machine_array_def machine_trap_def fill_mark_def field_def oplim_violated_def word_le_nat_alt)

lemma machine_array_trap:
  "room 0x800 0xF000 (trap_prologue (machine_array x y z) indexoutofbnds_excep) (opslot (optop (machine_array x y z)) (- 4))"
  "heap_word 0x10000 0x800 0xF000 (trapbase (trap_prologue (machine_array x y z) indexoutofbnds_excep))"
  using machine_trap_ready
  by (simp_all add: machine_array_def trap_prologue_def set_trapbase_def redirect_to_oplim_def Let_def
      room_def fill_mark_def oplim_violated_def machine_trap_def)

lemma machine_array_at: "array_at 0x10000 0x800 0xF000 (machine_array x y z) 0xF100"
  "array_base (machine_array x y z) 0xF100 = 0xF104"
  using cacheable_low [of "0xF104"]
  by (simp_all add: array_at_def array_base_def array_header_def heap_word_def aligned_def)

lemma machine_array_bounds: "in_bounds (machine_array x y z) 0xF100 1" "\<not> in_bounds (machine_array x y z) 0xF100 2"
  by (simp_all add: in_bounds_def array_len_def machine_array_at machine_array_words array_len_mask_def)



lemma array_checks_witness:
  "\<exists>t. vDoJVMOp (machine_array 2 0xF100 0) opc_baload = Some t \<and>
     trap_entered 0x10000 0x800 0xF000 (machine_array 2 0xF100 0) indexoutofbnds_excep t"
proof (rule array_checks [OF _ machine_array_settled _ _ machine_array_trap])
  show "array_operands 0x800 0xF000 (machine_array 2 0xF100 0) 2 1 0xF100 2"
    by (simp add: array_operands_def stack_slot_def opslot_def aligned_def machine_array_words)
qed (simp_all add: array_access_op_def machine_array_at machine_array_bounds)

end
