(* ===== verification/Loop_Properties.thy ===== *)
theory Loop_Properties
  imports Trap_Properties
begin

text \<open>
  The interpreter loop: runs without a limit against runs of a given number of steps, the
  processor that is powered down, and interrupts.
\<close>

section \<open>Runs with and without a limit\<close>

text \<open>The run comes to its own end before n steps are used up.\<close>

fun ends :: "nat \<Rightarrow> bool \<Rightarrow> machine \<Rightarrow> bool" where
  "ends n first s \<longleftrightarrow> end_of_simulation s \<or>
     (case n of 0 \<Rightarrow> False | Suc k \<Rightarrow> (case loop_pass first s of None \<Rightarrow> True | Some (Stop _) \<Rightarrow> True | Some (Next t) \<Rightarrow> ends k False t))"

declare ends.simps [simp del]

lemma run_on_unfold:
  "run_on first s = (if end_of_simulation s then Some s
     else case loop_pass first s of None \<Rightarrow> None | Some (Stop t) \<Rightarrow> Some t | Some (Next t) \<Rightarrow> run_on False t)"
  by (subst run_on.simps) (simp split: option.split control.split)

lemma run_steps_unfold:
  "run_steps n first s = (if end_of_simulation s then Some s
     else case n of 0 \<Rightarrow> Some (s\<lparr>breakpoint_hit := True\<rparr>)
     | Suc k \<Rightarrow> (case loop_pass first s of None \<Rightarrow> None | Some (Stop t) \<Rightarrow> Some t | Some (Next t) \<Rightarrow> run_steps k False t))"
  by (subst run_steps.simps) (simp split: option.split control.split nat.split)

lemma run_on_ends: "run_on first s = Some t \<Longrightarrow> \<exists>n. ends n first s"
proof (rule run_on.raw_induct [where P = "\<lambda>first s t. \<exists>n. ends n first s"])
  fix f :: "bool \<Rightarrow> machine \<Rightarrow> machine option" and first s t
  assume ih: "\<And>first s t. f first s = Some t \<Longrightarrow> \<exists>n. ends n first s"
  assume step: "(if end_of_simulation s then Some s
     else Option.bind (loop_pass first s) (\<lambda>c. case c of Stop s \<Rightarrow> Some s | Next s \<Rightarrow> f False s)) = Some t"
  show "\<exists>n. ends n first s"
  proof (cases "end_of_simulation s")
    case True
    then show ?thesis by (auto simp: ends.simps)
  next
    case False
    then obtain c where c: "loop_pass first s = Some c" using step by (cases "loop_pass first s") auto
    show ?thesis
    proof (cases c)
      case (Next u)
      then have "f False u = Some t" using step False c by simp
      then obtain n where "ends n False u" using ih by blast
      then have "ends (Suc n) first s" using c Next by (subst ends.simps) simp
      then show ?thesis ..
    next
      case (Stop u)
      then have "ends (Suc 0) first s" using c by (subst ends.simps) simp
      then show ?thesis ..
    qed
  qed
qed

lemma ends_same: "ends n first s \<Longrightarrow> run_steps n first s = run_on first s"
proof (induction n arbitrary: first s)
  case 0
  then show ?case by (simp add: run_steps_unfold [of 0] run_on_unfold [of first] ends.simps)
next
  case (Suc n)
  show ?case
    using Suc by (subst run_steps_unfold, subst run_on_unfold, subst (asm) (2) ends.simps) (auto split: option.splits control.splits)
qed

lemma ends_mono: "ends n first s \<Longrightarrow> n \<le> m \<Longrightarrow> ends m first s"
proof (induction n arbitrary: first s m)
  case 0
  then show ?case by (simp add: ends.simps)
next
  case (Suc n)
  then obtain k where "m = Suc k" "n \<le> k" by (cases m) auto
  then show ?case using Suc.IH Suc.prems(1) by (subst ends.simps, subst (asm) ends.simps) (auto split: option.splits control.splits)
qed


section \<open>The start of a pass\<close>

text \<open>No limit of instructions is reached, no breakpoint is pending and no simulated interrupt is due.\<close>

definition pass_clear :: "machine \<Rightarrow> bool" where
  "pass_clear s \<longleftrightarrow> quiet s \<and> (bInstructionLimit s \<longrightarrow> ll_lt (icount s) (nMaxInstructions s)) \<and>
     \<not> flag_sim_read_brkpt_pending s \<and> \<not> flag_sim_write_brkpt_pending s \<and>
     icount s \<noteq> next_sched_intr_icount (intr s)"

lemma loop_pass_clear:
  assumes "pass_clear s"
  shows "loop_pass first s =
    (case pending_interrupt s of Some tt \<Rightarrow> map_option Next (take_interrupt s tt)
     | None \<Rightarrow> if bPowerDownState s then Some (Next s) else fetch_execute s)"
proof -
  have "vClearAllExceptions s = s" using assms by (simp add: vClearAllExceptions_def pass_clear_def quiet_def)
  then show ?thesis
    using assms by (cases "pending_interrupt s") (auto simp: loop_pass_def pass_clear_def quiet_def sim_breakpoint_def
        brkpt_match_def schedule_interrupts_def map_option_case split: option.split)
qed

text \<open>
  Property C29: a processor that is powered down, with no interrupt to take, does nothing: every
  pass leaves the whole machine as it is. As icount does not advance either, an interrupt
  scheduled for a later instruction count never comes: the run without a limit never returns,
  and a run of n steps, for every n, ends with the steps used up and nothing else changed.
\<close>

theorem powered_down_for_good:
  assumes "pass_clear s" "bPowerDownState s" "pending_interrupt s = None" "\<not> end_of_simulation s"
  shows "loop_pass first s = Some (Next s) \<and> run_on first s = None \<and>
    run_steps n first s = Some (s\<lparr>breakpoint_hit := True\<rparr>)"
proof -
  have p: "loop_pass first s = Some (Next s)" for first using assms by (simp add: loop_pass_clear)
  have "\<not> ends n first s" for n first
    by (induction n arbitrary: first) (subst ends.simps, simp add: assms(4) p)+
  then have "run_on first s = None" using run_on_ends by (cases "run_on first s") blast+
  moreover have "run_steps n first s = Some (s\<lparr>breakpoint_hit := True\<rparr>)"
    by (induction n arbitrary: first) (subst run_steps_unfold, simp add: assms(4) p)+
  ultimately show ?thesis using p by simp
qed

definition machine_asleep :: machine where "machine_asleep = machine0\<lparr>bPowerDownState := True\<rparr>"

lemma powered_down_for_good_witness:
  "run_on True machine_asleep = None \<and> run_steps 7 True machine_asleep = Some (machine_asleep\<lparr>breakpoint_hit := True\<rparr>)"
proof -
  have "pass_clear machine_asleep" "pending_interrupt machine_asleep = None"
    using machine0_quiet
    by (simp_all add: machine_asleep_def pass_clear_def quiet_def pending_interrupt_def) (simp_all add: machine0_def ll_lt_def)
  then show ?thesis
    using powered_down_for_good [of machine_asleep True 7] by (simp add: machine_asleep_def machine0_def)
qed

section \<open>Interrupts\<close>

lemma settled_loop_fields [simp]:
  "settled n lo hi (s\<lparr>cnt := c, bPowerDownState := b\<rparr>) = settled n lo hi s"
  "stack_word (s\<lparr>cnt := c, bPowerDownState := b\<rparr>) = stack_word s"
  "settled n lo hi (s\<lparr>bPowerDownState := b, uIRLState := l\<rparr>) = settled n lo hi s"
  by (simp_all add: settled_def stack_ok_def quiet_def mem_inv_def dc_on_def CHK_PSR_DCE_def fill_mark_def
      stack_word_def scache_hit_def mem_view_def fun_eq_iff)

lemma trap_prologue_loop_fields:
  "trapbase (trap_prologue (s\<lparr>cnt := c, bPowerDownState := b\<rparr>) tt) = trapbase (trap_prologue s tt)"
  "oplim (trap_prologue (s\<lparr>cnt := c, bPowerDownState := b\<rparr>) tt) = oplim (trap_prologue s tt)"
  by (simp_all add: trap_prologue_def Let_def set_trapbase_def redirect_to_oplim_def)

lemma room_loop_fields:
  "room lo hi (trap_prologue (s\<lparr>cnt := c, bPowerDownState := b\<rparr>) tt) v = room lo hi (trap_prologue s tt) v"
  by (simp add: room_def oplim_violated_def prologue_settled trap_prologue_loop_fields fill_mark_def)

lemma trap_entered_loop_fields:
  "trap_entered n lo hi (s\<lparr>cnt := c, bPowerDownState := b\<rparr>) tt t = trap_entered n lo hi s tt t"
  by (simp add: trap_entered_def Let_def trap_prologue_loop_fields)

text \<open>
  Property C22: an interrupt is precise. When interrupts are enabled and a non-maskable interrupt
  or one above the processor's level is there, the pass enters its trap before it looks at the
  next instruction, powered down or not; and once the handler has done its duty,
  priv\_ret\_from\_trap resumes the program at that instruction with its registers and stack as
  they were.
\<close>

theorem interrupts_precise:
  assumes "pass_clear s" "pending_interrupt s = Some tt" "settled n lo hi s"
    "room lo hi (trap_prologue s tt) (opslot (optop s) (- 4))" "heap_word n lo hi (trapbase (trap_prologue s tt))"
  shows "\<exists>t. loop_pass first s = Some (Next t) \<and> trap_entered n lo hi s tt t \<and>
    (\<forall>u. handler_done n lo hi s t u \<longrightarrow> (\<exists>w. op_priv_ret_from_trap u = Some w \<and> resumed n lo hi s w))"
proof -
  let ?s = "s\<lparr>cnt := (cnt s)\<lparr>instr_since_last_intr := 0\<rparr>, bPowerDownState := False\<rparr>"
  have "wp (invoke_trap ?s tt) (trap_entered n lo hi ?s tt)"
    using assms(3-5) by (intro invoke_trap_law) (simp_all add: room_loop_fields trap_prologue_loop_fields)
  then obtain t where t: "take_interrupt s tt = Some t" "trap_entered n lo hi s tt t"
    by (auto simp: wp_iff take_interrupt_def trap_entered_loop_fields)
  have "lo \<le> opslot (optop s) (- 4)" using assms(4) by (simp add: room_def)
  then show ?thesis
    using t ret_from_trap_law [OF assms(3) t(2)] assms(1,2) by (auto simp: wp_iff loop_pass_clear)
qed

definition machine_irq :: machine where
  "machine_irq = machine_trap\<lparr>psr := 0x310492, bPowerDownState := True, uIRLState := 5\<rparr>"

lemma interrupts_precise_witness:
  "\<exists>t. loop_pass False machine_irq = Some (Next t) \<and> trap_entered 0x10000 0x800 0xF000 machine_irq 0x35 t"
proof -
  have x: "bit (0x310492 :: u32) i = bit (0x310480 :: u32) i" if "i \<in> {7, 10, 13, 16, 17, 18}" for i
    using that by auto
  have "settled 0x10000 0x800 0xF000 (machine_trap\<lparr>psr := 0x310492\<rparr>)"
    using settled_machine_trap by (rule settled_psr) (simp add: same_memory_bits_def machine_trap_def)
  then have st: "settled 0x10000 0x800 0xF000 machine_irq"
    using settled_loop_fields(3) [where s = "machine_trap\<lparr>psr := 0x310492\<rparr>"] by (simp add: machine_irq_def)
  have "pass_clear machine_irq"
    using st by (simp add: pass_clear_def settled_def stack_ok_def)
      (simp add: machine_irq_def machine_trap_def machine0_def ll_lt_def)
  moreover have "pending_interrupt machine_irq = Some 0x35"
    by (simp add: pending_interrupt_def machine_irq_def machine_trap_def) (simp add: machine0_def)
  ultimately show ?thesis
    using interrupts_precise [OF _ _ st, of "0x35" False] cacheable_low [of "0xF9A8"]
    by (auto simp: machine_irq_def machine_trap_def trap_prologue_def set_trapbase_def redirect_to_oplim_def Let_def
        opslot_def room_def fill_mark_def field_def oplim_violated_def aligned_def heap_word_def)
qed

end
