(* ===== verification/Gdb_Interface.thy ===== *)
theory Gdb_Interface
  imports Iam
begin

text \<open>
  The debugger's view of the simulator, iam/src/gdb_interface.c: breakpoints, memory, registers and
  runs. Register numbers and breakpoint types are the ints the debugger passes. Memory is read
  through all caches (access kind G); a write flushes the caches and goes to memory (kind N).
  Messages, sim\_do\_command and the empty entry points are not modelled.
\<close>

section \<open>Breakpoints\<close>

text \<open>The access types a debugger's breakpoint type stands for, in the order they are set.\<close>

definition hbrkpt_accesses :: "int \<Rightarrow> BRKPT_ACCESS_T list" where
  "hbrkpt_accesses hbrkpt_type =
     (if hbrkpt_type = 0 then [BRKPT_EXEC] else if hbrkpt_type = 1 then [BRKPT_READ]
      else if hbrkpt_type = 2 then [BRKPT_WRITE] else if hbrkpt_type = 3 then [BRKPT_READ, BRKPT_WRITE]
      else [])"

fun add_all :: "BRKPT_ACCESS_T list \<Rightarrow> u32 \<Rightarrow> brkpt_table \<Rightarrow> brkpt_table option" where
  "add_all [] a t = Some t"
| "add_all (ty # tys) a t = do { t \<leftarrow> brkpt_add t a ty; add_all tys a t }"

fun disable_all :: "BRKPT_ACCESS_T list \<Rightarrow> u32 \<Rightarrow> brkpt_table \<Rightarrow> brkpt_table option" where
  "disable_all [] a t = Some t"
| "disable_all (ty # tys) a t = do { (r, t) \<leftarrow> brkpt_disable_addr t a ty; disable_all tys a t }"

definition sim_hbreak :: "machine \<Rightarrow> u32 \<Rightarrow> int \<Rightarrow> machine option" where
  "sim_hbreak s address hbrkpt_type =
     do { t \<leftarrow> add_all (hbrkpt_accesses hbrkpt_type) address (brk s); Some (s\<lparr>brk := t\<rparr>) }"

definition sim_remove_hbreak :: "machine \<Rightarrow> u32 \<Rightarrow> int \<Rightarrow> machine option" where
  "sim_remove_hbreak s address hbrkpt_type =
     do { t \<leftarrow> disable_all (hbrkpt_accesses hbrkpt_type) address (brk s); Some (s\<lparr>brk := t\<rparr>) }"

section \<open>Starting\<close>

text \<open>With the common memory set up already.\<close>

definition sim_open :: "machine \<Rightarrow> machine option" where
  "sim_open s = initPico (s\<lparr>running_under_gdb := True\<rparr>)"

definition sim_create_inferior :: "machine \<Rightarrow> u32 \<Rightarrow> machine option" where
  "sim_create_inferior s start_address = do { s \<leftarrow> initPico s; Some (s\<lparr>pc := start_address\<rparr>) }"

section \<open>Memory\<close>

fun sim_read :: "machine \<Rightarrow> u32 \<Rightarrow> nat \<Rightarrow> (u8 list \<times> machine) option" where
  "sim_read s mem 0 = Some ([], s)"
| "sim_read s mem (Suc n) =
     do { (c, s) \<leftarrow> READ_BYTE s mem acc_G; (buf, s) \<leftarrow> sim_read s (mem + 1) n; Some (ucast c # buf, s) }"

definition sim_write_byte :: "machine \<Rightarrow> u32 \<Rightarrow> u8 \<Rightarrow> machine option" where
  "sim_write_byte s a b =
     do { let word_aligned_addr = a AND 0xFFFFFFFC;
          (full_word, s) \<leftarrow> READ_WORD s word_aligned_addr acc_G;
          let full_word = be_word ((be_bytes full_word)[unat (a AND 3) := b]);
          (r, res, d, i, m) \<leftarrow> cacheFlush (CHK_PSR_DCE s) (CHK_PSR_ICE s) (dc s) (ic s) (cm s) word_aligned_addr 0;
          WRITE_WORD (s\<lparr>dc := d, ic := i, cm := m\<rparr>) res acc_N full_word }"

fun sim_write :: "machine \<Rightarrow> u32 \<Rightarrow> u8 list \<Rightarrow> machine option" where
  "sim_write s mem [] = Some s"
| "sim_write s mem (b # buf) = do { s \<leftarrow> sim_write_byte s mem b; sim_write s (mem + 1) buf }"

section \<open>Registers\<close>

text \<open>Any other number leaves the value indeterminate.\<close>

definition fetch_value :: "machine \<Rightarrow> int \<Rightarrow> u32 option" where
  "fetch_value s regno =
     (if regno = 0 then Some (pc s) else if regno = 1 then Some (vars s) else if regno = 2 then Some (frame s)
      else if regno = 3 then Some (optop s) else if regno = 4 then Some (oplim s)
      else if regno = 5 then Some (const_pool s) else if regno = 6 then Some (psr s)
      else if regno = 7 then Some (trapbase s) else if regno = 8 then Some (userrange1 s)
      else if regno = 9 then Some (versionId s) else if regno = 10 then Some (hcr s)
      else if regno = 11 then Some (scBottom s) else if regno = 12 then Some (global0 s)
      else if regno = 13 then Some (global1 s) else if regno = 14 then Some (global2 s)
      else if regno = 15 then Some (global3 s) else if regno = 16 then Some (userrange2 s)
      else if regno = 17 then Some (lockAddr s 0) else if regno = 18 then Some (lockAddr s 1)
      else if regno = 19 then Some (lockCount s 0) else if regno = 20 then Some (lockCount s 1)
      else if regno = 21 then Some (gcConfig s) else if regno = 22 then Some (brk12c s)
      else if regno = 23 then Some (brk1a s) else if regno = 24 then Some (brk2a s) else None)"

definition sim_fetch_register :: "machine \<Rightarrow> int \<Rightarrow> u8 list \<times> machine" where
  "sim_fetch_register s regno =
     (case fetch_value s regno of Some i \<Rightarrow> (be_bytes i, s) | None \<Rightarrow> (let (i, s) = fresh s in (be_bytes i, s)))"

text \<open>
  optop is set as it is and the stack cache moved after it; versionId, hcr and scBottom cannot be
  written.
\<close>

definition sim_store_register :: "machine \<Rightarrow> int \<Rightarrow> u8 list \<Rightarrow> machine option" where
  "sim_store_register s regno buf =
     (let i = be_word buf in
      if regno = 0 then Some (s\<lparr>pc := i\<rparr>) else if regno = 1 then Some (s\<lparr>vars := i\<rparr>)
      else if regno = 2 then Some (s\<lparr>frame := i\<rparr>)
      else if regno = 3 then vUpdateSCache (s\<lparr>optop := i\<rparr>) (optop s)
      else if regno = 4 then Some (s\<lparr>oplim := i\<rparr>) else if regno = 5 then Some (s\<lparr>const_pool := i\<rparr>)
      else if regno = 6 then Some (s\<lparr>psr := i\<rparr>) else if regno = 7 then Some (s\<lparr>trapbase := i\<rparr>)
      else if regno = 8 then Some (s\<lparr>userrange1 := i\<rparr>) else if regno = 12 then Some (s\<lparr>global0 := i\<rparr>)
      else if regno = 13 then Some (s\<lparr>global1 := i\<rparr>) else if regno = 14 then Some (s\<lparr>global2 := i\<rparr>)
      else if regno = 15 then Some (s\<lparr>global3 := i\<rparr>) else if regno = 16 then Some (s\<lparr>userrange2 := i\<rparr>)
      else if regno = 17 then Some (s\<lparr>lockAddr := (lockAddr s)(0 := i)\<rparr>)
      else if regno = 18 then Some (s\<lparr>lockAddr := (lockAddr s)(1 := i)\<rparr>)
      else if regno = 19 then Some (s\<lparr>lockCount := (lockCount s)(0 := i)\<rparr>)
      else if regno = 20 then Some (s\<lparr>lockCount := (lockCount s)(1 := i)\<rparr>)
      else if regno = 21 then Some (s\<lparr>gcConfig := i\<rparr>) else if regno = 22 then Some (s\<lparr>brk12c := i\<rparr>)
      else if regno = 23 then Some (s\<lparr>brk1a := i\<rparr>) else if regno = 24 then Some (s\<lparr>brk2a := i\<rparr>)
      else Some s)"

section \<open>Runs\<close>

datatype sim_stop = sim_exited | sim_stopped | sim_signalled

text \<open>The reason and the signal number or exit code; interrupted is simulation\_interrupted.\<close>

definition SIGTRAP :: u32 where "SIGTRAP = 5"
definition SIGINT :: u32 where "SIGINT = 2"

definition sim_stop_reason :: "machine \<Rightarrow> bool \<Rightarrow> sim_stop \<times> u32" where
  "sim_stop_reason s interrupted =
     (if breakpoint_hit s then (sim_stopped, SIGTRAP)
      else if interrupted then (sim_stopped, SIGINT)
      else (sim_exited, program_exit_code s))"

text \<open>A step of zero runs without a limit, any other one executes one step.\<close>

definition sim_resume :: "machine \<Rightarrow> int \<Rightarrow> machine option" where
  "sim_resume s step = (if step = 0 then executeBytecode_unlimited True s else executeBytecode 1 True s)"

end
