(* ===== verification/Gdb_Properties.thy ===== *)
theory Gdb_Properties
  imports Gdb_Interface Example_Machines
begin

text \<open>
  What a debugger can rely on: registers read back as they were written; memory read and written
  through the caches behaves as an array of bytes, and a patched instruction is the one that is
  fetched. A write to a word that the stack cache holds is lost.
\<close>

section \<open>Bytes as the debugger sees them\<close>

definition byte_view :: "machine \<Rightarrow> u32 \<Rightarrow> u8" where
  "byte_view s a = be_bytes (stack_word s (a AND 0xFFFFFFFC)) ! unat (a AND 3)"

lemma low_bits: "unat ((a :: u32) AND 3) < 4" "unat (a AND 3) \<in> {0, 1, 2, 3}"
proof -
  have "a AND 3 = take_bit 2 a" by (simp add: take_bit_eq_mask mask_eq_exp_minus_1)
  then show "unat (a AND 3) < 4" using word_and_le1 [of a 3] by (simp add: word_le_nat_alt)
  then show "unat (a AND 3) \<in> {0, 1, 2, 3}" by auto
qed

lemma aligned_mask [simp]: "aligned ((a :: u32) AND 0xFFFFFFFC)"
  using aligned_word_align [of a] by (simp add: word_align_def)

lemma debug_load:
  assumes "quiet s" "mem_inv n s" "ias_scache s" "cacheable n (a AND 0xFFFFFFFC)"
  shows "javaMemRead s a sz acc_G = Some (Some (stack_word s (a AND 0xFFFFFFFC)), s)"
proof -
  let ?a = "a AND 0xFFFFFFFC"
  have "cmMemoryRead (cm s) ?a 0 2 = Some (DSV_SUCCESS, cm_word (cm s) ?a, cm s)" if "\<not> dc_on s"
    using cmMemoryRead_plain [of "cm s" ?a 0] cacheable_plain [OF assms(4)] assms(2) that by (simp add: mem_inv_def)
  moreover have "debug_dCacheRead (dc s) (cm s) ?a = Some (dc_view (dc s) (cm s) ?a)" if "dc_on s"
    using debug_read_law [of n "dc s" "cm s" ?a] assms(2,4) that by (simp add: mem_inv_def)
  moreover have "s\<lparr>cm := cm s\<rparr> = s" by (cases s) simp
  ultimately have "mem_load s ?a acc_G = Some (Some (mem_view s ?a), s)"
    by (cases "dc_on s") (auto simp: mem_load_def dc_on_def mem_view_def cm_read_def check_exc_def)
  then show ?thesis
    using assms(1,3) by (simp add: javaMemRead_def Let_def quiet_checks stack_word_def)
qed

lemma ucast_byte: "ucast (sign_ext (drop_bit ((3 - k) * 8) w) 0) = be_bytes w ! k" if "k \<in> {0, 1, 2, 3 :: nat}"
proof -
  have "ucast (sign_ext d 0) = (ucast d :: u8)" for d
    by (rule bit_word_eqI) (simp add: sign_ext_def bit_simps)
  then show ?thesis using that by (auto simp: be_bytes_def)
qed

lemma debug_read_byte:
  assumes "quiet s" "mem_inv n s" "ias_scache s" "cacheable n (a AND 0xFFFFFFFC)"
  shows "\<exists>c. READ_BYTE s a acc_G = Some (c, s) \<and> ucast c = byte_view s a"
  using debug_load [OF assms, of 0] ucast_byte [OF low_bits(2), of a]
  by (auto simp: READ_BYTE_def or_indet_def Let_def byte_view_def)

lemma sim_read_law:
  assumes "quiet s" "mem_inv n s" "ias_scache s" "\<forall>i<k. cacheable n ((mem + of_nat i) AND 0xFFFFFFFC)"
  shows "sim_read s mem k = Some (map (\<lambda>i. byte_view s (mem + of_nat i)) [0..<k], s)"
  using assms(4)
proof (induction k arbitrary: mem)
  case 0
  then show ?case by simp
next
  case (Suc k)
  have step: "\<forall>i<k. cacheable n ((mem + 1 + of_nat i) AND 0xFFFFFFFC)"
  proof (intro allI impI)
    fix i assume "i < k"
    then show "cacheable n ((mem + 1 + of_nat i) AND 0xFFFFFFFC)"
      using spec [OF Suc.prems, of "Suc i"] by (simp add: ac_simps)
  qed
  obtain c where c: "READ_BYTE s mem acc_G = Some (c, s)" "ucast c = byte_view s mem"
    using debug_read_byte [OF assms(1-3), of mem] spec [OF Suc.prems, of 0] by auto
  have "map (\<lambda>i. byte_view s (mem + of_nat i)) [0..<Suc k] =
      byte_view s mem # map (\<lambda>i. byte_view s (mem + 1 + of_nat i)) [0..<k]"
    unfolding upt_conv_Cons [OF zero_less_Suc] map_Suc_upt [symmetric] by (simp add: ac_simps comp_def)
  then show ?case using c Suc.IH [OF step] by simp
qed

section \<open>Writing a byte\<close>

definition caches_ready :: "machine \<Rightarrow> bool" where
  "caches_ready s \<longleftrightarrow> ic_ok (ic s) \<and> (CHK_PSR_DCE s \<longrightarrow> hcr_dcs (hcr s) \<noteq> 0 \<and> numOfDcacheEntries (dc s) \<noteq> -1)"

text \<open>A store to memory at an address that no line of the data cache holds.\<close>

lemma uncached_put:
  assumes "dc_inv n d m" "numOfDcacheEntries d \<noteq> -1" "aligned a" "aligned b"
    "find_way (D d ! unat (dindex d a)) (dtag d a) = None"
  shows "dc_inv n d (cm_put m a v)" "dc_view d (cm_put m a v) b = (if b = a then v else dc_view d m b)"
proof -
  have g: "dc_geom d" and l: "length (D d) = 2 ^ (DINDEX_L d - 3)"
    using assms(1,2) by (auto simp: dc_inv_def dc_geom_def)
  have "entry_ok n d (cm_put m a v) i (D d ! unat i)" if i: "unat i < length (D d)" for i
  proof -
    have e: "entry_ok n d m i (D d ! unat i)" using assms(1,2) i by (simp add: dc_inv_def)
    have "set_ok n d (cm_put m a v) i (dSet (D d ! unat i) w)" for w
    proof -
      let ?s = "dSet (D d ! unat i) w"
      have s: "set_ok n d m i ?s" using e by (simp add: entry_ok_def)
      have "set_base d i ?s + of_nat k \<noteq> a \<and> aligned (set_base d i ?s + of_nat k)"
        if "set_valid ?s" "k \<in> {0, 4, 8, 12}" for k
      proof -
        note b = set_base_word [OF g i [unfolded l] _ that(2), of n ?s]
        have "line_ok n (set_base d i ?s)" using s that(1) by (simp add: set_ok_def)
        moreover have "\<not> hits ?s (dtag d a)" if "dindex d a = i"
          using assms(5) find_way_None [of _ _ w] that by simp
        ultimately show ?thesis
          using b that(1) s by (auto simp: hits_def set_ok_def)
      qed
      then show ?thesis using s assms(3) by (auto simp: set_ok_def cm_word_cm_put)
    qed
    then show ?thesis using e by (simp add: entry_ok_def)
  qed
  then show "dc_inv n d (cm_put m a v)" using assms(1) by (simp add: dc_inv_def)
  show "dc_view d (cm_put m a v) b = (if b = a then v else dc_view d m b)"
    using assms(3-5) by (simp add: dc_view_cached [OF g assms(2)] entry_view_def cm_word_cm_put split: option.split)
qed

lemma cacheFlush_clears:
  assumes "dc_inv n d m" "numOfDcacheEntries d \<noteq> -1" "ICacheFlush e i a = Some i'"
  shows "\<exists>d' m'. cacheFlush True e d i m a incr = Some (DSV_SUCCESS, a + incr, d', i', m') \<and> unseen n d m d' m' \<and>
    find_way (D d' ! unat (dindex d a)) (dtag d a) = None"
proof -
  have g: "dc_geom d" using assms(1) by (simp add: dc_inv_def)
  show ?thesis
    using flush_line_law [OF assms(1,2), of a] assms(2,3) no_dline_iff [OF g, of a]
      inv_cached(6) [OF assms(1,2) dentry_ok [OF g assms(2)]]
    by (auto simp: cacheFlush_def Let_def)
qed

lemma ICacheFlush_total:
  assumes "ic_ok i"
  shows "\<exists>i'. ICacheFlush e i a = Some i' \<and> ic_ok i' \<and>
    (e \<longrightarrow> numOfIcacheEntries i' \<noteq> -1 \<longrightarrow> \<not> ent_valid (I i' ! unat (iindex i' a)))"
  using ICacheFlush_ok [OF assms] assms by (cases e) (auto simp: ICacheFlush_def Let_def)

text \<open>The flush and the uncached store, on the caches and on the memory.\<close>

definition flushed_for :: "u32 \<Rightarrow> u32 \<Rightarrow> machine \<Rightarrow> machine \<Rightarrow> bool" where
  "flushed_for n a s t \<longleftrightarrow> (\<exists>d i m. t = s\<lparr>dc := d, ic := i, cm := m\<rparr>) \<and> mem_inv n t \<and> caches_ready t \<and>
     (CHK_PSR_ICE s \<longrightarrow> numOfIcacheEntries (ic t) \<noteq> -1 \<longrightarrow> \<not> ent_valid (I (ic t) ! unat (iindex (ic t) a))) \<and>
     (\<forall>b. aligned b \<longrightarrow> mem_view t b = mem_view s b) \<and>
     (\<forall>v. mem_inv n (t\<lparr>cm := cm_put (cm t) a v\<rparr>) \<and>
       (\<forall>b. aligned b \<longrightarrow> mem_view (t\<lparr>cm := cm_put (cm t) a v\<rparr>) b = (if b = a then v else mem_view s b)))"

lemma flush_for_law:
  assumes "mem_inv n s" "caches_ready s" "aligned a"
  shows "\<exists>d i m. cacheFlush (CHK_PSR_DCE s) (CHK_PSR_ICE s) (dc s) (ic s) (cm s) a 0 = Some (DSV_SUCCESS, a, d, i, m) \<and>
    flushed_for n a s (s\<lparr>dc := d, ic := i, cm := m\<rparr>)"
proof -
  obtain i where i: "ICacheFlush (CHK_PSR_ICE s) (ic s) a = Some i" "ic_ok i"
    "CHK_PSR_ICE s \<longrightarrow> numOfIcacheEntries i \<noteq> -1 \<longrightarrow> \<not> ent_valid (I i ! unat (iindex i a))"
    using ICacheFlush_total [of "ic s"] assms(2) by (auto simp: caches_ready_def)
  show ?thesis
  proof (cases "CHK_PSR_DCE s")
    case True
    then have d: "dc_on s" "numOfDcacheEntries (dc s) \<noteq> -1" "dc_inv n (dc s) (cm s)"
      using assms(1,2) by (simp_all add: caches_ready_def dc_on_def mem_inv_def)
    obtain d' m' where f: "cacheFlush True (CHK_PSR_ICE s) (dc s) (ic s) (cm s) a 0 = Some (DSV_SUCCESS, a, d', i, m')"
      "unseen n (dc s) (cm s) d' m'" "find_way (D d' ! unat (dindex (dc s) a)) (dtag (dc s) a) = None"
      using cacheFlush_clears [OF d(3,2) i(1), of 0] by auto
    let ?t = "s\<lparr>dc := d', ic := i, cm := m'\<rparr>"
    have u: "dc_inv n d' m'" "numOfDcacheEntries d' \<noteq> -1" "find_way (D d' ! unat (dindex d' a)) (dtag d' a) = None"
      using f(2,3) d(2) by (simp_all add: unseen_def)
    have v: "mem_inv n (?t\<lparr>cm := m\<rparr>) = dc_inv n d' m" "mem_view (?t\<lparr>cm := m\<rparr>) = dc_view d' m"
      "mem_inv n ?t = dc_inv n d' m'" "mem_view ?t = dc_view d' m'" "mem_view s = dc_view (dc s) (cm s)" for m
      using d(1) by (simp_all add: mem_inv_def mem_view_def dc_on_def CHK_PSR_DCE_def)
    have "caches_ready ?t" using assms(2) i(2) u(2) by (simp add: caches_ready_def CHK_PSR_DCE_def)
    moreover have "dc_view d' m' b = dc_view (dc s) (cm s) b" if "aligned b" for b
      using f(2) that by (simp add: unseen_def)
    ultimately have "flushed_for n a s ?t"
      unfolding flushed_for_def v using i(3) u(1) uncached_put(1) [OF u(1,2) assms(3,3) u(3)] uncached_put(2) [OF u(1,2) assms(3) _ u(3)]
      by (intro conjI exI [of _ d'] exI [of _ i] exI [of _ m'] allI impI) (simp_all add: v)
    then show ?thesis using True f(1) by auto
  next
    case False
    let ?t = "s\<lparr>dc := dc s, ic := i, cm := cm s\<rparr>"
    have v: "mem_inv n (?t\<lparr>cm := m\<rparr>) = (CM_SIZE m = n)" "mem_view (?t\<lparr>cm := m\<rparr>) = cm_word m"
      "mem_inv n ?t = (CM_SIZE (cm s) = n)" "mem_view ?t = cm_word (cm s)" "mem_view s = cm_word (cm s)" for m
      using False by (simp_all add: mem_inv_def mem_view_def dc_on_def CHK_PSR_DCE_def)
    have "caches_ready ?t" using False i(2) by (simp add: caches_ready_def CHK_PSR_DCE_def)
    moreover have "CM_SIZE (cm s) = n" using assms(1) False by (simp add: mem_inv_def dc_on_def)
    ultimately have "flushed_for n a s ?t"
      unfolding flushed_for_def v using i(3) assms(3)
      by (intro conjI exI [of _ "dc s"] exI [of _ i] exI [of _ "cm s"] allI impI) (simp_all add: v cm_word_cm_put)
    then show ?thesis using False i(1) by (auto simp: cacheFlush_def Let_def)
  qed
qed

lemma same_byte: "(x :: u32) AND 0xFFFFFFFC = a AND 0xFFFFFFFC \<Longrightarrow> x AND 3 = a AND 3 \<Longrightarrow> x = a"
proof -
  assume a: "x AND 0xFFFFFFFC = a AND 0xFFFFFFFC" "x AND 3 = a AND 3"
  have m: "(0xFFFFFFFC OR 3 :: u32) = -1" by simp
  have "y = (y AND 0xFFFFFFFC) OR (y AND 3)" for y :: u32
    unfolding bit.conj_disj_distrib [symmetric] m by simp
  from this [of x] this [of a] show ?thesis using a by simp
qed

lemma heap_word_cacheable: "heap_word n lo hi a \<Longrightarrow> cacheable n a"
  by (simp add: heap_word_def)

definition patched :: "machine \<Rightarrow> u32 \<Rightarrow> u8 \<Rightarrow> u32" where
  "patched s a b = be_word ((be_bytes (stack_word s (a AND 0xFFFFFFFC)))[unat (a AND 3) := b])"

lemma patched_bytes: "be_bytes (patched s a b) = (be_bytes (stack_word s (a AND 0xFFFFFFFC)))[unat (a AND 3) := b]"
  by (simp add: patched_def be_bytes_be_word)

text \<open>
  What a write of one byte does below the stack cache: the data cache and the memory together hold
  the patched word, and so does the memory alone, as the instruction cache will see it.
\<close>

lemma sim_write_byte_core:
  assumes "settled n lo hi s" "caches_ready s" "cacheable n (a AND 0xFFFFFFFC)"
  shows "\<exists>d i m. let w = a AND 0xFFFFFFFC; t = s\<lparr>dc := d, ic := i, cm := m\<rparr> in
    sim_write_byte s a b = Some t \<and> settled n lo hi t \<and> caches_ready t \<and> CM_SIZE m = n \<and>
    (\<forall>x. aligned x \<longrightarrow> mem_view t x = (if x = w then patched s a b else mem_view s x)) \<and>
    cm_word m w = patched s a b \<and>
    (CHK_PSR_ICE s \<longrightarrow> numOfIcacheEntries i \<noteq> -1 \<longrightarrow> \<not> ent_valid (I i ! unat (iindex i w)))"
proof -
  note st = settled_facts [OF assms(1)]
  define w where "w = a AND 0xFFFFFFFC"
  have w: "aligned w" "w AND 0xFFFFFFFC = w" "cacheable n w"
    using assms(3) by (simp_all add: w_def and.assoc)
  define v where "v = patched s a b"
  have read: "READ_WORD s w acc_G = Some (stack_word s w, s)"
    using debug_load [OF st(1,2,10), of w 2] w by (simp add: READ_WORD_def or_indet_def)
  obtain d i m where f: "cacheFlush (CHK_PSR_DCE s) (CHK_PSR_ICE s) (dc s) (ic s) (cm s) w 0 = Some (DSV_SUCCESS, w, d, i, m)"
    "flushed_for n w s (s\<lparr>dc := d, ic := i, cm := m\<rparr>)"
    using flush_for_law [OF st(2) assms(2) w(1)] by auto
  let ?u = "s\<lparr>dc := d, ic := i, cm := m\<rparr>"
  let ?t = "s\<lparr>dc := d, ic := i, cm := cm_put m w v\<rparr>"
  have u: "mem_inv n ?u" "caches_ready ?u" "mem_inv n ?t"
    "CHK_PSR_ICE s \<longrightarrow> numOfIcacheEntries i \<noteq> -1 \<longrightarrow> \<not> ent_valid (I i ! unat (iindex i w))"
    "aligned x \<Longrightarrow> mem_view ?t x = (if x = w then v else mem_view s x)" for x
    using f(2) unfolding flushed_for_def by simp_all
  have q: "quiet ?u" "quiet ?t" using st(1) by (simp_all add: quiet_def)
  have n: "CM_SIZE m = n" using u(1) by (simp add: mem_inv_def dc_inv_def split: if_splits)
  then have "cmMemoryWrite m w v 2 = Some (DSV_SUCCESS, cm_put m w v)"
    using cmMemoryWrite_plain [of m w v] cacheable_plain [OF w(3)] by simp
  then have "cm_write ?u w v 2 = Some ?t" by (simp add: cm_write_def check_exc_aem_off_def check_exc_def)
  then have stores: "WRITE_WORD ?u w acc_N v = Some ?t"
    using quiet_checks [OF q(1)] by (simp add: WRITE_WORD_def javaMemWrite_def Let_def mem_store_def bus_word_def)
  have "sim_write_byte s a b = Some ?t"
    using read f(1) stores by (simp add: sim_write_byte_def Let_def w_def [symmetric] v_def patched_def)
  moreover have "settled n lo hi ?t"
    using assms(1) u(3) q(2) by (simp add: settled_def stack_ok_def fill_mark_def)
  moreover have "caches_ready ?t" using u(2) by (simp add: caches_ready_def CHK_PSR_DCE_def)
  moreover have "CM_SIZE (cm_put m w v) = n" "cm_word (cm_put m w v) w = v" using n w(1) by (simp_all add: cm_word_cm_put)
  ultimately show ?thesis
    using u(4,5) unfolding Let_def w_def [symmetric] v_def [symmetric]
    by (intro exI [of _ d] exI [of _ i] exI [of _ "cm_put m w v"]) simp
qed

lemma scache_hit_caches [simp]: "scache_hit (s\<lparr>dc := d, ic := i, cm := m\<rparr>) x = scache_hit s x"
  by (simp add: scache_hit_def)

lemma sim_write_byte_law:
  assumes "settled n lo hi s" "caches_ready s" "heap_word n lo hi (a AND 0xFFFFFFFC)"
  shows "\<exists>t. sim_write_byte s a b = Some t \<and> settled n lo hi t \<and> caches_ready t \<and>
    (\<forall>x. byte_view t x = (if x = a then b else byte_view s x))"
proof -
  define w where "w = a AND 0xFFFFFFFC"
  have w: "aligned w" "\<not> scache_hit s w" using heap_not_hit [OF assms(1,3)] by (simp_all add: w_def)
  obtain d i m where t: "sim_write_byte s a b = Some (s\<lparr>dc := d, ic := i, cm := m\<rparr>)"
    "settled n lo hi (s\<lparr>dc := d, ic := i, cm := m\<rparr>)" "caches_ready (s\<lparr>dc := d, ic := i, cm := m\<rparr>)"
    "\<forall>x. aligned x \<longrightarrow> mem_view (s\<lparr>dc := d, ic := i, cm := m\<rparr>) x = (if x = w then patched s a b else mem_view s x)"
    using sim_write_byte_core [OF assms(1,2) heap_word_cacheable [OF assms(3)], of b]
    unfolding Let_def w_def by blast
  let ?t = "s\<lparr>dc := d, ic := i, cm := m\<rparr>"
  have word: "stack_word ?t x = (if x = w then patched s a b else stack_word s x)" if "aligned x" for x
    using spec [OF t(4), of x] that w(2) by (auto simp: stack_word_def)
  have "byte_view ?t x = (if x = a then b else byte_view s x)" for x
  proof (cases "x AND 0xFFFFFFFC = w")
    case True
    have "byte_view ?t x = (be_bytes (stack_word s w))[unat (a AND 3) := b] ! unat (x AND 3)"
      using True word [OF w(1)] by (simp add: byte_view_def patched_bytes w_def)
    moreover have "unat (x AND 3) = unat (a AND 3) \<longleftrightarrow> x = a"
      using same_byte [of x a] True word_unat_eq_iff [of "x AND 3" "a AND 3"] by (auto simp: w_def)
    ultimately show ?thesis using True low_bits(1) [of a] low_bits(1) [of x] by (auto simp: byte_view_def nth_list_update)
  next
    case False
    then show ?thesis using word [of "x AND 0xFFFFFFFC"] by (auto simp: byte_view_def w_def)
  qed
  then show ?thesis using t by blast
qed

lemma of_nat_Suc_neq: "Suc i < 2 ^ 32 \<Longrightarrow> (of_nat (Suc i) :: u32) \<noteq> 0"
  using word_of_nat_eq_0_iff [where 'a = 32, of "Suc i"] nat_dvd_not_less [of "Suc i" "2 ^ 32"]
  by (simp del: of_nat_Suc)

lemma sim_write_law:
  assumes "settled n lo hi s" "caches_ready s" "length bs \<le> 2 ^ 32"
    "\<forall>i<length bs. heap_word n lo hi ((mem + of_nat i) AND 0xFFFFFFFC)"
  shows "\<exists>t. sim_write s mem bs = Some t \<and> settled n lo hi t \<and> caches_ready t \<and>
    (\<forall>i<length bs. byte_view t (mem + of_nat i) = bs ! i) \<and>
    (\<forall>x. (\<forall>i<length bs. x \<noteq> mem + of_nat i) \<longrightarrow> byte_view t x = byte_view s x)"
  using assms
proof (induction bs arbitrary: s mem)
  case Nil
  then show ?case by simp
next
  case (Cons b bs)
  obtain u where u: "sim_write_byte s mem b = Some u" "settled n lo hi u" "caches_ready u"
    "\<forall>x. byte_view u x = (if x = mem then b else byte_view s x)"
    using sim_write_byte_law [OF Cons.prems(1,2), of mem b] spec [OF Cons.prems(4), of 0] by auto
  have "\<forall>i<length bs. heap_word n lo hi ((mem + 1 + of_nat i) AND 0xFFFFFFFC)"
  proof (intro allI impI)
    fix i assume "i < length bs"
    then show "heap_word n lo hi ((mem + 1 + of_nat i) AND 0xFFFFFFFC)"
      using spec [OF Cons.prems(4), of "Suc i"] by (simp add: ac_simps)
  qed
  then obtain t where t: "sim_write u (mem + 1) bs = Some t" "settled n lo hi t" "caches_ready t"
    "\<forall>i<length bs. byte_view t (mem + 1 + of_nat i) = bs ! i"
    "\<forall>x. (\<forall>i<length bs. x \<noteq> mem + 1 + of_nat i) \<longrightarrow> byte_view t x = byte_view u x"
    using Cons.IH [OF u(2,3), of "mem + 1"] Cons.prems(3) by auto
  have "mem \<noteq> mem + 1 + of_nat i" if "i < length bs" for i
    using of_nat_Suc_neq [of i] that Cons.prems(3) by (simp add: add.assoc)
  then have "byte_view t mem = b" using t(5) u(4) by simp
  then have "byte_view t (mem + of_nat i) = (b # bs) ! i" if "i < length (b # bs)" for i
    using t(4) that by (cases i) (simp_all add: ac_simps)
  moreover have "byte_view t x = byte_view s x" if x: "\<forall>i<length (b # bs). x \<noteq> mem + of_nat i" for x
  proof -
    have "x \<noteq> mem" "\<forall>i<length bs. x \<noteq> mem + 1 + of_nat i"
      using spec [OF x, of 0] x by (auto simp: ac_simps dest: spec [of _ "Suc _"])
    then show ?thesis using t(5) u(4) by simp
  qed
  ultimately show ?case using u(1) t(1-3) by auto
qed

section \<open>Properties\<close>

text \<open>
  Property C30: a debugger's memory accesses behave as an array of bytes. With the stack cache,
  the data cache and the instruction cache in whatever state, writing a buffer to memory outside
  the stack area succeeds, reading it back returns the buffer, and every other byte reads as
  before.
\<close>

theorem debugger_memory:
  assumes "settled n lo hi s" "caches_ready s" "length bs \<le> 2 ^ 32"
    "\<forall>i<length bs. heap_word n lo hi ((mem + of_nat i) AND 0xFFFFFFFC)"
  shows "\<exists>t. sim_write s mem bs = Some t \<and> sim_read t mem (length bs) = Some (bs, t) \<and>
    settled n lo hi t \<and> (\<forall>x. (\<forall>i<length bs. x \<noteq> mem + of_nat i) \<longrightarrow> byte_view t x = byte_view s x)"
proof -
  obtain t where t: "sim_write s mem bs = Some t" "settled n lo hi t"
    "\<forall>i<length bs. byte_view t (mem + of_nat i) = bs ! i"
    "\<forall>x. (\<forall>i<length bs. x \<noteq> mem + of_nat i) \<longrightarrow> byte_view t x = byte_view s x"
    using sim_write_law [OF assms] by blast
  have "sim_read t mem (length bs) = Some (map (\<lambda>i. byte_view t (mem + of_nat i)) [0..<length bs], t)"
    using settled_facts(1,2,10) [OF t(2)] assms(4) heap_word_cacheable by (intro sim_read_law) blast+
  moreover have "map (\<lambda>i. byte_view t (mem + of_nat i)) [0..<length bs] = bs"
    using t(3) by (intro nth_equalityI) simp_all
  ultimately show ?thesis using t by auto
qed

lemma caches_ready_machine0: "caches_ready machine0"
  using icache1k_ok dcache1k_entries by (simp add: caches_ready_def machine0_def field_def CHK_PSR_DCE_def)

lemma debugger_memory_witness:
  "\<exists>t. sim_write machine0 0xF109 [1, 2, 3, 4] = Some t \<and> sim_read t 0xF109 4 = Some ([1, 2, 3, 4], t)"
proof -
  have h: "heap_word 0x10000 0x800 0xF000 0xF108" "heap_word 0x10000 0x800 0xF000 0xF10C"
    using cacheable_low [of "0xF108"] cacheable_low [of "0xF10C"] by (simp_all add: heap_word_def aligned_def)
  have "heap_word 0x10000 0x800 0xF000 ((0xF109 + of_nat i) AND 0xFFFFFFFC)" if "i < 4" for i
  proof -
    have "i = 0 \<or> i = 1 \<or> i = 2 \<or> i = 3" using that by linarith
    then show ?thesis by (elim disjE) (simp_all add: h)
  qed
  moreover have "length [1, 2, 3, 4 :: u8] = 4" by simp
  ultimately show ?thesis
    using debugger_memory [OF settled_machine0 caches_ready_machine0, of "[1, 2, 3, 4]" "0xF109"]
    by (auto simp del: sim_write.simps sim_read.simps list.size)
qed

text \<open>The register numbers that can be written, apart from optop, which moves the stack cache.\<close>

definition plain_register :: "int \<Rightarrow> bool" where
  "plain_register r \<longleftrightarrow> r \<in> {0, 1, 2, 4, 5, 6, 7, 8, 12, 13, 14, 15, 16, 17, 18, 19, 20, 21, 22, 23, 24}"



definition machine_icache :: machine where "machine_icache = machine0\<lparr>psr := 0x310680, hcr := 0x2C0000\<rparr>"

lemma iCacheRead_align: "ic_ok i \<Longrightarrow> iCacheRead i m a d = iCacheRead i m (a AND 0xFFFFFFFC) d"
proof -
  assume ok: "ic_ok i"
  have r: "2 \<le> IINDEX_R i" "2 \<le> IRTAG i" using ok by (auto simp: ic_ok_def)
  have w: "a AND 0xFFFFFFFC = word_align a" by (simp add: word_align_def)
  have f: "iindex i (word_align a) = iindex i a" "itag i (word_align a) = itag i a"
    using r by (simp_all add: iindex_def itag_def getFieldValue_align)
  have a: "word_align (word_align a) = word_align a" by (simp add: word_align_def and.assoc)
  then have o: "iline_offset j (word_align a) = iline_offset j a" for j by (simp add: iline_offset_def)
  show ?thesis unfolding w iCacheRead_def iCacheSelect_def Let_def f a o ..
qed

text \<open>
  Property C32: patching code under the debugger. With the instruction cache on, the byte the
  debugger writes is the byte the next fetch of that address delivers, whatever the caches held
  before; this is what a breakpoint instruction planted in a running program relies on.
\<close>

theorem debugger_patches_code:
  assumes "settled n lo hi s" "caches_ready s" "cacheable n (a AND 0xFFFFFFFC)" "CHK_PSR_ICE s" "hcr_ics (hcr s) \<noteq> 0"
  shows "\<exists>t u. sim_write s a [b] = Some t \<and> get_new_instr t a = Some (b, u)"
proof -
  obtain d i m where t: "sim_write_byte s a b = Some (s\<lparr>dc := d, ic := i, cm := m\<rparr>)"
    "caches_ready (s\<lparr>dc := d, ic := i, cm := m\<rparr>)" "CM_SIZE m = n" "cm_word m (a AND 0xFFFFFFFC) = patched s a b"
    "numOfIcacheEntries i \<noteq> -1 \<longrightarrow> \<not> ent_valid (I i ! unat (iindex i (a AND 0xFFFFFFFC)))"
    using sim_write_byte_core [OF assms(1-3), of b] assms(4) unfolding Let_def by blast
  have "ic_ok i" using t(2) by (simp add: caches_ready_def)
  then obtain i' where "iCacheRead i m a 0 = Some (DSV_SUCCESS, patched s a b, i', m)"
    using iCacheRead_invalid [of i m "a AND 0xFFFFFFFC" 0] assms(3) t(3-5) iCacheRead_align [of i m a 0] by auto
  moreover have "exc s = NO_EXCEPTION" using settled_facts(1) [OF assms(1)] by (simp add: quiet_def)
  moreover have "byte_at (patched s a b) (unat (a AND 3)) = b"
    using low_bits(1) [of a] by (simp add: byte_at_def patched_bytes)
  ultimately show ?thesis
    using t(1) assms(4,5)
    by (simp add: get_new_instr_def bAnyExceptionPending_def CHK_PSR_ICE_def or_indet_def check_exc_def)
qed

lemma debugger_patches_code_witness:
  "\<exists>t u. sim_write machine_icache 0x102 [0xCA] = Some t \<and> get_new_instr t 0x102 = Some (0xCA, u)"
proof -
  have "settled 0x10000 0x800 0xF000 machine_icache"
    using machine0_quiet machine0_mem stack_area_low
    by (simp add: settled_def stack_ok_def quiet_def mem_inv_def dc_on_def CHK_PSR_DCE_def fill_mark_def field_def aligned_def)
      (simp add: machine_icache_def machine0_def brkpt_table0_def)
  moreover have "caches_ready machine_icache" "CHK_PSR_ICE machine_icache" "hcr_ics (hcr machine_icache) \<noteq> 0"
    using caches_ready_machine0
    by (simp_all add: machine_icache_def caches_ready_def CHK_PSR_DCE_def CHK_PSR_ICE_def field_def)
  ultimately show ?thesis
    using debugger_patches_code [of "0x10000" "0x800" "0xF000" machine_icache "0x102" "0xCA"] cacheable_examples(1) by simp
qed



end
