(* ===== verification/Class_Loader.thy ===== *)
theory Class_Loader
  imports Prelude
begin

text \<open>
  The class file reader, ldr/src/loader.c. A class file is a list of bytes and context->ptr an
  integer position in it, which may lie before the first byte: lengths are read as signed ints
  and a negative one moves the pointer back. An access outside the file or outside a table of the
  constant pool is the error Undefined\_access, the other errors are those of the macro ERROR.
  Messages are not modelled. Strings are the bytes of a Utf8 entry; C reads them up to the first
  zero byte.
\<close>

section \<open>Readers\<close>

datatype class_error =
    Truncated_file | Bad_magic | Bad_version | Bad_pool_size | Bad_pool_type | Bad_pool_index
  | Bad_line_table | Bad_local_vars | Bad_code_length | Bad_value_size | Undefined_access

type_synonym 'a reader = "u8 list \<Rightarrow> int \<Rightarrow> class_error + ('a \<times> int)"

definition rreturn :: "'a \<Rightarrow> 'a reader" where "rreturn x bs p = Inr (x, p)"
definition rfail :: "class_error \<Rightarrow> 'a reader" where "rfail e bs p = Inl e"

definition rbind :: "'a reader \<Rightarrow> ('a \<Rightarrow> 'b reader) \<Rightarrow> 'b reader" where
  "rbind m k bs p = (case m bs p of Inl e \<Rightarrow> Inl e | Inr (x, q) \<Rightarrow> k x bs q)"

definition rpos :: "int reader" where "rpos bs p = Inr (p, p)"
definition rseek :: "int \<Rightarrow> unit reader" where "rseek q bs p = Inr ((), q)"

definition rcheck :: "bool \<Rightarrow> class_error \<Rightarrow> unit reader" where
  "rcheck b e = (if b then rreturn () else rfail e)"

text \<open>A loop that reads n values, and one that updates a structure n times.\<close>

fun rtimes :: "nat \<Rightarrow> 'a reader \<Rightarrow> 'a list reader" where
  "rtimes 0 m = rreturn []"
| "rtimes (Suc n) m = rbind m (\<lambda>x. rbind (rtimes n m) (\<lambda>xs. rreturn (x # xs)))"

fun rloop :: "nat \<Rightarrow> ('s \<Rightarrow> 's reader) \<Rightarrow> 's \<Rightarrow> 's reader" where
  "rloop 0 f s = rreturn s"
| "rloop (Suc n) f s = rbind (f s) (\<lambda>s. rloop n f s)"

definition rbytes :: "nat \<Rightarrow> u8 list reader" where
  "rbytes n bs p =
     (if int (length bs) - p < int n then Inl Truncated_file
      else if p < 0 then Inl Undefined_access
      else Inr (take n (drop (nat p) bs), p + int n))"

definition get1byte :: "u32 reader" where "get1byte = rbind (rbytes 1) (\<lambda>b. rreturn (be_word b))"
definition get2bytes :: "u32 reader" where "get2bytes = rbind (rbytes 2) (\<lambda>b. rreturn (be_word b))"
definition get4bytes :: "u32 reader" where "get4bytes = rbind (rbytes 4) (\<lambda>b. rreturn (be_word b))"

text \<open>getNbytes into a buffer, and with a null buffer. A negative count is a buffer of at least 2 GB.\<close>

definition getNbytes :: "u32 \<Rightarrow> u8 list reader" where
  "getNbytes count bs p =
     (if int (length bs) - p < sint count then Inl Truncated_file
      else if sint count < 0 then Inl Undefined_access
      else rbytes (nat (sint count)) bs p)"

definition skip_bytes :: "u32 \<Rightarrow> unit reader" where
  "skip_bytes count bs p =
     (if int (length bs) - p < sint count then Inl Truncated_file else Inr ((), p + sint count))"

section \<open>The constant pool\<close>

text \<open>An entry of the union cp\_item\_type; a 64-bit constant takes two.\<close>

datatype cp_item = CpInt u32 | CpUtf8 "u8 list" | CpThisClass | CpTypeTable

record cp_pool =
  type_table :: "u8 list"
  cp_items :: "cp_item list"

definition RESOLVED :: u8 where "RESOLVED = 0x80"

definition empty_pool :: "nat \<Rightarrow> cp_pool" where
  "empty_pool n = \<lparr>type_table = replicate n 0, cp_items = (replicate n (CpInt 0))[0 := CpTypeTable]\<rparr>"

definition set_cp :: "nat \<Rightarrow> u8 \<Rightarrow> cp_item \<Rightarrow> cp_pool \<Rightarrow> cp_pool" where
  "set_cp i t x p = p\<lparr>type_table := (type_table p)[i := t], cp_items := (cp_items p)[i := x]\<rparr>"

text \<open>The first pass, over k entries: sizes only.\<close>

fun scan_pool :: "nat \<Rightarrow> unit reader" where
  "scan_pool 0 = rreturn ()"
| "scan_pool (Suc k) =
     rbind get1byte (\<lambda>t.
       if t = 1 then rbind get2bytes (\<lambda>len. rbind (skip_bytes len) (\<lambda>_. scan_pool k))
       else if t = 7 \<or> t = 8 then rbind (skip_bytes 2) (\<lambda>_. scan_pool k)
       else if 9 \<le> t \<and> t \<le> 12 \<or> t = 3 \<or> t = 4 then rbind (skip_bytes 4) (\<lambda>_. scan_pool k)
       else if t = 5 \<or> t = 6 then rbind (skip_bytes 8) (\<lambda>_. scan_pool (k - 1))
       else rfail Bad_pool_type)"

text \<open>The second pass, over k entries from number i on; haveClinit is collected on the way.\<close>

definition is_str :: "u8 list \<Rightarrow> string \<Rightarrow> bool" where
  "is_str b s \<longleftrightarrow> takeWhile (\<lambda>c. c \<noteq> 0) b = map of_char s"

fun fill_pool :: "nat \<Rightarrow> nat \<Rightarrow> cp_pool \<Rightarrow> bool \<Rightarrow> (cp_pool \<times> bool) reader" where
  "fill_pool 0 i p clinit = rreturn (p, clinit)"
| "fill_pool (Suc k) i p clinit =
     rbind get1byte (\<lambda>t. let tag = ucast t in
       if t = 1 then
         rbind get2bytes (\<lambda>len. rbind (getNbytes len) (\<lambda>s.
           fill_pool k (Suc i) (set_cp i (tag OR RESOLVED) (CpUtf8 s) p) (clinit \<or> is_str s ''<clinit>'')))
       else if t = 7 \<or> t = 8 then
         rbind get2bytes (\<lambda>v. fill_pool k (Suc i) (set_cp i tag (CpInt v) p) clinit)
       else if 9 \<le> t \<and> t \<le> 12 then
         rbind get4bytes (\<lambda>v. fill_pool k (Suc i) (set_cp i tag (CpInt v) p) clinit)
       else if t = 3 \<or> t = 4 then
         rbind get4bytes (\<lambda>v. fill_pool k (Suc i) (set_cp i (tag OR RESOLVED) (CpInt v) p) clinit)
       else if t = 5 \<or> t = 6 then
         rbind get4bytes (\<lambda>high. rbind get4bytes (\<lambda>low.
           if length (type_table p) \<le> Suc i then rfail Undefined_access
           else fill_pool (k - 1) (Suc (Suc i))
             (set_cp (Suc i) RESOLVED (CpInt low) (set_cp i (tag OR RESOLVED) (CpInt high) p)) clinit))
       else rfail Bad_pool_type)"

definition LoadConstantPool :: "(cp_pool \<times> bool) reader" where
  "LoadConstantPool =
     rbind get2bytes (\<lambda>n. rbind (rcheck (1 \<le> unat n) Bad_pool_size) (\<lambda>_. rbind rpos (\<lambda>initial_ptr.
       rbind (scan_pool (unat n - 1)) (\<lambda>_. rbind (rseek initial_ptr) (\<lambda>_.
         fill_pool (unat n - 1) 1 (empty_pool (unat n)) False)))))"

text \<open>The string with the index read next, with its index (currentStringIndex).\<close>

definition cp_string :: "cp_pool \<Rightarrow> int \<Rightarrow> (u8 list \<times> u16) reader" where
  "cp_string p v =
     (if v \<le> 0 \<or> int (length (type_table p)) \<le> v \<or> type_table p ! nat v \<noteq> 1 OR RESOLVED then rfail Bad_pool_index
      else case cp_items p ! nat v of CpUtf8 s \<Rightarrow> rreturn (s, of_int v) | _ \<Rightarrow> rfail Undefined_access)"

definition getAsciz :: "cp_pool \<Rightarrow> (u8 list \<times> u16) reader" where
  "getAsciz p = rbind get2bytes (\<lambda>v. cp_string p (uint v))"

definition getAscizFromClass :: "cp_pool \<Rightarrow> u32 \<Rightarrow> (u8 list \<times> u16) reader" where
  "getAscizFromClass p i =
     (if sint i \<le> 0 \<or> int (length (type_table p)) \<le> sint i \<or> type_table p ! nat (sint i) \<noteq> 7 then rfail Bad_pool_index
      else case cp_items p ! nat (sint i) of CpInt v \<Rightarrow> cp_string p (sint v) | _ \<Rightarrow> rfail Undefined_access)"

section \<open>Fields\<close>

definition ACC_STATIC :: u16 where "ACC_STATIC = 0x0008"
definition ACC_SYNCHRONIZED :: u16 where "ACC_SYNCHRONIZED = 0x0020"
definition ACC_NATIVE :: u16 where "ACC_NATIVE = 0x0100"
definition ACC_ABSTRACT :: u16 where "ACC_ABSTRACT = 0x0400"
definition ACC_WRITTEN_FLAGS :: u32 where "ACC_WRITTEN_FLAGS = 0x0FFF"
definition ACC_VALKNOWN :: u16 where "ACC_VALKNOWN = 0x1000"

record fieldblock =
  access :: u16
  name :: "u8 list"
  nameIndex :: u16
  signature :: "u8 list"
  sigIndex :: u16
  offset :: u32

text \<open>One attribute; the others than a constant value are passed over.\<close>

definition read_field_attribute :: "cp_pool \<Rightarrow> fieldblock \<Rightarrow> fieldblock reader" where
  "read_field_attribute p fb =
     rbind (getAsciz p) (\<lambda>(nm, _). rbind get4bytes (\<lambda>len.
       if access fb AND ACC_STATIC \<noteq> 0 \<and> is_str nm ''ConstantValue'' then
         rbind (rcheck (len = 2) Bad_value_size) (\<lambda>_. rbind get2bytes (\<lambda>v.
           rreturn (fb\<lparr>access := access fb OR ACC_VALKNOWN, offset := v\<rparr>)))
       else rbind (skip_bytes len) (\<lambda>_. rreturn fb)))"

text \<open>Access flags, name and signature, the head of a field and of a method.\<close>

definition read_member :: "cp_pool \<Rightarrow> fieldblock reader" where
  "read_member p =
     rbind get2bytes (\<lambda>a. rbind (getAsciz p) (\<lambda>(nm, ni). rbind (getAsciz p) (\<lambda>(sg, si).
       rreturn \<lparr>access = ucast (a AND ACC_WRITTEN_FLAGS), name = nm, nameIndex = ni, signature = sg, sigIndex = si,
         offset = 0\<rparr>)))"

definition read_field :: "cp_pool \<Rightarrow> fieldblock reader" where
  "read_field p =
     rbind (read_member p) (\<lambda>fb. rbind get2bytes (\<lambda>n. rloop (unat n) (read_field_attribute p) fb))"

section \<open>Methods\<close>

record lineno =
  ln_pc :: u32
  line_number :: u32

record localvar =
  pc0 :: u32
  lv_length :: u32
  nameoff :: u16
  sigoff :: u16
  slot :: u32

record catch_frame =
  start_pc :: u32
  end_pc :: u32
  handler_pc :: u32
  catchType :: u16

text \<open>A table whose new length is 0 keeps its old entries but not its length.\<close>

record methodblock =
  fb :: fieldblock
  code :: "u8 list"
  code_length :: u32
  exception_table :: "catch_frame list"
  exception_table_length :: nat
  line_number_table :: "lineno list"
  line_number_table_length :: nat
  localvar_table :: "localvar list"
  localvar_table_length :: nat
  args_size :: u16
  maxstack :: u16
  nlocals :: u16

definition read_lineno :: "lineno reader" where
  "read_lineno = rbind get2bytes (\<lambda>a. rbind get2bytes (\<lambda>b. rreturn \<lparr>ln_pc = a, line_number = b\<rparr>))"

definition read_localvar :: "localvar reader" where
  "read_localvar =
     rbind get2bytes (\<lambda>a. rbind get2bytes (\<lambda>b. rbind get2bytes (\<lambda>c. rbind get2bytes (\<lambda>d. rbind get2bytes (\<lambda>e.
       rreturn \<lparr>pc0 = a, lv_length = b, nameoff = ucast c, sigoff = ucast d, slot = e\<rparr>)))))"

definition read_catch :: "catch_frame reader" where
  "read_catch =
     rbind get2bytes (\<lambda>a. rbind get2bytes (\<lambda>b. rbind get2bytes (\<lambda>c. rbind get2bytes (\<lambda>d.
       rreturn \<lparr>start_pc = a, end_pc = b, handler_pc = c, catchType = ucast d\<rparr>))))"

text \<open>The rest of an attribute, whose stated length must be met.\<close>

definition sized :: "class_error \<Rightarrow> 'a reader \<Rightarrow> 'a reader" where
  "sized e m =
     rbind get4bytes (\<lambda>len. rbind rpos (\<lambda>ptr. rbind m (\<lambda>x. rbind rpos (\<lambda>q.
       rbind (rcheck (q = ptr + sint len) e) (\<lambda>_. rreturn x)))))"

definition ReadLineTable :: "methodblock \<Rightarrow> methodblock reader" where
  "ReadLineTable mb = sized Bad_line_table
     (rbind get2bytes (\<lambda>n. rbind (rtimes (unat n) read_lineno) (\<lambda>xs.
       rreturn (mb\<lparr>line_number_table_length := unat n,
         line_number_table := (if n = 0 then line_number_table mb else xs)\<rparr>))))"

definition ReadLocalVars :: "methodblock \<Rightarrow> methodblock reader" where
  "ReadLocalVars mb = sized Bad_local_vars
     (rbind get2bytes (\<lambda>n. rbind (rtimes (unat n) read_localvar) (\<lambda>xs.
       rreturn (mb\<lparr>localvar_table_length := unat n,
         localvar_table := (if n = 0 then localvar_table mb else xs)\<rparr>))))"

definition read_code_attribute :: "cp_pool \<Rightarrow> methodblock \<Rightarrow> methodblock reader" where
  "read_code_attribute p mb =
     rbind (getAsciz p) (\<lambda>(nm, _).
       if is_str nm ''LineNumberTable'' then ReadLineTable mb
       else if is_str nm ''LocalVariableTable'' then ReadLocalVars mb
       else rbind get4bytes (\<lambda>len. rbind (skip_bytes len) (\<lambda>_. rreturn mb)))"

text \<open>The three sizes; class files of minor version 2 and less have shorter ones.\<close>

definition read_sizes :: "u16 \<Rightarrow> (u32 \<times> u32 \<times> u32) reader" where
  "read_sizes minor =
     (if minor \<le> 2 then
        rbind get1byte (\<lambda>a. rbind get1byte (\<lambda>b. rbind get2bytes (\<lambda>c. rreturn (a, b, c))))
      else rbind get2bytes (\<lambda>a. rbind get2bytes (\<lambda>b. rbind get4bytes (\<lambda>c. rreturn (a, b, c)))))"

definition ReadInCode :: "u16 \<Rightarrow> cp_pool \<Rightarrow> methodblock \<Rightarrow> methodblock reader" where
  "ReadInCode minor p mb = sized Bad_code_length
     (rbind (read_sizes minor) (\<lambda>(ms, nl, len). rbind (getNbytes len) (\<lambda>bytes. rbind get2bytes (\<lambda>n.
       rbind (rtimes (unat n) read_catch) (\<lambda>xs. rbind get2bytes (\<lambda>k.
         rloop (unat k) (read_code_attribute p)
           (mb\<lparr>maxstack := ucast ms, nlocals := ucast nl, code_length := len, code := bytes,
             exception_table_length := unat n,
             exception_table := (if n = 0 then exception_table mb else xs)\<rparr>)))))))"

text \<open>
  Signature2ArgsSize: the words the arguments take. 0 for a malformed signature; None when the
  scan runs off the end of the string.
\<close>

definition chr :: "char \<Rightarrow> u8" where "chr c = of_char c"

lemma dropWhile_shorter: "dropWhile P xs = y # ys \<Longrightarrow> length ys < length xs"
  using length_dropWhile_le [of P xs] by simp

function args_scan :: "u8 list \<Rightarrow> u32 \<Rightarrow> u32 option" where
  "args_scan [] n = Some 0"
| "args_scan (c # cs) n =
     (if c = chr CHR '')'' then Some n
      else if c \<in> set (map chr ''ZBCSIF'') then args_scan cs (n + 1)
      else if c = chr CHR ''L'' then
        (case dropWhile (\<lambda>d. d \<noteq> chr CHR '';'') (c # cs) of [] \<Rightarrow> None | _ # r \<Rightarrow> args_scan r (n + 1))
      else if c = chr CHR ''['' then
        (case dropWhile (\<lambda>d. d = chr CHR ''['') cs of [] \<Rightarrow> None
         | d # r \<Rightarrow> if d = chr CHR ''L''
             then (case dropWhile (\<lambda>d. d \<noteq> chr CHR '';'') (d # r) of [] \<Rightarrow> None | _ # r \<Rightarrow> args_scan r (n + 1))
             else args_scan r (n + 1))
      else if c = chr CHR ''D'' \<or> c = chr CHR ''J'' then args_scan cs (n + 2)
      else if c = chr CHR ''('' then args_scan cs n
      else Some 0)"
  by pat_completeness auto

termination
  by (relation "measure (\<lambda>(cs, n). length cs)") (auto dest!: dropWhile_shorter split: if_splits)

definition Signature2ArgsSize :: "u8 list \<Rightarrow> u32 option" where
  "Signature2ArgsSize s = args_scan (takeWhile (\<lambda>c. c \<noteq> 0) s) 0"

definition read_method_attribute :: "u16 \<Rightarrow> cp_pool \<Rightarrow> methodblock \<Rightarrow> methodblock reader" where
  "read_method_attribute minor p mb =
     rbind (getAsciz p) (\<lambda>(nm, _).
       if is_str nm ''Code'' \<and> access (fb mb) AND (ACC_NATIVE OR ACC_ABSTRACT) = 0 then ReadInCode minor p mb
       else rbind get4bytes (\<lambda>len. rbind (skip_bytes len) (\<lambda>_. rreturn mb)))"

definition new_method :: "fieldblock \<Rightarrow> u32 \<Rightarrow> methodblock" where
  "new_method f n = \<lparr>fb = f, code = [], code_length = 0, exception_table = [], exception_table_length = 0,
     line_number_table = [], line_number_table_length = 0, localvar_table = [], localvar_table_length = 0,
     args_size = ucast (n + (if access f AND ACC_STATIC \<noteq> 0 then 0 else 1)), maxstack = 0, nlocals = 0\<rparr>"

definition read_method :: "u16 \<Rightarrow> cp_pool \<Rightarrow> methodblock reader" where
  "read_method minor p =
     rbind (read_member p) (\<lambda>f.
       case Signature2ArgsSize (signature f) of None \<Rightarrow> rfail Undefined_access
       | Some n \<Rightarrow> rbind get2bytes (\<lambda>k. rloop (unat k) (read_method_attribute minor p) (new_method f n)))"

section \<open>Classes\<close>

record class_class =
  major_version :: u16
  minor_version :: u16
  class_name :: "u8 list"
  class_nameIndex :: u16
  super_name :: "u8 list"
  superNameIndex :: u16
  source_name :: "u8 list option"
  pool :: cp_pool
  class_access :: u16
  implements_list :: "u16 list"
  class_fields :: "fieldblock list"
  class_methods :: "methodblock list"
  has_clinit :: bool

definition read_class_attribute :: "cp_pool \<Rightarrow> u8 list option \<Rightarrow> u8 list option reader" where
  "read_class_attribute p src =
     rbind (getAsciz p) (\<lambda>(nm, _). rbind get4bytes (\<lambda>len.
       if is_str nm ''SourceFile'' then
         rbind (rcheck (len = 2) Bad_value_size) (\<lambda>_. rbind (getAsciz p) (\<lambda>(s, _). rreturn (Some s)))
       else rbind (skip_bytes len) (\<lambda>_. rreturn src)))"

text \<open>The constant of the class itself becomes a pointer to it; a class without a super class is its own.\<close>

definition read_names :: "cp_pool \<Rightarrow> (cp_pool \<times> (u8 list \<times> u16) \<times> (u8 list \<times> u16)) reader" where
  "read_names p =
     rbind get2bytes (\<lambda>i. rbind (getAscizFromClass p i) (\<lambda>nm.
       let p = set_cp (unat i) (type_table p ! unat i OR RESOLVED) CpThisClass p in
       rbind get2bytes (\<lambda>j. if 0 < j then rbind (getAscizFromClass p j) (\<lambda>sup. rreturn (p, nm, sup))
         else rreturn (p, nm, nm))))"

definition read_class :: "class_class reader" where
  "read_class =
     rbind get4bytes (\<lambda>magic. rbind (rcheck (magic = 0xCAFEBABE) Bad_magic) (\<lambda>_.
     rbind get2bytes (\<lambda>minor. rbind get2bytes (\<lambda>major. rbind (rcheck (major = 45) Bad_version) (\<lambda>_.
     rbind LoadConstantPool (\<lambda>(p, clinit). rbind get2bytes (\<lambda>a. rbind (read_names p) (\<lambda>(p, nm, sup).
     rbind get2bytes (\<lambda>n. rbind (rtimes (unat n) get2bytes) (\<lambda>ifs.
     rbind get2bytes (\<lambda>n. rbind (rtimes (unat n) (read_field p)) (\<lambda>fs.
     rbind get2bytes (\<lambda>n. rbind (rtimes (unat n) (read_method (ucast minor) p)) (\<lambda>ms.
     rbind get2bytes (\<lambda>n. rbind (rloop (unat n) (read_class_attribute p) None) (\<lambda>src.
       rreturn \<lparr>major_version = ucast major, minor_version = ucast minor, class_name = fst nm,
         class_nameIndex = snd nm, super_name = fst sup, superNameIndex = snd sup, source_name = src, pool = p,
         class_access = ucast (a AND ACC_WRITTEN_FLAGS), implements_list = map ucast ifs, class_fields = fs, class_methods = ms,
         has_clinit = clinit\<rparr>))))))))))))))))"

definition createInternalClass :: "u8 list \<Rightarrow> class_error + class_class" where
  "createInternalClass bs = (case read_class bs 0 of Inl e \<Rightarrow> Inl e | Inr (c, _) \<Rightarrow> Inr c)"

end
