(* ===== verification/Class_Codec.thy ===== *)
theory Class_Codec
  imports Class_Loader "HOL-Library.Sublist"
begin

text \<open>
  How readers are proved against the format they read. reads m bs x: wherever the bytes bs stand
  in a file, m consumes exactly them and returns x, and on a file that ends inside them m reports
  a truncated file. The two locales are the interfaces the readers of the class file are built
  on: a codec reads one value, an update\_codec folds one into a structure.
\<close>

definition reads :: "'a reader \<Rightarrow> u8 list \<Rightarrow> 'a \<Rightarrow> bool" where
  "reads m bs x \<longleftrightarrow>
     (\<forall>pre rest. m (pre @ bs @ rest) (int (length pre)) = Inr (x, int (length pre) + int (length bs))) \<and>
     (\<forall>pre q. strict_prefix q bs \<longrightarrow> m (pre @ q) (int (length pre)) = Inl Truncated_file)"

lemma readsD: "reads m bs x \<Longrightarrow> m (pre @ bs @ rest) (int (length pre)) = Inr (x, int (length pre) + int (length bs))"
  "reads m bs x \<Longrightarrow> strict_prefix q bs \<Longrightarrow> m (pre @ q) (int (length pre)) = Inl Truncated_file"
  by (simp_all add: reads_def)

lemma strict_prefix_shorter: "strict_prefix q bs \<Longrightarrow> length q < length bs"
  by (rule prefix_length_less)

lemma strict_prefix_append_cases:
  "strict_prefix q (bs @ cs) \<Longrightarrow> strict_prefix q bs \<or> (\<exists>r. q = bs @ r \<and> strict_prefix r cs)"
  by (auto simp: strict_prefix_def prefix_append)

lemma reads_return: "reads (rreturn x) [] x"
  by (simp add: reads_def rreturn_def)

lemma reads_bind:
  assumes "reads m bs x" "reads (k x) cs y"
  shows "reads (rbind m k) (bs @ cs) y"
proof -
  have "rbind m k (pre @ (bs @ cs) @ rest) (int (length pre)) = Inr (y, int (length pre) + int (length (bs @ cs)))"
    for pre rest
    using readsD(1) [OF assms(1), of pre "cs @ rest"] readsD(1) [OF assms(2), of "pre @ bs" rest]
    by (simp add: rbind_def)
  moreover have "rbind m k (pre @ q) (int (length pre)) = Inl Truncated_file" if "strict_prefix q (bs @ cs)" for pre q
    using strict_prefix_append_cases [OF that]
  proof (elim disjE exE conjE)
    assume "strict_prefix q bs"
    then show ?thesis using readsD(2) [OF assms(1)] by (simp add: rbind_def)
  next
    fix r assume r: "q = bs @ r" "strict_prefix r cs"
    then show ?thesis
      using readsD(1) [OF assms(1), of pre r] readsD(2) [OF assms(2) r(2), of "pre @ bs"] by (simp add: rbind_def)
  qed
  ultimately show ?thesis by (simp add: reads_def)
qed

lemma reads_bind_return:
  assumes "reads m bs x" "y = f x"
  shows "reads (rbind m (\<lambda>x. rreturn (f x))) bs y"
proof -
  have "reads (rbind m (\<lambda>x. rreturn (f x))) (bs @ []) (f x)" by (rule reads_bind [OF assms(1) reads_return])
  then show ?thesis using assms(2) by simp
qed

lemma reads_check: "b \<Longrightarrow> reads (k ()) bs y \<Longrightarrow> reads (rbind (rcheck b e) k) bs y"
  by (simp add: rcheck_def rbind_def rreturn_def reads_def)

lemma reads_bytes: "length bs = n \<Longrightarrow> reads (rbytes n) bs bs"
  by (auto simp: reads_def rbytes_def dest: strict_prefix_shorter)

section \<open>Numbers\<close>

definition put1 :: "u32 \<Rightarrow> u8 list" where "put1 v = drop 3 (be_bytes v)"
definition put2 :: "u32 \<Rightarrow> u8 list" where "put2 v = drop 2 (be_bytes v)"

lemma length_put [simp]: "length (put1 v) = 1" "length (put2 v) = 2"
  by (simp_all add: put1_def put2_def)

lemma be_word_put2: "be_word (put2 v) = v AND 0xFFFF" and be_word_put1: "be_word (put1 v) = v AND 0xFF"
proof -
  have m: "(0xFFFF :: u32) = mask 16" "(0xFF :: u32) = mask 8" by (simp_all add: mask_eq_exp_minus_1)
  show "be_word (put2 v) = v AND 0xFFFF"
    unfolding m by (rule bit_word_eqI) (auto simp: put2_def be_bytes_def bit_simps)
  show "be_word (put1 v) = v AND 0xFF"
    unfolding m by (rule bit_word_eqI) (auto simp: put1_def be_bytes_def bit_simps)
qed

lemma mask_small: "unat (v :: u32) < 65536 \<Longrightarrow> v AND 0xFFFF = v" "unat v < 256 \<Longrightarrow> v AND 0xFF = v"
proof -
  have m: "(0xFFFF :: u32) = mask 16" "(0xFF :: u32) = mask 8" by (simp_all add: mask_eq_exp_minus_1)
  show "unat v < 65536 \<Longrightarrow> v AND 0xFFFF = v" "unat v < 256 \<Longrightarrow> v AND 0xFF = v"
    unfolding m take_bit_eq_mask [symmetric] by (rule take_bit_small, simp)+
qed

lemma reads_get:
  "unat v < 256 \<Longrightarrow> reads get1byte (put1 v) v"
  "unat v < 65536 \<Longrightarrow> reads get2bytes (put2 v) v"
  "reads get4bytes (be_bytes v) v"
proof -
  show "reads get1byte (put1 v) v" if "unat v < 256"
    unfolding get1byte_def
    by (rule reads_bind_return [OF reads_bytes]) (simp, simp only: be_word_put1 mask_small(2) [OF that])
  show "reads get2bytes (put2 v) v" if "unat v < 65536"
    unfolding get2bytes_def
    by (rule reads_bind_return [OF reads_bytes]) (simp, simp only: be_word_put2 mask_small(1) [OF that])
  show "reads get4bytes (be_bytes v) v"
    unfolding get4bytes_def by (rule reads_bind_return [OF reads_bytes]) simp_all
qed

lemma unat_count [simp]: "n < 2 ^ 32 \<Longrightarrow> unat (of_nat n :: u32) = n"
  by (simp add: unat_of_nat take_bit_nat_eq_self)

lemma sint_count: "n < 2 ^ 31 \<Longrightarrow> sint (of_nat n :: u32) = int n"
  by transfer (simp add: signed_take_bit_int_eq_self)

lemma reads_skip: "length bs < 2 ^ 31 \<Longrightarrow> reads (skip_bytes (of_nat (length bs))) bs ()"
  by (auto simp: reads_def skip_bytes_def sint_count dest: strict_prefix_shorter)

lemma reads_getN: "length bs < 2 ^ 31 \<Longrightarrow> reads (getNbytes (of_nat (length bs))) bs bs"
  by (auto simp: reads_def getNbytes_def rbytes_def sint_count dest: strict_prefix_shorter)

section \<open>Attributes of a stated length\<close>

definition put_sized :: "u8 list \<Rightarrow> u8 list" where
  "put_sized bs = be_bytes (of_nat (length bs)) @ bs"

lemma reads_sized:
  assumes "reads m bs x" "length bs < 2 ^ 31"
  shows "reads (sized e m) (put_sized bs) x"
proof -
  have "reads (rbind rpos (\<lambda>ptr. rbind m (\<lambda>x. rbind rpos (\<lambda>q.
      rbind (rcheck (q = ptr + sint (of_nat (length bs) :: u32)) e) (\<lambda>_. rreturn x))))) bs x"
    using readsD [OF assms(1)]
    by (auto simp: reads_def rbind_def rpos_def rcheck_def rreturn_def sint_count [OF assms(2)])
  then show ?thesis
    unfolding sized_def put_sized_def by (rule reads_bind [OF reads_get(3)])
qed

lemma reads_skip_sized: "length bs < 2 ^ 31 \<Longrightarrow> reads (rbind get4bytes (\<lambda>len. rbind (skip_bytes len) (\<lambda>_. rreturn x))) (put_sized bs) x"
  unfolding put_sized_def by (rule reads_bind [OF reads_get(3)], rule reads_bind_return [OF reads_skip]) simp_all

section \<open>The interfaces\<close>

locale codec =
  fixes put :: "'a \<Rightarrow> u8 list"
    and get :: "'b reader"
    and val :: "'a \<Rightarrow> 'b"
    and ok :: "'a \<Rightarrow> bool"
  assumes law: "ok a \<Longrightarrow> reads get (put a) (val a)"
begin

lemma times: "\<forall>a \<in> set xs. ok a \<Longrightarrow> reads (rtimes (length xs) get) (concat (map put xs)) (map val xs)"
proof (induction xs)
  case Nil
  then show ?case by (simp add: reads_return)
next
  case (Cons a xs)
  have "reads (rbind get (\<lambda>x. rbind (rtimes (length xs) get) (\<lambda>ys. rreturn (x # ys))))
      (put a @ concat (map put xs)) (val a # map val xs)"
    using Cons by (intro reads_bind [OF law] reads_bind_return) simp_all
  then show ?case by simp
qed

text \<open>A count of two bytes and that many values.\<close>

lemma counted:
  assumes "\<forall>a \<in> set xs. ok a" "length xs < 65536" "reads (k (of_nat (length xs)) (map val xs)) bs y"
  shows "reads (rbind get2bytes (\<lambda>n. rbind (rtimes (unat n) get) (k n)))
    (put2 (of_nat (length xs)) @ concat (map put xs) @ bs) y"
  using assms by (intro reads_bind [OF reads_get(2)] reads_bind [where x = "map val xs"]) (simp_all add: times)

end

locale update_codec =
  fixes put :: "'a \<Rightarrow> u8 list"
    and step :: "'s \<Rightarrow> 's reader"
    and app :: "'a \<Rightarrow> 's \<Rightarrow> 's"
    and ok :: "'a \<Rightarrow> bool"
    and inv :: "'s \<Rightarrow> bool"
  assumes law: "inv s \<Longrightarrow> ok a \<Longrightarrow> reads (step s) (put a) (app a s)"
    and keep: "inv s \<Longrightarrow> ok a \<Longrightarrow> inv (app a s)"
begin

lemma loop: "inv s \<Longrightarrow> \<forall>a \<in> set xs. ok a \<Longrightarrow> reads (rloop (length xs) step s) (concat (map put xs)) (fold app xs s)"
proof (induction xs arbitrary: s)
  case Nil
  then show ?case by (simp add: reads_return)
next
  case (Cons a xs)
  have "reads (rbind (step s) (\<lambda>s. rloop (length xs) step s)) (put a @ concat (map put xs)) (fold app xs (app a s))"
    using Cons keep by (intro reads_bind [OF law]) simp_all
  then show ?case by simp
qed

lemma counted_then:
  assumes "inv s" "\<forall>a \<in> set xs. ok a" "length xs < 65536" "reads (k (fold app xs s)) bs y"
  shows "reads (rbind get2bytes (\<lambda>n. rbind (rloop (unat n) step s) k))
    (put2 (of_nat (length xs)) @ concat (map put xs) @ bs) y"
  using assms by (intro reads_bind [OF reads_get(2)] reads_bind [where x = "fold app xs s"]) (simp_all add: loop)

lemma counted:
  assumes "inv s" "\<forall>a \<in> set xs. ok a" "length xs < 65536"
  shows "reads (rbind get2bytes (\<lambda>n. rloop (unat n) step s)) (put2 (of_nat (length xs)) @ concat (map put xs)) (fold app xs s)"
  using assms by (intro reads_bind [OF reads_get(2)]) (simp_all add: loop)

end

end
