(* ===== verification/Class_File.thy ===== *)
theory Class_File
  imports Class_Codec
begin

text \<open>
  The class file format, as data with its encoding, against the reader of loader.c. Every part is
  an instance of codec or update\_codec; a well-formed file is read to the structure it
  describes, and every proper prefix of it is reported as truncated.
\<close>

section \<open>Numbers of two bytes\<close>

definition u2 :: "u16 \<Rightarrow> u8 list" where "u2 v = put2 (ucast v)"

lemma unat_small [simp]: "unat (ucast (v :: u16) :: u32) < 65536" "unat (ucast (t :: u8) :: u32) < 256"
proof -
  have "unat v < 2 ^ 16" "unat t < 2 ^ 8" using unsigned_less [of v] unsigned_less [of t] by simp_all
  then show "unat (ucast v :: u32) < 65536" "unat (ucast t :: u32) < 256"
    unfolding unsigned_ucast_eq by (simp_all add: take_bit_nat_def)
qed

lemma unat_u16 [simp]: "unat (v :: u16) < 65536" "unat (ucast (v :: u16) :: u32) = unat v" "ucast (ucast v :: u32) = v"
proof -
  have "unat v < 2 ^ 16" using unsigned_less [of v] by simp
  then show "unat v < 65536" by simp
  from \<open>unat v < 2 ^ 16\<close> show "unat (ucast v :: u32) = unat v" unfolding unsigned_ucast_eq by (simp add: take_bit_nat_def)
  show "ucast (ucast v :: u32) = v" by (rule bit_word_eqI) (simp add: bit_simps)
qed

lemma length_u2 [simp]: "length (u2 v) = 2" by (simp add: u2_def)

text \<open>One value and the rest of a reader.\<close>

lemma reads_u2: "reads (k (ucast v)) bs y \<Longrightarrow> reads (rbind get2bytes k) (u2 v @ bs) y"
  unfolding u2_def by (rule reads_bind [OF reads_get(2)]) simp_all

lemma reads_u2_end: "reads (k (ucast v)) [] y \<Longrightarrow> reads (rbind get2bytes k) (u2 v) y"
  using reads_u2 [of k v "[]" y] by simp

lemma reads_u4: "reads (k v) bs y \<Longrightarrow> reads (rbind get4bytes k) (be_bytes v @ bs) y"
  by (rule reads_bind [OF reads_get(3)])

lemma reads_tag: "reads (k (ucast t)) bs y \<Longrightarrow> reads (rbind get1byte k) (put1 (ucast (t :: u8)) @ bs) y"
  by (rule reads_bind [OF reads_get(1)]) simp_all

lemma reads_tag_1: "reads (k 1) bs y \<Longrightarrow> reads (rbind get1byte k) (put1 1 @ bs) y"
  by (rule reads_bind [OF reads_get(1)]) simp_all

lemma reads_count: "n < 65536 \<Longrightarrow> reads (k (of_nat n)) bs y \<Longrightarrow> reads (rbind get2bytes k) (put2 (of_nat n) @ bs) y"
  by (rule reads_bind [OF reads_get(2)]) simp_all

lemma reads_skip_n:
  "length bs < 2 ^ 31 \<Longrightarrow> v = of_nat (length bs) \<Longrightarrow> reads (k ()) cs y \<Longrightarrow> reads (rbind (skip_bytes v) k) (bs @ cs) y"
  using reads_bind [OF reads_skip, of bs k cs y] by simp

lemma reads_getN_n:
  "length bs < 2 ^ 31 \<Longrightarrow> reads (k bs) cs y \<Longrightarrow> reads (rbind (getNbytes (of_nat (length bs))) k) (bs @ cs) y"
  using reads_bind [OF reads_getN, of bs k cs y] by simp

lemma reads_skip_fixed:
  "reads (k ()) cs y \<Longrightarrow> reads (rbind (skip_bytes 2) k) (u2 v @ cs) y"
  "reads (k ()) cs y \<Longrightarrow> reads (rbind (skip_bytes 4) k) (be_bytes w @ cs) y"
  "reads (k ()) cs y \<Longrightarrow> reads (rbind (skip_bytes 8) k) (be_bytes w @ be_bytes w' @ cs) y"
  using reads_skip_n [of "u2 v" 2 k cs y] reads_skip_n [of "be_bytes w" 4 k cs y]
    reads_skip_n [of "be_bytes w @ be_bytes w'" 8 k cs y] by simp_all

text \<open>Two passes over the same bytes.\<close>

lemma reads_again:
  assumes "reads m bs x" "reads k bs y"
  shows "reads (rbind rpos (\<lambda>p. rbind m (\<lambda>_. rbind (rseek p) (\<lambda>_. k)))) bs y"
  using readsD [OF assms(1)] readsD [OF assms(2)] by (auto simp: reads_def rbind_def rpos_def rseek_def)

section \<open>Constants\<close>

datatype entry = E_Utf8 "u8 list" | E_Word u8 u32 | E_Wide u8 u32 u32 | E_Ref u8 u16 | E_Pair u8 u32

fun entry_bytes :: "entry \<Rightarrow> u8 list" where
  "entry_bytes (E_Utf8 s) = put1 1 @ put2 (of_nat (length s)) @ s"
| "entry_bytes (E_Word t v) = put1 (ucast t) @ be_bytes v"
| "entry_bytes (E_Wide t h l) = put1 (ucast t) @ be_bytes h @ be_bytes l"
| "entry_bytes (E_Ref t v) = put1 (ucast t) @ u2 v"
| "entry_bytes (E_Pair t v) = put1 (ucast t) @ be_bytes v"

fun entry_ok :: "entry \<Rightarrow> bool" where
  "entry_ok (E_Utf8 s) \<longleftrightarrow> length s < 65536"
| "entry_ok (E_Word t v) \<longleftrightarrow> t = 3 \<or> t = 4"
| "entry_ok (E_Wide t h l) \<longleftrightarrow> t = 5 \<or> t = 6"
| "entry_ok (E_Ref t v) \<longleftrightarrow> t = 7 \<or> t = 8"
| "entry_ok (E_Pair t v) \<longleftrightarrow> t = 9 \<or> t = 10 \<or> t = 11 \<or> t = 12"

fun entry_cells :: "entry \<Rightarrow> (u8 \<times> cp_item) list" where
  "entry_cells (E_Utf8 s) = [(1 OR RESOLVED, CpUtf8 s)]"
| "entry_cells (E_Word t v) = [(t OR RESOLVED, CpInt v)]"
| "entry_cells (E_Wide t h l) = [(t OR RESOLVED, CpInt h), (RESOLVED, CpInt l)]"
| "entry_cells (E_Ref t v) = [(t, CpInt (ucast v))]"
| "entry_cells (E_Pair t v) = [(t, CpInt v)]"

definition cells :: "entry list \<Rightarrow> (u8 \<times> cp_item) list" where
  "cells es = concat (map entry_cells es)"

definition pool_of :: "entry list \<Rightarrow> cp_pool" where
  "pool_of es = \<lparr>type_table = 0 # map fst (cells es), cp_items = CpTypeTable # map snd (cells es)\<rparr>"

fun names_clinit :: "entry list \<Rightarrow> bool" where
  "names_clinit [] = False"
| "names_clinit (E_Utf8 s # es) = (is_str s ''<clinit>'' \<or> names_clinit es)"
| "names_clinit (_ # es) = names_clinit es"

lemma cells_simps [simp]: "cells [] = []" "cells (e # es) = entry_cells e @ cells es"
  by (simp_all add: cells_def)

lemma scan_pool_law:
  "\<forall>e \<in> set es. entry_ok e \<Longrightarrow> reads (scan_pool (length (cells es))) (concat (map entry_bytes es)) ()"
proof (induction es)
  case Nil
  then show ?case by (simp add: reads_return)
next
  case (Cons e es)
  have ih: "reads (scan_pool (length (cells es))) (concat (map entry_bytes es)) ()" using Cons by simp
  show ?case
  proof (cases e)
    case (E_Utf8 s)
    have "reads (rbind get2bytes (\<lambda>len. rbind (skip_bytes len) (\<lambda>_. scan_pool (length (cells es)))))
        (put2 (of_nat (length s)) @ s @ concat (map entry_bytes es)) ()"
      using ih Cons.prems E_Utf8 by (intro reads_count reads_skip_n) simp_all
    then show ?thesis using E_Utf8 by (simp add: reads_tag_1)
  qed (use Cons.prems ih in \<open>auto intro!: reads_tag reads_skip_fixed\<close>)
qed

text \<open>The pool with its first entries in place.\<close>

definition part :: "(u8 \<times> cp_item) list \<Rightarrow> nat \<Rightarrow> cp_pool" where
  "part cs n = \<lparr>type_table = map fst cs @ replicate n 0, cp_items = map snd cs @ replicate n (CpInt 0)\<rparr>"

lemma set_part: "i = length cs \<Longrightarrow> set_cp i t x (part cs (Suc n)) = part (cs @ [(t, x)]) n"
  by (simp add: part_def set_cp_def list_update_append)

lemma empty_part: "empty_pool (Suc n) = part [(0, CpTypeTable)] n"
  by (simp add: empty_pool_def part_def)

lemma fill_entry:
  assumes "entry_ok e" "i = length cs"
    "reads (fill_pool k (i + length (entry_cells e)) (part (cs @ entry_cells e) k) (clinit \<or> names_clinit [e])) bs y"
  shows "reads (fill_pool (length (entry_cells e) + k) i (part cs (length (entry_cells e) + k)) clinit) (entry_bytes e @ bs) y"
proof (cases e)
  case (E_Utf8 s)
  let ?next = "\<lambda>s. fill_pool k (Suc i) (set_cp i (1 OR RESOLVED) (CpUtf8 s) (part cs (Suc k))) (clinit \<or> is_str s ''<clinit>'')"
  have "reads (rbind get2bytes (\<lambda>len. rbind (getNbytes len) ?next)) (put2 (of_nat (length s)) @ s @ bs) y"
    using assms E_Utf8 by (intro reads_count reads_getN_n) (simp_all add: set_part)
  then show ?thesis using E_Utf8 by (simp add: reads_tag_1 Let_def)
next
  case (E_Wide t h l)
  have "\<not> length (type_table (part cs (Suc (Suc k)))) \<le> Suc (length cs)" by (simp add: part_def)
  then show ?thesis using assms E_Wide by (auto intro!: reads_tag reads_u4 simp: Let_def set_part)
qed (use assms in \<open>auto intro!: reads_tag reads_u2 reads_u4 simp: Let_def set_part\<close>)

lemma names_clinit_Cons: "names_clinit (e # es) \<longleftrightarrow> names_clinit [e] \<or> names_clinit es"
  by (cases e) simp_all

lemma fill_pool_law:
  "\<forall>e \<in> set es. entry_ok e \<Longrightarrow> i = length cs \<Longrightarrow>
   reads (fill_pool (length (cells es)) i (part cs (length (cells es))) clinit) (concat (map entry_bytes es))
     (part (cs @ cells es) 0, clinit \<or> names_clinit es)"
proof (induction es arbitrary: cs i clinit)
  case Nil
  then show ?case by (simp add: reads_return)
next
  case (Cons e es)
  show ?case
    using Cons.prems Cons.IH [of "i + length (entry_cells e)" "cs @ entry_cells e" "clinit \<or> names_clinit [e]"]
    by (subst names_clinit_Cons) (auto intro!: fill_entry simp: disj_assoc)
qed

definition pool_bytes :: "entry list \<Rightarrow> u8 list" where
  "pool_bytes es = put2 (of_nat (Suc (length (cells es)))) @ concat (map entry_bytes es)"

definition pool_ok :: "entry list \<Rightarrow> bool" where
  "pool_ok es \<longleftrightarrow> list_all entry_ok es \<and> length (cells es) < 65535"

lemma pool_law: "pool_ok es \<Longrightarrow> reads LoadConstantPool (pool_bytes es) (pool_of es, names_clinit es)"
proof -
  assume ok: "pool_ok es"
  have n: "unat (of_nat (Suc (length (cells es))) :: u32) = Suc (length (cells es))"
    using ok by (intro unat_count) (simp add: pool_ok_def)
  have "reads (fill_pool (length (cells es)) 1 (empty_pool (Suc (length (cells es)))) False) (concat (map entry_bytes es))
      (pool_of es, names_clinit es)"
    using fill_pool_law [of es 1 "[(0, CpTypeTable)]" False] ok
    by (simp add: empty_part pool_ok_def list_all_iff part_def pool_of_def)
  then show ?thesis
    unfolding LoadConstantPool_def pool_bytes_def using ok
    by (intro reads_count reads_check)
      (simp_all only: n diff_Suc_1, simp_all add: pool_ok_def list_all_iff reads_again [OF scan_pool_law])
qed

section \<open>Strings of the pool\<close>

fun utf8_of :: "cp_item \<Rightarrow> u8 list option" where
  "utf8_of (CpUtf8 s) = Some s"
| "utf8_of _ = None"

definition str_ok :: "cp_pool \<Rightarrow> u16 \<Rightarrow> bool" where
  "str_ok p i \<longleftrightarrow> 0 < i \<and> unat i < length (type_table p) \<and> type_table p ! unat i = 1 OR RESOLVED
     \<and> utf8_of (cp_items p ! unat i) \<noteq> None"

definition str_at :: "cp_pool \<Rightarrow> u16 \<Rightarrow> u8 list" where
  "str_at p i = the (utf8_of (cp_items p ! unat i))"

lemma pos_u16 [simp]: "0 < unat (i :: u16) \<longleftrightarrow> 0 < i"
  by (simp add: unat_gt_0 word_neq_0_conv)

lemma cp_string_law:
  assumes "str_ok p i" "v = int (unat i)"
  shows "reads (cp_string p v) [] (str_at p i, i)"
proof -
  obtain s where s: "cp_items p ! unat i = CpUtf8 s"
    using assms(1) by (auto simp: str_ok_def elim: utf8_of.elims)
  define n where "n = unat i"
  have "0 < n" "n < length (type_table p)" "type_table p ! n = 1 OR RESOLVED" "cp_items p ! n = CpUtf8 s" "v = int n"
    using assms s by (simp_all add: str_ok_def n_def del: of_nat_unat)
  moreover have "of_int (int n) = i" "str_at p i = s" by (simp_all add: n_def str_at_def s)
  ultimately have "cp_string p v = rreturn (str_at p i, i)" by (simp add: cp_string_def)
  then show ?thesis by (simp add: reads_return)
qed

lemma getAsciz_law: "str_ok p i \<Longrightarrow> reads (getAsciz p) (u2 i) (str_at p i, i)"
  unfolding getAsciz_def by (intro reads_u2_end cp_string_law) (assumption, simp only: uint_nat unat_u16)

lemma reads_string_end: "str_ok p i \<Longrightarrow> reads (k (str_at p i, i)) [] y \<Longrightarrow> reads (rbind (getAsciz p) k) (u2 i) y"
  using reads_bind [OF getAsciz_law, of p i k "[]" y] by simp

lemma reads_string: "str_ok p i \<Longrightarrow> reads (k (str_at p i, i)) bs y \<Longrightarrow> reads (rbind (getAsciz p) k) (u2 i @ bs) y"
  by (rule reads_bind [OF getAsciz_law])

section \<open>Fields\<close>

datatype member = Member u16 u16 u16

fun member_bytes :: "member \<Rightarrow> u8 list" where
  "member_bytes (Member a n s) = u2 a @ u2 n @ u2 s"

fun member_ok :: "cp_pool \<Rightarrow> member \<Rightarrow> bool" where
  "member_ok p (Member a n s) \<longleftrightarrow> str_ok p n \<and> str_ok p s"

fun member_block :: "cp_pool \<Rightarrow> member \<Rightarrow> fieldblock" where
  "member_block p (Member a n s) =
     \<lparr>access = a AND 0x0FFF, name = str_at p n, nameIndex = n, signature = str_at p s, sigIndex = s, offset = 0\<rparr>"

lemma written_flags: "ucast ((ucast a :: u32) AND ACC_WRITTEN_FLAGS) = (a :: u16) AND 0x0FFF"
proof -
  have "(0x0FFF :: u16) = mask 12" "(0x0FFF :: u32) = mask 12" by (simp_all add: mask_eq_exp_minus_1)
  then show ?thesis
    unfolding ACC_WRITTEN_FLAGS_def by (simp only:) (rule bit_word_eqI, auto simp: bit_simps)
qed

lemma member_law: "member_ok p m \<Longrightarrow> reads (read_member p) (member_bytes m) (member_block p m)"
proof (cases m)
  case (Member a n s)
  assume "member_ok p m"
  then have ok: "str_ok p n" "str_ok p s" using Member by simp_all
  show ?thesis
    unfolding read_member_def Member member_bytes.simps
    by (rule reads_u2, rule reads_string [OF ok(1)], unfold case_prod_conv, rule reads_string_end [OF ok(2)])
      (simp add: written_flags reads_return)
qed

text \<open>An attribute of any kind is a name and sized contents.\<close>

datatype field_attribute = FA_Value u16 u16 | FA_Other u16 "u8 list"

fun field_attribute_bytes :: "field_attribute \<Rightarrow> u8 list" where
  "field_attribute_bytes (FA_Value n v) = u2 n @ put_sized (u2 v)"
| "field_attribute_bytes (FA_Other n bs) = u2 n @ put_sized bs"

fun field_attribute_ok :: "cp_pool \<Rightarrow> bool \<Rightarrow> field_attribute \<Rightarrow> bool" where
  "field_attribute_ok p static (FA_Value n v) \<longleftrightarrow> str_ok p n \<and> static \<and> is_str (str_at p n) ''ConstantValue''"
| "field_attribute_ok p static (FA_Other n bs) \<longleftrightarrow>
     str_ok p n \<and> \<not> (static \<and> is_str (str_at p n) ''ConstantValue'') \<and> length bs < 2 ^ 31"

fun field_attribute_app :: "field_attribute \<Rightarrow> fieldblock \<Rightarrow> fieldblock" where
  "field_attribute_app (FA_Value n v) f = f\<lparr>access := access f OR ACC_VALKNOWN, offset := ucast v\<rparr>"
| "field_attribute_app (FA_Other n bs) f = f"

definition is_static :: "fieldblock \<Rightarrow> bool" where
  "is_static f \<longleftrightarrow> access f AND ACC_STATIC \<noteq> 0"

lemma reads_value: "reads (k (ucast v)) bs y \<Longrightarrow>
  reads (rbind get4bytes (\<lambda>len. rbind (rcheck (len = 2) e) (\<lambda>_. rbind get2bytes k))) (put_sized (u2 v) @ bs) y"
  unfolding put_sized_def append_assoc by (intro reads_u4 reads_check reads_u2) simp_all

interpretation field_attributes: update_codec field_attribute_bytes "read_field_attribute p" field_attribute_app
    "field_attribute_ok p static" "\<lambda>f. is_static f = static" for p static
proof
  fix f a
  assume f: "is_static f = static" and ok: "field_attribute_ok p static a"
  show "reads (read_field_attribute p f) (field_attribute_bytes a) (field_attribute_app a f)"
  proof (cases a)
    case (FA_Value n v)
    then have "str_ok p n" "access f AND ACC_STATIC \<noteq> 0 \<and> is_str (str_at p n) ''ConstantValue''"
      using ok f by (simp_all add: is_static_def)
    then show ?thesis
      using reads_value [of "\<lambda>v. rreturn (f\<lparr>access := access f OR ACC_VALKNOWN, offset := v\<rparr>)" v "[]", OF reads_return]
      by (simp add: read_field_attribute_def FA_Value reads_string)
  next
    case (FA_Other n bs)
    then have *: "str_ok p n" "(access f AND ACC_STATIC \<noteq> 0 \<and> is_str (str_at p n) ''ConstantValue'') = False"
        "length bs < 2 ^ 31"
      using ok f by (simp_all add: is_static_def)
    show ?thesis
      unfolding read_field_attribute_def FA_Other field_attribute_bytes.simps field_attribute_app.simps
      by (rule reads_string [OF *(1)]) (simp only: case_prod_conv *(2) if_False reads_skip_sized [OF *(3)])
  qed
  have "(x OR ACC_VALKNOWN) AND ACC_STATIC = x AND ACC_STATIC" for x
    by (simp add: bit.conj_disj_distrib2 ACC_VALKNOWN_def ACC_STATIC_def)
  then show "is_static (field_attribute_app a f) = static"
    using f by (cases a) (simp_all add: is_static_def)
qed

datatype field_file = Field member "field_attribute list"

fun field_bytes :: "field_file \<Rightarrow> u8 list" where
  "field_bytes (Field m as) = member_bytes m @ put2 (of_nat (length as)) @ concat (map field_attribute_bytes as)"

fun field_ok :: "cp_pool \<Rightarrow> field_file \<Rightarrow> bool" where
  "field_ok p (Field m as) \<longleftrightarrow> member_ok p m \<and> length as < 65536
     \<and> list_all (field_attribute_ok p (is_static (member_block p m))) as"

fun field_value :: "cp_pool \<Rightarrow> field_file \<Rightarrow> fieldblock" where
  "field_value p (Field m as) = fold field_attribute_app as (member_block p m)"

interpretation fields: codec field_bytes "read_field p" "field_value p" "field_ok p" for p
proof
  fix f assume ok: "field_ok p f"
  obtain m as where f: "f = Field m as" by (cases f)
  let ?static = "is_static (member_block p m)"
  have ok: "member_ok p m" "length as < 65536" "\<forall>a \<in> set as. field_attribute_ok p ?static a"
    using ok by (simp_all add: f list_all_iff)
  show "reads (read_field p) (field_bytes f) (field_value p f)"
    unfolding read_field_def f field_bytes.simps field_value.simps
    by (rule reads_bind [OF member_law [OF ok(1)]], rule field_attributes.counted [OF refl ok(3) ok(2)])
qed

end
