(* ===== verification/Class_Format.thy ===== *)
theory Class_Format
  imports Class_File
begin

text \<open>
  The format of methods and of whole class files, against read\_method and read\_class of
  loader.c: tables of a method's code, its attributes, the attributes of the class.
\<close>

section \<open>Tables of a method\<close>

fun line_bytes :: "u16 \<times> u16 \<Rightarrow> u8 list" where
  "line_bytes (a, b) = u2 a @ u2 b"

fun line_value :: "u16 \<times> u16 \<Rightarrow> lineno" where
  "line_value (a, b) = \<lparr>ln_pc = ucast a, line_number = ucast b\<rparr>"

fun local_bytes :: "u16 \<times> u16 \<times> u16 \<times> u16 \<times> u16 \<Rightarrow> u8 list" where
  "local_bytes (a, b, c, d, e) = u2 a @ u2 b @ u2 c @ u2 d @ u2 e"

fun local_value :: "u16 \<times> u16 \<times> u16 \<times> u16 \<times> u16 \<Rightarrow> localvar" where
  "local_value (a, b, c, d, e) = \<lparr>pc0 = ucast a, lv_length = ucast b, nameoff = c, sigoff = d, slot = ucast e\<rparr>"

fun catch_bytes :: "u16 \<times> u16 \<times> u16 \<times> u16 \<Rightarrow> u8 list" where
  "catch_bytes (a, b, c, d) = u2 a @ u2 b @ u2 c @ u2 d"

fun catch_value :: "u16 \<times> u16 \<times> u16 \<times> u16 \<Rightarrow> catch_frame" where
  "catch_value (a, b, c, d) = \<lparr>start_pc = ucast a, end_pc = ucast b, handler_pc = ucast c, catchType = d\<rparr>"

interpretation lines: codec line_bytes read_lineno line_value "\<lambda>_. True"
proof
  show "reads read_lineno (line_bytes x) (line_value x)" for x
    by (cases x) (auto simp: read_lineno_def intro!: reads_u2 reads_u2_end reads_return)
qed

interpretation local_vars: codec local_bytes read_localvar local_value "\<lambda>_. True"
proof
  show "reads read_localvar (local_bytes x) (local_value x)" for x
    using reads_return [of "local_value x"]
    by (cases x) (auto simp: read_localvar_def intro!: reads_u2 reads_u2_end)
qed

interpretation catches: codec catch_bytes read_catch catch_value "\<lambda>_. True"
proof
  show "reads read_catch (catch_bytes x) (catch_value x)" for x
    using reads_return [of "catch_value x"]
    by (cases x) (auto simp: read_catch_def intro!: reads_u2 reads_u2_end)
qed

definition table_bytes :: "('a \<Rightarrow> u8 list) \<Rightarrow> 'a list \<Rightarrow> u8 list" where
  "table_bytes put xs = put2 (of_nat (length xs)) @ concat (map put xs)"

lemma length_tables [simp]:
  "length (concat (map line_bytes xs)) = 4 * length xs"
  "length (concat (map local_bytes ys)) = 10 * length ys"
proof -
  have "length (line_bytes x) = 4" "length (local_bytes y) = 10" for x y by (cases x; cases y; simp)+
  then show "length (concat (map line_bytes xs)) = 4 * length xs" "length (concat (map local_bytes ys)) = 10 * length ys"
    by (induction xs, simp_all) (induction ys, simp_all)
qed

lemma count_0: "n < 65536 \<Longrightarrow> (of_nat n :: u32) = 0 \<longleftrightarrow> n = 0"
proof -
  assume "n < 65536"
  then have n: "unat (of_nat n :: u32) = n" by (intro unat_count) simp
  show ?thesis
  proof
    assume z: "(of_nat n :: u32) = 0"
    show "n = 0" using n unfolding z by simp
  qed simp
qed

section \<open>Code\<close>

datatype code_attribute =
    CA_Lines u16 "(u16 \<times> u16) list" | CA_Locals u16 "(u16 \<times> u16 \<times> u16 \<times> u16 \<times> u16) list" | CA_Other u16 "u8 list"

fun code_attribute_bytes :: "code_attribute \<Rightarrow> u8 list" where
  "code_attribute_bytes (CA_Lines n xs) = u2 n @ put_sized (table_bytes line_bytes xs)"
| "code_attribute_bytes (CA_Locals n xs) = u2 n @ put_sized (table_bytes local_bytes xs)"
| "code_attribute_bytes (CA_Other n bs) = u2 n @ put_sized bs"

fun code_attribute_ok :: "cp_pool \<Rightarrow> code_attribute \<Rightarrow> bool" where
  "code_attribute_ok p (CA_Lines n xs) \<longleftrightarrow> str_ok p n \<and> is_str (str_at p n) ''LineNumberTable'' \<and> length xs < 65536"
| "code_attribute_ok p (CA_Locals n xs) \<longleftrightarrow>
     str_ok p n \<and> \<not> is_str (str_at p n) ''LineNumberTable'' \<and> is_str (str_at p n) ''LocalVariableTable'' \<and> length xs < 65536"
| "code_attribute_ok p (CA_Other n bs) \<longleftrightarrow>
     str_ok p n \<and> \<not> is_str (str_at p n) ''LineNumberTable'' \<and> \<not> is_str (str_at p n) ''LocalVariableTable'' \<and> length bs < 2 ^ 31"

fun code_attribute_app :: "code_attribute \<Rightarrow> methodblock \<Rightarrow> methodblock" where
  "code_attribute_app (CA_Lines n xs) mb = mb\<lparr>line_number_table_length := length xs,
     line_number_table := (if xs = [] then line_number_table mb else map line_value xs)\<rparr>"
| "code_attribute_app (CA_Locals n xs) mb = mb\<lparr>localvar_table_length := length xs,
     localvar_table := (if xs = [] then localvar_table mb else map local_value xs)\<rparr>"
| "code_attribute_app (CA_Other n bs) mb = mb"

lemma line_table_law:
  "length xs < 65536 \<Longrightarrow> reads (ReadLineTable mb) (put_sized (table_bytes line_bytes xs)) (code_attribute_app (CA_Lines n xs) mb)"
  unfolding ReadLineTable_def table_bytes_def
  by (rule reads_sized, rule lines.counted [where bs = "[]", simplified])
    (simp_all add: count_0 reads_return)

lemma local_table_law:
  "length xs < 65536 \<Longrightarrow> reads (ReadLocalVars mb) (put_sized (table_bytes local_bytes xs)) (code_attribute_app (CA_Locals n xs) mb)"
  unfolding ReadLocalVars_def table_bytes_def
  by (rule reads_sized, rule local_vars.counted [where bs = "[]", simplified])
    (simp_all add: count_0 reads_return)

interpretation code_attributes: update_codec code_attribute_bytes "read_code_attribute p" code_attribute_app
    "code_attribute_ok p" "\<lambda>mb :: methodblock. fb mb = f" for p f
proof
  fix mb :: methodblock and a
  assume f: "fb mb = f" and ok: "code_attribute_ok p a"
  show "reads (read_code_attribute p mb) (code_attribute_bytes a) (code_attribute_app a mb)"
  proof (cases a)
    case (CA_Lines n xs)
    then show ?thesis
      using ok line_table_law [of xs mb n]
      by (simp add: read_code_attribute_def reads_string del: code_attribute_app.simps)
  next
    case (CA_Locals n xs)
    then show ?thesis
      using ok local_table_law [of xs mb n]
      by (simp add: read_code_attribute_def reads_string del: code_attribute_app.simps)
  next
    case (CA_Other n bs)
    then show ?thesis
      using ok reads_skip_sized [of bs mb] by (simp add: read_code_attribute_def reads_string)
  qed
  show "fb (code_attribute_app a mb) = f" using f by (cases a) simp_all
qed

datatype code_file = Code u16 u16 "u8 list" "(u16 \<times> u16 \<times> u16 \<times> u16) list" "code_attribute list"

definition sizes_bytes :: "u16 \<Rightarrow> u16 \<Rightarrow> u16 \<Rightarrow> nat \<Rightarrow> u8 list" where
  "sizes_bytes minor ms nl n =
     (if minor \<le> 2 then put1 (ucast ms) @ put1 (ucast nl) @ put2 (of_nat n) else u2 ms @ u2 nl @ be_bytes (of_nat n))"

definition sizes_ok :: "u16 \<Rightarrow> u16 \<Rightarrow> u16 \<Rightarrow> nat \<Rightarrow> bool" where
  "sizes_ok minor ms nl n \<longleftrightarrow> (if minor \<le> 2 then unat ms < 256 \<and> unat nl < 256 \<and> n < 65536 else n < 2 ^ 31)"

fun code_content :: "u16 \<Rightarrow> code_file \<Rightarrow> u8 list" where
  "code_content minor (Code ms nl bs cs as) = sizes_bytes minor ms nl (length bs) @ bs @
     put2 (of_nat (length cs)) @ concat (map catch_bytes cs) @ put2 (of_nat (length as)) @ concat (map code_attribute_bytes as)"

fun code_ok :: "u16 \<Rightarrow> cp_pool \<Rightarrow> code_file \<Rightarrow> bool" where
  "code_ok minor p (Code ms nl bs cs as) \<longleftrightarrow>
     sizes_ok minor ms nl (length bs) \<and> length cs < 65536 \<and> length as < 65536 \<and> list_all (code_attribute_ok p) as
     \<and> length (code_content minor (Code ms nl bs cs as)) < 2 ^ 31"

fun code_app :: "code_file \<Rightarrow> methodblock \<Rightarrow> methodblock" where
  "code_app (Code ms nl bs cs as) mb = fold code_attribute_app as
     (mb\<lparr>maxstack := ms, nlocals := nl, code_length := of_nat (length bs), code := bs, exception_table_length := length cs,
        exception_table := (if cs = [] then exception_table mb else map catch_value cs)\<rparr>)"

lemma sizes_law: "sizes_ok minor ms nl n \<Longrightarrow> reads (k (ucast ms, ucast nl, of_nat n)) bs y \<Longrightarrow>
  reads (rbind (read_sizes minor) k) (sizes_bytes minor ms nl n @ bs) y"
proof (rule reads_bind [of _ _ "(ucast ms, ucast nl, of_nat n)"])
  assume ok: "sizes_ok minor ms nl n"
  show "reads (read_sizes minor) (sizes_bytes minor ms nl n) (ucast ms, ucast nl, of_nat n)"
  proof (cases "minor \<le> 2")
    case True
    have "reads (rbind get1byte (\<lambda>a. rbind get1byte (\<lambda>b. rbind get2bytes (\<lambda>c. rreturn (a, b, c)))))
        (put1 (ucast ms) @ put1 (ucast nl) @ put2 (of_nat n) @ []) (ucast ms, ucast nl, of_nat n)"
      using ok True by (intro reads_bind [OF reads_get(1)] reads_count reads_return) (simp_all add: sizes_ok_def)
    then show ?thesis using True by (simp add: read_sizes_def sizes_bytes_def)
  next
    case False
    have "reads (rbind get2bytes (\<lambda>a. rbind get2bytes (\<lambda>b. rbind get4bytes (\<lambda>c. rreturn (a, b, c)))))
        (u2 ms @ u2 nl @ be_bytes (of_nat n) @ []) (ucast ms, ucast nl, of_nat n)"
      by (intro reads_u2 reads_u4 reads_return)
    then show ?thesis using False by (simp add: read_sizes_def sizes_bytes_def)
  qed
qed

lemma code_law: "code_ok minor p c \<Longrightarrow> reads (ReadInCode minor p mb) (put_sized (code_content minor c)) (code_app c mb)"
proof (cases c)
  case (Code ms nl bs cs as)
  assume "code_ok minor p c"
  then have ok: "sizes_ok minor ms nl (length bs)" "length cs < 65536" "length as < 65536"
      "\<forall>a \<in> set as. code_attribute_ok p a" "length (code_content minor c) < 2 ^ 31"
    by (simp_all add: Code list_all_iff)
  have n: "length bs < 2 ^ 31" using ok(5) by (simp add: Code)
  show ?thesis
    unfolding ReadInCode_def
  proof (rule reads_sized [OF _ ok(5)], unfold Code code_content.simps, rule sizes_law [OF ok(1)], unfold case_prod_conv,
      rule reads_getN_n [OF n], rule catches.counted, goal_cases)
    case 3
    show ?case
      using code_attributes.counted [of _ "fb mb" as p, OF _ ok(4,3)] ok(2)
      by (simp add: count_0 flip: zero_word_def)
  qed (use ok in simp_all)
qed

lemma fb_code_app [simp]: "fb (code_app c mb) = fb (mb :: methodblock)"
proof (cases c)
  case (Code ms nl bs cs as)
  have "fb (fold code_attribute_app as mb) = fb mb" for as and mb :: methodblock
  proof (induction as arbitrary: mb)
    case (Cons a as)
    then show ?case by (cases a) simp_all
  qed simp
  then show ?thesis by (simp add: Code)
qed

section \<open>Methods\<close>

datatype method_attribute = MA_Code u16 code_file | MA_Other u16 "u8 list"

fun method_attribute_bytes :: "u16 \<Rightarrow> method_attribute \<Rightarrow> u8 list" where
  "method_attribute_bytes minor (MA_Code n c) = u2 n @ put_sized (code_content minor c)"
| "method_attribute_bytes minor (MA_Other n bs) = u2 n @ put_sized bs"

definition has_code :: "fieldblock \<Rightarrow> bool" where
  "has_code f \<longleftrightarrow> access f AND (ACC_NATIVE OR ACC_ABSTRACT) = 0"

fun method_attribute_ok :: "u16 \<Rightarrow> cp_pool \<Rightarrow> fieldblock \<Rightarrow> method_attribute \<Rightarrow> bool" where
  "method_attribute_ok minor p f (MA_Code n c) \<longleftrightarrow>
     str_ok p n \<and> (is_str (str_at p n) ''Code'' \<and> has_code f) \<and> code_ok minor p c"
| "method_attribute_ok minor p f (MA_Other n bs) \<longleftrightarrow>
     str_ok p n \<and> \<not> (is_str (str_at p n) ''Code'' \<and> has_code f) \<and> length bs < 2 ^ 31"

fun method_attribute_app :: "method_attribute \<Rightarrow> methodblock \<Rightarrow> methodblock" where
  "method_attribute_app (MA_Code n c) mb = code_app c mb"
| "method_attribute_app (MA_Other n bs) mb = mb"

interpretation method_attributes: update_codec "method_attribute_bytes minor" "read_method_attribute minor p"
    method_attribute_app "method_attribute_ok minor p f" "\<lambda>mb :: methodblock. fb mb = f" for minor p f
proof
  fix mb :: methodblock and a
  assume f: "fb mb = f" and ok: "method_attribute_ok minor p f a"
  show "reads (read_method_attribute minor p mb) (method_attribute_bytes minor a) (method_attribute_app a mb)"
  proof (cases a)
    case (MA_Code n c)
    then show ?thesis
      using ok f code_law [of minor p c mb] by (simp add: read_method_attribute_def reads_string has_code_def)
  next
    case (MA_Other n bs)
    then have *: "str_ok p n" "(is_str (str_at p n) ''Code'' \<and> access (fb mb) AND (ACC_NATIVE OR ACC_ABSTRACT) = 0) = False"
        "length bs < 2 ^ 31"
      using ok f by (simp_all add: has_code_def)
    show ?thesis
      unfolding read_method_attribute_def MA_Other method_attribute_bytes.simps method_attribute_app.simps
      by (rule reads_string [OF *(1)]) (simp only: case_prod_conv *(2) if_False reads_skip_sized [OF *(3)])
  qed
  show "fb (method_attribute_app a mb) = f" using f by (cases a) simp_all
qed

datatype method_file = Method member "method_attribute list"

fun method_bytes :: "u16 \<Rightarrow> method_file \<Rightarrow> u8 list" where
  "method_bytes minor (Method m as) = member_bytes m @ put2 (of_nat (length as)) @ concat (map (method_attribute_bytes minor) as)"

fun method_ok :: "u16 \<Rightarrow> cp_pool \<Rightarrow> method_file \<Rightarrow> bool" where
  "method_ok minor p (Method m as) \<longleftrightarrow> member_ok p m \<and> Signature2ArgsSize (signature (member_block p m)) \<noteq> None
     \<and> length as < 65536 \<and> list_all (method_attribute_ok minor p (member_block p m)) as"

fun method_value :: "cp_pool \<Rightarrow> method_file \<Rightarrow> methodblock" where
  "method_value p (Method m as) = fold method_attribute_app as
     (new_method (member_block p m) (the (Signature2ArgsSize (signature (member_block p m)))))"

interpretation methods: codec "method_bytes minor" "read_method minor p" "method_value p" "method_ok minor p" for minor p
proof
  fix f assume ok: "method_ok minor p f"
  obtain m as where f: "f = Method m as" by (cases f)
  let ?fb = "member_block p m"
  obtain n where n: "Signature2ArgsSize (signature ?fb) = Some n" using ok by (auto simp: f)
  have ok: "member_ok p m" "length as < 65536" "\<forall>a \<in> set as. method_attribute_ok minor p ?fb a"
    using ok by (simp_all add: f list_all_iff)
  have "fb (new_method ?fb n) = ?fb" by (simp add: new_method_def)
  then show "reads (read_method minor p) (method_bytes minor f) (method_value p f)"
    unfolding read_method_def f method_bytes.simps method_value.simps
    by (intro reads_bind [OF member_law [OF ok(1)]])
      (simp only: n option.case option.sel method_attributes.counted [OF _ ok(3) ok(2)])
qed

section \<open>Classes\<close>

datatype class_attribute = SA_Source u16 u16 | SA_Other u16 "u8 list"

fun class_attribute_bytes :: "class_attribute \<Rightarrow> u8 list" where
  "class_attribute_bytes (SA_Source n i) = u2 n @ put_sized (u2 i)"
| "class_attribute_bytes (SA_Other n bs) = u2 n @ put_sized bs"

fun class_attribute_ok :: "cp_pool \<Rightarrow> class_attribute \<Rightarrow> bool" where
  "class_attribute_ok p (SA_Source n i) \<longleftrightarrow> str_ok p n \<and> is_str (str_at p n) ''SourceFile'' \<and> str_ok p i"
| "class_attribute_ok p (SA_Other n bs) \<longleftrightarrow> str_ok p n \<and> \<not> is_str (str_at p n) ''SourceFile'' \<and> length bs < 2 ^ 31"

fun class_attribute_app :: "cp_pool \<Rightarrow> class_attribute \<Rightarrow> u8 list option \<Rightarrow> u8 list option" where
  "class_attribute_app p (SA_Source n i) src = Some (str_at p i)"
| "class_attribute_app p (SA_Other n bs) src = src"

interpretation class_attributes: update_codec class_attribute_bytes "read_class_attribute p" "class_attribute_app p"
    "class_attribute_ok p" "\<lambda>_. True" for p
proof
  fix src a
  assume ok: "class_attribute_ok p a"
  show "reads (read_class_attribute p src) (class_attribute_bytes a) (class_attribute_app p a src)"
  proof (cases a)
    case (SA_Source n i)
    then have *: "str_ok p n" "is_str (str_at p n) ''SourceFile'' = True" "str_ok p i" using ok by simp_all
    have "reads (rbind (getAsciz p) (\<lambda>(s, _). rreturn (Some s))) (u2 i) (Some (str_at p i))"
      by (rule reads_string_end [OF *(3)]) (simp add: reads_return)
    then show ?thesis
      unfolding read_class_attribute_def SA_Source class_attribute_bytes.simps put_sized_def
      by (intro reads_string [OF *(1)], simp only: case_prod_conv) (intro reads_u4, simp add: *(2) reads_check)
  next
    case (SA_Other n bs)
    then show ?thesis
      using ok reads_skip_sized [of bs src] by (simp add: read_class_attribute_def reads_string)
  qed
qed simp

interpretation interfaces: codec u2 get2bytes "\<lambda>v. ucast v" "\<lambda>_. True"
  by unfold_locales (simp add: u2_def reads_get)

record class_file =
  cf_minor :: u16
  cf_constants :: "entry list"
  cf_access :: u16
  cf_this :: u16
  cf_super :: u16
  cf_interfaces :: "u16 list"
  cf_fields :: "field_file list"
  cf_methods :: "method_file list"
  cf_attributes :: "class_attribute list"

text \<open>A class constant, and the pool once the class has found itself.\<close>

fun int_of_item :: "cp_item \<Rightarrow> u32 option" where
  "int_of_item (CpInt v) = Some v"
| "int_of_item _ = None"

definition class_ref :: "cp_pool \<Rightarrow> u16 \<Rightarrow> u16" where
  "class_ref p i = ucast (the (int_of_item (cp_items p ! unat i)))"

definition class_ref_ok :: "cp_pool \<Rightarrow> u16 \<Rightarrow> bool" where
  "class_ref_ok p i \<longleftrightarrow> 0 < i \<and> unat i < length (type_table p) \<and> type_table p ! unat i = 7
     \<and> int_of_item (cp_items p ! unat i) = Some (ucast (class_ref p i)) \<and> str_ok p (class_ref p i)"

definition linked :: "cp_pool \<Rightarrow> u16 \<Rightarrow> cp_pool" where
  "linked p i = set_cp (unat i) (7 OR RESOLVED) CpThisClass p"

definition super_ref :: "cp_pool \<Rightarrow> u16 \<Rightarrow> u16 \<Rightarrow> u8 list \<times> u16" where
  "super_ref p i j = (if j = 0 then (str_at p (class_ref p i), class_ref p i)
     else (str_at (linked p i) (class_ref (linked p i) j), class_ref (linked p i) j))"

lemma sint_u16: "sint (ucast (i :: u16) :: u32) = int (unat i)"
proof -
  have "unat i < 2 ^ 31" by (rule less_trans [OF unat_u16(1)]) simp
  then show ?thesis using sint_count [of "unat i"] by simp
qed

lemma class_ref_law:
  assumes "class_ref_ok p i"
  shows "reads (getAscizFromClass p (ucast i)) [] (str_at p (class_ref p i), class_ref p i)"
proof -
  define n where "n = unat i"
  obtain v where v: "cp_items p ! n = CpInt v" "v = ucast (class_ref p i)"
    using assms by (auto simp: class_ref_ok_def n_def elim: int_of_item.elims)
  have "0 < n" "n < length (type_table p)" "type_table p ! n = 7" "str_ok p (class_ref p i)"
    using assms by (simp_all add: class_ref_ok_def n_def)
  moreover have "sint (ucast i :: u32) = int n" by (simp only: sint_u16 n_def)
  ultimately have "getAscizFromClass p (ucast i) = cp_string p (sint (ucast (class_ref p i) :: u32))"
    using v by (simp add: getAscizFromClass_def)
  then show ?thesis
    using \<open>str_ok p (class_ref p i)\<close> by (simp only: cp_string_law sint_u16)
qed

lemma reads_nothing: "reads m [] x \<Longrightarrow> reads (k x) bs y \<Longrightarrow> reads (rbind m k) bs y"
  using reads_bind [of m "[]" x k bs y] by simp

definition names_ok :: "cp_pool \<Rightarrow> u16 \<Rightarrow> u16 \<Rightarrow> bool" where
  "names_ok p i j \<longleftrightarrow> class_ref_ok p i \<and> (j \<noteq> 0 \<longrightarrow> class_ref_ok (linked p i) j)"

lemma names_law:
  assumes "names_ok p i j"
  shows "reads (read_names p) (u2 i @ u2 j) (linked p i, (str_at p (class_ref p i), class_ref p i), super_ref p i j)"
proof -
  have ok: "class_ref_ok p i" "type_table p ! unat i = 7" using assms by (simp_all add: names_ok_def class_ref_ok_def)
  have pos: "(0 < (ucast j :: u32)) = (j \<noteq> 0)"
    by (metis unat_u16(3) unsigned_0 word_neq_0_conv)
  have "reads (if 0 < (ucast j :: u32) then rbind (getAscizFromClass (linked p i) (ucast j)) (\<lambda>sup. rreturn (linked p i, nm, sup))
      else rreturn (linked p i, nm, nm)) [] (linked p i, nm, super_ref p i j)"
    if "nm = (str_at p (class_ref p i), class_ref p i)" for nm
    using assms that reads_nothing [OF class_ref_law, of "linked p i" j "\<lambda>sup. rreturn (linked p i, nm, sup)", OF _ reads_return]
    by (simp add: pos names_ok_def super_ref_def reads_return)
  then show ?thesis
    unfolding read_names_def Let_def
    by (intro reads_u2 reads_nothing [OF class_ref_law [OF ok(1)]] reads_u2_end) (simp_all only: unat_u16 ok(2) linked_def)
qed

definition class_bytes :: "class_file \<Rightarrow> u8 list" where
  "class_bytes f = be_bytes 0xCAFEBABE @ u2 (cf_minor f) @ u2 45 @ pool_bytes (cf_constants f) @ u2 (cf_access f) @
     (u2 (cf_this f) @ u2 (cf_super f)) @
     put2 (of_nat (length (cf_interfaces f))) @ concat (map u2 (cf_interfaces f)) @
     put2 (of_nat (length (cf_fields f))) @ concat (map field_bytes (cf_fields f)) @
     put2 (of_nat (length (cf_methods f))) @ concat (map (method_bytes (cf_minor f)) (cf_methods f)) @
     put2 (of_nat (length (cf_attributes f))) @ concat (map class_attribute_bytes (cf_attributes f)) @ []"

definition class_ok :: "class_file \<Rightarrow> bool" where
  "class_ok f \<longleftrightarrow> (let p = pool_of (cf_constants f); q = linked p (cf_this f) in
     pool_ok (cf_constants f) \<and> names_ok p (cf_this f) (cf_super f)
     \<and> length (cf_interfaces f) < 65536
     \<and> length (cf_fields f) < 65536 \<and> list_all (field_ok q) (cf_fields f)
     \<and> length (cf_methods f) < 65536 \<and> list_all (method_ok (cf_minor f) q) (cf_methods f)
     \<and> length (cf_attributes f) < 65536 \<and> list_all (class_attribute_ok q) (cf_attributes f))"

definition class_value :: "class_file \<Rightarrow> class_class" where
  "class_value f = (let p = pool_of (cf_constants f); q = linked p (cf_this f); sup = super_ref p (cf_this f) (cf_super f) in
     \<lparr>major_version = 45, minor_version = cf_minor f,
      class_name = str_at p (class_ref p (cf_this f)), class_nameIndex = class_ref p (cf_this f),
      super_name = fst sup, superNameIndex = snd sup,
      source_name = fold (class_attribute_app q) (cf_attributes f) None, pool = q,
      class_access = cf_access f AND 0x0FFF, implements_list = cf_interfaces f,
      class_fields = map (field_value q) (cf_fields f), class_methods = map (method_value q) (cf_methods f),
      has_clinit = names_clinit (cf_constants f)\<rparr>)"

lemma class_law: "class_ok f \<Longrightarrow> reads read_class (class_bytes f) (class_value f)"
proof -
  define p q where "p = pool_of (cf_constants f)" and "q = linked p (cf_this f)"
  assume "class_ok f"
  then have ok: "pool_ok (cf_constants f)" "names_ok p (cf_this f) (cf_super f)"
      "length (cf_interfaces f) < 65536"
      "\<forall>x \<in> set (cf_fields f). field_ok q x" "length (cf_fields f) < 65536"
      "\<forall>x \<in> set (cf_methods f). method_ok (cf_minor f) q x" "length (cf_methods f) < 65536"
      "\<forall>x \<in> set (cf_attributes f). class_attribute_ok q x" "length (cf_attributes f) < 65536"
    by (simp_all add: class_ok_def Let_def list_all_iff flip: p_def q_def)
  show ?thesis
    unfolding read_class_def class_bytes_def
    apply (rule reads_u4, rule reads_check, rule refl)
    apply (rule reads_u2, rule reads_u2, rule reads_check, simp)
    apply (rule reads_bind [OF pool_law [OF ok(1)]], unfold case_prod_conv)
    apply (rule reads_u2, rule reads_bind [OF names_law [OF ok(2) [unfolded p_def]]], unfold case_prod_conv)
    apply (fold p_def q_def, unfold unat_u16)
    apply (rule interfaces.counted, simp, rule ok(3))
    apply (rule fields.counted [OF ok(4,5)], rule methods.counted [OF ok(6,7)])
    apply (rule class_attributes.counted_then [OF TrueI ok(8,9)])
    apply (simp add: class_value_def Let_def comp_def written_flags reads_return flip: p_def q_def)
    done
qed

end
