(* ===== verification/Class_Properties.thy ===== *)
theory Class_Properties
  imports Class_Format
begin

text \<open>
  The properties of the class file reader, with a small class file they are applied to.
\<close>

section \<open>A class file\<close>

definition ascii :: "string \<Rightarrow> u8 list" where "ascii = map of_char"

text \<open>Class A extends B, with a static constant field v, a static method m and an abstract one k.\<close>

definition example_constants :: "entry list" where
  "example_constants =
    [E_Utf8 (ascii ''A''), E_Ref 7 1, E_Utf8 (ascii ''B''), E_Ref 7 3, E_Utf8 (ascii ''v''), E_Utf8 (ascii ''J''),
     E_Utf8 (ascii ''ConstantValue''), E_Wide 5 1 2, E_Utf8 (ascii ''m''), E_Utf8 (ascii ''(I[[DLB;J)V''),
     E_Utf8 (ascii ''Code''), E_Utf8 (ascii ''LineNumberTable''), E_Utf8 (ascii ''SourceFile''),
     E_Utf8 (ascii ''A.java''), E_Pair 10 0x00020005, E_Utf8 (ascii ''<clinit>'')]"

definition example_method :: method_file where
  "example_method = Method (Member 8 10 11)
    [MA_Code 12 (Code 2 6 [0x1A, 0x57, 0xB1] [(0, 1, 2, 4)] [CA_Lines 13 [(0, 7)], CA_Other 5 [9]])]"

definition example_file :: class_file where
  "example_file =
    \<lparr>cf_minor = 3, cf_constants = example_constants, cf_access = 0xFFFF, cf_this = 2, cf_super = 4,
     cf_interfaces = [4], cf_fields = [Field (Member 8 5 6) [FA_Value 7 8, FA_Other 13 [1]]],
     cf_methods =
       [example_method, Method (Member 0x400 10 11) [MA_Other 12 [0]]],
     cf_attributes = [SA_Source 14 15]\<rparr>"

lemma ascii_simps [simp]: "ascii [] = []" "ascii (c # cs) = of_char c # ascii cs" "length (ascii s) = length s"
  by (simp_all add: ascii_def)

lemma example_cells: "cells example_constants =
   [(0x81, CpUtf8 (ascii ''A'')), (7, CpInt 1), (0x81, CpUtf8 (ascii ''B'')), (7, CpInt 3), (0x81, CpUtf8 (ascii ''v'')),
    (0x81, CpUtf8 (ascii ''J'')), (0x81, CpUtf8 (ascii ''ConstantValue'')), (0x85, CpInt 1), (0x80, CpInt 2),
    (0x81, CpUtf8 (ascii ''m'')), (0x81, CpUtf8 (ascii ''(I[[DLB;J)V'')), (0x81, CpUtf8 (ascii ''Code'')),
    (0x81, CpUtf8 (ascii ''LineNumberTable'')), (0x81, CpUtf8 (ascii ''SourceFile'')), (0x81, CpUtf8 (ascii ''A.java'')),
    (10, CpInt 0x00020005), (0x81, CpUtf8 (ascii ''<clinit>''))]"
  by (simp add: example_constants_def RESOLVED_def del: ascii_simps)

lemmas example_pool_simps = linked_def pool_of_def example_cells str_ok_def str_at_def set_cp_def RESOLVED_def

lemma example_pool_ok: "pool_ok example_constants"
  by (simp add: pool_ok_def example_cells) (simp add: example_constants_def)

lemma example_names_ok: "names_ok (pool_of example_constants) 2 4"
  by (simp add: names_ok_def class_ref_ok_def class_ref_def example_pool_simps del: ascii_simps)

lemma example_strings:
  fixes p defines "p \<equiv> linked (pool_of example_constants) 2"
  shows "str_ok p 1" "str_ok p 3" "str_ok p 5" "str_ok p 6" "str_ok p 7" "str_ok p 10" "str_ok p 11" "str_ok p 12"
    "str_ok p 13" "str_ok p 14" "str_ok p 15"
    "str_at p 5 = ascii ''v''" "str_at p 6 = ascii ''J''" "str_at p 7 = ascii ''ConstantValue''"
    "str_at p 10 = ascii ''m''" "str_at p 11 = ascii ''(I[[DLB;J)V''" "str_at p 12 = ascii ''Code''"
    "str_at p 13 = ascii ''LineNumberTable''" "str_at p 14 = ascii ''SourceFile''" "str_at p 15 = ascii ''A.java''"
  by (simp_all add: p_def example_pool_simps del: ascii_simps)

lemma example_names:
  "is_str (ascii ''ConstantValue'') ''ConstantValue''" "is_str (ascii ''Code'') ''Code''"
  "is_str (ascii ''LineNumberTable'') ''LineNumberTable''" "is_str (ascii ''SourceFile'') ''SourceFile''"
  "\<not> is_str (ascii ''LineNumberTable'') ''ConstantValue''" "\<not> is_str (ascii ''v'') ''LineNumberTable''"
  "\<not> is_str (ascii ''v'') ''LocalVariableTable''"
  by (simp_all add: is_str_def)

lemma example_args: "Signature2ArgsSize (ascii ''(I[[DLB;J)V'') = Some 5"
  by (simp add: Signature2ArgsSize_def chr_def)

lemma example_ok: "class_ok example_file"
  unfolding class_ok_def example_file_def example_method_def Let_def
  by (simp add: example_pool_ok example_names_ok example_strings example_names example_args is_static_def has_code_def
    sizes_ok_def sizes_bytes_def table_bytes_def put_sized_def ACC_STATIC_def ACC_NATIVE_def ACC_ABSTRACT_def del: ascii_simps)

section \<open>Reading a well-formed class file\<close>

text \<open>Property C3: createInternalClass reads every well-formed class file to the class it describes
  (constants, names, fields with their constant values, methods with code and tables), whatever
  follows it in the buffer.\<close>
theorem class_roundtrip:
  assumes "class_ok f"
  shows "createInternalClass (class_bytes f @ rest) = Inr (class_value f)"
  using readsD(1) [OF class_law [OF assms], of "[]" rest] by (simp add: createInternalClass_def)

lemma example_clinit: "names_clinit example_constants"
  by (simp add: example_constants_def) (simp add: is_str_def)

lemma example_method_value:
  "args_size (method_value (linked (pool_of example_constants) 2) example_method) = 5"
  "code (method_value p example_method) = [0x1A, 0x57, 0xB1]"
  unfolding example_method_def
  by (simp add: example_strings example_args new_method_def ACC_STATIC_def del: ascii_simps) (simp add: new_method_def)

lemma example_abstract_method:
  "args_size (method_value (linked (pool_of example_constants) 2) (Method (Member 0x400 10 11) [MA_Other 12 [0]])) = 6"
  "code (method_value p (Method (Member 0x400 10 11) [MA_Other 12 [0]])) = []"
  by (simp add: example_strings example_args new_method_def ACC_STATIC_def del: ascii_simps) (simp add: new_method_def)

lemma example_field:
  "offset (field_value (linked (pool_of example_constants) 2) (Field (Member 8 5 6) [FA_Value 7 8, FA_Other 13 [1]])) = 8"
  by simp

lemma example_value: "map args_size (class_methods (class_value example_file)) = [5, 6]"
  "map code (class_methods (class_value example_file)) = [[0x1A, 0x57, 0xB1], []]"
  "map offset (class_fields (class_value example_file)) = [8]" "has_clinit (class_value example_file)"
  by (simp_all add: class_value_def example_file_def Let_def example_method_value
    example_abstract_method example_field example_clinit del: ascii_simps method_value.simps field_value.simps)

theorem class_roundtrip_witness:
  "\<exists>c. createInternalClass (class_bytes example_file @ [0, 0]) = Inr c \<and> map args_size (class_methods c) = [5, 6]
     \<and> map code (class_methods c) = [[0x1A, 0x57, 0xB1], []] \<and> map offset (class_fields c) = [8] \<and> has_clinit c"
  using class_roundtrip [OF example_ok, of "[0, 0]"] example_value by simp

text \<open>Property C4: a class file cut off anywhere is reported as truncated: whatever proper prefix of a
  well-formed class file the buffer holds, no read goes past its end and no class is returned.\<close>
theorem class_truncated:
  assumes "class_ok f" "strict_prefix bs (class_bytes f)"
  shows "createInternalClass bs = Inl Truncated_file"
  using readsD(2) [OF class_law [OF assms(1)] assms(2), of "[]"] by (simp add: createInternalClass_def)

lemma example_cut: "strict_prefix (be_bytes 0xCAFEBABE @ u2 3) (class_bytes example_file)"
proof -
  obtain r where "class_bytes example_file = (be_bytes 0xCAFEBABE @ u2 (cf_minor example_file)) @ u2 45 @ r"
    unfolding class_bytes_def append_assoc by blast
  moreover have "cf_minor example_file = 3" "u2 45 \<noteq> []"
    by (simp_all add: example_file_def flip: length_0_conv)
  ultimately show ?thesis by (simp add: strict_prefix_def)
qed

theorem class_truncated_witness: "createInternalClass (be_bytes 0xCAFEBABE @ u2 3) = Inl Truncated_file"
  by (rule class_truncated [OF example_ok example_cut])

section \<open>The size of the arguments\<close>

text \<open>Types as the virtual machine has them, and their descriptors.\<close>

datatype jtype = J_word char | J_double_word char | J_object "u8 list" | J_array nat jtype

fun jtype_bytes :: "jtype \<Rightarrow> u8 list" where
  "jtype_bytes (J_word c) = [chr c]"
| "jtype_bytes (J_double_word c) = [chr c]"
| "jtype_bytes (J_object s) = chr CHR ''L'' # s @ [chr CHR '';'']"
| "jtype_bytes (J_array n t) = replicate (Suc n) (chr CHR ''['') @ jtype_bytes t"

fun jtype_ok :: "jtype \<Rightarrow> bool" where
  "jtype_ok (J_word c) \<longleftrightarrow> c \<in> set ''ZBCSIF''"
| "jtype_ok (J_double_word c) \<longleftrightarrow> c \<in> set ''DJ''"
| "jtype_ok (J_object s) \<longleftrightarrow> chr CHR '';'' \<notin> set s \<and> 0 \<notin> set s"
| "jtype_ok (J_array n t) \<longleftrightarrow> jtype_ok t \<and> (case t of J_array _ _ \<Rightarrow> False | _ \<Rightarrow> True)"

fun jtype_words :: "jtype \<Rightarrow> u32" where
  "jtype_words (J_double_word c) = 2"
| "jtype_words _ = 1"

definition descriptor :: "jtype list \<Rightarrow> u8 list \<Rightarrow> u8 list" where
  "descriptor ts ret = chr CHR ''('' # concat (map jtype_bytes ts) @ chr CHR '')'' # ret"

lemma to_semicolon: "x \<notin> set s \<Longrightarrow> dropWhile (\<lambda>d. d \<noteq> x) (s @ x # r) = x # r"
  by (induction s) auto

lemma skip_brackets: "b \<noteq> x \<Longrightarrow> dropWhile (\<lambda>d. d = x) (replicate n x @ b # bs) = b # bs"
  by (induction n) simp_all

lemma args_scan_type: "jtype_ok t \<Longrightarrow> args_scan (jtype_bytes t @ bs) n = args_scan bs (n + jtype_words t)"
proof (cases t)
  case (J_array k e)
  assume "jtype_ok t"
  then show ?thesis
    using J_array by (cases e) (auto simp: chr_def skip_brackets to_semicolon)
qed (auto simp: chr_def to_semicolon)

lemma args_scan_types:
  "list_all jtype_ok ts \<Longrightarrow> args_scan (concat (map jtype_bytes ts) @ bs) n = args_scan bs (n + sum_list (map jtype_words ts))"
  by (induction ts arbitrary: n) (simp_all add: args_scan_type add.assoc)

lemma jtype_no_nul: "jtype_ok t \<Longrightarrow> 0 \<notin> set (jtype_bytes t)"
  by (induction t) (auto simp: chr_def)

text \<open>Property C35: for every method descriptor, Signature2ArgsSize counts the words of its arguments:
  two for a long or a double, one for any other type, arrays of any depth and element included,
  whatever the return type.\<close>
theorem args_size_of_descriptor:
  assumes "list_all jtype_ok ts" "0 \<notin> set ret"
  shows "Signature2ArgsSize (descriptor ts ret) = Some (sum_list (map jtype_words ts))"
proof -
  have "0 \<notin> set (descriptor ts ret)"
    using assms jtype_no_nul by (auto simp: descriptor_def list_all_iff chr_def)
  then have "takeWhile (\<lambda>c. c \<noteq> 0) (descriptor ts ret) = descriptor ts ret"
    by (auto simp: takeWhile_eq_all_conv)
  then show ?thesis
    unfolding Signature2ArgsSize_def using assms(1)
    by (simp only:) (simp add: descriptor_def args_scan_types, simp add: chr_def)
qed

theorem args_size_of_descriptor_witness:
  "Signature2ArgsSize (descriptor [J_word CHR ''I'', J_array 1 (J_double_word CHR ''D''), J_object [66], J_double_word CHR ''J''] [86])
    = Some 5"
  using args_size_of_descriptor [of "[J_word CHR ''I'', J_array 1 (J_double_word CHR ''D''), J_object [66], J_double_word CHR ''J'']" "[86]"]
  by (simp add: chr_def)

end
