(* ===== verification/Class_Invariant.thy ===== *)
theory Class_Invariant
  imports Class_Properties
begin

text \<open>
  What holds of every class the reader returns, for any input whatever: gives m P says that P
  holds of each value m returns. The rules follow the readers' construction.
\<close>

definition gives :: "'a reader \<Rightarrow> ('a \<Rightarrow> bool) \<Rightarrow> bool" where
  "gives m P \<longleftrightarrow> (\<forall>bs p x q. m bs p = Inr (x, q) \<longrightarrow> P x)"

lemma gives_return: "P x \<Longrightarrow> gives (rreturn x) P"
  by (simp add: gives_def rreturn_def)

lemma gives_fail: "gives (rfail e) P"
  by (simp add: gives_def rfail_def)

lemma gives_bind: "gives m P \<Longrightarrow> (\<And>x. P x \<Longrightarrow> gives (k x) Q) \<Longrightarrow> gives (rbind m k) Q"
  by (fastforce simp: gives_def rbind_def split: sum.splits)

lemma gives_any: "(\<And>x. gives (k x) Q) \<Longrightarrow> gives (rbind m k) Q"
  by (fastforce simp: gives_def rbind_def split: sum.splits)

lemma gives_check: "(b \<Longrightarrow> gives (k ()) Q) \<Longrightarrow> gives (rbind (rcheck b e) k) Q"
  by (simp add: gives_def rbind_def rcheck_def rreturn_def rfail_def)

lemma gives_if: "(b \<Longrightarrow> gives m P) \<Longrightarrow> (\<not> b \<Longrightarrow> gives n P) \<Longrightarrow> gives (if b then m else n) P"
  by simp

lemma gives_mono: "gives m P \<Longrightarrow> (\<And>x. P x \<Longrightarrow> Q x) \<Longrightarrow> gives m Q"
  by (auto simp: gives_def)

lemma gives_times: "gives m P \<Longrightarrow> gives (rtimes n m) (\<lambda>xs. length xs = n \<and> list_all P xs)"
proof (induction n)
  case 0
  then show ?case by (simp add: gives_return)
next
  case (Suc n)
  show ?case
    unfolding rtimes.simps by (rule gives_bind [OF Suc.prems], rule gives_bind [OF Suc.IH [OF Suc.prems]], rule gives_return) simp
qed

lemma gives_loop: "(\<And>s. P s \<Longrightarrow> gives (f s) P) \<Longrightarrow> P s \<Longrightarrow> gives (rloop n f s) P"
  by (induction n arbitrary: s) (auto intro: gives_return gives_bind)

lemma gives_get2: "gives get2bytes (\<lambda>v. unat v < 65536)"
proof -
  have "unat (be_word bs :: u32) < 65536" if bs: "length bs = 2" for bs
  proof -
    obtain a b where "bs = [a, b]" using bs by (auto simp: length_Suc_conv numeral_2_eq_2)
    then have "be_word bs = ucast (ucast (be_word bs) :: u16)"
      by (intro bit_word_eqI) (auto simp: bit_simps dest: bit_imp_le_length)
    then show ?thesis using unat_small(1) by metis
  qed
  then show ?thesis by (auto simp: gives_def get2bytes_def rbind_def rbytes_def rreturn_def split: if_splits)
qed

lemma gives_getN: "gives (getNbytes n) (\<lambda>bs. n = of_nat (length bs))"
proof -
  have "of_nat (nat (sint n)) = n" if "\<not> sint n < 0"
    using that by simp
  moreover have "length bs = k" if "rbytes k b p = Inr (bs, q)" for k b bs p q
    using that by (auto simp: rbytes_def split: if_splits)
  ultimately show ?thesis
    unfolding gives_def getNbytes_def by (metis Inl_Inr_False)
qed

section \<open>Names\<close>

definition pool_wf :: "cp_pool \<Rightarrow> bool" where
  "pool_wf p \<longleftrightarrow> length (cp_items p) = length (type_table p) \<and> length (type_table p) < 65536"

text \<open>The string is the one of the Utf8 constant with that index.\<close>

definition named :: "cp_pool \<Rightarrow> u8 list \<Rightarrow> u16 \<Rightarrow> bool" where
  "named p s i \<longleftrightarrow> str_ok p i \<and> cp_items p ! unat i = CpUtf8 s"

definition pool_size :: "cp_pool \<Rightarrow> nat \<times> nat" where
  "pool_size p = (length (type_table p), length (cp_items p))"

lemma pool_size_set [simp]: "pool_size (set_cp i t x p) = pool_size p"
  by (simp add: pool_size_def set_cp_def)

lemma gives_fill_pool: "pool_size p = s \<Longrightarrow> gives (fill_pool k i p c) (\<lambda>(q, _). pool_size q = s)"
proof (induction k arbitrary: i p c rule: less_induct)
  case (less k)
  show ?case
  proof (cases k)
    case 0
    then show ?thesis using less.prems by (simp add: gives_return)
  next
    case (Suc m)
    show ?thesis
      unfolding Suc fill_pool.simps Let_def
      by (intro gives_any gives_if gives_fail less.IH) (simp_all add: Suc less.prems)
  qed
qed

lemma gives_pool: "gives LoadConstantPool (\<lambda>(p, _). pool_wf p)"
proof -
  have "gives (fill_pool k 1 (empty_pool n) False) (\<lambda>(p, _). pool_wf p)" if "n < 65536" for k n
    using gives_fill_pool [of "empty_pool n" "(n, n)" k 1 False] that
    by (auto simp: gives_def pool_wf_def empty_pool_def pool_size_def)
  then show ?thesis
    unfolding LoadConstantPool_def by (intro gives_bind [OF gives_get2] gives_any) simp
qed

lemma gives_cp_string:
  assumes "pool_wf p"
  shows "gives (cp_string p v) (\<lambda>(s, i). named p s i)"
proof (cases "v \<le> 0 \<or> int (length (type_table p)) \<le> v \<or> type_table p ! nat v \<noteq> 1 OR RESOLVED")
  case True
  then show ?thesis by (simp add: cp_string_def gives_fail)
next
  case False
  define n where "n = nat v"
  have n: "0 < n" "n < length (type_table p)" "type_table p ! n = 1 OR RESOLVED" "v = int n"
    using False by (auto simp: n_def nat_less_iff)
  have u: "unat (of_nat n :: u16) = n"
    using n(2) assms by (simp add: pool_wf_def unat_of_nat take_bit_nat_eq_self)
  then have "0 < (of_nat n :: u16)" using n(1) by (metis pos_u16)
  then have "named p s (of_int v)" if "cp_items p ! n = CpUtf8 s" for s
    using n u that by (simp add: named_def str_ok_def)
  then show ?thesis
    using False n by (auto simp: cp_string_def gives_return gives_fail split: cp_item.split)
qed

lemma gives_getAsciz: "pool_wf p \<Longrightarrow> gives (getAsciz p) (\<lambda>(s, i). named p s i)"
  unfolding getAsciz_def by (intro gives_any gives_cp_string)

lemma gives_class_name:
  assumes "pool_wf p" "unat i < 65536"
  shows "gives (getAscizFromClass p i) (\<lambda>(s, j). named p s j \<and> type_table p ! unat i = 7)"
proof (cases "sint i \<le> 0 \<or> int (length (type_table p)) \<le> sint i \<or> type_table p ! nat (sint i) \<noteq> 7")
  case False
  have "unat i < 2 ^ 31" using assms(2) by simp
  then have "sint i = int (unat i)" using sint_count [of "unat i"] by simp
  then have "type_table p ! unat i = 7" using False by simp
  then show ?thesis
    using False gives_cp_string [OF assms(1)]
    by (auto simp: getAscizFromClass_def gives_fail split: cp_item.split)
qed (simp add: getAscizFromClass_def gives_fail)

section \<open>Members\<close>

definition member_wf :: "cp_pool \<Rightarrow> fieldblock \<Rightarrow> bool" where
  "member_wf p f \<longleftrightarrow> named p (name f) (nameIndex f) \<and> named p (signature f) (sigIndex f)"

text \<open>Only a static field has a constant value, and no other flag beyond the written ones.\<close>

definition field_wf :: "cp_pool \<Rightarrow> fieldblock \<Rightarrow> bool" where
  "field_wf p f \<longleftrightarrow> member_wf p f \<and> access f AND 0xE000 = 0 \<and> (access f AND ACC_VALKNOWN \<noteq> 0 \<longrightarrow> is_static f)"

definition method_wf :: "cp_pool \<Rightarrow> methodblock \<Rightarrow> bool" where
  "method_wf p m \<longleftrightarrow> member_wf p (fb m)
     \<and> (\<exists>n. Signature2ArgsSize (signature (fb m)) = Some n \<and> args_size m = ucast (n + (if is_static (fb m) then 0 else 1)))
     \<and> code_length m = of_nat (length (code m)) \<and> (has_code (fb m) \<or> code m = [])
     \<and> exception_table_length m \<le> length (exception_table m)
     \<and> line_number_table_length m \<le> length (line_number_table m)
     \<and> localvar_table_length m \<le> length (localvar_table m)"

lemma written_flags_mask:
  "(v AND 0x0FFF) AND 0xE000 = (0 :: u16)" "(v AND 0x0FFF) AND ACC_VALKNOWN = (0 :: u16)"
  "(x OR ACC_VALKNOWN) AND 0xE000 = x AND 0xE000" "(x OR ACC_VALKNOWN) AND ACC_STATIC = x AND ACC_STATIC"
  by (simp_all add: and.assoc bit.conj_disj_distrib2 ACC_VALKNOWN_def ACC_STATIC_def)

lemma flags_of_u32: "ucast (a AND ACC_WRITTEN_FLAGS :: u32) = (ucast a AND 0x0FFF :: u16)"
proof -
  have "(0x0FFF :: u16) = mask 12" "(0x0FFF :: u32) = mask 12" by (simp_all add: mask_eq_exp_minus_1)
  then show ?thesis
    unfolding ACC_WRITTEN_FLAGS_def by (simp only:) (rule bit_word_eqI, auto simp: bit_simps)
qed

lemma gives_string:
  "pool_wf p \<Longrightarrow> (\<And>s i. named p s i \<Longrightarrow> gives (k (s, i)) Q) \<Longrightarrow> gives (rbind (getAsciz p) k) Q"
  using gives_bind [OF gives_getAsciz, of p k Q] by auto

lemma gives_pair: "(\<And>a b. gives (k a b) Q) \<Longrightarrow> gives (rbind m (\<lambda>(a, b). k a b)) Q"
  by (rule gives_any) auto

lemma gives_member: "pool_wf p \<Longrightarrow> gives (read_member p) (field_wf p)"
  unfolding read_member_def
  by (rule gives_any, rule gives_string, assumption, simp only: case_prod_conv, rule gives_string, assumption)
    (auto intro!: gives_return simp: field_wf_def member_wf_def flags_of_u32 written_flags_mask)

lemma gives_field: "pool_wf p \<Longrightarrow> gives (read_field p) (field_wf p)"
proof -
  assume p: "pool_wf p"
  have "gives (read_field_attribute p f) (field_wf p)" if "field_wf p f" for f
    unfolding read_field_attribute_def
    by (intro gives_pair gives_any gives_if gives_check gives_return)
      (use that in \<open>auto simp: field_wf_def member_wf_def is_static_def written_flags_mask\<close>)
  then show ?thesis
    unfolding read_field_def by (intro gives_bind [OF gives_member [OF p]] gives_any gives_loop)
qed

text \<open>Attributes and tables.\<close>

lemma gives_sized: "gives m P \<Longrightarrow> gives (sized e m) P"
  unfolding sized_def
  by (rule gives_any, rule gives_any, rule gives_bind, assumption, rule gives_any, rule gives_check, rule gives_return)

lemma gives_table:
  assumes "\<And>n xs. length xs = unat n \<Longrightarrow> gives (k n xs) Q"
  shows "gives (rbind get2bytes (\<lambda>n. rbind (rtimes (unat n) m) (\<lambda>xs. k n xs))) Q"
proof (rule gives_any, rule gives_bind)
  show "gives (rtimes n m) (\<lambda>xs. length xs = n)" for n
    using gives_times [of m "\<lambda>_. True" n] by (simp add: gives_def)
qed (rule assms)

definition code_wf :: "methodblock \<Rightarrow> bool" where
  "code_wf m \<longleftrightarrow> code_length m = of_nat (length (code m))
     \<and> exception_table_length m \<le> length (exception_table m)
     \<and> line_number_table_length m \<le> length (line_number_table m)
     \<and> localvar_table_length m \<le> length (localvar_table m)"

lemma gives_code_attribute: "code_wf m \<and> fb m = f \<and> args_size m = n \<Longrightarrow>
  gives (read_code_attribute p m) (\<lambda>m. code_wf m \<and> fb m = f \<and> args_size m = n)"
  unfolding read_code_attribute_def ReadLineTable_def ReadLocalVars_def
  by (intro gives_pair gives_if gives_sized gives_table gives_any gives_return) (auto simp: code_wf_def)

lemma gives_code: "code_wf m \<and> fb m = f \<and> args_size m = n \<Longrightarrow>
  gives (ReadInCode minor p m) (\<lambda>m. code_wf m \<and> fb m = f \<and> args_size m = n)"
  unfolding ReadInCode_def
  by (intro gives_sized gives_any, simp only: split_beta, intro gives_bind [OF gives_getN] gives_table gives_any
      gives_loop [OF gives_code_attribute]) (auto simp: code_wf_def)

text \<open>A method of member f with n argument words, on the way through its attributes.\<close>

definition method_of :: "fieldblock \<Rightarrow> u16 \<Rightarrow> methodblock \<Rightarrow> bool" where
  "method_of f n m \<longleftrightarrow> (code_wf m \<and> fb m = f \<and> args_size m = n) \<and> (has_code f \<or> code m = [])"

lemma gives_method_attribute:
  assumes "method_of f n m"
  shows "gives (read_method_attribute minor p m) (method_of f n)"
proof -
  have f: "fb m = f" and m: "code_wf m \<and> fb m = f \<and> args_size m = n" using assms by (simp_all add: method_of_def)
  have code: "gives (ReadInCode minor p m) (method_of f n)" if "has_code f"
    by (rule gives_mono [OF gives_code [OF m]]) (simp add: method_of_def that)
  show ?thesis
    unfolding read_method_attribute_def f has_code_def [symmetric]
    by (intro gives_pair gives_if code gives_any gives_return assms) (erule conjunct2)
qed

lemma method_of_new: "method_of f (ucast (n + (if is_static f then 0 else 1))) (new_method f n)"
  by (simp add: method_of_def new_method_def code_wf_def is_static_def)

lemma method_of_wf:
  "method_of f (ucast (n + (if is_static f then 0 else 1))) m \<Longrightarrow> member_wf p f \<Longrightarrow> Signature2ArgsSize (signature f) = Some n
   \<Longrightarrow> method_wf p m"
  by (auto simp: method_of_def method_wf_def code_wf_def)

lemma gives_method: "pool_wf p \<Longrightarrow> gives (read_method minor p) (method_wf p)"
proof -
  assume p: "pool_wf p"
  have "gives (case Signature2ArgsSize (signature f) of None \<Rightarrow> rfail Undefined_access
     | Some n \<Rightarrow> rbind get2bytes (\<lambda>k. rloop (unat k) (read_method_attribute minor p) (new_method f n))) (method_wf p)"
    if "field_wf p f" for f
  proof (cases "Signature2ArgsSize (signature f)")
    case (Some n)
    have member: "member_wf p f" using that by (simp add: field_wf_def)
    show ?thesis
      unfolding Some option.case
      by (rule gives_any, rule gives_mono [OF gives_loop [OF gives_method_attribute method_of_new]])
        (assumption, erule method_of_wf [OF _ member Some])
  qed (simp add: gives_fail)
  then show ?thesis unfolding read_method_def by (intro gives_bind [OF gives_member [OF p]])
qed

section \<open>Classes\<close>

definition source_wf :: "cp_pool \<Rightarrow> u8 list option \<Rightarrow> bool" where
  "source_wf p src \<longleftrightarrow> (\<forall>s. src = Some s \<longrightarrow> (\<exists>i. named p s i))"

definition class_wf :: "class_class \<Rightarrow> bool" where
  "class_wf c \<longleftrightarrow> major_version c = 45 \<and> pool_wf (pool c)
     \<and> named (pool c) (class_name c) (class_nameIndex c) \<and> named (pool c) (super_name c) (superNameIndex c)
     \<and> source_wf (pool c) (source_name c)
     \<and> list_all (field_wf (pool c)) (class_fields c) \<and> list_all (method_wf (pool c)) (class_methods c)"

lemma named_set_cp: "named p s i \<Longrightarrow> type_table p ! n = 7 \<Longrightarrow> named (set_cp n t x p) s i"
  by (cases "unat i = n") (auto simp: named_def str_ok_def set_cp_def RESOLVED_def nth_list_update)

lemma pool_wf_set [simp]: "pool_wf (set_cp n t x p) = pool_wf p"
  by (simp add: pool_wf_def set_cp_def)

lemma gives_names: "pool_wf p \<Longrightarrow> gives (read_names p)
  (\<lambda>(q, nm, sup). pool_wf q \<and> named q (fst nm) (snd nm) \<and> named q (fst sup) (snd sup))"
  unfolding read_names_def Let_def
  by (rule gives_bind [OF gives_get2], rule gives_bind [OF gives_class_name], assumption, assumption,
      rule gives_bind [OF gives_get2], intro gives_if gives_bind [OF gives_class_name] gives_return)
    (auto intro: named_set_cp)

lemma gives_source:
  assumes p: "pool_wf p" and src: "source_wf p src"
  shows "gives (read_class_attribute p src) (source_wf p)"
proof -
  have *: "gives (rbind (getAsciz p) (\<lambda>(s, _). rreturn (Some s))) (source_wf p)"
    by (rule gives_string [OF p]) (auto intro!: gives_return simp: source_wf_def)
  show ?thesis
    unfolding read_class_attribute_def
    by (rule gives_pair, rule gives_any, rule gives_if, rule gives_check, rule *, rule gives_any, rule gives_return, rule src)
qed

lemma gives_class: "gives read_class class_wf"
  unfolding read_class_def
proof (rule gives_any, rule gives_check, rule gives_any, rule gives_any, rule gives_check, rule gives_bind [OF gives_pool],
    clarify, rule gives_any, rule gives_bind [OF gives_names], assumption, clarify, goal_cases)
  case (1 magic minor major p0 clinit a p nm ni sup si)
  then have p: "pool_wf p" by simp
  show ?case
    by (intro gives_any gives_bind [OF gives_times [OF gives_field [OF p]]] gives_bind [OF gives_times [OF gives_method [OF p]]]
        gives_bind [OF gives_loop [OF gives_source [OF p]]] gives_return)
      (use 1 in \<open>auto simp: class_wf_def source_wf_def\<close>)
qed



end
