(* ===== verification/Class_Resolver.thy ===== *)
theory Class_Resolver
  imports Class_Loader
begin

text \<open>
  The resolver of the loader: the table binclasses of loader.c, and resolveFields and
  resolveMethods of res.c, which lay out the instance variables and the method table of a class
  after its super class. A class is known by its index in binclasses; a pointer to a method is the
  pair of its class and its number, a pointer to a field likewise.
\<close>

section \<open>Loaded classes\<close>

type_synonym member_ref = "nat \<times> nat"

record resolution =
  super_index :: nat
  slottbl_size :: u16
  numOfInstVars :: u16
  instance_size :: u16
  slottable :: "member_ref option list"
  methodtable_size :: u16
  methodtable :: "member_ref option list"

text \<open>The members a class gets from the resolver are not set before.\<close>

record bin_class =
  cls :: class_class
  res :: "resolution option"

definition c_str :: "u8 list \<Rightarrow> u8 list" where
  "c_str s = takeWhile (\<lambda>c. c \<noteq> 0) s"

text \<open>The tables are searched from the end.\<close>

fun find_last :: "('a \<Rightarrow> bool) \<Rightarrow> 'a list \<Rightarrow> nat option" where
  "find_last P [] = None"
| "find_last P (x # xs) = (case find_last P xs of Some i \<Rightarrow> Some (Suc i) | None \<Rightarrow> if P x then Some 0 else None)"

definition findBinClass :: "bin_class list \<Rightarrow> u8 list \<Rightarrow> nat option" where
  "findBinClass bins nm = find_last (\<lambda>b. c_str (class_name (cls b)) = c_str nm) bins"

definition collectBinClass :: "class_class \<Rightarrow> bin_class list \<Rightarrow> nat \<times> bin_class list" where
  "collectBinClass c bins =
     (case findBinClass bins (class_name c) of
        Some i \<Rightarrow> (i, bins[i := \<lparr>cls = c, res = None\<rparr>])
      | None \<Rightarrow> (length bins, bins @ [\<lparr>cls = c, res = None\<rparr>]))"

section \<open>Instance variables\<close>

definition is_static_member :: "fieldblock \<Rightarrow> bool" where
  "is_static_member f \<longleftrightarrow> access f AND ACC_STATIC \<noteq> 0"

definition field_words :: "fieldblock \<Rightarrow> nat" where
  "field_words f = (case c_str (signature f) of
     c # _ \<Rightarrow> if c = chr CHR ''J'' \<or> c = chr CHR ''D'' then 2 else 1 | [] \<Rightarrow> 1)"

text \<open>The first loop gives every instance variable its slot.\<close>

fun place_fields :: "fieldblock list \<Rightarrow> nat \<Rightarrow> nat \<Rightarrow> fieldblock list \<times> nat \<times> nat" where
  "place_fields [] at n = ([], at, n)"
| "place_fields (f # fs) at n =
     (if is_static_member f then (let (gs, r) = place_fields fs at n in (f # gs, r))
      else (let (gs, r) = place_fields fs (at + field_words f) (Suc n) in (f\<lparr>offset := of_nat at\<rparr> # gs, r)))"

text \<open>The second enters field number k of class i on in the table.\<close>

fun fill_slots :: "nat \<Rightarrow> nat \<Rightarrow> fieldblock list \<Rightarrow> nat \<Rightarrow> member_ref option list \<Rightarrow> member_ref option list" where
  "fill_slots i k [] at t = t"
| "fill_slots i k (f # fs) at t =
     (if is_static_member f then fill_slots i (Suc k) fs at t
      else fill_slots i (Suc k) fs (at + field_words f) (t[at := Some (i, k)]))"

definition unresolved :: "nat \<Rightarrow> resolution" where
  "unresolved j = \<lparr>super_index = j, slottbl_size = 0, numOfInstVars = 0, instance_size = 0, slottable = [],
     methodtable_size = 0, methodtable = []\<rparr>"

text \<open>Class i with members r; s are the members of its super class, None for the root.\<close>

definition resolveFields :: "nat \<Rightarrow> resolution option \<Rightarrow> fieldblock list \<Rightarrow> resolution \<Rightarrow> fieldblock list \<times> resolution" where
  "resolveFields i s fs r =
     (let first = (case s of None \<Rightarrow> 0 | Some s \<Rightarrow> unat (slottbl_size s));
          vars = (case s of None \<Rightarrow> 0 | Some s \<Rightarrow> unat (numOfInstVars s));
          (gs, at, n) = place_fields fs first vars;
          inherited = (case s of None \<Rightarrow> [] | Some s \<Rightarrow> take first (slottable s))
      in (gs, r\<lparr>slottbl_size := of_nat at, numOfInstVars := of_nat n, instance_size := of_nat (at * 4),
            slottable := (if at = 0 then [] else fill_slots i 0 gs first (inherited @ replicate (at - first) None))\<rparr>))"

section \<open>Methods\<close>

definition method_at :: "bin_class list \<Rightarrow> member_ref \<Rightarrow> methodblock" where
  "method_at bins r = class_methods (cls (bins ! fst r)) ! snd r"

text \<open>Static methods and constructors are not in the table.\<close>

definition virtual_method :: "methodblock \<Rightarrow> bool" where
  "virtual_method m \<longleftrightarrow> \<not> is_static_member (fb m) \<and> \<not> is_str (name (fb m)) ''<init>''"

definition method_key :: "methodblock \<Rightarrow> u8 list \<times> u8 list" where
  "method_key m = (c_str (name (fb m)), c_str (signature (fb m)))"

text \<open>The search of the first size slots; size when no method there has the name and signature.\<close>

fun find_slot :: "(member_ref \<Rightarrow> methodblock) \<Rightarrow> methodblock \<Rightarrow> member_ref option list \<Rightarrow> nat" where
  "find_slot look m [] = 0"
| "find_slot look m (x # t) =
     (case x of Some r \<Rightarrow> if method_key m = method_key (look r) then 0 else Suc (find_slot look m t)
      | None \<Rightarrow> Suc (find_slot look m t))"

fun place_methods :: "(member_ref \<Rightarrow> methodblock) \<Rightarrow> member_ref option list \<Rightarrow> methodblock list \<Rightarrow> nat \<Rightarrow> methodblock list \<times> nat" where
  "place_methods look t [] mslot = ([], mslot)"
| "place_methods look t (m # ms) mslot =
     (if \<not> virtual_method m then (let (ns, r) = place_methods look t ms mslot in (m # ns, r))
      else let k = find_slot look m t in
        if k \<noteq> length t then
          (let (ns, r) = place_methods look t ms mslot in (m\<lparr>fb := (fb m)\<lparr>offset := of_nat k\<rparr>\<rparr> # ns, r))
        else
          (let (ns, r) = place_methods look t ms (Suc mslot) in (m\<lparr>fb := (fb m)\<lparr>offset := of_nat mslot\<rparr>\<rparr> # ns, r)))"

text \<open>
  The second loop, from method number k of class i on. It searches the table of the super class;
  the root is its own super class, so there it searches the table that it is filling.
\<close>

fun fill_methods :: "(member_ref \<Rightarrow> methodblock) \<Rightarrow> (member_ref option list \<Rightarrow> member_ref option list) \<Rightarrow> nat \<Rightarrow> nat
    \<Rightarrow> methodblock list \<Rightarrow> nat \<Rightarrow> member_ref option list \<Rightarrow> member_ref option list" where
  "fill_methods look stab i k [] at t = t"
| "fill_methods look stab i k (m # ms) at t =
     (if \<not> virtual_method m then fill_methods look stab i (Suc k) ms at t
      else let s = find_slot look m (stab t) in
        if s \<noteq> length (stab t) then fill_methods look stab i (Suc k) ms at (t[s := Some (i, k)])
        else fill_methods look stab i (Suc k) ms (Suc at) (t[at := Some (i, k)]))"

definition inherited_methods :: "resolution option \<Rightarrow> member_ref option list" where
  "inherited_methods s = (case s of None \<Rightarrow> [] | Some s \<Rightarrow> take (unat (methodtable_size s)) (methodtable s))"

definition resolveMethods :: "(member_ref \<Rightarrow> methodblock) \<Rightarrow> nat \<Rightarrow> resolution option \<Rightarrow> methodblock list \<Rightarrow> resolution
    \<Rightarrow> methodblock list \<times> resolution" where
  "resolveMethods look i s ms r =
     (let old = inherited_methods s;
          (ns, mslot) = place_methods look old ms (length old);
          stab = (case s of None \<Rightarrow> take (mslot mod 65536) | Some s \<Rightarrow> (\<lambda>_. old));
          t = fill_methods look stab i 0 ns (length old) (old @ replicate (mslot - length old) None)
      in (ns, r\<lparr>methodtable_size := of_nat mslot, methodtable := t\<rparr>))"

section \<open>A class and its super class\<close>

text \<open>Lines 945 to 953 of loadClassFile for class i with super class j.\<close>

definition resolve_class :: "nat \<Rightarrow> nat \<Rightarrow> bin_class list \<Rightarrow> bin_class list option" where
  "resolve_class i j bins =
     (let c = cls (bins ! i); go = (\<lambda>s.
        let (fs, r) = resolveFields i s (class_fields c) (unresolved j);
            (ms, r) = resolveMethods (method_at bins) i s (class_methods c) r
        in bins[i := \<lparr>cls = c\<lparr>class_fields := fs, class_methods := ms\<rparr>, res = Some r\<rparr>])
      in if i = j then Some (go None)
         else case res (bins ! j) of None \<Rightarrow> None | Some s \<Rightarrow> Some (go (Some s)))"

end
