(* ===== verification/Class_Layout.thy ===== *)
theory Class_Layout
  imports Class_Resolver Class_Invariant
begin

text \<open>
  What the resolver lays out: the slots of the instance variables are disjoint and follow those of
  the super class, and the method table of a class is that of its super class with the
  methods of the class overriding it.
\<close>

section \<open>Instance variables\<close>

definition slot_words :: "fieldblock \<Rightarrow> nat" where
  "slot_words f = (if is_static_member f then 0 else field_words f)"

definition slots_before :: "fieldblock list \<Rightarrow> nat \<Rightarrow> nat" where
  "slots_before fs k = sum_list (map slot_words (take k fs))"

definition instance_words :: "fieldblock list \<Rightarrow> nat" where
  "instance_words fs = sum_list (map slot_words fs)"

lemma slots_before_simps [simp]:
  "slots_before fs 0 = 0" "slots_before (f # fs) (Suc k) = slot_words f + slots_before fs k"
  "instance_words [] = 0" "instance_words (f # fs) = slot_words f + instance_words fs"
  by (simp_all add: slots_before_def instance_words_def)

lemma slot_words_pos: "\<not> is_static_member f \<Longrightarrow> 0 < slot_words f"
  by (simp add: slot_words_def field_words_def split: list.split)

lemma slot_words_offset [simp]: "slot_words (f\<lparr>offset := v\<rparr>) = slot_words f" "is_static_member (f\<lparr>offset := v\<rparr>) = is_static_member f"
  "field_words (f\<lparr>offset := v\<rparr>) = field_words f"
  by (simp_all add: slot_words_def is_static_member_def field_words_def)

lemma slots_before_step:
  "k < length fs \<Longrightarrow> k < l \<Longrightarrow> slots_before fs k + slot_words (fs ! k) \<le> slots_before fs l"
proof (induction fs arbitrary: k l)
  case (Cons f fs)
  obtain l' where "l = Suc l'" using Cons.prems by (cases l) auto
  then show ?case using Cons by (cases k) auto
qed simp

lemma slots_before_total: "k < length fs \<Longrightarrow> slots_before fs k + slot_words (fs ! k) \<le> instance_words fs"
  using slots_before_step [of k fs "length fs"] by (simp add: slots_before_def instance_words_def)

lemma slots_of_instance:
  assumes "k < length fs" "\<not> is_static_member (fs ! k)"
  shows "slots_before fs k + field_words (fs ! k) \<le> instance_words fs"
    "k < l \<Longrightarrow> slots_before fs k + field_words (fs ! k) \<le> slots_before fs l"
  using slots_before_total [OF assms(1)] slots_before_step [OF assms(1)] assms(2) by (simp_all add: slot_words_def)

lemma place_fields_law:
  "place_fields fs p n = (gs, p', n') \<Longrightarrow> length gs = length fs \<and> p' = p + instance_words fs
     \<and> n' = n + length (filter (\<lambda>f. \<not> is_static_member f) fs)
     \<and> (\<forall>k < length fs. gs ! k = (if is_static_member (fs ! k) then fs ! k else (fs ! k)\<lparr>offset := of_nat (p + slots_before fs k)\<rparr>))"
proof (induction fs arbitrary: p n gs p' n')
  case (Cons f fs)
  obtain hs q m where rest: "place_fields fs (p + slot_words f) (if is_static_member f then n else Suc n) = (hs, q, m)"
    by (cases "place_fields fs (p + slot_words f) (if is_static_member f then n else Suc n)")
  note ih = Cons.IH [OF rest]
  have "gs = (if is_static_member f then f else f\<lparr>offset := of_nat p\<rparr>) # hs \<and> p' = q \<and> n' = m"
    using Cons.prems rest by (auto simp: slot_words_def split: if_splits)
  then show ?case using ih by (auto simp: nth_Cons' add.assoc less_Suc_eq_0_disj slot_words_def)
qed simp

lemma fill_slots_law:
  "p + instance_words fs \<le> length t \<Longrightarrow> length (fill_slots i k fs p t) = length t
     \<and> (\<forall>x < p. fill_slots i k fs p t ! x = t ! x)
     \<and> (\<forall>q < length fs. \<not> is_static_member (fs ! q) \<longrightarrow> fill_slots i k fs p t ! (p + slots_before fs q) = Some (i, k + q))"
proof (induction fs arbitrary: k p t)
  case (Cons f fs)
  show ?case
  proof (cases "is_static_member f")
    case True
    have w: "slot_words f = 0" using True by (simp add: slot_words_def)
    then show ?thesis
      using Cons.IH [of p t "Suc k"] Cons.prems True by (auto simp: less_Suc_eq_0_disj)
  next
    case False
    have w: "slot_words f = field_words f" "0 < field_words f"
      using False slot_words_pos [OF False] by (simp_all add: slot_words_def)
    note ih = Cons.IH [of "p + field_words f" "t[p := Some (i, k)]" "Suc k"]
    show ?thesis using ih Cons.prems False w by (auto simp: less_Suc_eq_0_disj add.assoc)
  qed
qed simp

lemma of_nat_u16: "n < 65536 \<Longrightarrow> unat (of_nat n :: u16) = n"
  by (simp add: unat_of_nat take_bit_nat_eq_self)

lemma of_nat_u32: "n < 65536 \<Longrightarrow> unat (of_nat n :: u32) = n"
  by (simp add: unat_of_nat take_bit_nat_eq_self)

text \<open>The layout of a class over a super class with the layout s.\<close>

definition slots_ok :: "resolution \<Rightarrow> bool" where
  "slots_ok s \<longleftrightarrow> length (slottable s) = unat (slottbl_size s)"

lemma resolveFields_law:
  assumes "slots_ok s" "unat (slottbl_size s) + instance_words fs < 65536" "resolveFields i (Some s) fs r0 = (gs, r)"
  defines "a \<equiv> unat (slottbl_size s)"
  shows "slots_ok r" "unat (slottbl_size r) = a + instance_words fs"
    "a + instance_words fs < 16384 \<Longrightarrow> unat (instance_size r) = 4 * (a + instance_words fs)"
    "x < a \<Longrightarrow> slottable r ! x = slottable s ! x"
    "k < length fs \<Longrightarrow> is_static_member (fs ! k) \<Longrightarrow> gs ! k = fs ! k"
    "k < length fs \<Longrightarrow> \<not> is_static_member (fs ! k) \<Longrightarrow> unat (offset (gs ! k)) = a + slots_before fs k"
    "k < length fs \<Longrightarrow> \<not> is_static_member (fs ! k) \<Longrightarrow> slottable r ! (a + slots_before fs k) = Some (i, k)"
proof -
  obtain hs p n where pl: "place_fields fs a (unat (numOfInstVars s)) = (hs, p, n)"
    by (cases "place_fields fs a (unat (numOfInstVars s))")
  note place = place_fields_law [OF pl]
  have bound: "a + instance_words fs < 65536" using assms(2) by (simp add: a_def)
  define t where "t = take a (slottable s) @ replicate (p - a) None"
  have gs: "gs = hs"
    and r: "slottbl_size r = of_nat p" "instance_size r = of_nat (p * 4)" "slottable r = (if p = 0 then [] else fill_slots i 0 hs a t)"
    using assms(3) pl by (auto simp: resolveFields_def Let_def a_def t_def)
  have len: "length t = p" using assms(1) place by (simp add: t_def slots_ok_def a_def)
  have words: "instance_words hs = instance_words fs" "slots_before hs q = slots_before fs q" for q
  proof -
    have "map slot_words hs = map slot_words fs"
      using place by (intro nth_equalityI) auto
    then show "instance_words hs = instance_words fs" "slots_before hs q = slots_before fs q"
      by (simp_all add: instance_words_def slots_before_def flip: take_map)
  qed
  have fill: "length (slottable r) = p" "x < a \<Longrightarrow> slottable r ! x = t ! x"
    "q < length fs \<Longrightarrow> \<not> is_static_member (fs ! q) \<Longrightarrow> slottable r ! (a + slots_before fs q) = Some (i, q)" for x q
    using fill_slots_law [of a hs t i 0] place len words slots_before_total [of q fs] slot_words_pos [of "fs ! q"] r(3) by auto
  have pb: "p < 65536" "p = a + instance_words fs" using place bound by simp_all
  show size: "unat (slottbl_size r) = a + instance_words fs"
    unfolding r(1) pb(2) [symmetric] by (rule of_nat_u16 [OF pb(1)])
  show "slots_ok r" using size fill(1) pb(2) by (simp add: slots_ok_def)
  show "unat (instance_size r) = 4 * (a + instance_words fs)" if "a + instance_words fs < 16384"
    unfolding r(2) using that of_nat_u16 [of "p * 4"] pb(2) by (simp del: of_nat_mult)
  show "slottable r ! x = slottable s ! x" if "x < a" for x
    using fill(2) [OF that] that assms(1) by (simp add: t_def nth_append slots_ok_def a_def)
  show "gs ! k = fs ! k" if "k < length fs" "is_static_member (fs ! k)" for k
    using place that by (simp add: gs)
  show "slottable r ! (a + slots_before fs k) = Some (i, k)" if "k < length fs" "\<not> is_static_member (fs ! k)" for k
    using fill(3) that by simp
  show "unat (offset (gs ! k)) = a + slots_before fs k" if "k < length fs" "\<not> is_static_member (fs ! k)" for k
  proof -
    have "offset (gs ! k) = of_nat (a + slots_before fs k)" using place that by (simp add: gs)
    then show ?thesis using slots_before_total [OF that(1)] bound by (simp only: of_nat_u32)
  qed
qed

text \<open>Property C11: the layout of instance variables. If the class has fewer than 65536 slots, the slots
  of the super class keep their places, every instance variable gets as many slots as it has words
  after them, no two share one, the table leads from its first slot back to the variable, and static
  variables get none. The size in bytes is right up to 16383 slots; it is kept in 16 bits.\<close>
theorem fields_layout:
  assumes "slots_ok s" "unat (slottbl_size s) + instance_words fs < 65536" "resolveFields i (Some s) fs r0 = (gs, r)"
  shows "slots_ok r \<and> unat (slottbl_size r) = unat (slottbl_size s) + instance_words fs
    \<and> (unat (slottbl_size r) < 16384 \<longrightarrow> unat (instance_size r) = 4 * unat (slottbl_size r))
    \<and> (\<forall>x < unat (slottbl_size s). slottable r ! x = slottable s ! x)
    \<and> (\<forall>k < length fs. is_static_member (fs ! k) \<longrightarrow> gs ! k = fs ! k)
    \<and> (\<forall>k < length fs. \<not> is_static_member (fs ! k) \<longrightarrow>
         unat (slottbl_size s) \<le> unat (offset (gs ! k))
         \<and> unat (offset (gs ! k)) + field_words (fs ! k) \<le> unat (slottbl_size r)
         \<and> slottable r ! unat (offset (gs ! k)) = Some (i, k)
         \<and> (\<forall>l < length fs. k < l \<and> \<not> is_static_member (fs ! l) \<longrightarrow>
              unat (offset (gs ! k)) + field_words (fs ! k) \<le> unat (offset (gs ! l))))"
  unfolding resolveFields_law(2) [OF assms]
  using resolveFields_law [OF assms] by (auto simp: slots_of_instance)

section \<open>The method table\<close>

text \<open>
  A table as a map from names and signatures to methods. Its slots are filled with methods of
  different keys; look leads from a pointer to the method.
\<close>

type_synonym key_pair = "u8 list \<times> u8 list"

definition key_at :: "(member_ref \<Rightarrow> methodblock) \<Rightarrow> member_ref option \<Rightarrow> key_pair" where
  "key_at look x = method_key (look (the x))"

definition table_ok :: "(member_ref \<Rightarrow> methodblock) \<Rightarrow> member_ref option list \<Rightarrow> bool" where
  "table_ok look t \<longleftrightarrow> None \<notin> set t \<and> distinct (map (key_at look) t)"

definition sees :: "(member_ref \<Rightarrow> methodblock) \<Rightarrow> member_ref option list \<Rightarrow> key_pair \<Rightarrow> member_ref option" where
  "sees look t = map_of (map (\<lambda>x. (key_at look x, the x)) t)"

text \<open>The virtual methods a class declares, from number k on.\<close>

fun declares :: "nat \<Rightarrow> nat \<Rightarrow> methodblock list \<Rightarrow> key_pair \<Rightarrow> member_ref option" where
  "declares i k [] = Map.empty"
| "declares i k (m # ms) = (if virtual_method m then (declares i (Suc k) ms)(method_key m \<mapsto> (i, k)) else declares i (Suc k) ms)"

definition virtual_keys :: "methodblock list \<Rightarrow> key_pair list" where
  "virtual_keys ms = map method_key (filter virtual_method ms)"

lemma virtual_keys_simps [simp]:
  "virtual_keys [] = []" "virtual_keys (m # ms) = (if virtual_method m then method_key m # virtual_keys ms else virtual_keys ms)"
  by (simp_all add: virtual_keys_def)

lemma dom_declares: "dom (declares i k ms) = set (virtual_keys ms)"
  by (induction ms arbitrary: k) auto

lemma find_slot_Suc: "find_slot look m (x # t) = (if x \<noteq> None \<and> method_key m = key_at look x then 0 else Suc (find_slot look m t))"
  by (cases x) (simp_all add: key_at_def)

lemma find_slot_le: "find_slot look m t \<le> length t"
  by (induction t) (auto simp: find_slot_Suc simp del: find_slot.simps(2))

lemma find_slot_found: "find_slot look m t < length t \<Longrightarrow> method_key m = key_at look (t ! find_slot look m t)"
  by (induction t) (auto simp: find_slot_Suc simp del: find_slot.simps(2))

lemma find_slot_none: "find_slot look m t = length t \<Longrightarrow> None \<notin> set t \<Longrightarrow> method_key m \<notin> key_at look ` set t"
proof (induction t)
  case (Cons x t)
  then show ?case by (cases x) (auto simp: key_at_def split: if_splits)
qed simp

lemma sees_key: "table_ok look t \<Longrightarrow> x < length t \<Longrightarrow> sees look t (key_at look (t ! x)) = t ! x"
proof -
  assume t: "table_ok look t" "x < length t"
  have "(key_at look (t ! x), the (t ! x)) \<in> set (map (\<lambda>x. (key_at look x, the x)) t)" using t(2) by simp
  moreover have "distinct (map fst (map (\<lambda>x. (key_at look x, the x)) t))"
    using t(1) by (simp add: table_ok_def comp_def)
  ultimately have "sees look t (key_at look (t ! x)) = Some (the (t ! x))"
    unfolding sees_def by (intro map_of_is_SomeI)
  then show ?thesis using t by (metis nth_mem option.collapse table_ok_def)
qed

lemma dom_sees: "dom (sees look t) = key_at look ` set t"
  by (simp add: sees_def dom_map_of_conv_image_fst image_image)

lemma table_keys: "table_ok look t \<Longrightarrow> x < length t \<Longrightarrow> y < length t \<Longrightarrow> key_at look (t ! x) = key_at look (t ! y) \<Longrightarrow> x = y"
  by (auto simp: table_ok_def distinct_conv_nth)

text \<open>A table is determined by its keys and where they lead.\<close>

lemma sees_update:
  assumes "table_ok look t" "x < length t" "key_at look (Some r) = key_at look (t ! x)"
  shows "table_ok look (t[x := Some r])" "sees look (t[x := Some r]) = (sees look t)(key_at look (t ! x) \<mapsto> r)"
proof -
  have keys: "map (key_at look) (t[x := Some r]) = map (key_at look) t"
    by (simp add: map_update assms(3)) (metis list_update_id map_update assms(2) nth_map)
  show ok: "table_ok look (t[x := Some r])"
    using assms(1) set_update_subset_insert [of t x "Some r"] keys by (auto simp: table_ok_def)
  show "sees look (t[x := Some r]) = (sees look t)(key_at look (t ! x) \<mapsto> r)"
  proof
    fix k
    have set: "key_at look ` set (t[x := Some r]) = key_at look ` set t" using keys by (metis set_map)
    show "sees look (t[x := Some r]) k = ((sees look t)(key_at look (t ! x) \<mapsto> r)) k"
    proof (cases "k \<in> key_at look ` set t")
      case False
      moreover have "k \<noteq> key_at look (t ! x)" using False assms(2) by auto
      ultimately show ?thesis using set by (metis dom_sees domIff fun_upd_other)
    next
      case True
      then obtain y where y: "y < length t" "k = key_at look (t ! y)" by (auto simp: in_set_conv_nth)
      then have "k = key_at look (t[x := Some r] ! y)"
        using keys by (metis length_list_update nth_map)
      then have "sees look (t[x := Some r]) k = t[x := Some r] ! y" using sees_key [OF ok, of y] y(1) by simp
      then show ?thesis
        using y sees_key [OF assms(1) y(1)] table_keys [OF assms(1) y(1) assms(2)] by (cases "y = x") auto
    qed
  qed
qed

lemma sees_append:
  assumes "table_ok look t" "key_at look (Some r) \<notin> key_at look ` set t"
  shows "table_ok look (t @ [Some r])" "sees look (t @ [Some r]) = (sees look t)(key_at look (Some r) \<mapsto> r)"
proof -
  show "table_ok look (t @ [Some r])" using assms by (auto simp: table_ok_def)
  have "key_at look (Some r) \<notin> dom (sees look t)" using assms(2) by (simp add: dom_sees)
  then show "sees look (t @ [Some r]) = (sees look t)(key_at look (Some r) \<mapsto> r)"
    by (auto simp: sees_def map_of_append map_add_def fun_eq_iff split: option.split)
qed

text \<open>The two loops agree on where a method goes.\<close>

lemma member_keys [simp]:
  "method_key (m\<lparr>fb := (fb m)\<lparr>offset := v\<rparr>\<rparr>) = method_key m" "virtual_method (m\<lparr>fb := (fb m)\<lparr>offset := v\<rparr>\<rparr>) = virtual_method m"
  by (simp_all add: method_key_def virtual_method_def is_static_member_def)

lemma find_slot_cong: "method_key m = method_key n \<Longrightarrow> find_slot look m t = find_slot look n t"
  by (induction t) (auto split: option.split)

definition new_methods :: "(member_ref \<Rightarrow> methodblock) \<Rightarrow> member_ref option list \<Rightarrow> methodblock list \<Rightarrow> nat" where
  "new_methods look old ms = length (filter (\<lambda>m. virtual_method m \<and> find_slot look m old = length old) ms)"

lemma place_methods_law:
  "place_methods look old ms p = (ns, p') \<Longrightarrow> length ns = length ms \<and> p' = p + new_methods look old ms
     \<and> (\<forall>q < length ms. method_key (ns ! q) = method_key (ms ! q) \<and> virtual_method (ns ! q) = virtual_method (ms ! q))"
proof (induction ms arbitrary: p ns p')
  case (Cons m ms)
  show ?case
  proof (cases "virtual_method m \<and> find_slot look m old = length old")
    case True
    obtain os q where r: "place_methods look old ms (Suc p) = (os, q)" by (cases "place_methods look old ms (Suc p)")
    show ?thesis using Cons.prems r Cons.IH [OF r] True by (auto simp: new_methods_def nth_Cons')
  next
    case False
    obtain os q where r: "place_methods look old ms p = (os, q)" by (cases "place_methods look old ms p")
    show ?thesis
      using Cons.prems r Cons.IH [OF r] False by (auto simp: new_methods_def nth_Cons' Let_def split: if_splits)
  qed
qed (simp add: new_methods_def)

lemma fill_methods_cong:
  "length ns = length ms \<Longrightarrow> \<forall>q < length ms. method_key (ns ! q) = method_key (ms ! q) \<and> virtual_method (ns ! q) = virtual_method (ms ! q)
    \<Longrightarrow> fill_methods look stab i k ns p t = fill_methods look stab i k ms p t"
proof (induction ms arbitrary: ns k p t)
  case (Cons m ms)
  then obtain n os where ns: "ns = n # os" by (cases ns) auto
  have "method_key n = method_key m" "virtual_method n = virtual_method m"
    using Cons.prems(2) by (auto simp: ns dest: spec [of _ 0])
  moreover have "fill_methods look stab i k os p t = fill_methods look stab i k ms p t" for k p t
    using Cons.prems by (intro Cons.IH) (auto simp: ns dest: spec [of _ "Suc _"])
  ultimately show ?case by (simp add: ns find_slot_cong [of n m] Let_def)
qed simp

text \<open>A table whose first p slots are filled, before the methods ms; and the table after them.\<close>

definition filling :: "(member_ref \<Rightarrow> methodblock) \<Rightarrow> member_ref option list \<Rightarrow> methodblock list \<Rightarrow> nat \<Rightarrow> member_ref option list \<Rightarrow> bool" where
  "filling look old ms p t \<longleftrightarrow> table_ok look (take p t) \<and> length old \<le> p \<and> p \<le> length t
     \<and> (\<forall>x < length old. key_at look (t ! x) = key_at look (old ! x))
     \<and> (\<forall>x. length old \<le> x \<and> x < p \<longrightarrow> key_at look (t ! x) \<notin> set (virtual_keys ms))"

definition filled :: "(member_ref \<Rightarrow> methodblock) \<Rightarrow> nat \<Rightarrow> nat \<Rightarrow> methodblock list \<Rightarrow> methodblock list \<Rightarrow> nat
    \<Rightarrow> member_ref option list \<Rightarrow> member_ref option list \<Rightarrow> bool" where
  "filled look i k ms ns p t u \<longleftrightarrow> length u = length t \<and> table_ok look u
     \<and> sees look u = sees look (take p t) ++ declares i k ms
     \<and> (\<forall>x < p. key_at look (u ! x) = key_at look (t ! x))
     \<and> (\<forall>q < length ms. virtual_method (ms ! q) \<longrightarrow> unat (offset (fb (ns ! q))) < length t
         \<and> key_at look (u ! unat (offset (fb (ns ! q)))) = method_key (ms ! q))"

lemma filling_skip: "filling look old (m # ms) p t \<Longrightarrow> filling look old ms p t"
  by (auto simp: filling_def split: if_splits)

lemma filling_override:
  assumes "filling look old (m # ms) p t" "find_slot look m old \<noteq> length old" "key_at look (Some r) = method_key m"
  defines "u \<equiv> t[find_slot look m old := Some r]"
  shows "filling look old ms p u" "sees look (take p u) = (sees look (take p t))(method_key m \<mapsto> r)"
    "key_at look (u ! x) = key_at look (t ! x)" "find_slot look m old < p" "key_at look (t ! find_slot look m old) = method_key m"
proof -
  let ?s = "find_slot look m old"
  have less: "?s < length old" using assms(2) find_slot_le [of look m old] by simp
  show p: "?s < p" using less assms(1) by (simp add: filling_def)
  have st: "?s < length (take p t)" using p assms(1) by (simp add: filling_def)
  show at: "key_at look (t ! ?s) = method_key m"
    using find_slot_found [OF less] less assms(1) by (simp add: filling_def)
  show keys: "key_at look (u ! x) = key_at look (t ! x)" for x
    using at assms(3) st by (cases "x = ?s") (simp_all add: u_def)
  have take: "take p u = (take p t)[?s := Some r]" using p by (simp add: u_def take_update_swap)
  have up: "table_ok look (take p u)" "sees look (take p u) = (sees look (take p t))(method_key m \<mapsto> r)"
    unfolding take using sees_update [of look "take p t" ?s r] assms(1,3) st at p by (simp_all add: filling_def)
  then show "filling look old ms p u" "sees look (take p u) = (sees look (take p t))(method_key m \<mapsto> r)"
    using filling_skip [OF assms(1)] by (simp_all add: filling_def keys) (simp add: u_def)
qed

lemma filling_new:
  assumes "table_ok look old" "filling look old (m # ms) p t" "find_slot look m old = length old" "p < length t"
    "virtual_method m" "method_key m \<notin> set (virtual_keys ms)" "key_at look (Some r) = method_key m"
  defines "u \<equiv> t[p := Some r]"
  shows "filling look old ms (Suc p) u" "sees look (take (Suc p) u) = (sees look (take p t))(method_key m \<mapsto> r)"
    "x < p \<Longrightarrow> key_at look (u ! x) = key_at look (t ! x)" "key_at look (u ! p) = method_key m"
proof -
  have fresh: "method_key m \<notin> key_at look ` set (take p t)"
  proof
    assume "method_key m \<in> key_at look ` set (take p t)"
    then obtain x where x: "x < p" "method_key m = key_at look (t ! x)" by (auto simp: in_set_conv_nth)
    show False
    proof (cases "x < length old")
      case True
      then have "method_key m = key_at look (old ! x)" using x assms(2) by (simp add: filling_def)
      moreover have "method_key m \<notin> key_at look ` set old"
        using find_slot_none [OF assms(3)] assms(1) by (simp add: table_ok_def)
      ultimately show False using True by auto
    next
      case False
      then have "key_at look (t ! x) \<notin> set (virtual_keys (m # ms))" using x(1) assms(2) by (simp del: virtual_keys_simps add: filling_def)
      then show False using x(2) assms(5) by simp
    qed
  qed
  have take: "take (Suc p) u = take p t @ [Some r]" using assms(4) by (simp add: u_def take_Suc_conv_app_nth)
  show keys: "key_at look (u ! x) = key_at look (t ! x)" if "x < p" for x using that by (simp add: u_def)
  show at: "key_at look (u ! p) = method_key m" using assms(4,7) by (simp add: u_def)
  have "table_ok look (take (Suc p) u) \<and> sees look (take (Suc p) u) = (sees look (take p t))(method_key m \<mapsto> r)"
    unfolding take using sees_append [of look "take p t" r] fresh assms(2,7) by (simp add: filling_def)
  then show "filling look old ms (Suc p) u" "sees look (take (Suc p) u) = (sees look (take p t))(method_key m \<mapsto> r)"
    using filling_skip [OF assms(2)] assms(4,6) at keys by (auto simp: filling_def less_Suc_eq) (simp add: u_def)
qed

lemma filled_Cons:
  assumes "filled look i (Suc k) ms ns p' t' u" "length t' = length t" "p \<le> p'" "virtual_method m"
    "sees look (take p' t') = (sees look (take p t))(method_key m \<mapsto> (i, k))" "method_key m \<notin> set (virtual_keys ms)"
    "\<forall>x < p. key_at look (t' ! x) = key_at look (t ! x)" "x < p'" "p' \<le> length t" "key_at look (t' ! x) = method_key m" "length t < 65536"
  shows "filled look i k (m # ms) (m\<lparr>fb := (fb m)\<lparr>offset := of_nat x\<rparr>\<rparr> # ns) p t u"
proof -
  have "method_key m \<notin> dom (declares i (Suc k) ms)" using assms(6) by (simp add: dom_declares)
  then have "sees look u = sees look (take p t) ++ declares i k (m # ms)"
    using assms(1,4,5) by (simp add: filled_def map_add_upd_left)
  moreover have "unat (of_nat x :: u32) = x" using assms(8,9,11) by (intro of_nat_u32) simp
  ultimately show ?thesis
    using assms by (auto simp: filled_def nth_Cons' less_Suc_eq_0_disj)
qed

lemma fill_methods_law:
  assumes "table_ok look old" "filling look old ms p t" "distinct (virtual_keys ms)"
    "\<forall>q < length ms. method_key (look (i, k + q)) = method_key (ms ! q)"
    "place_methods look old ms p = (ns, length t)" "length t < 65536"
  shows "filled look i k ms ns p t (fill_methods look (\<lambda>_. old) i k ms p t)"
  using assms
proof (induction ms arbitrary: k p t ns)
  case Nil
  then show ?case by (simp add: filled_def filling_def)
next
  case (Cons m ms)
  have look: "key_at look (Some (i, k)) = method_key m" using Cons.prems(4) by (auto simp: key_at_def)
  have tl: "\<forall>q < length ms. method_key (look (i, Suc k + q)) = method_key (ms ! q)"
    using Cons.prems(4) by (auto dest: spec [of _ "Suc _"])
  let ?s = "find_slot look m old"
  consider "\<not> virtual_method m" | "virtual_method m" "?s \<noteq> length old" | "virtual_method m" "?s = length old" by blast
  then show ?case
  proof cases
    case 1
    obtain os where os: "place_methods look old ms p = (os, length t)" "ns = m # os"
      using Cons.prems(5) 1 by (auto split: prod.splits)
    have "filled look i (Suc k) ms os p t (fill_methods look (\<lambda>_. old) i (Suc k) ms p t)"
      using Cons.prems 1 filling_skip tl os(1) by (intro Cons.IH) auto
    then show ?thesis using 1 by (auto simp: filled_def os(2) nth_Cons' less_Suc_eq_0_disj)
  next
    case 2
    note o = filling_override [OF Cons.prems(2) 2(2) look]
    obtain os where os: "place_methods look old ms p = (os, length t)" "ns = m\<lparr>fb := (fb m)\<lparr>offset := of_nat ?s\<rparr>\<rparr> # os"
      using Cons.prems(5) 2 by (auto simp: Let_def split: prod.splits)
    have "filled look i (Suc k) ms os p (t[?s := Some (i, k)])
        (fill_methods look (\<lambda>_. old) i (Suc k) ms p (t[?s := Some (i, k)]))"
      using Cons.prems 2 tl os(1) by (intro Cons.IH o(1)) simp_all
    then have "filled look i k (m # ms) ns p t (fill_methods look (\<lambda>_. old) i (Suc k) ms p (t[?s := Some (i, k)]))"
      unfolding os(2) by (rule filled_Cons) (use Cons.prems 2 o(2-5) look in \<open>simp_all add: filling_def\<close>)
    then show ?thesis using 2 by simp
  next
    case 3
    obtain os where os: "place_methods look old ms (Suc p) = (os, length t)" "ns = m\<lparr>fb := (fb m)\<lparr>offset := of_nat p\<rparr>\<rparr> # os"
      using Cons.prems(5) 3 by (auto simp: Let_def split: prod.splits)
    have less: "p < length t" using place_methods_law [OF os(1)] by simp
    have fresh: "method_key m \<notin> set (virtual_keys ms)" using Cons.prems(3) 3 by simp
    note n = filling_new [OF Cons.prems(1,2) 3(2) less 3(1) fresh look]
    have "filled look i (Suc k) ms os (Suc p) (t[p := Some (i, k)])
        (fill_methods look (\<lambda>_. old) i (Suc k) ms (Suc p) (t[p := Some (i, k)]))"
      using Cons.prems 3 tl os(1) by (intro Cons.IH n(1)) simp_all
    then have "filled look i k (m # ms) ns p t (fill_methods look (\<lambda>_. old) i (Suc k) ms (Suc p) (t[p := Some (i, k)]))"
      unfolding os(2) by (rule filled_Cons) (use Cons.prems 3 n(2-4) less fresh look in \<open>simp_all add: filling_def\<close>)
    then show ?thesis using 3 by simp
  qed
qed

definition methods_ok :: "(member_ref \<Rightarrow> methodblock) \<Rightarrow> resolution \<Rightarrow> bool" where
  "methods_ok look r \<longleftrightarrow> length (methodtable r) = unat (methodtable_size r) \<and> table_ok look (methodtable r)"

lemma declares_at:
  "q < length ms \<Longrightarrow> virtual_method (ms ! q) \<Longrightarrow> distinct (virtual_keys ms) \<Longrightarrow>
   declares i k ms (method_key (ms ! q)) = Some (i, k + q)"
proof (induction ms arbitrary: k q)
  case (Cons m ms)
  show ?case
  proof (cases q)
    case 0
    then show ?thesis using Cons.prems by simp
  next
    case (Suc r)
    have d: "distinct (virtual_keys ms)" using Cons.prems(3) by (simp split: if_splits)
    then have "declares i (Suc k) ms (method_key (ms ! r)) = Some (i, Suc k + r)"
      using Cons.prems Suc by (intro Cons.IH) simp_all
    moreover have "method_key (ms ! r) \<in> set (virtual_keys ms)"
      using Cons.prems Suc by (simp add: virtual_keys_def)
    then have "virtual_method m \<Longrightarrow> method_key (ms ! r) \<noteq> method_key m"
      using Cons.prems(3) by auto
    ultimately show ?thesis using Suc by simp
  qed
qed simp

lemma filled_points:
  assumes "filled look i 0 ms ns p t u" "q < length ms" "virtual_method (ms ! q)" "distinct (virtual_keys ms)"
  shows "u ! unat (offset (fb (ns ! q))) = Some (i, q)"
proof -
  let ?x = "unat (offset (fb (ns ! q)))"
  have "?x < length u" "key_at look (u ! ?x) = method_key (ms ! q)" "table_ok look u"
    using assms(1-3) by (simp_all add: filled_def)
  then have "u ! ?x = sees look u (method_key (ms ! q))" using sees_key [of look u ?x] by simp
  also have "\<dots> = (sees look (take p t) ++ declares i 0 ms) (method_key (ms ! q))" using assms(1) by (simp add: filled_def)
  also have "\<dots> = Some (i, q)" using declares_at [OF assms(2-4), of i 0] by (simp add: map_add_def)
  finally show ?thesis .
qed

lemma resolveMethods_law:
  assumes "methods_ok look s" "distinct (virtual_keys ms)" "unat (methodtable_size s) + length ms < 65536"
    "\<forall>q < length ms. method_key (look (i, q)) = method_key (ms ! q)" "resolveMethods look i (Some s) ms r0 = (ns, r)"
  shows "unat (methodtable_size r) = length (methodtable r)" "length ns = length ms"
    "filled look i 0 ms ns (length (methodtable s)) (methodtable s @ replicate (length (methodtable r) - length (methodtable s)) None) (methodtable r)"
    "length (methodtable s) \<le> length (methodtable r)"
proof -
  let ?old = "methodtable s"
  have old: "inherited_methods (Some s) = ?old" "length ?old = unat (methodtable_size s)" "table_ok look ?old"
    using assms(1) by (simp_all add: inherited_methods_def methods_ok_def)
  obtain os p where pl: "place_methods look ?old ms (length ?old) = (os, p)"
    by (cases "place_methods look ?old ms (length ?old)")
  note place = place_methods_law [OF pl]
  define t where "t = ?old @ replicate (p - length ?old) None"
  have r: "ns = os" "methodtable_size r = of_nat p" "methodtable r = fill_methods look (\<lambda>_. ?old) i 0 ms (length ?old) t"
    using assms(5) pl place fill_methods_cong [of os ms look "\<lambda>_. ?old" i 0 "length ?old" t]
    by (auto simp: resolveMethods_def old(1) Let_def t_def)
  have "new_methods look ?old ms \<le> length ms" by (simp add: new_methods_def)
  then have p: "p < 65536" "length ?old \<le> p" "length t = p" using place assms(3) old(2) by (simp_all add: t_def)
  have "filling look ?old ms (length ?old) t" using old(3) p by (auto simp: filling_def t_def nth_append)
  then have f: "filled look i 0 ms os (length ?old) t (methodtable r)"
    unfolding r(3) using assms(2,4) old(3) pl p by (intro fill_methods_law) simp_all
  then have len: "length (methodtable r) = p" using p by (simp add: filled_def)
  show "unat (methodtable_size r) = length (methodtable r)" unfolding r(2) len by (rule of_nat_u16 [OF p(1)])
  show "length ns = length ms" "length ?old \<le> length (methodtable r)" using place r(1) len p by simp_all
  show "filled look i 0 ms ns (length ?old) (?old @ replicate (length (methodtable r) - length ?old) None) (methodtable r)"
    using f by (simp add: r(1) len t_def)
qed

text \<open>Property C6: the method table of a class is that of its super class overridden by its own
  virtual methods. If the super class's table holds methods of different names and signatures and the
  class declares each only once, then looking up a name and signature in the new table finds the
  class's method if it declares one and the super class's otherwise; the methods of the super class and
  their overridings keep their slots; and the offset of each virtual method leads to it.\<close>
theorem method_table_refines:
  assumes "methods_ok look s" "distinct (virtual_keys ms)" "unat (methodtable_size s) + length ms < 65536"
    "\<forall>q < length ms. method_key (look (i, q)) = method_key (ms ! q)" "resolveMethods look i (Some s) ms r0 = (ns, r)"
  shows "methods_ok look r \<and> sees look (methodtable r) = sees look (methodtable s) ++ declares i 0 ms
    \<and> (\<forall>x < unat (methodtable_size s). key_at look (methodtable r ! x) = key_at look (methodtable s ! x))
    \<and> (\<forall>q < length ms. virtual_method (ms ! q) \<longrightarrow> methodtable r ! unat (offset (fb (ns ! q))) = Some (i, q))"
  using resolveMethods_law [OF assms] filled_points [OF resolveMethods_law(3) [OF assms]] assms(1,2)
  by (auto simp: methods_ok_def filled_def nth_append)

section \<open>An example\<close>

definition example_member :: "u16 \<Rightarrow> string \<Rightarrow> string \<Rightarrow> fieldblock" where
  "example_member a nm sg =
     \<lparr>access = a, name = ascii nm, nameIndex = 1, signature = ascii sg, sigIndex = 2, offset = 0\<rparr>"

text \<open>A super class with two slots and methods f and g, and a class that overrides g and adds h.\<close>

definition example_super :: resolution where
  "example_super = \<lparr>super_index = 0, slottbl_size = 2, numOfInstVars = 1, instance_size = 8, slottable = [Some (0, 0), None],
     methodtable_size = 2, methodtable = [Some (0, 0), Some (0, 1)]\<rparr>"

definition example_methods :: "methodblock list" where
  "example_methods = map (\<lambda>f. new_method f 0)
     [example_member 1 ''g'' ''()V'', example_member 1 ''<init>'' ''()V'', example_member 8 ''g'' ''()V'', example_member 1 ''h'' ''(I)V'']"

definition example_look :: "member_ref \<Rightarrow> methodblock" where
  "example_look r = (if fst r = 1 then example_methods ! snd r
     else new_method (example_member 1 (if snd r = 0 then ''f'' else ''g'') ''()V'') 0)"

lemma example_methods_simps:
  "virtual_method (new_method (example_member a nm sg) n) \<longleftrightarrow> a AND 8 = 0 \<and> \<not> is_str (ascii nm) ''<init>''"
  "method_key (new_method (example_member a nm sg) n) = (c_str (ascii nm), c_str (ascii sg))"
  by (simp_all add: virtual_method_def is_static_member_def method_key_def new_method_def example_member_def ACC_STATIC_def)

lemma example_strs: "c_str (ascii ''f'') = [102]" "c_str (ascii ''g'') = [103]" "c_str (ascii ''h'') = [104]"
  "c_str (ascii ''()V'') = [40, 41, 86]" "c_str (ascii ''(I)V'') = [40, 73, 41, 86]"
  "\<not> is_str (ascii ''g'') ''<init>''" "\<not> is_str (ascii ''h'') ''<init>''" "is_str (ascii ''<init>'') ''<init>''"
  by (simp_all add: c_str_def is_str_def)

theorem fields_layout_witness:
  "\<exists>gs r. resolveFields 1 (Some example_super) [example_member 1 ''x'' ''D'', example_member 8 ''s'' ''J'', example_member 2 ''y'' ''I''] example_super
     = (gs, r) \<and> unat (slottbl_size r) = 5 \<and> unat (instance_size r) = 20 \<and> slottable r ! unat (offset (gs ! 2)) = Some (1, 2)"
proof -
  let ?fs = "[example_member 1 ''x'' ''D'', example_member 8 ''s'' ''J'', example_member 2 ''y'' ''I'']"
  obtain gs r where r: "resolveFields 1 (Some example_super) ?fs example_super = (gs, r)"
    by (cases "resolveFields 1 (Some example_super) ?fs example_super")
  have w: "instance_words ?fs = 3" "\<not> is_static_member (?fs ! 2)" "length ?fs = 3"
    by (simp_all add: slot_words_def field_words_def is_static_member_def example_member_def ACC_STATIC_def c_str_def chr_def)
  have "slots_ok example_super" "unat (slottbl_size example_super) = 2" by (simp_all add: slots_ok_def example_super_def)
  then show ?thesis
    using fields_layout [OF _ _ r] w r by (simp del: list.size)
qed

theorem method_table_refines_witness:
  "\<exists>ns r. resolveMethods example_look 1 (Some example_super) example_methods example_super = (ns, r)
     \<and> methods_ok example_look r
     \<and> sees example_look (methodtable r) ([103], [40, 41, 86]) = Some (1, 0)
     \<and> sees example_look (methodtable r) ([102], [40, 41, 86]) = Some (0, 0)
     \<and> methodtable r ! unat (offset (fb (ns ! 3))) = Some (1, 3)"
proof -
  obtain ns r where r: "resolveMethods example_look 1 (Some example_super) example_methods example_super = (ns, r)"
    by (cases "resolveMethods example_look 1 (Some example_super) example_methods example_super")
  have ok: "methods_ok example_look example_super" "unat (methodtable_size example_super) = 2"
    by (simp_all add: methods_ok_def table_ok_def key_at_def example_super_def example_look_def example_methods_simps c_str_def)
  have ms: "virtual_keys example_methods = [([103], [40, 41, 86]), ([104], [40, 73, 41, 86])]" "length example_methods = 4"
    "virtual_method (example_methods ! 3)"
    by (simp_all add: example_methods_def example_methods_simps example_strs del: ascii_simps)
  have look: "\<forall>q < length example_methods. method_key (example_look (1, q)) = method_key (example_methods ! q)"
    by (simp add: example_look_def)
  have "sees example_look (methodtable example_super) ([102], [40, 41, 86]) = Some (0, 0)"
    "declares 1 0 example_methods ([102], [40, 41, 86]) = None" "declares 1 0 example_methods ([103], [40, 41, 86]) = Some (1, 0)"
    by (simp_all add: sees_def key_at_def example_super_def example_look_def example_methods_def example_methods_simps example_strs del: ascii_simps)
  then show ?thesis
    using method_table_refines [OF ok(1) _ _ look r] ms ok(2) r by (simp add: map_add_def)
qed

end
