(* ===== verification/Code_Rewriting.thy ===== *)
theory Code_Rewriting
  imports Class_Resolver "HOL-Library.Sublist"
begin

text \<open>
  The passes of the loader over the code of a method: changeOpcodeToQuick of res.c, which turns
  accesses to static fields into their quick forms, and xreturnReplace of copy.c with the prologue
  copyMethods puts before synchronized methods. Both loops step from instruction to instruction by
  the size they take it to have. The size is not always positive, so a pass may not return (None);
  an access outside the code or through a null pointer is Some None. Code is malloced, so alignment
  to four bytes counts from its start, and words are big-endian as on the host.
\<close>

section \<open>Bytes of the code\<close>

definition code_byte :: "u8 list \<Rightarrow> int \<Rightarrow> u8 option" where
  "code_byte bs i = (if 0 \<le> i \<and> i < int (length bs) then Some (bs ! nat i) else None)"

definition code_word :: "u8 list \<Rightarrow> int \<Rightarrow> u32 option" where
  "code_word bs i = (if 0 \<le> i \<and> i + 4 \<le> int (length bs) then Some (be_word (take 4 (drop (nat i) bs))) else None)"

definition UCALIGN :: "int \<Rightarrow> int" where
  "UCALIGN i = (i + 3) div 4 * 4"

text \<open>A pass: step gives the new state and code and the size to go on by.\<close>

partial_function (option) walk :: "('s \<Rightarrow> u8 list \<Rightarrow> int \<Rightarrow> ('s \<times> u8 list \<times> int) option) \<Rightarrow> int \<Rightarrow> 's \<Rightarrow> u8 list \<Rightarrow> int
    \<Rightarrow> ('s \<times> u8 list) option option" where
  "walk step stop s bs i =
     (if stop \<le> i then Some (Some (s, bs))
      else case step s bs i of None \<Rightarrow> Some None | Some (s', bs', n) \<Rightarrow> walk step stop s' bs' (i + n))"

section \<open>Quick forms of static field accesses\<close>

definition getFieldSignature :: "cp_pool \<Rightarrow> nat \<Rightarrow> u8 list option" where
  "getFieldSignature p index =
     (if length (type_table p) \<le> index \<or> type_table p ! index AND RESOLVED \<noteq> 0 \<or> type_table p ! index AND 0x7F \<noteq> 9 then None
      else case cp_items p ! index of CpInt key \<Rightarrow>
        (let nameTypeIndex = unat (key AND 0xFFFF) in
         if length (cp_items p) \<le> nameTypeIndex then None
         else case cp_items p ! nameTypeIndex of CpInt key \<Rightarrow>
           (let typeIndex = unat (key AND 0xFFFF) in
            if length (cp_items p) \<le> typeIndex then None
            else case cp_items p ! typeIndex of CpUtf8 s \<Rightarrow> Some (c_str s) | _ \<Rightarrow> None)
         | _ \<Rightarrow> None)
      | _ \<Rightarrow> None)"

text \<open>The size of the instructions that have a fixed one, and of undefined opcodes.\<close>

definition opcode_size :: "nat \<Rightarrow> nat" where
  "opcode_size n =
    (if n \<in> {16, 18, 169, 188, 203, 254, 255} \<or> 21 \<le> n \<and> n \<le> 25 \<or> 54 \<le> n \<and> n \<le> 58 then 2
     else if n \<in> {17, 19, 20, 132, 187, 189, 192, 193, 198, 199, 221, 222} \<or> 153 \<le> n \<and> n \<le> 168 \<or> 178 \<le> n \<and> n \<le> 184
       \<or> 204 \<le> n \<and> n \<le> 217 \<or> 224 \<le> n \<and> n \<le> 228 then 3
     else if n \<in> {197, 223} then 4
     else if n \<in> {185, 200, 201, 218} then 5
     else 1)"

definition res_size :: "u8 \<Rightarrow> nat" where
  "res_size c = opcode_size (unat c)"

definition opc_getstatic :: u8 where "opc_getstatic = 178"
definition opc_putstatic :: u8 where "opc_putstatic = 179"
definition opc_tableswitch :: u8 where "opc_tableswitch = 170"
definition opc_lookupswitch :: u8 where "opc_lookupswitch = 171"
definition opc_wide :: u8 where "opc_wide = 196"

definition two_words :: "u8 list \<Rightarrow> bool" where
  "two_words s \<longleftrightarrow> s \<noteq> [] \<and> (hd s = chr CHR ''J'' \<or> hd s = chr CHR ''D'')"

text \<open>The opcode that replaces getstatic or putstatic of a field with signature s.\<close>

definition quick_static :: "u8 \<Rightarrow> u8 list \<Rightarrow> u8" where
  "quick_static c s =
     (if c = opc_getstatic then (if two_words s then 212 else 210) else (if two_words s then 213 else 211))"

text \<open>A wide prefix is followed by a load or store of a local variable, iinc or ret.\<close>

definition wide_local :: "u8 \<Rightarrow> bool" where
  "wide_local d \<longleftrightarrow> 21 \<le> d \<and> d \<le> 25 \<or> 54 \<le> d \<and> d \<le> 58"

definition quick_step :: "cp_pool \<Rightarrow> unit \<Rightarrow> u8 list \<Rightarrow> int \<Rightarrow> (unit \<times> u8 list \<times> int) option" where
  "quick_step p s bs i =
     (case code_byte bs i of None \<Rightarrow> None
      | Some c \<Rightarrow>
        if c = opc_tableswitch then
          (let lpc = UCALIGN (i + 1) in
           case (code_word bs (lpc + 4), code_word bs (lpc + 8)) of
             (Some low, Some high) \<Rightarrow> Some (s, bs, sint (word_of_int (lpc - i) + 12 + high - low + 1))
           | _ \<Rightarrow> None)
        else if c = opc_lookupswitch then
          (let lpc = UCALIGN (i + 1) in
           case code_word bs (lpc + 4) of None \<Rightarrow> None
           | Some npairs \<Rightarrow> Some (s, bs, sint (word_of_int (lpc - i) + 8 + npairs * 8)))
        else if c = opc_getstatic \<or> c = opc_putstatic then
          (case (code_byte bs (i + 1), code_byte bs (i + 2)) of
             (Some b, Some b') \<Rightarrow>
               (case getFieldSignature p (unat b * 256 + unat b') of None \<Rightarrow> None
                | Some sig \<Rightarrow> Some (s, bs[nat i := quick_static c sig], 3))
           | _ \<Rightarrow> None)
        else if c = opc_wide then
          (case code_byte bs (i + 1) of None \<Rightarrow> None
           | Some d \<Rightarrow> Some (s, bs, if wide_local d then 4 else if d = 132 then 6 else 2))
        else Some (s, bs, int (res_size c)))"

definition quick_code :: "cp_pool \<Rightarrow> u32 \<Rightarrow> u8 list \<Rightarrow> u8 list option option" where
  "quick_code p len bs = map_option (map_option snd) (walk (quick_step p) (sint len) () bs 0)"

fun quick_methods :: "cp_pool \<Rightarrow> methodblock list \<Rightarrow> methodblock list option option" where
  "quick_methods p [] = Some (Some [])"
| "quick_methods p (m # ms) =
     (case quick_code p (code_length m) (code m) of None \<Rightarrow> None
      | Some None \<Rightarrow> Some None
      | Some (Some c) \<Rightarrow> map_option (map_option ((#) (m\<lparr>code := c\<rparr>))) (quick_methods p ms))"

definition changeOpcodeToQuick :: "class_class \<Rightarrow> class_class option option" where
  "changeOpcodeToQuick c =
     map_option (map_option (\<lambda>ms. c\<lparr>class_methods := ms\<rparr>)) (quick_methods (pool c) (class_methods c))"

section \<open>Synchronized methods\<close>

definition opcLengthsTab :: "nat list" where
  "opcLengthsTab = [
     1, 1, 1, 1, 1, 1, 1, 1, 1, 1, 1, 1, 1, 1, 1, 1, 2, 3, 2, 3, 3, 2, 2, 2, 2, 2, 1, 1, 1, 1, 1, 1,
     1, 1, 1, 1, 1, 1, 1, 1, 1, 1, 1, 1, 1, 1, 1, 1, 1, 1, 1, 1, 1, 1, 2, 2, 2, 2, 2, 1, 1, 1, 1, 1,
     1, 1, 1, 1, 1, 1, 1, 1, 1, 1, 1, 1, 1, 1, 1, 1, 1, 1, 1, 1, 1, 1, 1, 1, 1, 1, 1, 1, 1, 1, 1, 1,
     1, 1, 1, 1, 1, 1, 1, 1, 1, 1, 1, 1, 1, 1, 1, 1, 1, 1, 1, 1, 1, 1, 1, 1, 1, 1, 1, 1, 1, 1, 1, 1,
     1, 1, 1, 1, 3, 1, 1, 1, 1, 1, 1, 1, 1, 1, 1, 1, 1, 1, 1, 1, 1, 1, 1, 1, 1, 3, 3, 3, 3, 3, 3, 3,
     3, 3, 3, 3, 3, 3, 3, 3, 3, 2, 99, 99, 1, 1, 1, 1, 1, 1, 3, 3, 3, 3, 3, 3, 3, 5, 0, 3, 2, 3, 1, 1,
     3, 3, 1, 1, 0, 4, 3, 3, 5, 5, 1, 2, 3, 3, 3, 3, 3, 3, 3, 3, 3, 3, 3, 3, 3, 3, 3, 3, 3, 3, 3, 3,
     3, 3, 3, 3, 3, 3, 3, 3, 3, 3, 2, 3, 1, 3, 3, 3, 3, 3, 3, 3, 3, 3, 3]"

definition exit_sync_method :: u8 where "exit_sync_method = 236"

text \<open>Four chars put together as an int; char is signed.\<close>

definition char_word :: "u8 list \<Rightarrow> int \<Rightarrow> u32 option" where
  "char_word bs i =
     (case (code_byte bs i, code_byte bs (i + 1), code_byte bs (i + 2), code_byte bs (i + 3)) of
        (Some a, Some b, Some c, Some d) \<Rightarrow>
          Some (push_bit 24 (scast a) OR push_bit 16 (scast b) OR push_bit 8 (scast c) OR scast d)
      | _ \<Rightarrow> None)"

definition is_xreturn :: "u8 \<Rightarrow> bool" where
  "is_xreturn c \<longleftrightarrow> 172 \<le> c \<and> c \<le> 177"

text \<open>The state is xreturn, not set at first.\<close>

definition xreturn_step :: "int \<Rightarrow> u8 option \<Rightarrow> u8 list \<Rightarrow> int \<Rightarrow> (u8 option \<times> u8 list \<times> int) option" where
  "xreturn_step stop x bs i =
     (case (code_byte bs i, if i + 1 < stop then code_byte bs (i + 1) else Some 0) of
        (Some opc1, Some opc2) \<Rightarrow>
          if opc1 = opc_wide then
            Some (x, bs, if wide_local opc2 \<or> opc2 = 169 then 4 else if opc2 = 132 then 6 else 2)
          else if opc1 = 255 then Some (x, bs, 2)
          else if is_xreturn opc1 then Some (Some opc1, bs[nat i := exit_sync_method], 1)
          else if opc1 = opc_lookupswitch then
            (let j = UCALIGN (i + 1) + 4 in
             case char_word bs j of None \<Rightarrow> None
             | Some npairs \<Rightarrow> Some (x, bs, sint (word_of_int (j + 4 - i) + npairs * 4)))
          else if opc1 = opc_tableswitch then
            (let j = UCALIGN (i + 1) + 4 in
             case (char_word bs j, char_word bs (j + 4)) of
               (Some low, Some high) \<Rightarrow> Some (x, bs, sint (word_of_int (j + 8 - i) + (high - low + 1) * 4))
             | _ \<Rightarrow> None)
          else if unat opc1 < length opcLengthsTab then Some (x, bs, int (opcLengthsTab ! unat opc1))
          else None
      | _ \<Rightarrow> None)"

definition xreturnReplace :: "u8 list \<Rightarrow> int \<Rightarrow> int \<Rightarrow> (u8 option \<times> u8 list) option option" where
  "xreturnReplace bs start len = walk (xreturn_step (start + len)) (start + len) None bs start"

definition SYNC_PROLOGUE_SIZE :: nat where "SYNC_PROLOGUE_SIZE = 12"

definition sync_prologue :: "u16 \<Rightarrow> u8 list" where
  "sync_prologue acc =
     (if acc AND ACC_STATIC \<noteq> 0 then [255, 55, 194, 168, 0, 9, 255, 55, 195] else [25, 0, 194, 168, 0, 9, 25, 0, 195])"

text \<open>
  The code copyMethods lays down for a method, with PICOJAVA\_SYNC\_METHODS on or off. The ninth byte
  is what xreturnReplace returns, which is indeterminate for code without a return. The two bytes
  after it do not matter to the pass.
\<close>

definition copied_code :: "bool \<Rightarrow> u16 \<Rightarrow> u8 list \<Rightarrow> u8 list option option" where
  "copied_code sync acc bs =
     (if sync \<and> acc AND ACC_SYNCHRONIZED \<noteq> 0 then
        map_option (\<lambda>r. case r of Some (Some x, c) \<Rightarrow> Some (sync_prologue acc @ [x, 0, 0] @ drop SYNC_PROLOGUE_SIZE c) | _ \<Rightarrow> None)
          (xreturnReplace (sync_prologue acc @ [0, 0, 0] @ bs) (int SYNC_PROLOGUE_SIZE) (int (length bs)))
      else Some (Some bs))"

definition copied_catch :: "bool \<Rightarrow> u16 \<Rightarrow> catch_frame \<Rightarrow> catch_frame" where
  "copied_catch sync acc f =
     (if sync \<and> acc AND ACC_SYNCHRONIZED \<noteq> 0 then
        f\<lparr>start_pc := start_pc f + of_nat SYNC_PROLOGUE_SIZE, end_pc := end_pc f + of_nat SYNC_PROLOGUE_SIZE,
          handler_pc := handler_pc f + of_nat SYNC_PROLOGUE_SIZE\<rparr>
      else f)"

end
