(* ===== verification/Code_Properties.thy ===== *)
theory Code_Properties
  imports Code_Rewriting Class_Invariant
begin

text \<open>
  What the passes over the code do on code that is a sequence of instructions. The locale is their
  common interface: a step at the start of an instruction rewrites it in place and goes on behind it.
\<close>

section \<open>A pass over a sequence of instructions\<close>

text \<open>The instructions xs are acceptable at position i and on.\<close>

fun insns_at :: "(int \<Rightarrow> u8 list \<Rightarrow> bool) \<Rightarrow> int \<Rightarrow> u8 list list \<Rightarrow> bool" where
  "insns_at ok i [] = True"
| "insns_at ok i (x # xs) = (ok i x \<and> insns_at ok (i + int (length x)) xs)"

locale code_pass =
  fixes step :: "'s \<Rightarrow> u8 list \<Rightarrow> int \<Rightarrow> ('s \<times> u8 list \<times> int) option"
    and stop :: int
    and ok :: "int \<Rightarrow> u8 list \<Rightarrow> bool"
    and upd :: "u8 list \<Rightarrow> 's \<Rightarrow> 's"
    and new :: "u8 list \<Rightarrow> u8 list"
  assumes law: "ok (int (length pre)) x \<Longrightarrow> int (length pre) + int (length x) \<le> stop \<Longrightarrow>
      stop \<le> int (length (pre @ x @ post)) \<Longrightarrow> step s (pre @ x @ post) (int (length pre)) = Some (upd x s, pre @ new x @ post, int (length x))"
    and same_length: "ok i x \<Longrightarrow> length (new x) = length x"
    and nonempty: "ok i x \<Longrightarrow> x \<noteq> []"
begin

lemma pass:
  "insns_at ok (int (length pre)) xs \<Longrightarrow> stop = int (length pre) + int (length (concat xs)) \<Longrightarrow>
   walk step stop s (pre @ concat xs @ post) (int (length pre)) = Some (Some (fold upd xs s, pre @ concat (map new xs) @ post))"
proof (induction xs arbitrary: pre s)
  case Nil
  then show ?case by (subst walk.simps) simp
next
  case (Cons x xs)
  have ok: "ok (int (length pre)) x" and rest: "insns_at ok (int (length pre) + int (length x)) xs" using Cons.prems(1) by simp_all
  have step: "step s (pre @ x @ concat xs @ post) (int (length pre)) = Some (upd x s, pre @ new x @ concat xs @ post, int (length x))"
    using Cons.prems(2) by (intro law ok) simp_all
  have "walk step stop (upd x s) ((pre @ new x) @ concat xs @ post) (int (length (pre @ new x)))
      = Some (Some (fold upd xs (upd x s), (pre @ new x) @ concat (map new xs) @ post))"
    using Cons.prems(2) rest same_length [OF ok] by (intro Cons.IH) simp_all
  moreover have "\<not> stop \<le> int (length pre)" using Cons.prems(2) nonempty [OF ok] by (cases x) simp_all
  ultimately show ?case using step same_length [OF ok] by (subst walk.simps) simp
qed

end

lemma code_byte_insn [simp]:
  "k < length x \<Longrightarrow> code_byte (pre @ x @ post) (int (length pre) + int k) = Some (x ! k)"
  by (simp add: code_byte_def nth_append nat_int_add)

lemma code_byte_insn' [simp]:
  "x \<noteq> [] \<Longrightarrow> code_byte (pre @ x @ post) (int (length pre)) = Some (hd x)"
  "Suc 0 < length x \<Longrightarrow> code_byte (pre @ x @ post) (int (length pre) + 1) = Some (x ! 1)"
  "2 < length x \<Longrightarrow> code_byte (pre @ x @ post) (int (length pre) + 2) = Some (x ! 2)"
  using code_byte_insn [of 0 x pre post] code_byte_insn [of 1 x pre post] code_byte_insn [of 2 x pre post]
  by (simp_all add: hd_conv_nth)

lemma code_word_insn:
  "k + 4 \<le> length x \<Longrightarrow> code_word (pre @ x @ post) (int (length pre) + int k) = Some (be_word (take 4 (drop k x)))"
  by (simp add: code_word_def nat_int_add)

section \<open>Quick forms\<close>

text \<open>An instruction as the class file format has it, but no tableswitch and no wide ret.\<close>

definition switch_pad :: "int \<Rightarrow> nat" where
  "switch_pad i = nat (UCALIGN (i + 1) - (i + 1))"

definition quick_insn :: "cp_pool \<Rightarrow> int \<Rightarrow> u8 list \<Rightarrow> bool" where
  "quick_insn p i x \<longleftrightarrow> x \<noteq> [] \<and> (let c = hd x in
     if c = opc_tableswitch then False
     else if c = opc_lookupswitch then
       (let n = (length x - switch_pad i - 9) div 8 in
        length x = 9 + switch_pad i + 8 * n \<and> be_word (take 4 (drop (5 + switch_pad i) x)) = of_nat n \<and> n < 2 ^ 27)
     else if c = opc_getstatic \<or> c = opc_putstatic then
       length x = 3 \<and> getFieldSignature p (unat (x ! 1) * 256 + unat (x ! 2)) \<noteq> None
     else if c = opc_wide then
       1 < length x \<and> (wide_local (x ! 1) \<and> length x = 4 \<or> x ! 1 = 132 \<and> length x = 6)
     else length x = res_size c)"

text \<open>The quick form: 210 to 213 for one word read and written and two words read and written.\<close>

definition quick_opcode :: "u8 \<Rightarrow> u8 list \<Rightarrow> u8" where
  "quick_opcode c s = (if c = opc_getstatic then 210 else 211) + (if take 1 s \<in> {[74], [68]} then 2 else 0)"

definition quicken :: "cp_pool \<Rightarrow> u8 list \<Rightarrow> u8 list" where
  "quicken p x =
     (if hd x = opc_getstatic \<or> hd x = opc_putstatic
      then quick_opcode (hd x) (the (getFieldSignature p (unat (x ! 1) * 256 + unat (x ! 2)))) # tl x else x)"

lemma quick_static_opcode: "quick_static c s = quick_opcode c s"
  by (cases s) (auto simp: quick_static_def quick_opcode_def two_words_def chr_def)

lemma UCALIGN_bounds: "i \<le> UCALIGN i" "UCALIGN i \<le> i + 3"
  unfolding UCALIGN_def by presburger+

lemma switch_pad: "int (switch_pad i) = UCALIGN (i + 1) - (i + 1)" "switch_pad i \<le> 3"
  using UCALIGN_bounds [of "i + 1"] by (simp_all add: switch_pad_def)

lemma lookupswitch_size:
  assumes "n < 2 ^ 27" "k \<le> 4"
  shows "sint (word_of_int (int k) + 8 + of_nat n * 8 :: u32) = int k + 8 + 8 * int n"
proof -
  have "word_of_int (int k) + 8 + of_nat n * 8 = (of_nat (k + 8 + 8 * n) :: u32)" by simp
  then show ?thesis using sint_count [of "k + 8 + 8 * n"] assms by (simp del: of_nat_add of_nat_mult)
qed

lemma quick_step_law:
  assumes "quick_insn p (int (length pre)) x"
  shows "quick_step p s (pre @ x @ post) (int (length pre)) = Some (s, pre @ quicken p x @ post, int (length x))"
proof -
  define i where "i = int (length pre)"
  have ne: "x \<noteq> []" and nt: "hd x \<noteq> opc_tableswitch" using assms by (auto simp: quick_insn_def Let_def)
  consider "hd x = opc_lookupswitch" | "hd x = opc_getstatic \<or> hd x = opc_putstatic" | "hd x = opc_wide"
    | "hd x \<notin> {opc_tableswitch, opc_lookupswitch, opc_getstatic, opc_putstatic, opc_wide}"
    using nt by blast
  then show ?thesis
  proof cases
    case 1
    define n where "n = (length x - switch_pad i - 9) div 8"
    have x: "length x = 9 + switch_pad i + 8 * n" "be_word (take 4 (drop (5 + switch_pad i) x)) = of_nat n" "n < 2 ^ 27"
      using assms 1 by (simp_all add: quick_insn_def opc_lookupswitch_def opc_tableswitch_def n_def i_def Let_def)
    have lpc: "UCALIGN (i + 1) + 4 = i + int (5 + switch_pad i)" "UCALIGN (i + 1) - i = int (1 + switch_pad i)"
      using switch_pad(1) [of i] by simp_all
    have "code_word (pre @ x @ post) (UCALIGN (i + 1) + 4) = Some (of_nat n)"
      unfolding lpc(1) using code_word_insn [of "5 + switch_pad i" x pre post] x by (simp flip: i_def)
    moreover have "sint (word_of_int (UCALIGN (i + 1) - i) + 8 + of_nat n * 8 :: u32) = int (length x)"
      unfolding lpc(2) using lookupswitch_size [OF x(3), of "1 + switch_pad i"] switch_pad(2) [of i] x(1) by simp
    ultimately show ?thesis
      using 1 ne code_byte_insn'(1) [OF ne, of pre post] by (simp add: quick_step_def quicken_def Let_def opc_lookupswitch_def opc_tableswitch_def opc_getstatic_def
        opc_putstatic_def flip: i_def)
  next
    case 2
    then obtain sig where x: "length x = 3" "getFieldSignature p (unat (x ! 1) * 256 + unat (x ! 2)) = Some sig"
      using assms by (auto simp: quick_insn_def opc_lookupswitch_def opc_tableswitch_def opc_getstatic_def opc_putstatic_def Let_def)
    have "(pre @ x @ post)[length pre := b] = pre @ (b # tl x) @ post" for b
      using ne by (cases x) simp_all
    then show ?thesis
      using 2 ne x by (auto simp: quick_step_def quicken_def quick_static_opcode opc_lookupswitch_def opc_tableswitch_def opc_getstatic_def opc_putstatic_def)
  next
    case 3
    then show ?thesis
      using assms ne by (auto simp: quick_insn_def quick_step_def quicken_def Let_def opc_lookupswitch_def opc_tableswitch_def
        opc_getstatic_def opc_putstatic_def opc_wide_def wide_local_def)
  next
    case 4
    then show ?thesis using assms ne by (auto simp: quick_insn_def quick_step_def quicken_def Let_def)
  qed
qed

interpretation quick_pass: code_pass "quick_step p" stop "quick_insn p" "\<lambda>x s. s" "quicken p" for p stop
proof
  show "length (quicken p x) = length x" "x \<noteq> []" if "quick_insn p i x" for i x
    using that by (auto simp: quick_insn_def quicken_def Let_def split: if_splits)
qed (rule quick_step_law)

lemma fold_ignore [simp]: "fold (\<lambda>x s. s) xs s = s"
  by (induction xs) simp_all

lemma quick_code_law:
  assumes "insns_at (quick_insn p) 0 xs" "length (concat xs) < 2 ^ 31"
  shows "quick_code p (of_nat (length (concat xs))) (concat xs) = Some (Some (concat (map (quicken p) xs)))"
  using quick_pass.pass [of p "[]" xs "int (length (concat xs))" "()" "[]"] assms sint_count [OF assms(2)]
  by (simp add: quick_code_def)

text \<open>The methods of a class, with the instructions each consists of.\<close>

definition method_insns_ok :: "cp_pool \<Rightarrow> (methodblock \<Rightarrow> u8 list list) \<Rightarrow> methodblock \<Rightarrow> bool" where
  "method_insns_ok p insns m \<longleftrightarrow> code m = concat (insns m) \<and> code_length m = of_nat (length (code m))
     \<and> length (code m) < 2 ^ 31 \<and> insns_at (quick_insn p) 0 (insns m)"

lemma quick_methods_law:
  "list_all (method_insns_ok p insns) ms \<Longrightarrow>
   quick_methods p ms = Some (Some (map (\<lambda>m. m\<lparr>code := concat (map (quicken p) (insns m))\<rparr>) ms))"
  by (induction ms) (auto simp: method_insns_ok_def quick_code_law)


section \<open>Synchronized methods\<close>

definition sync_insn :: "u8 list \<Rightarrow> bool" where
  "sync_insn x \<longleftrightarrow> x \<noteq> [] \<and> (let c = hd x in
     if c = opc_tableswitch \<or> c = opc_lookupswitch then False
     else if c = opc_wide then
       1 < length x \<and> ((wide_local (x ! 1) \<or> x ! 1 = 169) \<and> length x = 4 \<or> x ! 1 = 132 \<and> length x = 6)
     else if c = 255 then length x = 2
     else unat c < length opcLengthsTab \<and> length x = opcLengthsTab ! unat c)"

definition sync_return :: "u8 list \<Rightarrow> u8 list" where
  "sync_return x = (if is_xreturn (hd x) then [exit_sync_method] else x)"

definition last_return :: "u8 list \<Rightarrow> u8 option \<Rightarrow> u8 option" where
  "last_return x r = (if is_xreturn (hd x) then Some (hd x) else r)"

lemma length_opcLengthsTab: "length opcLengthsTab = 247"
  by (simp add: opcLengthsTab_def)

lemma is_xreturn_cases: "is_xreturn c \<Longrightarrow> c \<in> {172, 173, 174, 175, 176, 177}"
proof -
  assume "is_xreturn c"
  then have "172 \<le> unat c" "unat c \<le> 177" by (simp_all add: is_xreturn_def word_le_nat_alt)
  then have "unat c \<in> {172, 173, 174, 175, 176, 177}" by auto
  then show ?thesis by (auto simp: word_unat_eq_iff)
qed

lemma sync_insn_return: "sync_insn x \<Longrightarrow> is_xreturn (hd x) \<Longrightarrow> length x = 1"
  by (drule is_xreturn_cases) (auto simp: sync_insn_def Let_def opc_tableswitch_def opc_lookupswitch_def opc_wide_def opcLengthsTab_def)

lemma xreturn_step_law:
  assumes "sync_insn x" "int (length pre) + int (length x) \<le> stop" "stop \<le> int (length (pre @ x @ post))"
  shows "xreturn_step stop r (pre @ x @ post) (int (length pre)) = Some (last_return x r, pre @ sync_return x @ post, int (length x))"
proof -
  have ne: "x \<noteq> []" using assms(1) by (simp add: sync_insn_def)
  have opc2: "(if int (length pre) + 1 < stop then code_byte (pre @ x @ post) (int (length pre) + 1) else Some 0) = Some (x ! 1)"
    if "1 < length x" using that assms(2) by simp
  have "\<exists>d. (if int (length pre) + 1 < stop then code_byte (pre @ x @ post) (int (length pre) + 1) else Some 0) = Some d"
    using assms(3) by (simp add: code_byte_def)
  then obtain d where d: "(if int (length pre) + 1 < stop then code_byte (pre @ x @ post) (int (length pre) + 1) else Some 0) = Some d"
    by blast
  consider "1 < length x" | c where "x = [c]" "c \<noteq> opc_wide" "c \<noteq> 255"
  proof (cases "1 < length x")
    case False
    then obtain c where c: "x = [c]" using ne by (cases x) auto
    moreover have "c \<noteq> opc_wide" "c \<noteq> 255" using assms(1) c
      by (auto simp: sync_insn_def Let_def opc_wide_def opc_tableswitch_def opc_lookupswitch_def)
    ultimately show thesis by (rule that(2))
  qed (rule that(1))
  then show ?thesis
  proof cases
    case 1
    then have "\<not> is_xreturn (hd x)" using sync_insn_return [OF assms(1)] by auto
    then show ?thesis
      using assms(1) ne 1
      by (simp only: xreturn_step_def code_byte_insn'(1) [OF ne] opc2 [OF 1] prod.case option.case)
        (auto simp: sync_insn_def sync_return_def last_return_def Let_def wide_local_def opc_wide_def
          opc_tableswitch_def opc_lookupswitch_def)
  next
    case 2
    have upd: "(pre @ x @ post)[length pre := b] = pre @ [b] @ post" for b using 2 by simp
    have hd: "hd x = c" using 2 by simp
    show ?thesis
      using assms(1) 2(2,3) upd
      by (simp only: xreturn_step_def code_byte_insn'(1) [OF ne] d prod.case option.case hd)
        (auto simp: sync_insn_def sync_return_def last_return_def Let_def hd 2(1))
  qed
qed

interpretation sync_pass: code_pass "xreturn_step stop" stop "\<lambda>_. sync_insn" last_return sync_return for stop
proof
  show "length (sync_return x) = length x" "x \<noteq> []" if "sync_insn x" for x
    using that sync_insn_return [OF that] by (auto simp: sync_insn_def sync_return_def)
qed (rule xreturn_step_law)

lemma insns_at_all: "insns_at (\<lambda>_. P) i xs \<longleftrightarrow> list_all P xs"
  by (induction xs arbitrary: i) simp_all

lemma length_sync_prologue [simp]: "length (sync_prologue acc) = 9"
  by (simp add: sync_prologue_def)


section \<open>The two size tables\<close>

text \<open>The opcodes on which the tables disagree, beside those with sizes of their own.\<close>

definition size_differences :: "nat list" where
  "size_differences = [170, 171, 186, 196, 218, 219, 220, 223, 229, 230, 231, 232, 233, 234, 235, 237, 238, 239, 240, 241, 242, 243,
     244, 245, 246]"

fun sizes_agree :: "nat \<Rightarrow> nat list \<Rightarrow> bool" where
  "sizes_agree n [] = True"
| "sizes_agree n (t # ts) = ((n \<in> set size_differences) = (t \<noteq> opcode_size n) \<and> sizes_agree (n + 1) ts)"

lemma sizes_agree_nth: "sizes_agree n ts \<Longrightarrow> k < length ts \<Longrightarrow> (n + k \<in> set size_differences) = (ts ! k \<noteq> opcode_size (n + k))"
proof (induction ts arbitrary: n k)
  case (Cons t ts)
  show ?case
  proof (cases k)
    case 0
    then show ?thesis using Cons.prems by simp
  next
    case (Suc j)
    have "sizes_agree (n + 1) ts" "j < length ts" using Cons.prems Suc by simp_all
    from Cons.IH [OF this] show ?thesis using Suc by simp
  qed
qed simp

lemma sizes_agree_rule: "(n \<in> set size_differences) = (t \<noteq> opcode_size n) \<Longrightarrow> n + 1 = m \<Longrightarrow> sizes_agree m ts \<Longrightarrow> sizes_agree n (t # ts)"
  by simp

lemma sizes_agree_all: "sizes_agree 0 opcLengthsTab"
  unfolding opcLengthsTab_def
  by (rule sizes_agree_rule, simp add: size_differences_def opcode_size_def, simp del: One_nat_def)+ (rule sizes_agree.simps(1) [THEN iffD2, OF TrueI])


section \<open>Examples\<close>

definition example_pool :: cp_pool where
  "example_pool = \<lparr>type_table = [0, 9, 12, 1], cp_items = [CpTypeTable, CpInt 2, CpInt 3, CpUtf8 [74]]\<rparr>"

definition example_accessor :: methodblock where
  "example_accessor = \<lparr>fb = \<lparr>access = 8, name = [102], nameIndex = 0, signature = [40, 41, 86], sigIndex = 0, offset = 0\<rparr>,
     code = [16, 178, 178, 0, 1, 177], code_length = 6, exception_table = [], exception_table_length = 0, line_number_table = [],
     line_number_table_length = 0, localvar_table = [], localvar_table_length = 0, args_size = 0, maxstack = 3, nlocals = 0\<rparr>"

definition example_accessors :: class_class where
  "example_accessors = \<lparr>major_version = 45, minor_version = 3, class_name = [65], class_nameIndex = 0, super_name = [66],
     superNameIndex = 0, source_name = None, pool = example_pool, class_access = 0, implements_list = [], class_fields = [],
     class_methods = [example_accessor], has_clinit = False\<rparr>"

lemma example_signature: "getFieldSignature example_pool (Suc 0) = Some [74]"
  by (simp add: getFieldSignature_def example_pool_def RESOLVED_def c_str_def Let_def)




end
