(* ===== verification/Class_Linker.thy ===== *)
theory Class_Linker
  imports Code_Properties Class_Properties
begin

text \<open>
  loadClassFile of loader.c: a class file is opened and read, its class entered in binclasses, its
  super class loaded if it is not there yet, and the class resolved. Files are a map from their paths
  to their bytes, and the environment variable DSVHOME, when it is set, names a second place to look.
  Of the routine's effects this keeps those on binclasses; the size check against the common memory and
  what follows the resolution (copyOneBinClass, init files) are not here. The super classes may form a
  cycle or the code rewriting may not end, so the routine is a partial function; Some None stands for an
  access that C leaves undefined: members the resolver has not set, or binclasses[-1].
\<close>

section \<open>The routine\<close>

type_synonym files = "u8 list \<Rightarrow> u8 list option"

definition open_class :: "files \<Rightarrow> u8 list option \<Rightarrow> files" where
  "open_class files dsvhome fn =
     (case files fn of Some bs \<Rightarrow> Some bs
      | None \<Rightarrow> (case dsvhome of None \<Rightarrow> None | Some h \<Rightarrow> files (h @ map chr ''/class/'' @ fn)))"

definition class_path :: "u8 list \<Rightarrow> u8 list" where
  "class_path nm = c_str nm @ map chr ''.class''"

text \<open>Class i with super class j, from line 945 on.\<close>

definition finish_load :: "bool \<Rightarrow> nat \<Rightarrow> nat \<Rightarrow> bin_class list \<Rightarrow> (dsv \<times> bin_class list) option option" where
  "finish_load needRes i j bins =
     (case resolve_class i j bins of None \<Rightarrow> Some None
      | Some bins \<Rightarrow>
        if needRes then map_option (map_option (\<lambda>c. (DSV_SUCCESS, bins[i := (bins ! i)\<lparr>cls := c\<rparr>]))) (changeOpcodeToQuick (cls (bins ! i)))
        else Some (Some (DSV_SUCCESS, bins)))"

text \<open>When the file loaded for the super class holds another class, the search after it fails.\<close>

definition after_super :: "bool \<Rightarrow> nat \<Rightarrow> u8 list \<Rightarrow> dsv \<times> bin_class list \<Rightarrow> (dsv \<times> bin_class list) option option" where
  "after_super needRes i nm = (\<lambda>(r, bins).
     if r = DSV_FAIL then Some (Some (DSV_FAIL, bins))
     else case findBinClass bins nm of None \<Rightarrow> Some None | Some j \<Rightarrow> finish_load needRes i j bins)"

partial_function (option) loadClassFile :: "files \<Rightarrow> bool \<Rightarrow> bool \<Rightarrow> u8 list \<Rightarrow> bin_class list \<Rightarrow> (dsv \<times> bin_class list) option option" where
  "loadClassFile opener decaf needRes fn bins =
     (case opener fn of None \<Rightarrow> Some (Some (DSV_FAIL, bins))
      | Some bs \<Rightarrow>
        (case createInternalClass bs of
           Inl e \<Rightarrow> if e = Undefined_access then Some None else Some (Some (DSV_FAIL, bins))
         | Inr c \<Rightarrow>
           if findBinClass bins (class_name c) \<noteq> None then Some (Some (DSV_SUCCESS, bins))
           else
             (let (i, bins) = collectBinClass c bins in
              if \<not> decaf then Some (Some (DSV_SUCCESS, bins))
              else case findBinClass bins (super_name c) of
                Some j \<Rightarrow> finish_load needRes i j bins
              | None \<Rightarrow> Option.bind (loadClassFile opener decaf needRes (class_path (super_name c)) bins)
                  (\<lambda>r. case r of None \<Rightarrow> Some None | Some q \<Rightarrow> after_super needRes i (super_name c) q))))"

definition loadSuperClass :: "files \<Rightarrow> bool \<Rightarrow> u8 list \<Rightarrow> bool \<Rightarrow> bin_class list \<Rightarrow> (dsv \<times> bin_class list) option option" where
  "loadSuperClass opener decaf nm needRes bins =
     (if findBinClass bins nm \<noteq> None then Some (Some (DSV_SUCCESS, bins))
      else loadClassFile opener decaf needRes (class_path nm) bins)"

section \<open>The table\<close>

definition class_names :: "bin_class list \<Rightarrow> u8 list list" where
  "class_names bins = map (\<lambda>b. c_str (class_name (cls b))) bins"

text \<open>A resolved class, its index, and its super class in the table.\<close>

definition link_ok :: "bin_class list \<Rightarrow> (nat \<Rightarrow> nat) \<Rightarrow> nat \<Rightarrow> resolution \<Rightarrow> bool" where
  "link_ok bins depth i r \<longleftrightarrow> super_index r < length bins \<and> res (bins ! super_index r) \<noteq> None
     \<and> class_names bins ! super_index r = c_str (super_name (cls (bins ! i)))
     \<and> (super_index r = i \<or> depth (super_index r) < depth i)"

definition table_linked :: "bin_class list \<Rightarrow> bool" where
  "table_linked bins \<longleftrightarrow> distinct (class_names bins)
     \<and> (\<exists>depth. \<forall>i < length bins. \<forall>r. res (bins ! i) = Some r \<longrightarrow> link_ok bins depth i r)"

lemma find_last_Some: "find_last P xs = Some i \<Longrightarrow> i < length xs \<and> P (xs ! i)"
  by (induction xs arbitrary: i) (auto split: option.splits if_splits)

lemma find_last_None: "find_last P xs = None \<longleftrightarrow> (\<forall>x \<in> set xs. \<not> P x)"
  by (induction xs) (auto split: option.splits)

lemma findBinClass_Some: "findBinClass bins nm = Some j \<Longrightarrow> j < length bins \<and> class_names bins ! j = c_str nm"
  by (auto simp: findBinClass_def class_names_def dest: find_last_Some)

lemma findBinClass_None: "findBinClass bins nm = None \<longleftrightarrow> c_str nm \<notin> set (class_names bins)"
  by (auto simp: findBinClass_def class_names_def find_last_None image_iff)

lemma collectBinClass_new: "findBinClass bins (class_name c) = None \<Longrightarrow>
    collectBinClass c bins = (length bins, bins @ [\<lparr>cls = c, res = None\<rparr>])"
  by (simp add: collectBinClass_def)

lemma table_linked_Nil: "table_linked []"
  by (simp add: table_linked_def class_names_def)

lemma table_linked_new:
  assumes "table_linked bins" "findBinClass bins (class_name c) = None"
  shows "table_linked (bins @ [\<lparr>cls = c, res = None\<rparr>])"
proof -
  obtain d where d: "\<And>i r. i < length bins \<Longrightarrow> res (bins ! i) = Some r \<Longrightarrow> link_ok bins d i r"
    using assms(1) by (auto simp: table_linked_def)
  have "link_ok (bins @ [\<lparr>cls = c, res = None\<rparr>]) d i r"
    if "i < length (bins @ [\<lparr>cls = c, res = None\<rparr>])" "res ((bins @ [\<lparr>cls = c, res = None\<rparr>]) ! i) = Some r" for i r
    using that d [of i r] by (cases "i < length bins") (auto simp: link_ok_def nth_append class_names_def less_Suc_eq)
  moreover have "distinct (class_names (bins @ [\<lparr>cls = c, res = None\<rparr>]))"
    using assms by (simp add: table_linked_def findBinClass_None) (simp add: class_names_def)
  ultimately show ?thesis by (auto simp: table_linked_def)
qed

text \<open>A class not resolved so far gets its super class.\<close>

lemma table_linked_update:
  assumes "table_linked bins" "i < length bins" "res (bins ! i) = None" "j < length bins" "j = i \<or> res (bins ! j) \<noteq> None"
    "class_name (cls b) = class_name (cls (bins ! i))" "class_names bins ! j = c_str (super_name (cls b))"
    "res b = Some r" "super_index r = j"
  shows "table_linked (bins[i := b])"
proof -
  obtain d where d: "\<And>k r. k < length bins \<Longrightarrow> res (bins ! k) = Some r \<Longrightarrow> link_ok bins d k r"
    using assms(1) by (auto simp: table_linked_def)
  have nm: "class_names (bins[i := b]) = class_names bins"
    using assms(2,6) by (intro nth_equalityI) (auto simp: class_names_def nth_list_update)
  have "link_ok (bins[i := b]) (d(i := Suc (d j))) k s" if "k < length bins" "res (bins[i := b] ! k) = Some s" for k s
  proof (cases "k = i")
    case True
    then show ?thesis using assms that by (auto simp: link_ok_def nm nth_list_update)
  next
    case False
    then have k: "link_ok bins d k s" using d that by simp
    then have "super_index s \<noteq> i" using assms(3) by (auto simp: link_ok_def)
    then show ?thesis using k False by (simp add: link_ok_def nm)
  qed
  then show ?thesis using assms(1) by (auto simp: table_linked_def nm)
qed

section \<open>Resolving a class\<close>

lemma resolveFields_super: "resolveFields i s fs r = (gs, r') \<Longrightarrow> super_index r' = super_index r"
  by (auto simp: resolveFields_def Let_def split: prod.splits)

lemma resolveMethods_super: "resolveMethods look i s ms r = (ns, r') \<Longrightarrow> super_index r' = super_index r"
  by (auto simp: resolveMethods_def Let_def split: prod.splits)

lemma place_methods_code:
  "place_methods look t ms k = (ns, q) \<Longrightarrow> map (\<lambda>m. (code m, code_length m)) ns = map (\<lambda>m. (code m, code_length m)) ms"
  by (induction ms arbitrary: k ns q) (auto simp: Let_def split: if_splits prod.splits)

lemma resolveMethods_code:
  "resolveMethods look i s ms r = (ns, r') \<Longrightarrow> map (\<lambda>m. (code m, code_length m)) ns = map (\<lambda>m. (code m, code_length m)) ms"
  by (auto simp: resolveMethods_def Let_def dest: place_methods_code split: prod.splits)

lemma resolve_class_law:
  assumes "resolve_class i j bins = Some bins'"
  shows "i = j \<or> res (bins ! j) \<noteq> None"
    "\<exists>fs ms r. bins' = bins[i := \<lparr>cls = (cls (bins ! i))\<lparr>class_fields := fs, class_methods := ms\<rparr>, res = Some r\<rparr>]
      \<and> super_index r = j
      \<and> map (\<lambda>m. (code m, code_length m)) ms = map (\<lambda>m. (code m, code_length m)) (class_methods (cls (bins ! i)))"
proof -
  define s where "s = (if i = j then None else res (bins ! j))"
  obtain fs r1 where f: "resolveFields i s (class_fields (cls (bins ! i))) (unresolved j) = (fs, r1)"
    by (cases "resolveFields i s (class_fields (cls (bins ! i))) (unresolved j)")
  obtain ms r2 where m: "resolveMethods (method_at bins) i s (class_methods (cls (bins ! i))) r1 = (ms, r2)"
    by (cases "resolveMethods (method_at bins) i s (class_methods (cls (bins ! i))) r1")
  have "super_index r2 = j" using resolveFields_super [OF f] resolveMethods_super [OF m] by (simp add: unresolved_def)
  moreover have "bins' = bins[i := \<lparr>cls = (cls (bins ! i))\<lparr>class_fields := fs, class_methods := ms\<rparr>, res = Some r2\<rparr>]"
    using assms f m by (auto simp: resolve_class_def s_def Let_def split: if_splits option.splits)
  ultimately show "\<exists>fs ms r. bins' = bins[i := \<lparr>cls = (cls (bins ! i))\<lparr>class_fields := fs, class_methods := ms\<rparr>, res = Some r\<rparr>]
      \<and> super_index r = j
      \<and> map (\<lambda>m. (code m, code_length m)) ms = map (\<lambda>m. (code m, code_length m)) (class_methods (cls (bins ! i)))"
    using resolveMethods_code [OF m] by blast
  show "i = j \<or> res (bins ! j) \<noteq> None" using assms
    by (cases "res (bins ! j)") (auto simp: resolve_class_def Let_def split: if_splits)
qed

lemma changeOpcodeToQuick_class: "changeOpcodeToQuick c = Some (Some c') \<Longrightarrow> \<exists>ms. c' = c\<lparr>class_methods := ms\<rparr>"
  by (auto simp: changeOpcodeToQuick_def)

lemma quick_methods_cong:
  "map (\<lambda>m. (code m, code_length m)) ns = map (\<lambda>m. (code m, code_length m)) ms \<Longrightarrow>
   (quick_methods p ns = None) = (quick_methods p ms = None)
   \<and> (quick_methods p ns = Some None) = (quick_methods p ms = Some None)"
proof (induction ms arbitrary: ns)
  case (Cons m ms)
  then obtain n ns' where "ns = n # ns'" "code n = code m" "code_length n = code_length m"
    "map (\<lambda>m. (code m, code_length m)) ns' = map (\<lambda>m. (code m, code_length m)) ms" by (cases ns) auto
  then show ?case using Cons.IH [of ns'] by (auto split: option.splits)
qed simp

lemma finish_load_law:
  assumes "finish_load needRes i j bins = Some (Some (s, bins'))" "i < length bins"
  shows "s = DSV_SUCCESS \<and> (i = j \<or> res (bins ! j) \<noteq> None) \<and> (\<exists>b r. bins' = bins[i := b] \<and> res b = Some r \<and> super_index r = j
     \<and> class_name (cls b) = class_name (cls (bins ! i)) \<and> super_name (cls b) = super_name (cls (bins ! i)))"
proof -
  obtain bins1 where b1: "resolve_class i j bins = Some bins1" using assms by (auto simp: finish_load_def split: option.splits)
  obtain fs ms r where r: "bins1 = bins[i := \<lparr>cls = (cls (bins ! i))\<lparr>class_fields := fs, class_methods := ms\<rparr>, res = Some r\<rparr>]"
    "super_index r = j" using resolve_class_law(2) [OF b1] by blast
  show ?thesis
    using assms b1 r resolve_class_law(1) [OF b1]
    by (auto simp: finish_load_def dest!: changeOpcodeToQuick_class split: if_splits)
qed

section \<open>Loading a class\<close>

definition grows :: "dsv \<Rightarrow> bin_class list \<Rightarrow> bin_class list \<Rightarrow> bool" where
  "grows r bins bins' \<longleftrightarrow> table_linked bins'
     \<and> (\<exists>new. bins' = bins @ new \<and> (r = DSV_SUCCESS \<longrightarrow> (\<forall>b \<in> set new. res b \<noteq> None)))"

definition holds_file :: "files \<Rightarrow> u8 list \<Rightarrow> bin_class list \<Rightarrow> bool" where
  "holds_file opener fn bins \<longleftrightarrow> (\<exists>bs c. opener fn = Some bs \<and> createInternalClass bs = Inr c \<and> findBinClass bins (class_name c) \<noteq> None)"

lemma finish_grows:
  assumes "table_linked bins1" "bins1 = (bins @ [\<lparr>cls = c, res = None\<rparr>]) @ new" "\<forall>b \<in> set new. res b \<noteq> None"
    "findBinClass bins1 (super_name c) = Some j" "finish_load needRes (length bins) j bins1 = Some (Some (s, bins'))"
  shows "grows s bins bins' \<and> s = DSV_SUCCESS \<and> findBinClass bins' (class_name c) \<noteq> None"
proof -
  have i: "length bins < length bins1" "bins1 ! length bins = \<lparr>cls = c, res = None\<rparr>"
    using assms(2) by (simp_all add: nth_append)
  obtain b r where b: "s = DSV_SUCCESS" "bins' = bins1[length bins := b]" "res b = Some r" "super_index r = j"
    "class_name (cls b) = class_name c" "super_name (cls b) = super_name c" "length bins = j \<or> res (bins1 ! j) \<noteq> None"
    using finish_load_law [OF assms(5) i(1)] i(2) by auto
  have "table_linked bins'"
    unfolding b(2) using findBinClass_Some [OF assms(4)] b i assms(1) by (intro table_linked_update [where j = j and r = r]) auto
  moreover have "bins' = bins @ b # new" using assms(2) b(2) by simp
  ultimately show ?thesis using assms(3) b by (auto simp: grows_def findBinClass_None class_names_def)
qed

definition load_ok :: "files \<Rightarrow> bool \<Rightarrow> u8 list \<Rightarrow> bin_class list \<Rightarrow> (dsv \<times> bin_class list) option \<Rightarrow> bool" where
  "load_ok opener decaf fn bins y \<longleftrightarrow> (\<forall>r bins'. decaf \<and> table_linked bins \<and> y = Some (r, bins') \<longrightarrow>
     grows r bins bins' \<and> (r = DSV_SUCCESS \<longrightarrow> holds_file opener fn bins'))"

lemma load_ok_None: "load_ok opener decaf fn bins None"
  by (simp add: load_ok_def)

lemma load_ok_same:
  "(r = DSV_SUCCESS \<Longrightarrow> holds_file opener fn bins) \<Longrightarrow> load_ok opener decaf fn bins (Some (r, bins))"
  by (auto simp: load_ok_def grows_def)

lemma after_super_law:
  assumes "load_ok opener True fn' (bins @ [\<lparr>cls = c, res = None\<rparr>]) (Some (r, bins1))" "table_linked bins"
    "findBinClass bins (class_name c) = None" "after_super needRes (length bins) (super_name c) (r, bins1) = Some (Some (s, bins'))"
  shows "grows s bins bins' \<and> (s = DSV_SUCCESS \<longrightarrow> findBinClass bins' (class_name c) \<noteq> None)"
proof -
  have g: "grows r (bins @ [\<lparr>cls = c, res = None\<rparr>]) bins1"
    using assms(1) table_linked_new [OF assms(2,3)] by (simp add: load_ok_def)
  show ?thesis
  proof (cases r)
    case DSV_FAIL
    then show ?thesis using assms(4) g by (auto simp: after_super_def grows_def)
  next
    case DSV_SUCCESS
    then obtain new j where "bins1 = (bins @ [\<lparr>cls = c, res = None\<rparr>]) @ new" "\<forall>b \<in> set new. res b \<noteq> None" "table_linked bins1"
      "findBinClass bins1 (super_name c) = Some j" "finish_load needRes (length bins) j bins1 = Some (Some (s, bins'))"
      using assms(4) g by (auto simp: after_super_def grows_def split: option.splits)
    then show ?thesis using finish_grows by blast
  qed
qed

lemma load_law: "loadClassFile opener decaf needRes fn bins = Some y \<Longrightarrow> load_ok opener decaf fn bins y"
proof (rule loadClassFile.raw_induct [where P = "\<lambda>opener decaf needRes. load_ok opener decaf"], goal_cases)
  case (1 load opener decaf needRes fn bins y)
  show ?case
  proof (cases "opener fn")
    case None
    then show ?thesis using 1(3) by (auto intro: load_ok_same)
  next
    case (Some bs)
    note contents = this
    show ?thesis
    proof (cases "createInternalClass bs")
      case (Inl e)
      then show ?thesis using 1(3) Some by (auto intro: load_ok_same load_ok_None split: if_splits)
    next
      case (Inr c)
      show ?thesis
      proof (cases "findBinClass bins (class_name c)")
        case (Some k)
        then show ?thesis using 1(3) contents Inr by (auto intro!: load_ok_same simp: holds_file_def)
      next
        case None
        let ?bins = "bins @ [\<lparr>cls = c, res = None\<rparr>]"
        have body: "(case findBinClass ?bins (super_name c) of Some j \<Rightarrow> finish_load needRes (length bins) j ?bins
            | None \<Rightarrow> Option.bind (load opener decaf needRes (class_path (super_name c)) ?bins)
                (\<lambda>r. case r of None \<Rightarrow> Some None | Some q \<Rightarrow> after_super needRes (length bins) (super_name c) q)) = Some y" if decaf
          using 1(3) contents Inr None that by (simp add: collectBinClass_new)
        have new: "table_linked bins \<Longrightarrow> table_linked ?bins" by (rule table_linked_new [OF _ None])
        show ?thesis
        proof (cases "decaf \<and> table_linked bins")
          case True
          then have "grows r bins bins' \<and> (r = DSV_SUCCESS \<longrightarrow> findBinClass bins' (class_name c) \<noteq> None)" if y: "y = Some (r, bins')" for r bins'
          proof (cases "findBinClass ?bins (super_name c)")
            case (Some j)
            then show ?thesis
              using body True y finish_grows [of ?bins bins c "[]" j needRes r bins'] new by auto
          next
            case None
            then obtain q where q: "load opener decaf needRes (class_path (super_name c)) ?bins = Some (Some q)"
              "after_super needRes (length bins) (super_name c) q = Some (Some (r, bins'))"
              using body True y by (auto split: option.splits simp: bind_eq_Some_conv)
            then show ?thesis
              using 1(2) [OF q(1)] True after_super_law [of opener _ bins c "fst q" "snd q"] \<open>findBinClass bins (class_name c) = None\<close> by simp
          qed
          then show ?thesis using contents Inr by (auto simp: load_ok_def holds_file_def)
        qed (auto simp: load_ok_def)
      qed
    qed
  qed
qed

text \<open>Property C7: loading a class keeps the table of classes linked: no two classes of one name, each
  resolved class with the resolved class of its super class's name as its super class, and no cycles
  but at a class that is its own super class. Classes that were in the table stay there as they are. When the
  load succeeds, the class of the file is in the table and every class added is resolved.\<close>
theorem loading_links:
  assumes "table_linked bins" "loadClassFile opener True needRes fn bins = Some (Some (r, bins'))"
  shows "table_linked bins'
    \<and> (\<exists>new. bins' = bins @ new \<and> (r = DSV_SUCCESS \<longrightarrow> (\<forall>b \<in> set new. res b \<noteq> None)))
    \<and> (r = DSV_SUCCESS \<longrightarrow> (\<exists>bs c. opener fn = Some bs \<and> createInternalClass bs = Inr c \<and> findBinClass bins' (class_name c) \<noteq> None))"
  using load_law [OF assms(2)] assms(1) by (simp add: load_ok_def grows_def holds_file_def)

section \<open>Loading ends\<close>

text \<open>The class names in the files, and those of them not loaded yet.\<close>

definition file_names :: "files \<Rightarrow> u8 list set" where
  "file_names opener = {c_str (class_name c) |fn bs c. opener fn = Some bs \<and> createInternalClass bs = Inr c}"

definition pending :: "files \<Rightarrow> bin_class list \<Rightarrow> nat" where
  "pending opener bins = card (file_names opener - set (class_names bins))"

definition rewriting_ends :: "files \<Rightarrow> bool" where
  "rewriting_ends opener \<longleftrightarrow>
     (\<forall>fn bs c. opener fn = Some bs \<and> createInternalClass bs = Inr c \<longrightarrow> changeOpcodeToQuick c \<noteq> None)"

lemma finite_file_names:
  assumes "finite {fn. opener fn \<noteq> None}"
  shows "finite (file_names opener)"
proof -
  have "file_names opener \<subseteq> (\<lambda>fn. case opener fn of Some bs \<Rightarrow> (case createInternalClass bs of Inr c \<Rightarrow> c_str (class_name c) | _ \<Rightarrow> []) | None \<Rightarrow> [])
      ` {fn. opener fn \<noteq> None}"
    by (force simp: file_names_def image_iff)
  then show ?thesis using assms finite_subset by blast
qed

lemma finish_load_ends:
  assumes "needRes \<Longrightarrow> changeOpcodeToQuick (cls (bins ! i)) \<noteq> None" "i < length bins"
  shows "finish_load needRes i j bins \<noteq> None"
proof (cases "resolve_class i j bins")
  case (Some bins1)
  then obtain fs ms r where r: "bins1 = bins[i := \<lparr>cls = (cls (bins ! i))\<lparr>class_fields := fs, class_methods := ms\<rparr>, res = Some r\<rparr>]"
    "map (\<lambda>m. (code m, code_length m)) ms = map (\<lambda>m. (code m, code_length m)) (class_methods (cls (bins ! i)))"
    using resolve_class_law(2) by blast
  then show ?thesis
    using assms Some quick_methods_cong [OF r(2), of "pool (cls (bins ! i))"]
    by (auto simp: finish_load_def changeOpcodeToQuick_def)
qed (simp add: finish_load_def)

lemma after_super_ends:
  assumes "needRes \<Longrightarrow> changeOpcodeToQuick (cls (bins ! i)) \<noteq> None" "i < length bins"
  shows "after_super needRes i nm (r, bins) \<noteq> None"
  using finish_load_ends [OF assms] by (auto simp: after_super_def split: option.splits)

lemma pending_less:
  assumes "finite (file_names opener)" "opener fn = Some bs" "createInternalClass bs = Inr c" "findBinClass bins (class_name c) = None"
  shows "pending opener (bins @ [\<lparr>cls = c, res = None\<rparr>]) < pending opener bins"
proof -
  have "c_str (class_name c) \<in> file_names opener - set (class_names bins)"
    using assms(2-4) by (auto simp: file_names_def findBinClass_None)
  then have "file_names opener - set (class_names (bins @ [\<lparr>cls = c, res = None\<rparr>])) \<subset> file_names opener - set (class_names bins)"
    by (auto simp: class_names_def)
  then show ?thesis unfolding pending_def using assms(1) by (intro psubset_card_mono) simp_all
qed

lemma load_ends:
  assumes "finite (file_names opener)" "needRes \<longrightarrow> rewriting_ends opener"
  shows "table_linked bins \<Longrightarrow> loadClassFile opener decaf needRes fn bins \<noteq> None"
proof (induction "pending opener bins" arbitrary: fn bins rule: less_induct)
  case less
  show ?case
  proof (cases "\<exists>bs c. decaf \<and> opener fn = Some bs \<and> createInternalClass bs = Inr c \<and> findBinClass bins (class_name c) = None")
    case False
    then show ?thesis
      by (subst loadClassFile.simps) (auto simp: collectBinClass_new split: option.split sum.split)
  next
    case True
    then obtain bs c where c: "decaf" "opener fn = Some bs" "createInternalClass bs = Inr c" "findBinClass bins (class_name c) = None"
      by blast
    let ?bins = "bins @ [\<lparr>cls = c, res = None\<rparr>]"
    have quick: "needRes \<Longrightarrow> changeOpcodeToQuick c \<noteq> None" using assms(2) c by (auto simp: rewriting_ends_def)
    have linked: "table_linked ?bins" using table_linked_new [OF less.prems c(4)] .
    have nested: "loadClassFile opener decaf needRes (class_path (super_name c)) ?bins \<noteq> None"
      using less.hyps [OF pending_less [OF assms(1) c(2-4)] linked] .
    have rest: "after_super needRes (length bins) (super_name c) (r, bins1) \<noteq> None"
      if loaded: "loadClassFile opener decaf needRes (class_path (super_name c)) ?bins = Some (Some (r, bins1))" for r bins1
    proof -
      obtain new where new: "bins1 = ?bins @ new" using load_law [OF loaded] c(1) linked by (auto simp: load_ok_def grows_def)
      have "cls (bins1 ! length bins) = c" "length bins < length bins1" unfolding new by (simp_all add: nth_append)
      then show ?thesis using after_super_ends [of needRes bins1 "length bins"] quick by simp
    qed
    show ?thesis
    proof (cases "findBinClass ?bins (super_name c)")
      case (Some j)
      then show ?thesis
        using c finish_load_ends [of needRes ?bins "length bins" j] quick
        by (subst loadClassFile.simps) (simp add: collectBinClass_new)
    next
      case None
      then show ?thesis
        using c nested rest by (subst loadClassFile.simps) (auto simp: collectBinClass_new split: option.split)
    qed
  qed
qed


section \<open>Examples\<close>

text \<open>The class A in a file of its own, and a table that holds its super class B.\<close>

definition example_files :: files where
  "example_files fn = (if fn = class_path (ascii ''A'') then Some (class_bytes example_file) else None)"

definition example_table :: "bin_class list" where
  "example_table = [\<lparr>cls = example_accessors\<lparr>class_name := [66], super_name := [66]\<rparr>, res = Some (unresolved 0)\<rparr>]"

lemma example_read: "createInternalClass (class_bytes example_file) = Inr (class_value example_file)"
  using readsD(1) [OF class_law [OF example_ok], of "[]" "[]"] by (simp add: createInternalClass_def)

lemma example_class_names:
  "class_name (class_value example_file) = ascii ''A''" "super_name (class_value example_file) = ascii ''B''"
  by (simp_all add: class_value_def example_file_def Let_def class_ref_def super_ref_def example_pool_simps del: ascii_simps)

lemma example_code_lengths: "map code_length (class_methods (class_value example_file)) = [3, 0]"
  by (simp add: class_value_def example_file_def Let_def example_abstract_method del: ascii_simps method_value.simps)
    (simp add: example_method_def example_strings example_args new_method_def example_names del: ascii_simps)

lemma example_rewriting_ends: "rewriting_ends example_files"
proof -
  let ?c = "class_value example_file"
  have "quick_methods (pool ?c) (class_methods ?c) \<noteq> None"
  proof -
    obtain m n where ms: "class_methods ?c = [m, n]" "code m = [0x1A, 0x57, 0xB1]" "code n = []" "code_length m = 3" "code_length n = 0"
      using example_value(2) example_code_lengths by (auto simp: map_eq_Cons_conv)
    have "list_all (method_insns_ok (pool ?c) (\<lambda>m. map (\<lambda>b. [b]) (code m))) (class_methods ?c)"
      by (simp add: ms method_insns_ok_def quick_insn_def Let_def opc_tableswitch_def opc_lookupswitch_def opc_getstatic_def
        opc_putstatic_def opc_wide_def res_size_def opcode_size_def)
    from quick_methods_law [OF this] show ?thesis by simp
  qed
  then have "changeOpcodeToQuick ?c \<noteq> None" by (simp add: changeOpcodeToQuick_def)
  then show ?thesis by (simp add: rewriting_ends_def example_files_def example_read)
qed


lemma example_table_linked: "table_linked example_table"
  by (auto simp: table_linked_def example_table_def class_names_def link_ok_def unresolved_def)

lemma example_load: "\<exists>bins'. loadClassFile example_files True False (class_path (ascii ''A'')) example_table = Some (Some (DSV_SUCCESS, bins'))"
proof -
  have find: "findBinClass example_table (class_name (class_value example_file)) = None"
    "findBinClass (example_table @ [\<lparr>cls = class_value example_file, res = None\<rparr>]) (super_name (class_value example_file)) = Some 0"
    by (simp_all add: findBinClass_def example_table_def example_class_names c_str_def)
  have "finish_load False 1 0 (example_table @ [\<lparr>cls = class_value example_file, res = None\<rparr>]) \<noteq> Some None"
    by (simp add: finish_load_def resolve_class_def example_table_def Let_def)
  moreover have "finish_load False 1 0 (example_table @ [\<lparr>cls = class_value example_file, res = None\<rparr>]) \<noteq> None"
    by (rule finish_load_ends) (simp_all add: example_table_def)
  ultimately obtain s bins' where f: "finish_load False 1 0 (example_table @ [\<lparr>cls = class_value example_file, res = None\<rparr>]) = Some (Some (s, bins'))"
    by auto
  then have "s = DSV_SUCCESS" using finish_load_law [OF f] by (simp add: example_table_def)
  then show ?thesis
    using f by (subst loadClassFile.simps)
      (simp add: example_files_def example_read collectBinClass_new find, simp add: example_table_def)
qed

theorem loading_links_witness:
  "\<exists>bins'. loadClassFile example_files True False (class_path (ascii ''A'')) example_table = Some (Some (DSV_SUCCESS, bins'))
     \<and> table_linked bins' \<and> findBinClass bins' (ascii ''A'') \<noteq> None"
proof -
  obtain bins' where r: "loadClassFile example_files True False (class_path (ascii ''A'')) example_table = Some (Some (DSV_SUCCESS, bins'))"
    using example_load by blast
  from loading_links [OF example_table_linked r] show ?thesis
    using r by (auto simp: example_files_def example_read example_class_names)
qed

end
