(* ===== verification/Class_Copier.thy ===== *)
theory Class_Copier
  imports Common_Memory Class_Resolver Code_Rewriting
begin

text \<open>
  copyOneBinClass of copy.c: the Java objects that describe a class (its class object, constant pool,
  fields, methods with code and exception tables, object hint block) are laid out in the common memory, and the
  class is entered in the tables there. Pointers are addresses in the common memory; members of C
  structs are given by their offsets. An access outside the memory gives None, as does a failed
  allocation: the code goes on with address 0 then and overwrites the start of the memory. Where the
  rewriting of a method's code does not return, the result is None too.
\<close>

section \<open>State\<close>

text \<open>
  relcb, relfb and relmb are the addresses the loader keeps in its own structures, of a class object, a
  field object, and the entry of a method in the array of methods. host\_shift is what the host makes
  of a shift of a word by 32 or more, which C leaves open.
\<close>

record loader_state =
  memory :: cmem
  relcb :: "nat \<Rightarrow> u32 option"
  relfb :: "member_ref \<Rightarrow> u32 option"
  relmb :: "member_ref \<Rightarrow> u32 option"
  decafClassTableCount :: nat
  bsdone :: bool
  mvb_object :: u32
  mvb_class :: u32
  mvb_field :: u32
  mvb_method :: u32
  mvb_exceptionBlk :: u32
  classptr_field :: u32
  classptr_method :: u32
  classptr_exceptionBlk :: u32
  sync_methods :: bool
  host_shift :: "u32 \<Rightarrow> nat \<Rightarrow> u32"

definition peek :: "loader_state \<Rightarrow> u32 \<Rightarrow> u32 option" where
  "peek s a = block_get_word (memory s) MainBlock a"

definition poke :: "u32 \<Rightarrow> u32 \<Rightarrow> loader_state \<Rightarrow> loader_state option" where
  "poke a w s = do { m \<leftarrow> block_put_word (memory s) MainBlock a w; Some (s\<lparr>memory := m\<rparr>) }"

fun poke_bytes :: "u32 \<Rightarrow> u8 list \<Rightarrow> loader_state \<Rightarrow> loader_state option" where
  "poke_bytes a [] s = Some s"
| "poke_bytes a (b # bs) s = do { m \<leftarrow> block_put (memory s) MainBlock a b; poke_bytes (a + 1) bs (s\<lparr>memory := m\<rparr>) }"

text \<open>Words at consecutive addresses: the elements of an array.\<close>

fun poke_words :: "u32 \<Rightarrow> u32 list \<Rightarrow> loader_state \<Rightarrow> loader_state option" where
  "poke_words a [] s = Some s"
| "poke_words a (w # ws) s = do { s \<leftarrow> poke a w s; poke_words (a + 4) ws s }"

text \<open>strcmp of the string at address a with s, for s without zero bytes.\<close>

fun string_at :: "cmem \<Rightarrow> u32 \<Rightarrow> u8 list \<Rightarrow> bool option" where
  "string_at m a [] = map_option (\<lambda>b. b = 0) (block_get m MainBlock a)"
| "string_at m a (c # cs) = do { b \<leftarrow> block_get m MainBlock a; if b = c then string_at m (a + 1) cs else Some False }"

section \<open>Objects and arrays\<close>

definition ARRAY_HEADER :: u32 where "ARRAY_HEADER = 3"
definition ARRAY_FOOTER :: u32 where "ARRAY_FOOTER = 2"
definition SIZEP_OF_BYTE :: u32 where "SIZEP_OF_BYTE = 0"
definition SIZEP_OF_INT :: u32 where "SIZEP_OF_INT = 2"
definition SIZEP_OF_OBJREF :: u32 where "SIZEP_OF_OBJREF = 2"
definition SIGC_BYTE :: u32 where "SIGC_BYTE = 66"
definition SIGC_INT :: u32 where "SIGC_INT = 73"

definition alloc :: "u32 \<Rightarrow> loader_state \<Rightarrow> (u32 \<times> loader_state) option" where
  "alloc n s = (case cmMalloc (memory s) n of (None, m) \<Rightarrow> None | (Some p, m) \<Rightarrow> Some (p, s\<lparr>memory := m\<rparr>))"

text \<open>The result points behind the monitor pointer, to the method vector base.\<close>

definition CREATE_JAVA_OBJ :: "u32 \<Rightarrow> u32 \<Rightarrow> loader_state \<Rightarrow> (u32 \<times> loader_state) option" where
  "CREATE_JAVA_OBJ memsize mvb s = do {
     (p, s) \<leftarrow> alloc memsize s;
     s \<leftarrow> poke p 0 s;
     s \<leftarrow> poke (p + 4) mvb s;
     Some (p + 4, s) }"

definition CREATE_JAVA_ARRAY :: "u32 \<Rightarrow> u32 \<Rightarrow> u32 \<Rightarrow> u32 \<Rightarrow> u32 \<Rightarrow> loader_state \<Rightarrow> (u32 \<times> loader_state) option" where
  "CREATE_JAVA_ARRAY memsize elemsize cnt ty mvb s = do {
     (p, s) \<leftarrow> alloc memsize s;
     s \<leftarrow> poke p 0 s;
     s \<leftarrow> poke (p + 4) ((mvb AND 0xfffffffc) OR elemsize) s;
     s \<leftarrow> poke (p + 8) cnt s;
     let words = (memsize + 3) AND 0xfffffffc;
     s \<leftarrow> poke (p + 4 + words - 12) 1 s;
     s \<leftarrow> poke (p + 4 + words - 8) ty s;
     Some (p + 4, s) }"

text \<open>Arrays whose n elements are words.\<close>

definition word_array :: "u32 \<Rightarrow> u32 \<Rightarrow> u32 \<Rightarrow> loader_state \<Rightarrow> (u32 \<times> loader_state) option" where
  "word_array n elemsize ty s = CREATE_JAVA_ARRAY (4 * (ARRAY_HEADER + n + ARRAY_FOOTER)) elemsize n ty (mvb_object s) s"

section \<open>The constant pool\<close>

definition shift_char :: "(u32 \<Rightarrow> nat \<Rightarrow> u32) \<Rightarrow> u8 \<Rightarrow> nat \<Rightarrow> u32" where
  "shift_char host c i = (if i < 32 then push_bit i (scast c) else host (scast c) i)"

definition getStringKey :: "(u32 \<Rightarrow> nat \<Rightarrow> u32) \<Rightarrow> u8 list \<Rightarrow> u32" where
  "getStringKey host str =
     (let len = (of_nat (length str) :: u16);
          key = fold (\<lambda>i key. key + ucast (shift_char host (str ! i) i)) [0..<unat len] (0 :: u16)
      in push_bit 16 (ucast len) OR ucast key)"

definition copy_string :: "u8 list \<Rightarrow> loader_state \<Rightarrow> (u32 \<times> loader_state) option" where
  "copy_string str s = do {
     (p, s) \<leftarrow> alloc (4 + of_nat (length str) + 1) s;
     s \<leftarrow> poke p (getStringKey (host_shift s) str) s;
     s \<leftarrow> poke_bytes (p + 4) (str @ [0]) s;
     Some (p, s) }"

text \<open>Entry number i with type t, to address a, of the class at cur.\<close>

definition copy_cp_item :: "u32 \<Rightarrow> u32 \<Rightarrow> u8 \<Rightarrow> cp_item \<Rightarrow> loader_state \<Rightarrow> loader_state option" where
  "copy_cp_item cur a t x s =
     (if t AND 0x7F = 1 then
        (case x of CpUtf8 str \<Rightarrow> do { (p, s) \<leftarrow> copy_string (c_str str) s; poke a p s } | _ \<Rightarrow> None)
      else if t AND 0x7F = 7 \<and> t AND RESOLVED \<noteq> 0 then poke a (cur + 4) s
      else (case x of CpInt w \<Rightarrow> poke a w s | _ \<Rightarrow> None))"

fun copy_cp_items :: "u32 \<Rightarrow> u32 \<Rightarrow> (u8 \<times> cp_item) list \<Rightarrow> loader_state \<Rightarrow> loader_state option" where
  "copy_cp_items cur a [] s = Some s"
| "copy_cp_items cur a ((t, x) # xs) s = do { s \<leftarrow> copy_cp_item cur a t x s; copy_cp_items cur (a + 4) xs s }"

definition copyConstantPool :: "u32 \<Rightarrow> cp_pool \<Rightarrow> u32 \<Rightarrow> loader_state \<Rightarrow> loader_state option" where
  "copyConstantPool cur p to s = do {
     let cnt = of_nat (length (cp_items p));
     (tarptr, s) \<leftarrow> CREATE_JAVA_ARRAY (4 * ARRAY_HEADER + cnt + 4 * ARRAY_FOOTER) SIZEP_OF_BYTE cnt SIGC_BYTE (mvb_object s) s;
     s \<leftarrow> poke_bytes (tarptr + 8) (type_table p) s;
     s \<leftarrow> poke to (tarptr + 8) s;
     copy_cp_items cur (to + 4) (tl (zip (type_table p) (cp_items p))) s }"

text \<open>Item i of the constant pool of the class at cur, read from the memory.\<close>

definition cp_entry :: "u32 \<Rightarrow> u32 \<Rightarrow> loader_state \<Rightarrow> u32 option" where
  "cp_entry cur i s = do { cp \<leftarrow> peek s (cur + 4); peek s (cp + 8 + 4 * i) }"

section \<open>Fields\<close>

text \<open>The value a static field starts with: an entry of the constant pool, two of them behind a pointer.\<close>

definition static_value :: "u32 \<Rightarrow> u32 \<Rightarrow> fieldblock \<Rightarrow> loader_state \<Rightarrow> loader_state option" where
  "static_value cur foptr f s =
     (if \<not> is_static_member f \<or> offset f = 0 then Some s
      else do {
        sig \<leftarrow> peek s (foptr + 12);
        j \<leftarrow> string_at (memory s) (sig + 4) [chr CHR ''J''];
        d \<leftarrow> string_at (memory s) (sig + 4) [chr CHR ''D''];
        v \<leftarrow> cp_entry cur (offset f) s;
        if j \<or> d then do {
          (p, s) \<leftarrow> alloc 12 s;
          s \<leftarrow> poke p v s;
          w \<leftarrow> cp_entry cur (offset f + 1) s;
          s \<leftarrow> poke (p + 4) w s;
          s \<leftarrow> poke (p + 8) foptr s;
          poke (foptr + 4) p s }
        else poke (foptr + 4) v s })"

text \<open>Field number q of class k, with the entry of the array of fields at address a.\<close>

definition copy_field :: "u32 \<Rightarrow> nat \<Rightarrow> nat \<Rightarrow> u32 \<Rightarrow> fieldblock \<Rightarrow> loader_state \<Rightarrow> loader_state option" where
  "copy_field cur k q a f s = do {
     (foptr, s) \<leftarrow> CREATE_JAVA_OBJ 28 (mvb_field s) s;
     s \<leftarrow> poke a foptr s;
     sig \<leftarrow> cp_entry cur (ucast (sigIndex f)) s;
     s \<leftarrow> poke (foptr + 12) sig s;
     let s = s\<lparr>relfb := (relfb s)((k, q) \<mapsto> foptr)\<rparr>;
     s \<leftarrow> poke (foptr + 8) cur s;
     s \<leftarrow> poke (foptr + 16) (ucast (access f)) s;
     s \<leftarrow> poke (foptr + 4) (offset f) s;
     nm \<leftarrow> cp_entry cur (ucast (nameIndex f)) s;
     s \<leftarrow> poke (foptr + 20) nm s;
     static_value cur foptr f s }"

fun copyFields :: "u32 \<Rightarrow> nat \<Rightarrow> nat \<Rightarrow> u32 \<Rightarrow> fieldblock list \<Rightarrow> loader_state \<Rightarrow> loader_state option" where
  "copyFields cur k q a [] s = Some s"
| "copyFields cur k q a (f # fs) s = do { s \<leftarrow> copy_field cur k q a f s; copyFields cur k (Suc q) (a + 4) fs s }"

section \<open>Methods\<close>

definition copyMethodFields :: "u32 \<Rightarrow> fieldblock \<Rightarrow> u32 \<Rightarrow> loader_state \<Rightarrow> loader_state option" where
  "copyMethodFields cur f a s = do {
     sig \<leftarrow> cp_entry cur (ucast (sigIndex f)) s;
     s \<leftarrow> poke (a + 8) sig s;
     s \<leftarrow> poke (a + 4) cur s;
     cp \<leftarrow> peek s (cur + 4);
     s \<leftarrow> poke a (cp + 8) s;
     s \<leftarrow> poke (a + 12) (ucast (access f)) s;
     nm \<leftarrow> cp_entry cur (ucast (nameIndex f)) s;
     poke (a + 16) nm s }"

text \<open>The exception blocks from address p on, entered in the array from address a on.\<close>

fun copy_exceptions :: "bool \<Rightarrow> u16 \<Rightarrow> u32 \<Rightarrow> u32 \<Rightarrow> catch_frame list \<Rightarrow> loader_state \<Rightarrow> loader_state option" where
  "copy_exceptions sync acc p a [] s = Some s"
| "copy_exceptions sync acc p a (x # xs) s = do {
     let c = copied_catch sync acc x;
     s \<leftarrow> poke p 0 s;
     s \<leftarrow> poke a (p + 4) s;
     s \<leftarrow> poke_words (p + 4) [mvb_exceptionBlk s, start_pc c, end_pc c, handler_pc c, scast (catchType x)] s;
     copy_exceptions sync acc (p + 24) (a + 4) xs s }"

definition copy_exception_table :: "u32 \<Rightarrow> methodblock \<Rightarrow> loader_state \<Rightarrow> loader_state option" where
  "copy_exception_table moptr m s =
     (let entries = of_nat (exception_table_length m) in do {
        s \<leftarrow> poke (moptr + 28) entries s;
        if entries \<noteq> 0 then do {
          (eaptr, s) \<leftarrow> word_array entries SIZEP_OF_OBJREF (classptr_exceptionBlk s) s;
          s \<leftarrow> poke (moptr + 24) eaptr s;
          (p, s) \<leftarrow> alloc (24 * entries) s;
          if length (exception_table m) < exception_table_length m then None
          else copy_exceptions (sync_methods s) (access (fb m)) p (eaptr + 8)
            (take (exception_table_length m) (exception_table m)) s }
        else poke (moptr + 24) 0 s })"

definition method_code :: "bool \<Rightarrow> methodblock \<Rightarrow> u8 list option" where
  "method_code sync m =
     (if length (code m) < unat (code_length m) then None
      else case copied_code sync (access (fb m)) (take (unat (code_length m)) (code m)) of Some (Some bs) \<Rightarrow> Some bs | _ \<Rightarrow> None)"

definition is_sync :: "loader_state \<Rightarrow> methodblock \<Rightarrow> bool" where
  "is_sync s m \<longleftrightarrow> sync_methods s \<and> access (fb m) AND ACC_SYNCHRONIZED \<noteq> 0"

definition copy_method :: "u32 \<Rightarrow> nat \<Rightarrow> nat \<Rightarrow> u32 \<Rightarrow> methodblock \<Rightarrow> loader_state \<Rightarrow> loader_state option" where
  "copy_method cur k q a m s = do {
     let s = s\<lparr>relmb := (relmb s)((k, q) \<mapsto> a)\<rparr>;
     (moptr, s) \<leftarrow> CREATE_JAVA_OBJ 56 (mvb_method s) s;
     s \<leftarrow> poke a moptr s;
     let len = code_length m + (if is_sync s m then 12 else 0);
     (cptr, s) \<leftarrow> alloc len s;
     s \<leftarrow> poke (moptr + 4) cptr s;
     bs \<leftarrow> method_code (sync_methods s) m;
     s \<leftarrow> poke_bytes cptr bs s;
     s \<leftarrow> poke (moptr + 20) len s;
     s \<leftarrow> copy_exception_table moptr m s;
     s \<leftarrow> copyMethodFields cur (fb m) (moptr + 32) s;
     s \<leftarrow> poke (moptr + 12) (push_bit 16 (offset (fb m)) OR push_bit 2 (ucast (args_size m))) s;
     s \<leftarrow> poke (moptr + 16) (push_bit 2 (ucast (maxstack m) + (if is_sync s m then 1 else 0))) s;
     poke (moptr + 8) (push_bit 2 (ucast (nlocals m))) s }"

fun copyMethods :: "u32 \<Rightarrow> nat \<Rightarrow> nat \<Rightarrow> u32 \<Rightarrow> methodblock list \<Rightarrow> loader_state \<Rightarrow> loader_state option" where
  "copyMethods cur k q a [] s = Some s"
| "copyMethods cur k q a (m # ms) s = do { s \<leftarrow> copy_method cur k q a m s; copyMethods cur k (Suc q) (a + 4) ms s }"

section \<open>The object hint block\<close>

text \<open>The addresses of the fields and methods in the tables of the class, which copies of its super classes set.\<close>

definition slot_pointer :: "loader_state \<Rightarrow> member_ref option \<Rightarrow> u32 option" where
  "slot_pointer s x = (case x of None \<Rightarrow> Some 0 | Some r \<Rightarrow> relfb s r)"

definition method_pointer :: "loader_state \<Rightarrow> member_ref option \<Rightarrow> u32 option" where
  "method_pointer s x = do { r \<leftarrow> x; a \<leftarrow> relmb s r; p \<leftarrow> peek s a; Some (p + 4) }"

fun copy_method_vector :: "u32 \<Rightarrow> member_ref option list \<Rightarrow> loader_state \<Rightarrow> loader_state option" where
  "copy_method_vector a [] s = Some s"
| "copy_method_vector a (x # xs) s = do { p \<leftarrow> method_pointer s x; s \<leftarrow> poke a p s; copy_method_vector (a + 4) xs s }"

definition copyObjHintBlk :: "u32 \<Rightarrow> u32 \<Rightarrow> resolution \<Rightarrow> u32 \<Rightarrow> loader_state \<Rightarrow> loader_state option" where
  "copyObjHintBlk cur constpool r to s = do {
     s \<leftarrow> poke to (ucast (slottbl_size r)) s;
     s \<leftarrow> poke (to + 8) (ucast (numOfInstVars r)) s;
     s \<leftarrow> (if slottbl_size r = 0 then poke (to + 4) 0 s
       else do {
         (fAptr, s) \<leftarrow> word_array (ucast (slottbl_size r)) SIZEP_OF_OBJREF (classptr_field s) s;
         s \<leftarrow> poke (to + 4) fAptr s;
         ps \<leftarrow> those (map (slot_pointer s) (take (unat (slottbl_size r)) (slottable r)));
         poke_words (fAptr + 8) ps s });
     s \<leftarrow> poke (to + 12) (ucast (methodtable_size r)) s;
     s \<leftarrow> poke (to + 16) (cur + 4) s;
     s \<leftarrow> poke (to + 20) (constpool + 8) s;
     copy_method_vector (to + 24) (take (unat (methodtable_size r)) (methodtable r)) s }"

section \<open>The class object\<close>

definition implements_array :: "u32 \<Rightarrow> u16 list \<Rightarrow> loader_state \<Rightarrow> loader_state option" where
  "implements_array cur is s = do {
     let cnt = of_nat (length is);
     s \<leftarrow> poke (cur + 44) cnt s;
     if 0 < length is then do {
       (impAptr, s) \<leftarrow> word_array cnt SIZEP_OF_INT SIGC_INT s;
       s \<leftarrow> poke (cur + 40) impAptr s;
       poke_words (impAptr + 8) (map scast is) s }
     else poke (cur + 40) 0 s }"

definition class_flags :: "methodblock list \<Rightarrow> u32" where
  "class_flags ms = (let named = (\<lambda>str. if \<exists>m \<in> set ms. is_str (name (fb m)) str then 1 else 0)
     in push_bit 2 (named ''main'') OR push_bit 1 (named ''<clinit>'') OR named ''finalize'')"

text \<open>The block is aligned to double words; the result is the address behind its array header.\<close>

definition hint_block :: "u32 \<Rightarrow> resolution \<Rightarrow> loader_state \<Rightarrow> (u32 \<times> loader_state) option" where
  "hint_block cur r s = do {
     (p, s) \<leftarrow> alloc (4 + 4 * ARRAY_HEADER + 28 + 4 * (ucast (methodtable_size r) - 1) + 4 * ARRAY_FOOTER) s;
     let ohptr = (p + 4 * ARRAY_HEADER + 4) AND 0xfffffff8;
     s \<leftarrow> poke (cur + 28) (ohptr - 8) s;
     s \<leftarrow> poke (ohptr - 12) 0 s;
     s \<leftarrow> poke (ohptr - 8) ((mvb_object s AND 0xfffffffc) OR SIZEP_OF_INT) s;
     Some (ohptr, s) }"

text \<open>
  Everything of copyOneBinClass but the entry in the tables, for class k with members r. n is the number
  of methods in the block that copyObjHintBlk has just written there.
\<close>

definition class_object :: "nat \<Rightarrow> class_class \<Rightarrow> resolution \<Rightarrow> loader_state \<Rightarrow> ((u32 \<times> u32) \<times> loader_state) option" where
  "class_object k c r s = do {
     (cur, s) \<leftarrow> CREATE_JAVA_OBJ 68 (mvb_class s) s;
     let s = s\<lparr>relcb := (relcb s)(k \<mapsto> cur)\<rparr>;
     (ohptr, s) \<leftarrow> hint_block cur r s;
     let cnt = of_nat (length (cp_items (pool c)));
     s \<leftarrow> poke (cur + 16) cnt s;
     (cAptr, s) \<leftarrow> word_array cnt SIZEP_OF_INT SIGC_INT s;
     s \<leftarrow> poke (cur + 4) cAptr s;
     s \<leftarrow> copyConstantPool cur (pool c) (cAptr + 8) s;
     nm \<leftarrow> peek s (cAptr + 8 + 4 * ucast (class_nameIndex c));
     s \<leftarrow> poke (cur + 32) nm s;
     super \<leftarrow> relcb s (super_index r);
     s \<leftarrow> poke (cur + 36) super s;
     let nfields = of_nat (length (class_fields c));
     s \<leftarrow> poke (cur + 20) nfields s;
     (fAptr, s) \<leftarrow> word_array nfields SIZEP_OF_OBJREF (classptr_field s) s;
     s \<leftarrow> poke (cur + 12) fAptr s;
     s \<leftarrow> copyFields cur k 0 (fAptr + 8) (class_fields c) s;
     let nmethods = of_nat (length (class_methods c));
     s \<leftarrow> poke (cur + 24) nmethods s;
     (mAptr, s) \<leftarrow> word_array nmethods SIZEP_OF_OBJREF (classptr_method s) s;
     s \<leftarrow> poke (cur + 8) mAptr s;
     s \<leftarrow> copyMethods cur k 0 (mAptr + 8) (class_methods c) s;
     s \<leftarrow> implements_array cur (implements_list c) s;
     s \<leftarrow> copyObjHintBlk cur cAptr r ohptr s;
     let n = ucast (methodtable_size r);
     s \<leftarrow> poke (ohptr - 4) (n + 6) s;
     s \<leftarrow> poke (ohptr + (n + 6) * 4) 1 s;
     s \<leftarrow> poke (ohptr + (n + 6) * 4 + 4) SIGC_INT s;
     s \<leftarrow> poke (cur + 48) (ucast (class_access c)) s;
     s \<leftarrow> poke (cur + 52) (class_flags (class_methods c)) s;
     s \<leftarrow> poke (cur + 56) 0 s;
     s \<leftarrow> poke (cur + 60) 0 s;
     Some ((cur, ohptr + 24), s) }"

section \<open>The class tables\<close>

definition CLASS_ADDRESS :: u32 where "CLASS_ADDRESS = 0x20000"
definition decafClassTableSize :: u32 where "decafClassTableSize = 8192"
definition decafClassHashTblSize :: u32 where "decafClassHashTblSize = 1036"
definition CLASS_HASHTABLE_ADDR :: u32 where "CLASS_HASHTABLE_ADDR = CLASS_ADDRESS + decafClassTableSize + (ARRAY_HEADER + 1) * 4"

text \<open>There is no test whether the table is full.\<close>

definition cmSetClassTable :: "u32 \<Rightarrow> loader_state \<Rightarrow> loader_state option" where
  "cmSetClassTable classPtr s = do {
     nm \<leftarrow> peek s (classPtr + 32);
     key \<leftarrow> peek s nm;
     let slot = CLASS_HASHTABLE_ADDR + 4 * (key mod (decafClassHashTblSize div 4 - ARRAY_FOOTER));
     temp \<leftarrow> peek s slot;
     s \<leftarrow> (if temp = 0 then Some s else poke (classPtr + 60) temp s);
     s \<leftarrow> poke slot classPtr s;
     s \<leftarrow> poke (CLASS_ADDRESS + 4 * of_nat (decafClassTableCount s)) classPtr s;
     Some (s\<lparr>decafClassTableCount := Suc (decafClassTableCount s)\<rparr>) }"

definition cmGetClassTable :: "nat \<Rightarrow> loader_state \<Rightarrow> u32 option" where
  "cmGetClassTable idx s = peek s (CLASS_ADDRESS + 4 * of_nat idx)"

text \<open>
  The searches go on until a null entry of the table, for which nothing is reserved: in a memory full
  of classes they end at its end (None), so fuel for each word of a 32-bit memory is enough.
\<close>

fun search_classes :: "nat \<Rightarrow> (u32 \<Rightarrow> bool option) \<Rightarrow> nat \<Rightarrow> loader_state \<Rightarrow> u32 option" where
  "search_classes 0 found idx s = None"
| "search_classes (Suc n) found idx s = do {
     p \<leftarrow> cmGetClassTable idx s;
     if p = 0 then Some 0
     else do { b \<leftarrow> found p; if b then Some p else search_classes n found (Suc idx) s } }"

definition cmFindClass :: "u8 list \<Rightarrow> loader_state \<Rightarrow> u32 option" where
  "cmFindClass className s =
     search_classes (2 ^ 30) (\<lambda>p. do { nm \<leftarrow> peek s (p + 32); string_at (memory s) (nm + 4) className }) 0 s"

definition findClassFromConstantPool :: "u32 \<Rightarrow> loader_state \<Rightarrow> u32 option" where
  "findClassFromConstantPool cp s =
     (if cp = 0 then Some 0 else search_classes (2 ^ 30) (\<lambda>p. do { c \<leftarrow> peek s (p + 4); Some (c + 8 = cp) }) 0 s)"

fun search_methods :: "u8 list \<Rightarrow> u32 \<Rightarrow> nat \<Rightarrow> loader_state \<Rightarrow> u32 option" where
  "search_methods str a 0 s = Some 0"
| "search_methods str a (Suc n) s = do {
     p \<leftarrow> peek s a;
     nm \<leftarrow> peek s (p + 48);
     b \<leftarrow> string_at (memory s) (nm + 4) str;
     if b then Some p else search_methods str (a + 4) n s }"

definition cmFindMethod :: "u32 \<Rightarrow> u8 list \<Rightarrow> loader_state \<Rightarrow> u32 option" where
  "cmFindMethod p methodName s = do {
     a \<leftarrow> peek s (p + 8);
     n \<leftarrow> peek s (p + 24);
     search_methods methodName (a + 8) (unat n) s }"

section \<open>Bootstrapping\<close>

text \<open>
  The fundamental classes are copied before the addresses that their headers need are known; once the last of
  them is there, the headers are set.
\<close>

definition fix_array :: "u32 \<Rightarrow> u32 \<Rightarrow> loader_state \<Rightarrow> loader_state option" where
  "fix_array a ty s = do {
     s \<leftarrow> poke a ((mvb_object s AND 0xfffffffc) OR SIZEP_OF_OBJREF) s;
     n \<leftarrow> peek s (a + 4);
     s \<leftarrow> poke (a + 4 * (n + 2)) 1 s;
     poke (a + 4 * (n + 2) + 4) ty s }"

fun fix_each :: "(u32 \<Rightarrow> loader_state \<Rightarrow> loader_state option) \<Rightarrow> u32 \<Rightarrow> nat \<Rightarrow> loader_state \<Rightarrow> loader_state option" where
  "fix_each f a 0 s = Some s"
| "fix_each f a (Suc n) s = do { p \<leftarrow> peek s a; s \<leftarrow> f p s; fix_each f (a + 4) n s }"

definition fix_method :: "u32 \<Rightarrow> loader_state \<Rightarrow> loader_state option" where
  "fix_method mptr s = do {
     s \<leftarrow> poke mptr (mvb_method s) s;
     n \<leftarrow> peek s (mptr + 28);
     if n = 0 then Some s
     else do {
       eAptr \<leftarrow> peek s (mptr + 24);
       s \<leftarrow> fix_array eAptr (classptr_exceptionBlk s) s;
       fix_each (\<lambda>p s. poke p (mvb_exceptionBlk s) s) (eAptr + 8) (unat n) s } }"

definition fix_headers :: "u32 \<Rightarrow> loader_state \<Rightarrow> loader_state option" where
  "fix_headers p s = do {
     s \<leftarrow> poke p (mvb_class s) s;
     cAptr \<leftarrow> peek s (p + 4);
     s \<leftarrow> poke cAptr ((mvb_object s AND 0xfffffffc) OR SIZEP_OF_INT) s;
     item0 \<leftarrow> peek s (cAptr + 8);
     s \<leftarrow> poke (item0 - 8) ((mvb_object s AND 0xfffffffc) OR SIZEP_OF_BYTE) s;
     n \<leftarrow> peek s (p + 20);
     s \<leftarrow> (if n = 0 then Some s
       else do {
         fAptr \<leftarrow> peek s (p + 12);
         s \<leftarrow> fix_array fAptr (classptr_field s) s;
         fix_each (\<lambda>q s. poke q (mvb_field s) s) (fAptr + 8) (unat n) s });
     n \<leftarrow> peek s (p + 24);
     s \<leftarrow> (if n = 0 then Some s
       else do {
         mAptr \<leftarrow> peek s (p + 8);
         s \<leftarrow> fix_array mAptr (classptr_method s) s;
         fix_each fix_method (mAptr + 8) (unat n) s });
     h \<leftarrow> peek s (p + 28);
     s \<leftarrow> poke h ((mvb_object s AND 0xfffffffc) OR SIZEP_OF_INT) s;
     n \<leftarrow> peek s (h + 8);
     s \<leftarrow> (if n = 0 then Some s else do { fAptr \<leftarrow> peek s (h + 12); fix_array fAptr (classptr_field s) s });
     n \<leftarrow> peek s (p + 44);
     if n = 0 then Some s
     else do { iAptr \<leftarrow> peek s (p + 40); poke iAptr ((mvb_object s AND 0xfffffffc) OR SIZEP_OF_INT) s } }"

definition fixupClass :: "u8 list \<Rightarrow> loader_state \<Rightarrow> loader_state option" where
  "fixupClass className s = do { p \<leftarrow> cmFindClass className s; if p = 0 then Some s else fix_headers p s }"

definition OBJECT_CLASS_NAME :: "u8 list" where "OBJECT_CLASS_NAME = map chr ''java/lang/Object''"
definition CLASS_CLASS_NAME :: "u8 list" where "CLASS_CLASS_NAME = map chr ''java/lang/Class''"
definition FIELD_CLASS_NAME :: "u8 list" where "FIELD_CLASS_NAME = map chr ''java/lang/Field''"
definition METHOD_CLASS_NAME :: "u8 list" where "METHOD_CLASS_NAME = map chr ''java/lang/Method''"
definition EXCEPTIONBLOCK_CLASS_NAME :: "u8 list" where "EXCEPTIONBLOCK_CLASS_NAME = map chr ''java/lang/ExceptionBlock''"

text \<open>The fields of java/lang/Class that the loader sets.\<close>

definition fix_class_field :: "bool \<Rightarrow> u32 \<Rightarrow> loader_state \<Rightarrow> loader_state option" where
  "fix_class_field first_time field s = do {
     nm \<leftarrow> peek s (field + 20);
     let named = (\<lambda>str. string_at (memory s) (nm + 4) (map chr str));
     t \<leftarrow> named ''classTable''; h \<leftarrow> named ''classHashTable''; c \<leftarrow> named ''classCount'';
     if first_time then
       (if t then poke (field + 4) ((CLASS_ADDRESS - 8) OR 2) s
        else if h then poke (field + 4) ((CLASS_HASHTABLE_ADDR - 8) OR 2) s
        else Some s)
     else if c then poke (field + 4) (of_nat (decafClassTableCount s)) s
     else Some s }"

definition table_footer :: "u32 \<Rightarrow> u32 \<Rightarrow> u32 \<Rightarrow> loader_state \<Rightarrow> loader_state option" where
  "table_footer a sz p s = do { s \<leftarrow> poke (a + (sz div 4 - 1) * 4) ((p AND 0x3FFFFFFC) + 4) s; poke (a + (sz div 4 - 2) * 4) 1 s }"

definition fixupClasstable :: "bool \<Rightarrow> loader_state \<Rightarrow> loader_state option" where
  "fixupClasstable first_time s = do {
     s \<leftarrow> poke (CLASS_ADDRESS - 12) 0 s;
     s \<leftarrow> poke (CLASS_HASHTABLE_ADDR - 12) 0 s;
     s \<leftarrow> poke (CLASS_ADDRESS - 4) (decafClassTableSize div 4 - ARRAY_FOOTER) s;
     s \<leftarrow> poke (CLASS_HASHTABLE_ADDR - 4) (decafClassHashTblSize div 4 - ARRAY_FOOTER) s;
     p \<leftarrow> cmFindClass CLASS_CLASS_NAME s;
     if p = 0 then Some s
     else do {
       fldArray \<leftarrow> peek s (p + 12);
       if fldArray = 0 then Some s
       else do {
         s \<leftarrow> (if first_time then do {
             mvb \<leftarrow> peek s fldArray;
             s \<leftarrow> poke (CLASS_ADDRESS - 8) mvb s;
             s \<leftarrow> poke (CLASS_HASHTABLE_ADDR - 8) mvb s;
             s \<leftarrow> table_footer CLASS_ADDRESS decafClassTableSize p s;
             table_footer CLASS_HASHTABLE_ADDR decafClassHashTblSize p s }
           else Some s);
         n \<leftarrow> peek s (fldArray + 4);
         fix_each (fix_class_field first_time) (fldArray + 8) (nat (sint n)) s } } }"

section \<open>A class\<close>

text \<open>The addresses of the fundamental classes, as they come along.\<close>

definition note_class :: "u32 \<Rightarrow> u32 \<Rightarrow> loader_state \<Rightarrow> loader_state option" where
  "note_class p mvb s = do {
     nm \<leftarrow> peek s (p + 32);
     let named = string_at (memory s) (nm + 4);
     obj \<leftarrow> named OBJECT_CLASS_NAME; cl \<leftarrow> named CLASS_CLASS_NAME; fi \<leftarrow> named FIELD_CLASS_NAME;
     me \<leftarrow> named METHOD_CLASS_NAME; ex \<leftarrow> named EXCEPTIONBLOCK_CLASS_NAME;
     if obj then Some (s\<lparr>mvb_object := mvb\<rparr>)
     else if cl then Some (s\<lparr>mvb_class := mvb\<rparr>)
     else if fi then Some (s\<lparr>mvb_field := mvb, classptr_field := p + 4\<rparr>)
     else if me then Some (s\<lparr>mvb_method := mvb, classptr_method := p + 4\<rparr>)
     else if ex then do {
       let s = s\<lparr>mvb_exceptionBlk := mvb, classptr_exceptionBlk := p + 4\<rparr>;
       s \<leftarrow> fixupClass OBJECT_CLASS_NAME s;
       s \<leftarrow> fixupClass CLASS_CLASS_NAME s;
       s \<leftarrow> fixupClass FIELD_CLASS_NAME s;
       s \<leftarrow> fixupClass METHOD_CLASS_NAME s;
       s \<leftarrow> fixupClass EXCEPTIONBLOCK_CLASS_NAME s;
       s \<leftarrow> fixupClasstable True s;
       Some (s\<lparr>bsdone := True\<rparr>) }
     else Some s }"

definition copyOneBinClass :: "nat \<Rightarrow> class_class \<Rightarrow> resolution \<Rightarrow> loader_state \<Rightarrow> (u32 \<times> loader_state) option" where
  "copyOneBinClass k c r s = do {
     ((p, mvb), s) \<leftarrow> class_object k c r s;
     s \<leftarrow> cmSetClassTable p s;
     s \<leftarrow> (if bsdone s then fixupClasstable False s else note_class p mvb s);
     Some (p, s) }"

end
