(* ===== verification/Copier_Frame.thy ===== *)
theory Copier_Frame
  imports Class_Copier Class_Invariant
begin

text \<open>
  Reasoning about the copier. ready K c e s says that s comes from e by the copier's steps, that everything below
  address c is allocated, and that the memory has the bytes that K gives; runs is the correctness of a step that may fail,
  with rules that follow the do blocks of the model. Steps write to blocks, ranges of addresses of which nothing is known; what
  a step has written can be learned if it stays as it is from then on.
\<close>

section \<open>What is known of the memory\<close>

type_synonym known = "nat \<Rightarrow> u8 option"

text \<open>The parts of the loader's state that laying out a class does not set.\<close>

definition same_env :: "loader_state \<Rightarrow> loader_state \<Rightarrow> bool" where
  "same_env e s \<longleftrightarrow> s = e\<lparr>memory := memory s, relcb := relcb s, relfb := relfb s, relmb := relmb s\<rparr>"

lemma same_env_upd [simp]:
  "same_env e (s\<lparr>memory := m\<rparr>) = same_env e s" "same_env e (s\<lparr>relcb := f\<rparr>) = same_env e s"
  "same_env e (s\<lparr>relfb := g\<rparr>) = same_env e s" "same_env e (s\<lparr>relmb := h\<rparr>) = same_env e s"
  by (cases s; cases e; simp add: same_env_def)+

definition ready :: "known \<Rightarrow> nat \<Rightarrow> loader_state \<Rightarrow> loader_state \<Rightarrow> bool" where
  "ready K c e s \<longleftrightarrow> same_env e s
     \<and> CM_SIZE (memory s) = CM_SIZE (memory e) \<and> scratchMemory (memory s) = scratchMemory (memory e)
     \<and> unat (CM_SIZE (memory e)) \<le> 2 ^ 30 \<and> unat (currentAddress (memory e)) \<le> unat (currentAddress (memory s))
     \<and> unat (currentAddress (memory s)) \<le> unat (CM_SIZE (memory e)) \<and> 4 dvd unat (currentAddress (memory s))
     \<and> c \<le> unat (currentAddress (memory s)) \<and> dom K \<subseteq> {..<c} \<and> (\<forall>x b. K (unat x) = Some b \<longrightarrow> commonMemory (memory s) x = b)"

definition block :: "known \<Rightarrow> u32 \<Rightarrow> nat \<Rightarrow> bool" where
  "block K p n \<longleftrightarrow> (\<forall>x b. K x = Some b \<longrightarrow> x < unat p \<or> unat p + n \<le> x) \<and> unat p + n \<le> 2 ^ 30"

definition runs :: "known \<Rightarrow> nat \<Rightarrow> loader_state \<Rightarrow> ('b \<Rightarrow> loader_state) \<Rightarrow> ('b \<Rightarrow> bool) \<Rightarrow> 'b option \<Rightarrow> bool" where
  "runs K c e st Q r \<longleftrightarrow> (\<forall>y. r = Some y \<longrightarrow> ready K c e (st y) \<and> Q y)"

abbreviation runs_to :: "known \<Rightarrow> nat \<Rightarrow> loader_state \<Rightarrow> loader_state option \<Rightarrow> bool" where
  "runs_to K c e r \<equiv> runs K c e (\<lambda>s. s) (\<lambda>_. True) r"

lemma ready_rel [simp]:
  "ready K c e (s\<lparr>relcb := f\<rparr>) = ready K c e s" "ready K c e (s\<lparr>relfb := g\<rparr>) = ready K c e s"
  "ready K c e (s\<lparr>relmb := h\<rparr>) = ready K c e s"
  by (simp_all add: ready_def)

lemma ready_env:
  assumes "ready K c e s"
  shows "host_shift s = host_shift e" "sync_methods s = sync_methods e" "mvb_object s = mvb_object e" "mvb_class s = mvb_class e"
    "mvb_field s = mvb_field e" "mvb_method s = mvb_method e" "mvb_exceptionBlk s = mvb_exceptionBlk e" "bsdone s = bsdone e"
    "decafClassTableCount s = decafClassTableCount e" "classptr_field s = classptr_field e"
    "classptr_method s = classptr_method e" "classptr_exceptionBlk s = classptr_exceptionBlk e"
    "CM_SIZE (memory s) = CM_SIZE (memory e)" "scratchMemory (memory s) = scratchMemory (memory e)"
proof -
  from assms have s: "s = e\<lparr>memory := memory s, relcb := relcb s, relfb := relfb s, relmb := relmb s\<rparr>"
    and m: "CM_SIZE (memory s) = CM_SIZE (memory e)" "scratchMemory (memory s) = scratchMemory (memory e)" by (simp_all add: ready_def same_env_def)
  show "CM_SIZE (memory s) = CM_SIZE (memory e)" "scratchMemory (memory s) = scratchMemory (memory e)" by (rule m)+
  show "host_shift s = host_shift e" "sync_methods s = sync_methods e" "mvb_object s = mvb_object e" "mvb_class s = mvb_class e"
    "mvb_field s = mvb_field e" "mvb_method s = mvb_method e" "mvb_exceptionBlk s = mvb_exceptionBlk e" "bsdone s = bsdone e"
    "decafClassTableCount s = decafClassTableCount e" "classptr_field s = classptr_field e"
    "classptr_method s = classptr_method e" "classptr_exceptionBlk s = classptr_exceptionBlk e"
    by (subst s, simp)+
qed

lemma runs_bind:
  "runs K c e st Q r \<Longrightarrow> (\<And>y. ready K c e (st y) \<Longrightarrow> Q y \<Longrightarrow> runs K c e st' Q' (k y)) \<Longrightarrow> runs K c e st' Q' (Option.bind r k)"
  unfolding runs_def by (auto simp: bind_eq_Some_conv)

lemma runs_bind_pair:
  "runs K c e snd (\<lambda>(p, _). R p) r \<Longrightarrow> (\<And>p s'. ready K c e s' \<Longrightarrow> R p \<Longrightarrow> runs K c e st Q (k (p, s')))
   \<Longrightarrow> runs K c e st Q (Option.bind r k)"
  by (erule runs_bind) (auto split: prod.splits)

lemma runs_value: "(\<And>w. r = Some w \<Longrightarrow> runs K c e st Q (k w)) \<Longrightarrow> runs K c e st Q (Option.bind r k)"
  unfolding runs_def by (auto simp: bind_eq_Some_conv)

lemma runs_return: "ready K c e (st y) \<Longrightarrow> Q y \<Longrightarrow> runs K c e st Q (Some y)"
  by (simp add: runs_def)

lemma runs_None [simp]: "runs K c e st Q None"
  by (simp add: runs_def)

lemma runs_if: "(b \<Longrightarrow> runs K c e st Q r) \<Longrightarrow> (\<not> b \<Longrightarrow> runs K c e st Q r') \<Longrightarrow> runs K c e st Q (if b then r else r')"
  by simp

lemma runs_mono: "runs K c e st Q r \<Longrightarrow> (\<And>y. ready K c e (st y) \<Longrightarrow> Q y \<Longrightarrow> Q' y) \<Longrightarrow> runs K c e st Q' r"
  by (auto simp: runs_def)

lemma ready_mono: "ready K' c' e s \<Longrightarrow> K \<subseteq>\<^sub>m K' \<Longrightarrow> c \<le> c' \<Longrightarrow> dom K \<subseteq> {..<c} \<Longrightarrow> ready K c e s"
  unfolding ready_def map_le_def by (auto simp: dom_def)

lemma runs_weaken: "runs K' c' e st Q r \<Longrightarrow> K \<subseteq>\<^sub>m K' \<Longrightarrow> c \<le> c' \<Longrightarrow> dom K \<subseteq> {..<c} \<Longrightarrow> runs K c e st Q r"
  unfolding runs_def by (auto intro: ready_mono)

lemma ready_dom: "ready K c e s \<Longrightarrow> dom K \<subseteq> {..<c}"
  by (simp add: ready_def)

section \<open>Addresses\<close>

lemma unat_add: "unat p + unat k < 2 ^ 32 \<Longrightarrow> unat (p + k) = unat p + unat (k :: u32)"
  by (simp add: unat_word_ariths)

lemma block_part: "block K p n \<Longrightarrow> unat k + j \<le> n \<Longrightarrow> block K (p + k) j"
  using unat_add [of p k] by (fastforce simp: block_def)

lemma block_mono: "block K p n \<Longrightarrow> j \<le> n \<Longrightarrow> block K p j"
  by (fastforce simp: block_def)

lemma block_at: "block K p n \<Longrightarrow> unat k \<le> n \<Longrightarrow> unat (p + k) = unat p + unat k"
  using unat_add [of p k] by (auto simp: block_def)

text \<open>Learning bytes.\<close>

definition learn :: "known \<Rightarrow> u32 \<Rightarrow> u8 list \<Rightarrow> known" where
  "learn K a bs = (\<lambda>x. if unat a \<le> x \<and> x < unat a + length bs then Some (bs ! (x - unat a)) else K x)"

definition has :: "known \<Rightarrow> u32 \<Rightarrow> u8 list \<Rightarrow> bool" where
  "has K a bs \<longleftrightarrow> (\<forall>i < length bs. K (unat a + i) = Some (bs ! i))"

lemma dom_learn: "dom (learn K a bs) = dom K \<union> {unat a..<unat a + length bs}"
  by (auto simp: learn_def dom_def)

lemma learn_Nil [simp]: "learn K a [] = K"
  by (rule ext) (auto simp: learn_def)

lemma learn_Cons:
  assumes "unat a + length (b # bs) < 2 ^ 32"
  shows "learn (learn K a [b]) (a + 1) bs = learn K a (b # bs)"
proof
  have a: "unat (a + 1) = unat a + 1" using assms unat_add [of a 1] by simp
  show "learn (learn K a [b]) (a + 1) bs x = learn K a (b # bs) x" for x
    by (auto simp: learn_def a nth_Cons' not_less)
qed

lemma block_learn: "block K p n \<Longrightarrow> unat p + n \<le> unat a \<or> unat a + length bs \<le> unat p \<Longrightarrow> block (learn K a bs) p n"
  unfolding block_def learn_def by (auto split: if_splits)

lemma learn_le: "block K a (length bs) \<Longrightarrow> K \<subseteq>\<^sub>m learn K a bs"
  unfolding block_def learn_def map_le_def by (auto dest!: spec)

lemma has_learn: "has (learn K a bs) a bs"
  by (simp add: has_def learn_def)

lemma has_le: "has K a bs \<Longrightarrow> K \<subseteq>\<^sub>m K' \<Longrightarrow> has K' a bs"
  unfolding has_def map_le_def by (metis domI)

lemma has_append: "unat a + length (bs @ bs') < 2 ^ 32 \<Longrightarrow> has K a (bs @ bs') \<longleftrightarrow> has K a bs \<and> has K (a + of_nat (length bs)) bs'"
proof -
  assume len: "unat a + length (bs @ bs') < 2 ^ 32"
  then have "unat (of_nat (length bs) :: u32) = length bs" by (simp add: unat_of_nat)
  then have a: "unat (a + of_nat (length bs)) = unat a + length bs" using len unat_add [of a "of_nat (length bs)"] by simp
  show ?thesis
  proof
    assume all: "has K a (bs @ bs')"
    then have "K (unat a + i) = Some (bs ! i)" if "i < length bs" for i using that by (auto simp: has_def nth_append)
    moreover have "K (unat a + length bs + i) = Some (bs' ! i)" if "i < length bs'" for i
      using all [unfolded has_def, rule_format, of "length bs + i"] that by (simp add: nth_append add.assoc)
    ultimately show "has K a bs \<and> has K (a + of_nat (length bs)) bs'" by (simp add: has_def a)
  next
    assume both: "has K a bs \<and> has K (a + of_nat (length bs)) bs'"
    show "has K a (bs @ bs')"
      unfolding has_def
    proof (intro allI impI)
      fix i
      assume i: "i < length (bs @ bs')"
      show "K (unat a + i) = Some ((bs @ bs') ! i)"
        using both i by (cases "i < length bs") (auto simp: has_def a nth_append dest: spec [of _ "i - length bs"])
    qed
  qed
qed

section \<open>Stores\<close>

lemma put_law:
  assumes "block_put m MainBlock a b = Some m'"
  shows "a < CM_SIZE m \<and> m' = m\<lparr>commonMemory := (commonMemory m)(a := b)\<rparr>"
  using assms by (simp add: block_put_def split: if_splits)

lemma put_ready:
  "block_put (memory s) MainBlock a b = Some m \<Longrightarrow> ready K c e s \<Longrightarrow> unat a \<notin> dom K \<Longrightarrow>
   ready K c e (s\<lparr>memory := m\<rparr>) \<and> unat a < 2 ^ 30"
  by (drule put_law) (auto simp: ready_def word_less_nat_alt)

lemma put_learn:
  assumes "block_put (memory s) MainBlock a b = Some m" "ready K c e s" "unat a < c"
  shows "ready (learn K a [b]) c e (s\<lparr>memory := m\<rparr>)"
proof -
  have m: "m = (memory s)\<lparr>commonMemory := (commonMemory (memory s))(a := b)\<rparr>" using put_law [OF assms(1)] by simp
  have "dom (learn K a [b]) \<subseteq> {..<c}" using assms(2,3) by (auto simp: ready_def dom_learn)
  moreover have "commonMemory m x = b'" if "learn K a [b] (unat x) = Some b'" for x b'
  proof (cases "x = a")
    case False
    then have "unat x \<noteq> unat a" by (metis word_unat_eq_iff)
    then show ?thesis using that assms(2) False by (simp add: learn_def m ready_def split: if_splits)
  qed (use that in \<open>simp add: learn_def m\<close>)
  ultimately show ?thesis using assms(2) by (simp add: ready_def m)
qed

lemma runs_poke_bytes: "ready K c e s \<Longrightarrow> block K a (length bs) \<Longrightarrow> runs_to K c e (poke_bytes a bs s)"
proof (induction bs arbitrary: a s)
  case Nil
  then show ?case by (simp add: runs_return)
next
  case (Cons b bs)
  have rest: "block K (a + 1) (length bs)" "unat a \<notin> dom K"
    using block_part [OF Cons.prems(2), of 1] Cons.prems(2) by (auto simp: block_def)
  show ?case
    unfolding poke_bytes.simps using put_ready [OF _ Cons.prems(1) rest(2)] by (intro runs_value Cons.IH [OF _ rest(1)]) blast
qed

lemma runs_learn_bytes:
  "ready K c e s \<Longrightarrow> block K a (length bs) \<Longrightarrow> unat a + length bs \<le> c \<Longrightarrow> runs_to (learn K a bs) c e (poke_bytes a bs s)"
proof (induction bs arbitrary: a s K)
  case Nil
  then show ?case by (simp add: runs_return)
next
  case (Cons b bs)
  have a: "unat (a + 1) = unat a + 1" using block_at [OF Cons.prems(2), of 1] by simp
  have K: "learn (learn K a [b]) (a + 1) bs = learn K a (b # bs)" using Cons.prems(2) by (intro learn_Cons) (simp add: block_def)
  have rest: "block (learn K a [b]) (a + 1) (length bs)"
    using block_part [OF Cons.prems(2), of 1] by (intro block_learn) (simp_all add: a)
  show ?case
    unfolding poke_bytes.simps K [symmetric]
    using Cons.prems(3) by (intro runs_value Cons.IH [OF put_learn rest]) (auto simp: a intro: Cons.prems(1))
qed

lemma be_bytes_at: "be_bytes w = [byte_at w 0, byte_at w 1, byte_at w 2, byte_at w 3]"
  by (simp add: byte_at_def be_bytes_def)

lemma nth_be_bytes: "be_bytes w ! i = byte_at w i"
  by (simp add: byte_at_def)

lemma poke_is_bytes: "poke a w s = poke_bytes a (be_bytes w) s"
  by (simp add: poke_def block_put_word_def be_bytes_at add.assoc bind_assoc)

lemmas runs_poke = runs_poke_bytes [where bs = "be_bytes w" for w, folded poke_is_bytes, unfolded length_be_bytes]
lemmas runs_learn = runs_learn_bytes [where bs = "be_bytes w" for w, folded poke_is_bytes, unfolded length_be_bytes]

abbreviation learn_word :: "known \<Rightarrow> u32 \<Rightarrow> u32 \<Rightarrow> known" where
  "learn_word K a w \<equiv> learn K a (be_bytes w)"

abbreviation has_word :: "known \<Rightarrow> u32 \<Rightarrow> u32 \<Rightarrow> bool" where
  "has_word K a w \<equiv> has K a (be_bytes w)"

lemma runs_bind_poke:
  "ready K c e s \<Longrightarrow> block K a 4 \<Longrightarrow> (\<And>s'. ready K c e s' \<Longrightarrow> runs K c e st Q (k s')) \<Longrightarrow> runs K c e st Q (Option.bind (poke a w s) k)"
  by (rule runs_bind [OF runs_poke])

lemma runs_bind_learn_bytes:
  assumes "ready K c e s" "block K a (length bs)" "unat a + length bs \<le> c"
    "\<And>s'. ready (learn K a bs) c e s' \<Longrightarrow> runs (learn K a bs) c e st Q (k s')"
  shows "runs K c e st Q (Option.bind (poke_bytes a bs s) k)"
  by (rule runs_weaken [OF runs_bind [OF runs_learn_bytes [OF assms(1-3)] assms(4)] learn_le [OF assms(2)] order_refl ready_dom [OF assms(1)]])

lemmas runs_bind_learn = runs_bind_learn_bytes [where bs = "be_bytes w" for w, folded poke_is_bytes, unfolded length_be_bytes]

lemma runs_poke_words: "ready K c e s \<Longrightarrow> block K a (4 * length ws) \<Longrightarrow> runs_to K c e (poke_words a ws s)"
proof (induction ws arbitrary: a s)
  case Nil
  then show ?case by (simp add: runs_return)
next
  case (Cons w ws)
  have rest: "block K (a + 4) (4 * length ws)" "block K a 4"
    using block_part [OF Cons.prems(2), of 4] Cons.prems(2) by (auto elim: block_mono)
  show ?case
    unfolding poke_words.simps by (rule runs_bind_poke [OF Cons.prems(1) rest(2)]) (rule Cons.IH [OF _ rest(1)])
qed

lemma poke_bytes_append: "poke_bytes a (bs @ bs') s = Option.bind (poke_bytes a bs s) (poke_bytes (a + of_nat (length bs)) bs')"
  by (induction bs arbitrary: a s) (auto simp: algebra_simps bind_assoc split: bind_splits)

lemma poke_words_is_bytes: "poke_words a ws s = poke_bytes a (concat (map be_bytes ws)) s"
proof (induction ws arbitrary: a s)
  case (Cons w ws)
  have "poke_words (a + 4) ws = poke_bytes (a + 4) (concat (map be_bytes ws))" by (rule ext) (rule Cons.IH)
  then show ?case by (simp add: poke_bytes_append poke_is_bytes)
qed simp

text \<open>Reading what is known.\<close>

lemma has_get: "ready K c e s \<Longrightarrow> K (unat a) = Some b \<Longrightarrow> block_get (memory s) MainBlock a = Some b"
  unfolding ready_def block_get_def by (auto simp: word_less_nat_alt)

lemma has_bound: "ready K c e s \<Longrightarrow> has K a bs \<Longrightarrow> bs \<noteq> [] \<Longrightarrow> unat a + length bs \<le> 2 ^ 30"
proof -
  assume r: "ready K c e s" and h: "has K a bs" "bs \<noteq> []"
  from h have "unat a + (length bs - 1) \<in> dom K" by (auto simp: has_def)
  then have "unat a + (length bs - 1) < 2 ^ 30" using r unfolding ready_def by auto
  then show ?thesis using h(2) by (cases bs) auto
qed

lemma has_nth: "ready K c e s \<Longrightarrow> has K a bs \<Longrightarrow> i < length bs \<Longrightarrow> block_get (memory s) MainBlock (a + of_nat i) = Some (bs ! i)"
proof -
  assume r: "ready K c e s" and h: "has K a bs" and i: "i < length bs"
  have "unat a + length bs \<le> 2 ^ 30" using i by (intro has_bound [OF r h]) auto
  then have "unat (a + of_nat i) = unat a + i" using i unat_add [of a "of_nat i"] by (simp add: unat_of_nat)
  then show ?thesis using h i by (intro has_get [OF r]) (simp add: has_def)
qed

lemma peek_known: "ready K c e s \<Longrightarrow> has_word K a w \<Longrightarrow> peek s a = Some w"
  using has_nth [of K c e s a "be_bytes w" 0] has_nth [of K c e s a "be_bytes w" 1] has_nth [of K c e s a "be_bytes w" 2]
    has_nth [of K c e s a "be_bytes w" 3]
  by (simp add: peek_def block_get_word_def nth_be_bytes flip: be_bytes_at del: One_nat_def be_word.simps)

section \<open>Allocation\<close>

lemma unat_and_mask: "unat (x AND 3 :: u32) = unat x mod 4" "unat (x AND 7 :: u32) = unat x mod 8"
proof -
  have "x AND 3 = take_bit 2 x" "x AND 7 = take_bit 3 x" by (simp_all add: take_bit_eq_mask mask_eq_exp_minus_1)
  then show "unat (x AND 3) = unat x mod 4" "unat (x AND 7) = unat x mod 8"
    by (simp_all add: take_bit_eq_mod unat_mod)
qed

lemma unat_clear:
  fixes x c d :: u32
  assumes "c OR d = - 1" "c AND d = 0"
  shows "unat (x AND c) = unat x - unat (x AND d)" "unat (x AND d) \<le> unat x"
proof -
  have "(x AND c) OR (x AND d) = x" using assms(1) by (simp flip: bit.conj_disj_distrib)
  moreover have "(x AND c) AND (x AND d) = x AND (c AND d)" by (simp add: ac_simps)
  ultimately have sum: "(x AND c) + (x AND d) = x"
    using word_plus_and_or [of "x AND c" "x AND d"] assms(2) by simp
  show le: "unat (x AND d) \<le> unat x" by (simp add: word_and_le2 flip: word_le_nat_alt)
  show "unat (x AND c) = unat x - unat (x AND d)"
    using sum le by (metis add_diff_cancel_right' unat_sub word_le_nat_alt)
qed

lemma round4: "unat (x AND 0xfffffffc :: u32) = unat x - unat x mod 4"
  using unat_clear(1) [of "0xfffffffc" 3 x] by (simp add: unat_and_mask)

lemma round8: "unat (x AND 0xfffffff8 :: u32) = unat x - unat x mod 8"
  using unat_clear(1) [of "0xfffffff8" 7 x] by (simp add: unat_and_mask)

lemma rounded:
  assumes "unat n < 2 ^ 31"
  shows "unat n \<le> unat ((n + 3) AND 0xfffffffc :: u32)" "unat ((n + 3) AND 0xfffffffc :: u32) \<le> unat n + 3"
    "4 dvd unat ((n + 3) AND 0xfffffffc :: u32)"
proof -
  have "unat (n + 3) = unat n + 3" using assms unat_add [of n 3] by simp
  then have eq: "unat ((n + 3) AND 0xfffffffc) = unat n + 3 - (unat n + 3) mod 4" using round4 [of "n + 3"] by simp
  show "unat n \<le> unat ((n + 3) AND 0xfffffffc :: u32)" "unat ((n + 3) AND 0xfffffffc :: u32) \<le> unat n + 3" unfolding eq by presburger+
  show "4 dvd unat ((n + 3) AND 0xfffffffc :: u32)" unfolding eq by (simp add: dvd_minus_mod)
qed

text \<open>A new block lies above everything allocated so far, and can be counted as allocated from then on.\<close>

lemma runs_bind_alloc:
  assumes "ready K c e s" "unat n < 2 ^ 31"
    "\<And>p s'. ready K (unat p + unat n) e s' \<Longrightarrow> c \<le> unat p \<Longrightarrow> unat (currentAddress (memory e)) \<le> unat p
      \<Longrightarrow> block K p (unat ((n + 3) AND 0xfffffffc)) \<Longrightarrow> 4 dvd unat p \<Longrightarrow> runs K (unat p + unat n) e st Q (k (p, s'))"
  shows "runs K c e st Q (Option.bind (alloc n s) k)"
proof (cases "alloc n s")
  case (Some ps)
  define i where "i = (n + 3) AND 0xfffffffc"
  define p where "p = currentAddress (memory s)"
  note i = rounded [OF assms(2), folded i_def]
  have p: "unat p \<le> 2 ^ 30" using assms(1) by (simp add: ready_def p_def)
  then have sum: "unat (p + i) = unat p + unat i" using i(2) assms(2) by (intro unat_add) simp
  obtain s' where ps: "ps = (p, s')" "s' = s\<lparr>memory := (memory s)\<lparr>currentAddress := p + i\<rparr>\<rparr>" "p + i \<le> CM_SIZE (memory s)"
    using Some by (auto simp: alloc_def cmMalloc_def Let_def p_def i_def not_less split: if_splits)
  have r: "ready K (unat p + unat n) e s'"
    using assms(1) i sum ps(3) unfolding ready_def ps(2) p_def [symmetric] by (auto simp: word_le_nat_alt)
  have b: "block K p (unat i)" "c \<le> unat p" "unat (currentAddress (memory e)) \<le> unat p" "4 dvd unat p"
    using assms(1) ps(3) sum unfolding block_def ready_def p_def [symmetric] by (auto simp: word_le_nat_alt)
  have "runs K (unat p + unat n) e st Q (k (p, s'))"
    using assms(3) [folded i_def, OF r b(2,3,1,4)] by (simp add: i_def)
  then show ?thesis
    using Some ps(1) b(2) ready_dom [OF assms(1)] by (auto intro: runs_weaken)
qed simp

section \<open>Objects and arrays\<close>

text \<open>The block of an object, from the method vector base on.\<close>

lemma runs_bind_OBJ:
  assumes "ready K c e s" "8 \<le> unat n" "unat n < 2 ^ 31"
    "\<And>p s'. ready K (unat p + (unat n - 4)) e s' \<Longrightarrow> c \<le> unat p \<Longrightarrow> unat (currentAddress (memory e)) \<le> unat p
      \<Longrightarrow> block K p (unat n - 4) \<Longrightarrow> runs K (unat p + (unat n - 4)) e st Q (k (p, s'))"
  shows "runs K c e st Q (Option.bind (CREATE_JAVA_OBJ n mvb s) k)"
  unfolding CREATE_JAVA_OBJ_def bind_assoc case_prod_beta
proof (rule runs_bind_alloc [OF assms(1,3)], unfold prod.sel, goal_cases)
  case (1 p s1)
  have b: "block K p (unat n)" using 1(4) rounded(1) [OF assms(3)] by (rule block_mono)
  have 2: "block K p 4" "block K (p + 4) 4" "block K (p + 4) (unat n - 4)" "unat (p + 4) = unat p + 4"
    using block_mono [OF b, of 4] block_part [OF b, of 4] block_at [OF b, of 4] assms(2) by simp_all
  have floor: "unat p + unat n = unat (p + 4) + (unat n - 4)" using 2(4) assms(2) by simp
  show ?case
    unfolding floor
    by (rule runs_bind_poke [OF 1(1) [unfolded floor] 2(1)], rule runs_bind_poke [OF _ 2(2)], assumption,
      simp only: bind.simps, rule assms(4)) (use 1(2,3) 2 in simp_all)
qed

lemma runs_bind_ARRAY:
  assumes "ready K c e s" "20 \<le> unat n" "unat n < 2 ^ 31"
    "\<And>p s'. ready K (unat p + (unat n - 4)) e s' \<Longrightarrow> c \<le> unat p \<Longrightarrow> unat (currentAddress (memory e)) \<le> unat p
      \<Longrightarrow> block K p (unat n - 4) \<Longrightarrow> runs K (unat p + (unat n - 4)) e st Q (k (p, s'))"
  shows "runs K c e st Q (Option.bind (CREATE_JAVA_ARRAY n elemsize cnt ty mvb s) k)"
  unfolding CREATE_JAVA_ARRAY_def Let_def bind_assoc case_prod_beta
proof (rule runs_bind_alloc [OF assms(1,3)], unfold prod.sel, goal_cases)
  case (1 p s1)
  define i where "i = (n + 3) AND 0xfffffffc"
  note i = rounded [OF assms(3), folded i_def]
  note b = 1(4) [folded i_def]
  have sub: "unat (i - j) = unat i - unat j" if "unat j \<le> 20" for j
    using that i(1) assms(2) by (intro unat_sub) (simp add: word_le_nat_alt)
  have at: "p + 4 + i - 12 = p + (i - 8)" "p + 4 + i - 8 = p + (i - 4)" by simp_all
  have 2: "block K p 4" "block K (p + 4) 4" "block K (p + 8) 4" "block K (p + 4) (unat n - 4)"
    "block K (p + (i - 8)) 4" "block K (p + (i - 4)) 4" "unat (p + 4) = unat p + 4"
    using block_mono [OF b] block_part [OF b] block_at [OF b, of 4] assms(2) i sub [of 8] sub [of 4] by simp_all
  have floor: "unat p + unat n = unat (p + 4) + (unat n - 4)" using 2(7) assms(2) by simp
  show ?case
    unfolding i_def [symmetric] at floor
    by (rule runs_bind_poke [OF 1(1) [unfolded floor] 2(1)], rule runs_bind_poke [OF _ 2(2)], assumption,
      rule runs_bind_poke [OF _ 2(3)], assumption, rule runs_bind_poke [OF _ 2(5)], assumption, rule runs_bind_poke [OF _ 2(6)],
      assumption, simp only: bind.simps, rule assms(4)) (use 1(2,3) 2 in simp_all)
qed

lemma unat_word_array:
  assumes "unat (n :: u32) < 2 ^ 24"
  shows "unat (4 * (ARRAY_HEADER + n + ARRAY_FOOTER)) = 4 * unat n + 20"
proof -
  have "ARRAY_HEADER + n + ARRAY_FOOTER = n + 5" by (simp add: ARRAY_HEADER_def ARRAY_FOOTER_def)
  moreover have "unat (n + 5) = unat n + 5" using assms unat_add [of n 5] by simp
  ultimately show ?thesis using assms by (simp only: unat_word_ariths) simp
qed

text \<open>The elements of an array of words start at p + 8.\<close>

lemma runs_bind_words:
  assumes "ready K c e s" "unat n < 2 ^ 24"
    "\<And>p s'. ready K (unat p + 4 * unat n + 16) e s' \<Longrightarrow> c \<le> unat p \<Longrightarrow> unat (p + 8) = unat p + 8
      \<Longrightarrow> block K (p + 8) (4 * unat n) \<Longrightarrow> runs K (unat p + 4 * unat n + 16) e st Q (k (p, s'))"
  shows "runs K c e st Q (Option.bind (word_array n elemsize ty s) k)"
  unfolding word_array_def
proof (rule runs_bind_ARRAY [OF assms(1)], unfold unat_word_array [OF assms(2)], goal_cases)
  case (3 p s')
  have b: "block K p (4 * unat n + 16)" using 3(4) by (simp add: add.commute)
  have "unat (p + 8) = unat p + 8" "block K (p + 8) (4 * unat n)" using block_at [OF b, of 8] block_part [OF b, of 8] by simp_all
  then show ?case using assms(3) [of p s'] 3(1,2) by (simp add: add.assoc add.commute [of 16])
qed (use assms(2) in simp_all)

section \<open>Arrays of copies\<close>

text \<open>What is known grows from K to K': by bytes of the range from l to h, and by bytes of memory allocated above c.\<close>

definition grows :: "known \<Rightarrow> nat \<Rightarrow> nat \<Rightarrow> nat \<Rightarrow> known \<Rightarrow> bool" where
  "grows K c l h K' \<longleftrightarrow> K \<subseteq>\<^sub>m K' \<and> (\<forall>x b. K' x = Some b \<longrightarrow> K x = Some b \<or> l \<le> x \<and> x < h \<or> c \<le> x)"

lemma grows_le: "grows K c l h K' \<Longrightarrow> K \<subseteq>\<^sub>m K'"
  by (simp add: grows_def)

lemma grows_refl: "grows K c l h K"
  by (simp add: grows_def)

lemma grows_trans: "grows K c l h K1 \<Longrightarrow> grows K1 c1 l1 h1 K2 \<Longrightarrow> c \<le> c1 \<Longrightarrow> l \<le> l1 \<Longrightarrow> h1 \<le> h \<Longrightarrow> grows K c l h K2"
  unfolding grows_def by (meson map_le_trans le_trans less_le_trans)

lemma grows_mono: "grows K c l h K' \<Longrightarrow> l' \<le> l \<Longrightarrow> h \<le> h' \<Longrightarrow> c' \<le> c \<Longrightarrow> grows K c' l' h' K'"
  unfolding grows_def by (meson le_trans less_le_trans)

lemma grows_fresh: "grows K c' c' c' K' \<Longrightarrow> c \<le> c' \<Longrightarrow> grows K c l h K'"
  unfolding grows_def by (meson le_trans)

lemma grows_inside: "grows K g' l' h' K' \<Longrightarrow> g \<le> g' \<Longrightarrow> g \<le> l' \<Longrightarrow> grows K g l h K'"
  unfolding grows_def by (meson le_trans)

lemma grows_learn: "block K a (length bs) \<Longrightarrow> l \<le> unat a \<and> unat a + length bs \<le> h \<or> c \<le> unat a \<Longrightarrow> grows K c l h (learn K a bs)"
  unfolding grows_def using learn_le by (auto simp: learn_def split: if_splits)

lemma block_grows: "block K p n \<Longrightarrow> grows K c l h K' \<Longrightarrow> unat p + n \<le> c \<Longrightarrow> unat p + n \<le> l \<or> h \<le> unat p \<Longrightarrow> block K' p n"
  unfolding block_def grows_def by fastforce

text \<open>The state after a step, with everything allocated counted as such.\<close>

abbreviation now :: "loader_state \<Rightarrow> nat" where
  "now s \<equiv> unat (currentAddress (memory s))"

lemma ready_now: "ready K c e s \<Longrightarrow> ready K (now s) e s"
  unfolding ready_def by auto

lemma ready_floor: "ready K c e s \<Longrightarrow> c \<le> now s"
  by (simp add: ready_def)

text \<open>
  A computation after which P is known: K grows by what lies between l and h or above g, the place where the allocator
  stood.
\<close>

definition knows :: "known \<Rightarrow> nat \<Rightarrow> nat \<Rightarrow> nat \<Rightarrow> loader_state \<Rightarrow> (known \<Rightarrow> bool) \<Rightarrow> loader_state \<Rightarrow> bool" where
  "knows K g l h e P s \<longleftrightarrow> (\<exists>K'. grows K g l h K' \<and> ready K' (now s) e s \<and> P K')"

lemma know_return: "ready K c e (st y) \<Longrightarrow> P y K \<Longrightarrow> runs K c e st (\<lambda>y. knows K g l h e (P y) (st y)) (Some y)"
  unfolding knows_def by (blast intro: runs_return grows_refl ready_now)

lemma know_grown:
  assumes "runs K' c' e st (\<lambda>y. knows K' g l h e (P y) (st y)) r" "grows K g l h K'" "c \<le> c'" "dom K \<subseteq> {..<c}"
  shows "runs K c e st (\<lambda>y. knows K g l h e (P y) (st y)) r"
proof -
  have "runs K' c' e st (\<lambda>y. knows K g l h e (P y) (st y)) r"
    by (rule runs_mono [OF assms(1)]) (use assms(2) in \<open>auto simp: knows_def intro: grows_trans\<close>)
  then show ?thesis by (rule runs_weaken [OF _ grows_le [OF assms(2)] assms(3,4)])
qed

lemma runs_knows_mono:
  assumes "runs K c e st (\<lambda>y. knows K g l h e (P y) (st y)) r" "\<And>y K'. K \<subseteq>\<^sub>m K' \<Longrightarrow> P y K' \<Longrightarrow> P' y K'"
  shows "runs K c e st (\<lambda>y. knows K g l h e (P' y) (st y)) r"
  by (rule runs_mono [OF assms(1)]) (use assms(2) in \<open>auto simp: knows_def intro: grows_le\<close>)

lemma know_learn_bytes:
  assumes "ready K c e s" "block K a (length bs)" "unat a + length bs \<le> c" "l \<le> unat a \<and> unat a + length bs \<le> h \<or> g \<le> unat a"
    "\<And>s'. ready (learn K a bs) c e s' \<Longrightarrow> runs (learn K a bs) c e st (\<lambda>y. knows (learn K a bs) g l h e (P y) (st y)) (k s')"
  shows "runs K c e st (\<lambda>y. knows K g l h e (P y) (st y)) (Option.bind (poke_bytes a bs s) k)"
  by (rule know_grown [OF runs_bind [OF runs_learn_bytes [OF assms(1-3)] assms(5)] grows_learn [OF assms(2,4)] order_refl ready_dom [OF assms(1)]])

lemmas know_learn = know_learn_bytes [where bs = "be_bytes w" for w, folded poke_is_bytes, unfolded length_be_bytes]

lemma know_poke:
  assumes "ready K c e s" "block K a 4" "unat a + 4 \<le> c" "l \<le> unat a \<and> unat a + 4 \<le> h \<or> g \<le> unat a" "P (learn_word K a w)"
  shows "runs K c e (\<lambda>s. s) (knows K g l h e P) (poke a w s)"
proof -
  have "runs K c e (\<lambda>s. s) (knows K g l h e P) (Option.bind (poke a w s) Some)"
    by (rule know_learn [OF assms(1-4)], rule know_return [where P = "\<lambda>_. P"]) (simp_all add: assms(5))
  then show ?thesis by simp
qed

lemma know_bind:
  assumes "runs K c e st (\<lambda>y. knows K g' l' h' e (R y) (st y)) r" "ready K c e s"
    "\<And>K'. grows K g' l' h' K' \<Longrightarrow> grows K g l h K'"
    "\<And>y K'. grows K g' l' h' K' \<Longrightarrow> c \<le> now (st y) \<Longrightarrow> ready K' (now (st y)) e (st y) \<Longrightarrow> R y K' \<Longrightarrow>
       runs K' (now (st y)) e st' (\<lambda>y. knows K' g l h e (P y) (st' y)) (k y)"
  shows "runs K c e st' (\<lambda>y. knows K g l h e (P y) (st' y)) (Option.bind r k)"
proof (rule runs_bind [OF assms(1)], unfold knows_def [where P = "R y" for y], elim exE conjE, goal_cases)
  case (1 y K')
  show ?case
    by (rule know_grown [OF assms(4) [OF 1(2) _ 1(3,4)] assms(3) [OF 1(2)] _ ready_dom [OF assms(2)]]) (use ready_floor [OF 1(1)] in simp_all)
qed

lemma has_learn_other: "has K a bs \<Longrightarrow> unat a + length bs \<le> unat b \<or> unat b + length vs \<le> unat a \<Longrightarrow> has (learn K b vs) a bs"
  unfolding has_def learn_def by auto

lemma learn_above: "K \<subseteq>\<^sub>m K' \<Longrightarrow> block K' a (length bs) \<Longrightarrow> K \<subseteq>\<^sub>m learn K' a bs"
  by (rule map_le_trans [OF _ learn_le])

lemmas known_simps [simp] = block_learn has_learn has_learn_other learn_above

text \<open>
  A loop that copies the elements of a list to the words from a on, each with a step that lets its image be known. pre is
  what the step relies on.
\<close>

locale array_copy =
  fixes step :: "nat \<Rightarrow> u32 \<Rightarrow> 'b \<Rightarrow> loader_state \<Rightarrow> loader_state option"
    and loop :: "nat \<Rightarrow> u32 \<Rightarrow> 'b list \<Rightarrow> loader_state \<Rightarrow> loader_state option"
    and pre :: "known \<Rightarrow> bool" and ok :: "'b \<Rightarrow> bool" and image :: "loader_state \<Rightarrow> known \<Rightarrow> u32 \<Rightarrow> 'b \<Rightarrow> bool"
  assumes loop_Nil: "loop q a [] s = Some s"
    and loop_Cons: "loop q a (x # xs) s = Option.bind (step q a x s) (loop (Suc q) (a + 4) xs)"
    and step_law: "ready K c e s \<Longrightarrow> pre K \<Longrightarrow> block K a 4 \<Longrightarrow> unat a + 4 \<le> c \<Longrightarrow> ok x \<Longrightarrow>
      runs K c e (\<lambda>s. s) (knows K c (unat a) (unat a + 4) e (\<lambda>K'. image e K' a x)) (step q a x s)"
    and pre_le: "pre K \<Longrightarrow> K \<subseteq>\<^sub>m K' \<Longrightarrow> pre K'"
    and image_le: "image e K a x \<Longrightarrow> K \<subseteq>\<^sub>m K' \<Longrightarrow> image e K' a x"
begin

lemma copies:
  "ready K c e s \<Longrightarrow> pre K \<Longrightarrow> block K a (4 * length xs) \<Longrightarrow> unat a + 4 * length xs \<le> c \<Longrightarrow> list_all ok xs \<Longrightarrow>
   runs K c e (\<lambda>s. s) (knows K c (unat a) (unat a + 4 * length xs) e
     (\<lambda>K'. \<forall>i < length xs. image e K' (a + 4 * of_nat i) (xs ! i))) (loop q a xs s)"
proof (induction xs arbitrary: K c a s q)
  case Nil
  then show ?case unfolding loop_Nil by (intro know_return) simp_all
next
  case (Cons x xs)
  have a: "block K a 4" "unat a + 4 \<le> c" "unat (a + 4) = unat a + 4"
    using block_mono [OF Cons.prems(3), of 4] block_at [OF Cons.prems(3), of 4] Cons.prems(4) by simp_all
  show ?case
    unfolding loop_Cons
  proof (rule know_bind [OF step_law [OF Cons.prems(1,2) a(1,2)] Cons.prems(1)], use Cons.prems(5) in simp,
      erule grows_mono, simp, simp, simp, goal_cases)
    case (1 s1 K1)
    have rest: "block K1 (a + 4) (4 * length xs)" "unat (a + 4) + 4 * length xs \<le> now s1" "list_all ok xs"
      using block_grows [OF block_part [OF Cons.prems(3), of 4 "4 * length xs"] 1(1)] Cons.prems(4,5) a(3) 1(2) by simp_all
    show ?case
    proof (rule runs_mono [OF Cons.IH [OF 1(3) pre_le [OF Cons.prems(2) grows_le [OF 1(1)]] rest]], unfold knows_def, elim exE conjE, goal_cases)
      case (1 s2 K2)
      have "grows K1 c (unat a) (unat a + 4 * length (x # xs)) K2"
        by (rule grows_mono [OF 1(2)]) (simp_all add: a(3) \<open>c \<le> now s1\<close>)
      moreover have "image e K2 (a + 4 * of_nat i) ((x # xs) ! i)" if "i < length (x # xs)" for i
        using image_le [OF \<open>image e K1 a x\<close> grows_le [OF 1(2)]] 1(4) that by (cases i) (auto simp: algebra_simps)
      ultimately show ?case using 1(3) by blast
    qed
  qed
qed

end

end
