(* ===== verification/Class_Image.thy ===== *)
theory Class_Image
  imports Copier_Frame Code_Properties
begin

text \<open>
  What the copier writes for the constants, the fields and the methods of a class, each as an image: the words and
  bytes that are known afterwards. The loops over them are instances of array\_copy.
\<close>

section \<open>The constant pool\<close>

lemma unat_of_small: "n < 2 ^ 32 \<Longrightarrow> unat (of_nat n :: u32) = n"
  by (simp add: unat_of_nat)

lemma string_law:
  assumes "ready K c e s" "length str < 2 ^ 16"
  shows "runs K c e snd (\<lambda>y. knows K c c c e (\<lambda>K. has_word K (fst y) (getStringKey (host_shift e) str) \<and> has K (fst y + 4) (str @ [0])) (snd y))
    (copy_string str s)"
proof -
  have n: "unat (4 + of_nat (length str) + 1 :: u32) = length str + 5"
    using unat_of_small [of "length str + 5"] assms(2) by (simp add: add.commute add.left_commute)
  show ?thesis
    unfolding copy_string_def
  proof (rule runs_bind_alloc [OF assms(1)], goal_cases)
    case 1
    then show ?case using assms(2) unfolding n by simp
  next
    case (2 p s1)
    have b: "block K p (length str + 5)" using 2(4) rounded(1) [of "4 + of_nat (length str) + 1"] assms(2) unfolding n by (auto elim: block_mono)
    have 3: "block K p 4" "block K (p + 4) (length str + 1)" "unat (p + 4) = unat p + 4"
      using block_mono [OF b, of 4] block_part [OF b, of 4] block_at [OF b, of 4] by simp_all
    show ?case
      unfolding prod.case n ready_env(1) [OF 2(1)]
      by (rule know_learn [OF 2(1) [unfolded n] 3(1)], simp, simp add: 2(2), rule know_learn_bytes, assumption)
        (use 2(2) 3 in \<open>auto intro!: know_return\<close>)
  qed
qed

definition short_string :: "cp_item \<Rightarrow> bool" where
  "short_string x \<longleftrightarrow> (case x of CpUtf8 str \<Rightarrow> length str < 2 ^ 16 | _ \<Rightarrow> True)"

text \<open>An entry is the address of a string with its key, the class itself, or the item as it is.\<close>

definition item_image :: "u32 \<Rightarrow> loader_state \<Rightarrow> known \<Rightarrow> u32 \<Rightarrow> u8 \<times> cp_item \<Rightarrow> bool" where
  "item_image cur e K a = (\<lambda>(t, x).
     if t AND 0x7F = 1 then \<exists>p str. x = CpUtf8 str \<and> has_word K a p \<and> has_word K p (getStringKey (host_shift e) (c_str str)) \<and> has K (p + 4) (c_str str @ [0])
     else if t AND 0x7F = 7 \<and> t AND RESOLVED \<noteq> 0 then has_word K a (cur + 4)
     else \<exists>w. x = CpInt w \<and> has_word K a w)"

lemma item_law:
  assumes "ready K c e s" "block K a 4" "unat a + 4 \<le> c" "short_string x"
  shows "runs K c e (\<lambda>s. s) (knows K c (unat a) (unat a + 4) e (\<lambda>K'. item_image cur e K' a (t, x))) (copy_cp_item cur a t x s)"
proof -
  have word: "runs K c e (\<lambda>s. s) (knows K c (unat a) (unat a + 4) e (\<lambda>K'. has_word K' a w)) (poke a w s)" for w
    by (rule know_poke [OF assms(1-3)]) simp_all
  have string: "runs K c e (\<lambda>s. s) (knows K c (unat a) (unat a + 4) e (\<lambda>K'. item_image cur e K' a (t, CpUtf8 str)))
      (do { (p, s) \<leftarrow> copy_string (c_str str) s; poke a p s })" if "x = CpUtf8 str" "t AND 0x7F = 1" for str
  proof -
    have "length (c_str str) < 2 ^ 16"
      using assms(4) that(1) by (simp add: short_string_def c_str_def le_less_trans [OF length_takeWhile_le])
    note law = string_law [OF assms(1) this]
    show ?thesis
    proof (rule know_bind [OF law assms(1)], erule grows_fresh, simp, goal_cases)
      case (1 y K')
      have b: "block K' a 4" using block_grows [OF assms(2) 1(1) assms(3)] assms(3) by simp
      show ?case
        unfolding case_prod_beta using has_le [OF _ learn_le [of K' a "be_bytes (fst y)"]] b 1(2,4) assms(3) that(2)
        by (intro know_poke [OF 1(3) b]) (auto simp: item_image_def intro!: exI [of _ "fst y"])
    qed
  qed
  show ?thesis
    using word string by (auto simp: copy_cp_item_def item_image_def split: cp_item.split)
qed

lemma image_le_item: "item_image cur e K a x \<Longrightarrow> K \<subseteq>\<^sub>m K' \<Longrightarrow> item_image cur e K' a x"
  unfolding item_image_def by (auto split: prod.splits if_splits intro: has_le)

interpretation items: array_copy "\<lambda>q a (t, x). copy_cp_item cur a t x" "\<lambda>q. copy_cp_items cur" "\<lambda>_. True" "short_string \<circ> snd"
  "item_image cur" for cur
  by unfold_locales (auto simp: item_law intro: image_le_item)

definition pool_small :: "cp_pool \<Rightarrow> bool" where
  "pool_small p \<longleftrightarrow> length (cp_items p) < 2 ^ 16 \<and> length (type_table p) = length (cp_items p) \<and> list_all short_string (cp_items p)"

text \<open>The entries but for the first one, which is the table of types.\<close>

definition pool_image :: "u32 \<Rightarrow> loader_state \<Rightarrow> known \<Rightarrow> u32 \<Rightarrow> cp_pool \<Rightarrow> bool" where
  "pool_image cur e K a p \<longleftrightarrow> (\<exists>q. has_word K a (q + 8) \<and> has K (q + 8) (type_table p))
     \<and> (\<forall>i. 0 < i \<and> i < length (cp_items p) \<longrightarrow> item_image cur e K (a + 4 * of_nat i) (type_table p ! i, cp_items p ! i))"

lemma constants_law:
  assumes "ready K c e s" "pool_small p" "block K a (4 * length (cp_items p))" "unat a + 4 * length (cp_items p) \<le> c" "cp_items p \<noteq> []"
  shows "runs K c e (\<lambda>s. s) (knows K c (unat a) (unat a + 4 * length (cp_items p)) e (\<lambda>K'. pool_image cur e K' a p)) (copyConstantPool cur p a s)"
proof -
  let ?n = "length (cp_items p)" and ?xs = "tl (zip (type_table p) (cp_items p))"
  have n: "unat (4 * ARRAY_HEADER + of_nat ?n + 4 * ARRAY_FOOTER :: u32) = ?n + 20"
    using unat_of_small [of "?n + 20"] assms(2) by (simp add: ARRAY_HEADER_def ARRAY_FOOTER_def pool_small_def add.commute add.left_commute)
  have len: "length (type_table p) = ?n" "length ?xs = ?n - 1" using assms(2) by (simp_all add: pool_small_def)
  have ok: "list_all (short_string \<circ> snd) ?xs"
  proof -
    have "list_all (short_string \<circ> snd) (zip (type_table p) (cp_items p))"
      using assms(2) by (auto simp: pool_small_def list_all_iff dest: set_zip_rightD)
    then show ?thesis using assms(2,5) by (cases "zip (type_table p) (cp_items p)") simp_all
  qed
  have a: "block K a 4" "block K (a + 4) (4 * (?n - 1))" "unat (a + 4) = unat a + 4" "unat a + 4 + 4 * (?n - 1) = unat a + 4 * ?n"
    using block_mono [OF assms(3), of 4] block_part [OF assms(3), of 4 "4 * (?n - 1)"] block_at [OF assms(3), of 4] assms(5)
    by (cases "cp_items p"; simp)+
  show ?thesis
    unfolding copyConstantPool_def Let_def
  proof (rule runs_bind_ARRAY [OF assms(1)], goal_cases)
    case (3 q s1)
    note 3 = 3 [unfolded n]
    let ?c = "unat q + (?n + 20 - 4)"
    have b: "block K q (?n + 16)" using block_mono [OF 3(4)] by simp
    have q: "block K (q + 8) (length (type_table p))" "unat (q + 8) = unat q + 8" "c \<le> ?c" "unat (q + 8) + ?n \<le> ?c"
      using block_part [OF b, of 8 ?n] block_at [OF b, of 8] 3(2) by (simp_all add: len)
    let ?K1 = "learn K (q + 8) (type_table p)" let ?K2 = "learn_word ?K1 a (q + 8)"
    have K2: "block ?K2 (a + 4) (4 * length ?xs)" "unat (a + 4) + 4 * length ?xs \<le> ?c"
      using a assms(4,5) q 3(2) unfolding len by auto
    have fin: "pool_image cur e K' a p"
      if "grows ?K2 ?c (unat (a + 4)) (unat (a + 4) + 4 * length ?xs) K'"
        "\<forall>i < length ?xs. item_image cur e K' (a + 4 + 4 * of_nat i) (?xs ! i)" for K'
    proof -
      have "has ?K2 a (be_bytes (q + 8))" "has ?K2 (q + 8) (type_table p)" using a q 3(2) assms(4) by (auto simp: len)
      moreover have "item_image cur e K' (a + 4 * of_nat i) (type_table p ! i, cp_items p ! i)" if "0 < i" "i < ?n" for i
        using \<open>\<forall>i < length ?xs. _ i\<close> [rule_format, of "i - 1"] that len by (cases i) (simp_all add: nth_tl algebra_simps)
      ultimately show ?thesis using has_le [OF _ grows_le [OF that(1)]] unfolding pool_image_def by blast
    qed
    show ?case
      unfolding prod.case n
    proof (rule know_learn_bytes [OF 3(1) q(1)], use q len 3(2) in simp, use q 3(2) in simp, rule know_learn, assumption, goal_cases)
      case 1
      then show ?case using a assms(4,5) q 3(2) by (simp add: len)
    next
      case 2
      then show ?case using assms(4) a q by simp
    next
      case 3
      then show ?case using a by simp
    next
      case (4 s2 s3)
      show ?case
      proof (rule runs_mono [OF items.copies [OF 4(2) _ K2 ok]], simp, unfold knows_def, elim exE conjE, goal_cases)
        case (1 s4 K')
        then show ?case using fin [OF 1(2) 1(4)] q(3) a by (auto intro!: exI [of _ K'] elim: grows_mono simp: len)
      qed
    qed
  qed (use assms(2) in \<open>simp_all only: n, simp_all add: pool_small_def\<close>)
qed

section \<open>Fields\<close>

text \<open>The constant pool of the class at cur has n known entries.\<close>

definition entries_known :: "u32 \<Rightarrow> nat \<Rightarrow> (nat \<Rightarrow> u32) \<Rightarrow> known \<Rightarrow> bool" where
  "entries_known cur n entry K \<longleftrightarrow> (\<exists>cA. has_word K (cur + 4) cA \<and> (\<forall>i < n. has_word K (cA + 8 + 4 * of_nat i) (entry i)))"

lemma entries_le:
  assumes "entries_known cur n entry K" "K \<subseteq>\<^sub>m K'"
  shows "entries_known cur n entry K'"
  using assms(1) has_le [OF _ assms(2)] unfolding entries_known_def by blast

lemma cp_entry_known:
  assumes "ready K c e s" "entries_known cur n entry K" "unat i < n"
  shows "cp_entry cur i s = Some (entry (unat i))"
proof -
  obtain cA where cA: "has_word K (cur + 4) cA" "\<forall>i < n. has_word K (cA + 8 + 4 * of_nat i) (entry i)"
    using assms(2) unfolding entries_known_def by blast
  have i: "has_word K (cA + 8 + 4 * i) (entry (unat i))" using cA(2) [rule_format, OF assms(3)] by simp
  then show ?thesis
    unfolding cp_entry_def using peek_known [OF assms(1) cA(1)] peek_known [OF assms(1) i] by simp
qed

lemma runs_static:
  assumes "ready K c e s" "block K (p + 4) 4"
  shows "runs_to K c e (static_value cur p f s)"
proof -
  have wide: "runs_to K c e (do { (q, s) \<leftarrow> alloc 12 s; s \<leftarrow> poke q v s; w \<leftarrow> cp_entry cur (offset f + 1) s;
      s \<leftarrow> poke (q + 4) w s; s \<leftarrow> poke (q + 8) p s; poke (p + 4) q s })" for v
  proof (rule runs_bind_alloc [OF assms(1)], simp, unfold prod.case, goal_cases)
    case (1 q s1)
    then have q: "block K q 4" "block K (q + 4) 4" "block K (q + 8) 4"
      using block_mono [of K q 12 4] block_part [of K q 12 _ 4] by simp_all
    show ?case
      by (rule runs_bind_poke [OF 1(1) q(1)], rule runs_value, rule runs_bind_poke [OF _ q(2)], assumption,
          rule runs_bind_poke [OF _ q(3)], assumption, rule runs_poke [OF _ assms(2)])
  qed
  show ?thesis
    unfolding static_value_def
    by (intro runs_if runs_value runs_poke assms wide) (rule runs_return, rule assms(1), simp)
qed

definition field_image :: "u32 \<Rightarrow> (nat \<Rightarrow> u32) \<Rightarrow> loader_state \<Rightarrow> known \<Rightarrow> u32 \<Rightarrow> fieldblock \<Rightarrow> bool" where
  "field_image cur entry e K a f \<longleftrightarrow> (\<exists>p. has_word K a p \<and> has_word K (p + 12) (entry (unat (sigIndex f))) \<and> has_word K (p + 8) cur
     \<and> has_word K (p + 16) (ucast (access f)) \<and> (\<not> is_static_member f \<longrightarrow> has_word K (p + 4) (offset f))
     \<and> has_word K (p + 20) (entry (unat (nameIndex f))))"

lemma field_image_le:
  assumes "field_image cur entry e K a x" "K \<subseteq>\<^sub>m K'"
  shows "field_image cur entry e K' a x"
  using assms(1) has_le [OF _ assms(2)] unfolding field_image_def by blast

definition named_within :: "nat \<Rightarrow> fieldblock \<Rightarrow> bool" where
  "named_within n f \<longleftrightarrow> unat (sigIndex f) < n \<and> unat (nameIndex f) < n"

lemma field_law:
  assumes "ready K c e s" "entries_known cur n entry K" "block K a 4" "unat a + 4 \<le> c" "named_within n f"
  shows "runs K c e (\<lambda>s. s) (knows K c (unat a) (unat a + 4) e (\<lambda>K'. field_image cur entry e K' a f)) (copy_field cur k q a f s)"
  unfolding copy_field_def Let_def
proof (rule runs_bind_OBJ [OF assms(1)], simp, simp, unfold prod.case, goal_cases)
  case (1 p s1)
  then have b: "block K p 24" by simp
  have at: "unat (p + 4) = unat p + 4" "unat (p + 8) = unat p + 8" "unat (p + 12) = unat p + 12" "unat (p + 16) = unat p + 16"
    "unat (p + 20) = unat p + 20" using block_at [OF b] by simp_all
  have bs: "block K (p + 4) 4" "block K (p + 8) 4" "block K (p + 12) 4" "block K (p + 16) 4" "block K (p + 20) 4"
    using block_part [OF b] by simp_all
  have sig: "cp_entry cur (ucast (sigIndex f)) s = Some (entry (unat (sigIndex f)))"
    and nm: "cp_entry cur (ucast (nameIndex f)) s = Some (entry (unat (nameIndex f)))"
    if "ready K' c' e s" "K \<subseteq>\<^sub>m K'" for K' c' s
    using cp_entry_known [OF that(1) entries_le [OF assms(2) that(2)]] assms(5) by (simp_all add: named_within_def)
  note facts = at bs assms(3,4) 1(2)
  let ?K1 = "learn_word K a p" let ?K2 = "learn_word ?K1 (p + 12) (entry (unat (sigIndex f)))"
  let ?K3 = "learn_word ?K2 (p + 8) cur" let ?K4 = "learn_word ?K3 (p + 16) (ucast (access f))"
  have le: "K \<subseteq>\<^sub>m ?K1" "K \<subseteq>\<^sub>m ?K4"
    using facts by simp_all
  let ?L5 = "learn_word ?K4 (p + 4) (offset f)"
  have le': "K \<subseteq>\<^sub>m ?L5" using facts by simp
  have tail: "runs K5 c5 e (\<lambda>s. s) (knows K5 c (unat a) (unat a + 4) e (\<lambda>K'. field_image cur entry e K' a f))
      (do { nm \<leftarrow> cp_entry cur (ucast (nameIndex f)) s; s \<leftarrow> poke (p + 20) nm s; static_value cur p f s })"
    if "ready K5 c5 e s" "K5 = (if is_static_member f then ?K4 else ?L5)" "c5 = unat p + (unat (28 :: u32) - 4)" for s K5 c5
  proof -
    have K: "K \<subseteq>\<^sub>m K5" using le(2) le' that(2) by simp
    have b5: "block K5 (p + 20) 4" "c \<le> c5" "unat (p + 20) + 4 \<le> c5" using facts that(2,3) by (simp_all split: if_splits)
    let ?K6 = "learn_word K5 (p + 20) (entry (unat (nameIndex f)))"
    have img: "field_image cur entry e ?K6 a f"
      unfolding field_image_def that(2) using facts by (cases "is_static_member f") (auto intro!: exI [of _ p])
    show ?thesis
      unfolding nm [OF that(1) K] bind.simps
    proof (rule know_learn [OF that(1) b5(1,3)], use facts in simp, goal_cases)
      case (1 s2)
      have "runs ?K6 c5 e (\<lambda>s. s) (\<lambda>_. True) (static_value cur p f s2)"
      proof (cases "is_static_member f")
        case True
        then show ?thesis using 1 facts that(2) by (intro runs_static) simp_all
      next
        case False
        then show ?thesis using 1 by (auto simp: static_value_def intro: runs_return)
      qed
      then show ?case
        by (rule runs_mono) (use img in \<open>auto simp: knows_def intro: grows_refl ready_now\<close>)
    qed
  qed
  show ?case
    apply (rule know_learn [OF 1(1) assms(3)], use facts in simp, use facts in simp, subst sig, assumption, rule le(1), unfold bind.simps)
    apply (rule know_learn, assumption, use facts in simp, use facts in simp, use facts in simp)
    apply (rule know_learn, simp, use facts in simp, use facts in simp, use facts in simp)
    apply (rule know_learn, assumption, use facts in simp, use facts in simp, use facts in simp)
    apply (cases "is_static_member f")
    apply (rule runs_bind_poke, assumption, use facts in simp, rule tail, assumption, simp, simp)
    apply (rule know_learn, assumption, use facts in simp, use facts in simp, use facts in simp, rule tail, assumption, simp, simp)
    done
qed

interpretation fields: array_copy "copy_field cur k" "copyFields cur k" "entries_known cur n entry" "named_within n" "field_image cur entry"
  for cur k n entry
  by unfold_locales (simp, simp, rule field_law, assumption+, rule entries_le, assumption+, rule field_image_le)

section \<open>Methods\<close>

lemma walk_length:
  assumes "\<And>s bs i s' bs' n. step s bs i = Some (s', bs', n) \<Longrightarrow> length bs' = length bs"
  shows "walk step stop s bs i = Some (Some (s', bs')) \<Longrightarrow> length bs' = length bs"
proof -
  have "step = step \<longrightarrow> (\<forall>s' bs'. r = Some (s', bs') \<longrightarrow> length bs' = length bs)" if "walk step stop s bs i = Some r" for r
  proof (rule walk.raw_induct [where P = "\<lambda>st stop s bs i r. st = step \<longrightarrow> (\<forall>s' bs'. r = Some (s', bs') \<longrightarrow> length bs' = length bs)", OF _ that], goal_cases)
    case (1 rec st stop s bs i r)
    show ?case
    proof (intro impI allI)
      fix s' bs'
      assume st: "st = step" and r: "r = Some (s', bs')"
      show "length bs' = length bs"
      proof (cases "stop \<le> i")
        case False
        then obtain t bs1 n where n: "step s bs i = Some (t, bs1, n)" "rec step stop t bs1 (i + n) = Some r"
          using 1(2) st r by (auto split: option.splits)
        then have "length bs' = length bs1" using 1(1) r by blast
        then show ?thesis using assms n(1) by simp
      qed (use 1(2) r in simp)
    qed
  qed
  then show "walk step stop s bs i = Some (Some (s', bs')) \<Longrightarrow> length bs' = length bs" by blast
qed

lemma method_code_length:
  assumes "method_code sync m = Some bs"
  shows "length bs = unat (code_length m) + (if sync \<and> access (fb m) AND ACC_SYNCHRONIZED \<noteq> 0 then 12 else 0)"
proof -
  let ?code = "take (unat (code_length m)) (code m)"
  have len: "length ?code = unat (code_length m)" using assms by (simp add: method_code_def split: if_splits)
  have step: "xreturn_step stop x bs i = Some (x', bs', n) \<Longrightarrow> length bs' = length bs" for stop x bs i x' bs' n
    by (auto simp: xreturn_step_def Let_def split: option.splits if_splits)
  have code: "copied_code sync (access (fb m)) ?code = Some (Some bs)"
    using assms by (auto simp: method_code_def split: if_splits option.splits)
  show ?thesis
  proof (cases "sync \<and> access (fb m) AND ACC_SYNCHRONIZED \<noteq> 0")
    case True
    then obtain r where r: "xreturnReplace (sync_prologue (access (fb m)) @ [0, 0, 0] @ ?code) (int SYNC_PROLOGUE_SIZE) (int (length ?code)) = Some r"
      "(case r of Some (Some x, c) \<Rightarrow> Some (sync_prologue (access (fb m)) @ [x, 0, 0] @ drop SYNC_PROLOGUE_SIZE c) | _ \<Rightarrow> None) = Some bs"
      using code unfolding copied_code_def by (simp del: append.simps length_take split: if_splits) blast
    obtain x cs where x: "r = Some (Some x, cs)" "bs = sync_prologue (access (fb m)) @ [x, 0, 0] @ drop SYNC_PROLOGUE_SIZE cs"
    proof (cases r)
      case (Some xc)
      then show ?thesis using r(2) that by (cases xc; cases "fst xc") auto
    qed (use r(2) in simp)
    have "length cs = length (sync_prologue (access (fb m)) @ [0, 0, 0] @ ?code)"
      using r(1) unfolding xreturnReplace_def x(1) by (rule walk_length [rotated]) (rule step)
    then show ?thesis using x(2) len True by (simp add: sync_prologue_def SYNC_PROLOGUE_SIZE_def)
  next
    case False
    then show ?thesis using code len by (auto simp: copied_code_def)
  qed
qed

definition exception_image :: "loader_state \<Rightarrow> u16 \<Rightarrow> known \<Rightarrow> u32 \<Rightarrow> catch_frame \<Rightarrow> bool" where
  "exception_image e acc K a x \<longleftrightarrow> (let c = copied_catch (sync_methods e) acc x in
     \<exists>p. has_word K a p \<and> has K p (concat (map be_bytes [mvb_exceptionBlk e, start_pc c, end_pc c, handler_pc c, scast (catchType x)])))"

lemma exception_image_le:
  assumes "exception_image e acc K a x" "K \<subseteq>\<^sub>m K'"
  shows "exception_image e acc K' a x"
  using assms(1) has_le [OF _ assms(2)] unfolding exception_image_def Let_def by blast

lemma exceptions_law:
  "ready K c e s \<Longrightarrow> sync = sync_methods e \<Longrightarrow> block K p (24 * length xs) \<Longrightarrow> block K a (4 * length xs) \<Longrightarrow>
   unat p + 24 * length xs \<le> c \<Longrightarrow> unat a + 4 * length xs \<le> c \<Longrightarrow> unat a + 4 * length xs \<le> unat p \<Longrightarrow> g \<le> unat p \<Longrightarrow> g \<le> unat a \<Longrightarrow>
   runs K c e (\<lambda>s. s) (knows K g l h e (\<lambda>K'. \<forall>i < length xs. exception_image e acc K' (a + 4 * of_nat i) (xs ! i)))
     (copy_exceptions sync acc p a xs s)"
proof (induction xs arbitrary: K s p a)
  case Nil
  then show ?case by (auto intro: know_return)
next
  case (Cons x xs)
  have at: "unat (p + 4) = unat p + 4" "unat (p + 24) = unat p + 24" "unat (a + 4) = unat a + 4"
    using block_at [OF Cons.prems(3)] block_at [OF Cons.prems(4)] by simp_all
  have bs: "block K p 4" "block K (p + 4) 20" "block K (p + 24) (24 * length xs)" "block K a 4" "block K (a + 4) (4 * length xs)"
    using block_mono [OF Cons.prems(3)] block_part [OF Cons.prems(3)] block_mono [OF Cons.prems(4)] block_part [OF Cons.prems(4)] by simp_all
  note facts = at bs Cons.prems(5-)
  let ?ws = "concat (map be_bytes [mvb_exceptionBlk e, start_pc (copied_catch sync acc x), end_pc (copied_catch sync acc x),
    handler_pc (copied_catch sync acc x), scast (catchType x)])"
  let ?K1 = "learn_word K a (p + 4)" let ?K2 = "learn ?K1 (p + 4) ?ws"
  have here: "exception_image e acc ?K2 a x"
    unfolding exception_image_def Let_def using facts by (auto simp: Cons.prems(2) intro!: exI [of _ "p + 4"])
  have tail: "runs ?K2 c e (\<lambda>s. s) (knows ?K2 g l h e (\<lambda>K'. \<forall>i < length (x # xs). exception_image e acc K' (a + 4 * of_nat i) ((x # xs) ! i)))
      (copy_exceptions sync acc (p + 24) (a + 4) xs s')" if r: "ready ?K2 c e s'" for s'
  proof (rule runs_knows_mono [OF Cons.IH [OF r]], goal_cases)
    case (9 _ K')
    have "exception_image e acc K' (a + 4 * of_nat i) ((x # xs) ! i)" if "i < length (x # xs)" for i
      using exception_image_le [OF here 9(1)] 9(2) that by (cases i) (auto simp: algebra_simps)
    then show ?case by blast
  qed (use facts in \<open>simp_all add: Cons.prems(2)\<close>)
  show ?case
    unfolding copy_exceptions.simps Let_def poke_words_is_bytes
    by (rule runs_bind_poke [OF Cons.prems(1) bs(1)], rule know_learn, assumption, use facts in simp, use facts in simp,
      use facts in simp, subst ready_env(7), assumption, rule know_learn_bytes, assumption, use facts in simp, use facts in simp,
      use facts in simp, rule tail)
qed

definition table_image :: "loader_state \<Rightarrow> known \<Rightarrow> u32 \<Rightarrow> methodblock \<Rightarrow> bool" where
  "table_image e K p m \<longleftrightarrow> has_word K (p + 28) (of_nat (exception_table_length m)) \<and>
     (if exception_table_length m = 0 then has_word K (p + 24) 0
      else \<exists>ea. has_word K (p + 24) ea \<and>
        (\<forall>i < exception_table_length m. exception_image e (access (fb m)) K (ea + 8 + 4 * of_nat i) (exception_table m ! i)))"

lemma table_image_le:
  assumes "table_image e K a x" "K \<subseteq>\<^sub>m K'"
  shows "table_image e K' a x"
  using assms(1) has_le [OF _ assms(2)] exception_image_le [OF _ assms(2)] unfolding table_image_def by (auto split: if_splits; blast)

definition method_small :: "methodblock \<Rightarrow> bool" where
  "method_small m \<longleftrightarrow> unat (code_length m) < 2 ^ 30 \<and> exception_table_length m < 2 ^ 16"

lemma table_law:
  assumes "ready K c e s" "block K (p + 24) 8" "unat (p + 24) + 8 \<le> c" "l \<le> unat (p + 24) \<and> unat (p + 24) + 8 \<le> h" "g \<le> c" "method_small m"
  shows "runs K c e (\<lambda>s. s) (knows K g l h e (\<lambda>K'. table_image e K' p m)) (copy_exception_table p m s)"
proof -
  let ?n = "exception_table_length m" let ?w = "of_nat ?n :: u32" let ?K1 = "learn_word K (p + 28) ?w"
  have n: "unat ?w = ?n" "unat (24 * ?w) = 24 * ?n" "?n < 2 ^ 16" "?w = 0 \<longleftrightarrow> ?n = 0"
    using unat_of_small [of ?n] unat_of_small [of "24 * ?n"] assms(6) by (simp_all add: method_small_def unat_eq_0 [symmetric])
  have at: "unat (p + 28) = unat (p + 24) + 4" "block K (p + 24) 4" "block K (p + 28) 4"
    using block_at [OF assms(2), of 4] block_part [OF assms(2), of 4] block_mono [OF assms(2), of 4]
    by (simp_all add: add.commute [of p 28])
  note facts = at assms(3-5) n
  show ?thesis
    unfolding copy_exception_table_def Let_def
  proof (rule know_learn [OF assms(1) at(3)], use facts in simp, use facts in simp, rule runs_if, goal_cases)
    case (1 s1)
    have w: "unat ?w < 2 ^ 24" using n by simp
    show ?case
    proof (rule runs_bind_words [OF 1(1) w], unfold prod.case n(1), goal_cases)
      case (1 q s2)
      note q = 1(2-4) and facts = facts 1(2-4)
      let ?K2 = "learn_word ?K1 (p + 24) q"
      show ?case
      proof (rule know_learn [OF 1(1)], use facts in simp, use facts in simp, use facts in simp, rule runs_bind_alloc,
          assumption, use n in simp, unfold prod.case n(2), goal_cases)
        case (1 s3 r s4)
        note facts = facts 1(3) block_mono [OF 1(5) rounded(1) [of "24 * ?w"], unfolded n(2)]
        have env: "sync_methods s4 = sync_methods e" using ready_env(2) [OF 1(2)] .
        have img: "table_image e K' p m"
          if "?K2 \<subseteq>\<^sub>m K'" "\<forall>i < length (take ?n (exception_table m)). exception_image e (access (fb m)) K' (q + 8 + 4 * of_nat i) (take ?n (exception_table m) ! i)"
            "\<not> length (exception_table m) < ?n" for K'
          using that facts has_le [OF _ that(1)] \<open>?w \<noteq> 0\<close> unfolding table_image_def by (auto intro!: exI [of _ q])
        show ?case
        proof (rule runs_if, simp, rule runs_knows_mono [OF exceptions_law [OF 1(2) env]], goal_cases)
          case (8 _ K')
          then show ?case using img by blast
        qed (use facts in \<open>simp_all add: min_def env\<close>)
      qed
    qed
  next
    case (2 s1)
    then show ?case using facts by (intro know_poke) (simp_all add: table_image_def)
  qed
qed

definition header_image :: "u32 \<Rightarrow> (nat \<Rightarrow> u32) \<Rightarrow> known \<Rightarrow> u32 \<Rightarrow> fieldblock \<Rightarrow> bool" where
  "header_image cur entry K a f \<longleftrightarrow> (\<exists>cA. has_word K (cur + 4) cA \<and> has_word K a (cA + 8)) \<and> has_word K (a + 4) cur
     \<and> has_word K (a + 8) (entry (unat (sigIndex f))) \<and> has_word K (a + 12) (ucast (access f)) \<and> has_word K (a + 16) (entry (unat (nameIndex f)))"

lemma header_image_le:
  assumes "header_image cur entry K a x" "K \<subseteq>\<^sub>m K'"
  shows "header_image cur entry K' a x"
  using assms(1) has_le [OF _ assms(2)] unfolding header_image_def by blast

lemma header_law:
  assumes "ready K c e s" "entries_known cur n entry K" "block K a 20" "unat a + 20 \<le> c" "l \<le> unat a \<and> unat a + 20 \<le> h" "named_within n f"
  shows "runs K c e (\<lambda>s. s) (knows K g l h e (\<lambda>K'. header_image cur entry K' a f)) (copyMethodFields cur f a s)"
proof -
  have at: "unat (a + 4) = unat a + 4" "unat (a + 8) = unat a + 8" "unat (a + 12) = unat a + 12" "unat (a + 16) = unat a + 16"
    using block_at [OF assms(3)] by simp_all
  have bs: "block K a 4" "block K (a + 4) 4" "block K (a + 8) 4" "block K (a + 12) 4" "block K (a + 16) 4"
    using block_mono [OF assms(3)] block_part [OF assms(3)] by simp_all
  note facts = at bs assms(4,5)
  obtain cA where cA: "has_word K (cur + 4) cA" using assms(2) by (auto simp: entries_known_def)
  let ?K1 = "learn_word K (a + 8) (entry (unat (sigIndex f)))" let ?K2 = "learn_word ?K1 (a + 4) cur"
  let ?K3 = "learn_word ?K2 a (cA + 8)" let ?K4 = "learn_word ?K3 (a + 12) (ucast (access f))"
  have sig: "cp_entry cur (ucast (sigIndex f)) s = Some (entry (unat (sigIndex f)))"
    using cp_entry_known [OF assms(1,2)] assms(6) by (simp_all add: named_within_def)
  have le: "K \<subseteq>\<^sub>m ?K2" "K \<subseteq>\<^sub>m ?K4" using facts by simp_all
  have cp: "peek s (cur + 4) = Some cA" if "ready ?K2 c e s" for s
    using peek_known [OF that has_le [OF cA le(1)]] .
  have nm: "cp_entry cur (ucast (nameIndex f)) s = Some (entry (unat (nameIndex f)))" if "ready ?K4 c e s" for s
    using cp_entry_known [OF that entries_le [OF assms(2) le(2)]] assms(6) by (simp_all add: named_within_def)
  have img: "header_image cur entry (learn_word ?K4 (a + 16) (entry (unat (nameIndex f)))) a f"
    using has_le [OF cA le(2)] facts has_le [OF _ learn_le] unfolding header_image_def by (auto intro!: exI [of _ cA])
  show ?thesis
    unfolding copyMethodFields_def sig bind.simps
    by (rule know_learn [OF assms(1)], use facts in simp, use facts in simp, use facts in simp,
        rule know_learn, assumption, use facts in simp, use facts in simp, use facts in simp, subst cp, assumption, unfold bind.simps,
        rule know_learn, assumption, use facts in simp, use facts in simp, use facts in simp,
        rule know_learn, assumption, use facts in simp, use facts in simp, use facts in simp, subst nm, assumption, unfold bind.simps,
        rule know_poke, assumption, use facts in simp, use facts in simp, use facts in simp, rule img)
qed

definition method_image :: "u32 \<Rightarrow> (nat \<Rightarrow> u32) \<Rightarrow> loader_state \<Rightarrow> known \<Rightarrow> u32 \<Rightarrow> methodblock \<Rightarrow> bool" where
  "method_image cur entry e K a m \<longleftrightarrow> (\<exists>p q bs. has_word K a p \<and> has_word K (p + 4) q \<and> method_code (sync_methods e) m = Some bs
     \<and> has K q bs \<and> has_word K (p + 20) (of_nat (length bs)) \<and> table_image e K p m \<and> header_image cur entry K (p + 32) (fb m)
     \<and> has_word K (p + 12) (push_bit 16 (offset (fb m)) OR push_bit 2 (ucast (args_size m)))
     \<and> has_word K (p + 16) (push_bit 2 (ucast (maxstack m) + (if is_sync e m then 1 else 0)))
     \<and> has_word K (p + 8) (push_bit 2 (ucast (nlocals m))))"

lemma method_image_le:
  assumes "method_image cur entry e K a x" "K \<subseteq>\<^sub>m K'"
  shows "method_image cur entry e K' a x"
  using assms(1) has_le [OF _ assms(2)] table_image_le [OF _ assms(2)] header_image_le [OF _ assms(2)]
  unfolding method_image_def by blast

definition method_fits :: "nat \<Rightarrow> methodblock \<Rightarrow> bool" where
  "method_fits n m \<longleftrightarrow> method_small m \<and> named_within n (fb m)"

lemma is_sync_env: "ready K c e s \<Longrightarrow> is_sync s m = is_sync e m"
  by (simp add: is_sync_def ready_env(2))

lemma method_law:
  assumes "ready K c e s" "entries_known cur n entry K" "block K a 4" "unat a + 4 \<le> c" "method_fits n m"
  shows "runs K c e (\<lambda>s. s) (knows K c (unat a) (unat a + 4) e (\<lambda>K'. method_image cur entry e K' a m)) (copy_method cur k r a m s)"
proof -
  define len where "len = code_length m + (if is_sync e m then 12 else 0)"
  have small: "method_small m" "named_within n (fb m)" using assms(5) by (simp_all add: method_fits_def)
  have len: "unat len = unat (code_length m) + (if is_sync e m then 12 else 0)" "unat len < 2 ^ 31"
    using small(1) unat_add [of "code_length m" 12] by (auto simp: len_def method_small_def)
  have bs_len: "length bs = unat len" if "method_code (sync_methods e) m = Some bs" for bs
    using method_code_length [OF that] len(1) by (simp add: is_sync_def)
  show ?thesis
    unfolding copy_method_def Let_def
  proof (rule runs_bind_OBJ, simp, rule assms(1), simp, simp, unfold prod.case, goal_cases)
    case (1 p s1)
    then have b: "block K p 52" and c: "ready K (unat p + 52) e s1" "c \<le> unat p" by simp_all
    have at: "unat (p + 4) = unat p + 4" "unat (p + 8) = unat p + 8" "unat (p + 12) = unat p + 12" "unat (p + 16) = unat p + 16"
      "unat (p + 20) = unat p + 20" "unat (p + 24) = unat p + 24" "unat (p + 32) = unat p + 32" using block_at [OF b] by simp_all
    have bs: "block K (p + 4) 4" "block K (p + 8) 4" "block K (p + 12) 4" "block K (p + 16) 4" "block K (p + 20) 4"
      "block K (p + 24) 8" "block K (p + 32) 20" using block_part [OF b] by simp_all
    note facts = at bs assms(3,4) c(2)
    let ?K1 = "learn_word K a p"
    show ?case
    proof (rule know_learn [OF 1(1) assms(3)], use facts in simp, use facts in simp, goal_cases)
      case (1 s2)
      show ?case
        unfolding is_sync_env [OF 1] len_def [symmetric]
      proof (rule runs_bind_alloc [OF 1 len(2)], unfold prod.case, goal_cases)
        case (1 q s3)
        have bq: "block ?K1 q (unat len)" using block_mono [OF 1(4) rounded(1) [OF len(2)]] .
        note facts = facts bq 1(2)
        let ?K2 = "learn_word ?K1 (p + 4) q"
        have tail: "runs ?K2 (unat q + unat len) e (\<lambda>s. s) (knows ?K2 c (unat a) (unat a + 4) e (\<lambda>K'. method_image cur entry e K' a m))
          (do { bs \<leftarrow> method_code (sync_methods s) m; s \<leftarrow> poke_bytes q bs s; s \<leftarrow> poke (p + 20) len s;
             s \<leftarrow> copy_exception_table p m s; s \<leftarrow> copyMethodFields cur (fb m) (p + 32) s;
             s \<leftarrow> poke (p + 12) (push_bit 16 (offset (fb m)) OR push_bit 2 (ucast (args_size m))) s;
             s \<leftarrow> poke (p + 16) (push_bit 2 (ucast (maxstack m) + (if is_sync s m then 1 else 0))) s;
             poke (p + 8) (push_bit 2 (ucast (nlocals m))) s })"
          if r: "ready ?K2 (unat q + unat len) e s" for s
        proof (rule runs_value)
          fix bs
          assume code: "method_code (sync_methods s) m = Some bs"
          then have code: "method_code (sync_methods e) m = Some bs" unfolding ready_env(2) [OF r] .
          note facts = facts bs_len [OF code]
          let ?K3 = "learn ?K2 q bs" let ?K4 = "learn_word ?K3 (p + 20) len" let ?f = "unat q + unat len"
          have le: "K \<subseteq>\<^sub>m ?K4" using facts by simp
          show "runs ?K2 ?f e (\<lambda>s. s) (knows ?K2 c (unat a) (unat a + 4) e (\<lambda>K'. method_image cur entry e K' a m))
            (do { s \<leftarrow> poke_bytes q bs s; s \<leftarrow> poke (p + 20) len s;
             s \<leftarrow> copy_exception_table p m s; s \<leftarrow> copyMethodFields cur (fb m) (p + 32) s;
             s \<leftarrow> poke (p + 12) (push_bit 16 (offset (fb m)) OR push_bit 2 (ucast (args_size m))) s;
             s \<leftarrow> poke (p + 16) (push_bit 2 (ucast (maxstack m) + (if is_sync s m then 1 else 0))) s;
             poke (p + 8) (push_bit 2 (ucast (nlocals m))) s })"
          proof (rule know_learn_bytes [OF r], use facts in simp, use facts in simp, use facts in simp, rule know_learn, assumption,
              use facts in simp, use facts in simp, use facts in simp, goal_cases)
            case (1 s4 s5)
            have table: "runs ?K4 ?f e (\<lambda>s. s) (knows ?K4 ?f (unat (p + 24)) (unat (p + 24) + 8) e (\<lambda>K'. table_image e K' p m)) (copy_exception_table p m s5)"
              by (rule table_law [OF 1(2)]) (use facts small in simp_all)
            have f: "c \<le> ?f" "unat p + 52 \<le> ?f" using facts by simp_all
            have old: "has_word ?K4 a p" "has_word ?K4 (p + 4) q" "has ?K4 q bs" "has_word ?K4 (p + 20) len" using facts by simp_all
            show ?case
            proof (rule know_bind [OF table 1(2)], erule grows_inside, use facts in simp, use facts in simp, goal_cases)
              case (1 s6 K5)
              have b5: "block K5 x j" if "block ?K4 x j" "unat x + j \<le> ?f" "unat x + j \<le> unat (p + 24) \<or> unat (p + 24) + 8 \<le> unat x" for x j
                using block_grows [OF that(1) 1(1)] that(2,3) by blast
              have "entries_known cur n entry K5" using entries_le [OF entries_le [OF assms(2) le] grows_le [OF 1(1)]] .
              moreover have "block K5 (p + 32) 20" by (rule b5) (use facts f in simp_all)
              ultimately have header: "runs K5 (now s6) e (\<lambda>s. s) (knows K5 (now s6) (unat (p + 32)) (unat (p + 32) + 20) e
                  (\<lambda>K'. header_image cur entry K' (p + 32) (fb m))) (copyMethodFields cur (fb m) (p + 32) s6)"
                by (rule header_law [OF 1(3)]) (use facts f 1(2) small in simp_all)
              show ?case
              proof (rule know_bind [OF header 1(3)], erule grows_inside, use f 1(2) in simp, use facts in simp, goal_cases)
                case (1 s7 K6)
                have b6: "block K6 x 4" if "block ?K4 x 4" "unat x + 4 \<le> unat (p + 24)" for x
                  using block_grows [OF b5 [OF that(1)] 1(1)] that(2) facts f \<open>?f \<le> now s6\<close> by simp
                have "block K6 (p + 12) 4" "block K6 (p + 16) 4" "block K6 (p + 8) 4" by (rule b6; use facts in simp)+
                moreover have "?f \<le> now s7" using 1(2) \<open>?f \<le> now s6\<close> by simp
                ultimately have facts6: "block K6 (p + 12) 4" "block K6 (p + 16) 4" "block K6 (p + 8) 4" "?f \<le> now s7" "unat p + 52 \<le> now s7"
                  "c \<le> unat p" using facts f by simp_all
                note facts6 = facts6 at
                let ?K7 = "learn_word K6 (p + 12) (push_bit 16 (offset (fb m)) OR push_bit 2 (ucast (args_size m)))"
                let ?K8 = "learn_word ?K7 (p + 16) (push_bit 2 (ucast (maxstack m) + (if is_sync e m then 1 else 0)))"
                let ?K9 = "learn_word ?K8 (p + 8) (push_bit 2 (ucast (nlocals m)))"
                have le69: "K6 \<subseteq>\<^sub>m ?K9" using facts6 by simp
                have le59: "K5 \<subseteq>\<^sub>m ?K9" using map_le_trans [OF grows_le [OF 1(1)] le69] .
                have le49: "?K4 \<subseteq>\<^sub>m ?K9" using map_le_trans [OF grows_le [OF \<open>grows ?K4 _ _ _ K5\<close>] le59] .
                have new: "has_word ?K9 (p + 12) (push_bit 16 (offset (fb m)) OR push_bit 2 (ucast (args_size m)))"
                  "has_word ?K9 (p + 16) (push_bit 2 (ucast (maxstack m) + (if is_sync e m then 1 else 0)))"
                  "has_word ?K9 (p + 8) (push_bit 2 (ucast (nlocals m)))" using facts6 by simp_all
                have bl: "of_nat (length bs) = len" using bs_len [OF code] by simp
                note old9 = old [THEN has_le [OF _ le49]]
                have img: "method_image cur entry e ?K9 a m"
                  unfolding method_image_def
                  by (intro exI conjI, rule old9(1), rule old9(2), rule code, rule old9(3), subst bl, rule old9(4),
                    rule table_image_le [OF \<open>table_image e K5 p m\<close> le59], rule header_image_le [OF 1(4) le69], (rule new)+)
                show ?case
                  by (rule know_learn [OF 1(3)], use facts6 in simp, use facts6 in simp, use facts6 in simp, subst is_sync_env, assumption,
                    rule know_learn, assumption, use facts6 in simp, use facts6 in simp, use facts6 in simp,
                    rule know_poke, assumption, use facts6 in simp, use facts6 in simp, use facts6 in simp, rule img)
              qed
            qed
          qed
        qed
        show ?case
          by (rule know_learn [OF 1(1)], use facts in simp, use facts in simp, use facts in simp, rule tail)
      qed
    qed
  qed
qed

interpretation methods: array_copy "copy_method cur k" "copyMethods cur k" "entries_known cur n entry" "method_fits n" "method_image cur entry"
  for cur k n entry
  by unfold_locales (simp, simp, rule method_law, assumption+, rule entries_le, assumption+, rule method_image_le)

end
