(* ===== verification/Copier_Layout.thy ===== *)
theory Copier_Layout
  imports Class_Image
begin

text \<open>
  The class object while it is laid out: the members set so far, and what is known of the rest of the memory, with a rule
  for each kind of step of class\_object.
\<close>

section \<open>Laying out a class object\<close>

definition rel :: "loader_state \<Rightarrow> (nat \<Rightarrow> u32 option) \<times> (member_ref \<Rightarrow> u32 option) \<times> (member_ref \<Rightarrow> u32 option)" where
  "rel s = (relcb s, relfb s, relmb s)"

text \<open>
  The class object at p is being laid out, with its hint block for m methods at q: W has the members set so far, V says
  whether the method vector is still free, F is what is known of the rest.
\<close>

definition laying :: "nat \<Rightarrow> (nat \<Rightarrow> u32 option) \<times> (member_ref \<Rightarrow> u32 option) \<times> (member_ref \<Rightarrow> u32 option) \<Rightarrow> u32 \<Rightarrow> u32 \<Rightarrow> nat
    \<Rightarrow> (u32 \<Rightarrow> u32 option) \<Rightarrow> bool \<Rightarrow> (known \<Rightarrow> bool) \<Rightarrow> known \<Rightarrow> nat \<Rightarrow> loader_state \<Rightarrow> loader_state \<Rightarrow> bool" where
  "laying g R p q m W V F K c e s \<longleftrightarrow> ready K c e s \<and> rel s = R \<and> g \<le> unat p \<and> unat p + 64 \<le> unat (q - 12) \<and> unat (q - 12) + 12 = unat q
     \<and> unat q + 32 + 4 * m \<le> c \<and> c \<le> 2 ^ 30
     \<and> (\<forall>d. unat d \<le> 60 \<and> 4 dvd unat d \<longrightarrow> (case W d of None \<Rightarrow> block K (p + d) 4 | Some w \<Rightarrow> has_word K (p + d) w))
     \<and> block K (q - 12) 36 \<and> block K (q + 24 + 4 * of_nat m) 8 \<and> (V \<longrightarrow> block K (q + 24) (4 * m)) \<and> (\<forall>K'. K \<subseteq>\<^sub>m K' \<longrightarrow> F K')"

lemma laying_at:
  assumes "laying g R p q m W V F K c e s" "unat d \<le> 60"
  shows "unat (p + d) = unat p + unat d"
  using assms unat_add [of p d] by (simp add: laying_def)

lemma laying_vector:
  assumes "laying g R p q m W V F K c e s"
  shows "unat (q + 24) = unat q + 24" "unat (q + 24 + 4 * of_nat m) = unat q + 24 + 4 * m" "unat (of_nat m :: u32) = m"
proof -
  have m: "unat q + 32 + 4 * m \<le> 2 ^ 30" using assms by (simp add: laying_def)
  then have w: "unat (of_nat m :: u32) = m" "unat (4 * of_nat m :: u32) = 4 * m"
    using unat_of_small [of m] unat_of_small [of "4 * m"] by simp_all
  then show "unat (of_nat m :: u32) = m" by simp
  show 24: "unat (q + 24) = unat q + 24" using m unat_add [of q 24] by simp
  show "unat (q + 24 + 4 * of_nat m) = unat q + 24 + 4 * m" using m w 24 unat_add [of "q + 24" "4 * of_nat m"] by simp
qed

lemma rel_bytes: "poke_bytes a bs s = Some s' \<Longrightarrow> rel s' = rel s"
  by (induction bs arbitrary: a s) (force simp: rel_def bind_eq_Some_conv)+

lemma rel_poke: "poke a w s = Some s' \<Longrightarrow> rel s' = rel s"
  by (simp add: poke_is_bytes rel_bytes)

lemma rel_words: "poke_words a ws s = Some s' \<Longrightarrow> rel s' = rel s"
  by (simp add: poke_words_is_bytes rel_bytes)

lemma rel_alloc: "alloc n s = Some (p, s') \<Longrightarrow> rel s' = rel s"
  by (auto simp: alloc_def rel_def split: prod.splits option.splits)

lemma runs_eq: "runs K c e st Q r \<Longrightarrow> runs K c e st (\<lambda>y. Q y \<and> r = Some y) r"
  by (simp add: runs_def)

lemma knows_eq: "runs K c e st (\<lambda>y. knows K g l h e (P y) (st y)) r \<Longrightarrow> runs K c e st (\<lambda>y. knows K g l h e (\<lambda>K. P y K \<and> r = Some y) (st y)) r"
  by (auto simp: runs_def knows_def)

lemma lay_poke:
  assumes "laying g R p q m W V F K c e s" "W d = None" "unat d \<le> 60" "4 dvd unat d"
    "\<And>s'. laying g R p q m (W(d \<mapsto> w)) V F (learn_word K (p + d) w) c e s' \<Longrightarrow>
       runs (learn_word K (p + d) w) c e st (\<lambda>y. knows (learn_word K (p + d) w) g l h e (P y) (st y)) (k s')"
  shows "runs K c e st (\<lambda>y. knows K g l h e (P y) (st y)) (Option.bind (poke (p + d) w s) k)"
proof -
  note all = assms(1) [unfolded laying_def]
  note at = laying_at [OF assms(1)] and vec = laying_vector [OF assms(1)]
  have b: "block K (p + d) 4" using all assms(2-4) by (auto split: option.splits)
  let ?K = "learn_word K (p + d) w"
  have new: "laying g R p q m (W(d \<mapsto> w)) V F ?K c e s'" if "ready ?K c e s'" "rel s' = rel s" for s'
  proof -
    have member: "case (W(d \<mapsto> w)) d' of None \<Rightarrow> block ?K (p + d') 4 | Some w \<Rightarrow> has_word ?K (p + d') w"
      if d': "unat d' \<le> 60" "4 dvd unat d'" for d'
    proof (cases "d' = d")
      case False
      then have "unat d' \<noteq> unat d" by (metis word_unat_eq_iff)
      then have "unat d' + 4 \<le> unat d \<or> unat d + 4 \<le> unat d'" using assms(4) d'(2) by presburger
      moreover have "case W d' of None \<Rightarrow> block K (p + d') 4 | Some w \<Rightarrow> has_word K (p + d') w" using all d' by blast
      ultimately show ?thesis using False at [OF assms(3)] at [OF d'(1)] by (auto split: option.splits)
    qed simp
    have far: "unat (p + d) + 4 \<le> unat (q - 12)" using all at [OF assms(3)] assms(3) by simp
    then have "block ?K (q - 12) 36" "block ?K (q + 24 + 4 * of_nat m) 8" "V \<longrightarrow> block ?K (q + 24) (4 * m)"
      using all vec by simp_all
    moreover have "\<forall>K'. ?K \<subseteq>\<^sub>m K' \<longrightarrow> F K'" using all map_le_trans [OF learn_le [OF b [folded length_be_bytes [of w]]]] by blast
    ultimately show ?thesis unfolding laying_def using all that member by simp
  qed
  have "runs ?K c e st (\<lambda>y. knows ?K g l h e (P y) (st y)) (Option.bind (poke (p + d) w s) k)"
  proof (rule runs_bind [OF runs_eq [OF runs_learn [OF _ b]]], goal_cases)
    case 1
    then show ?case using all by blast
  next
    case 2
    then show ?case using all at [OF assms(3)] assms(3) by simp
  next
    case (3 s')
    then show ?case using rel_poke by (intro assms(5) new) auto
  qed
  moreover have "dom K \<subseteq> {..<c}" using all ready_dom by blast
  ultimately show ?thesis
    by (intro know_grown [OF _ grows_learn [OF b [folded length_be_bytes [of w]]] order_refl]) (use all at [OF assms(3)] in simp_all)
qed

lemma rel_array: "CREATE_JAVA_ARRAY n sz cnt ty mvb s = Some (p, s') \<Longrightarrow> rel s' = rel s"
  by (auto simp: CREATE_JAVA_ARRAY_def Let_def bind_eq_Some_conv dest!: rel_poke rel_alloc)

lemma rel_object: "CREATE_JAVA_OBJ n mvb s = Some (p, s') \<Longrightarrow> rel s' = rel s"
  by (auto simp: CREATE_JAVA_OBJ_def bind_eq_Some_conv dest!: rel_poke rel_alloc)

lemma lay_words:
  assumes "laying g R p q m W V F K c e s" "unat n < 2 ^ 24"
    "\<And>a s' c'. laying g R p q m W V F K c' e s' \<Longrightarrow> block K (a + 8) (4 * unat n) \<Longrightarrow> unat (a + 8) + 4 * unat n \<le> c'
      \<Longrightarrow> c \<le> unat (a + 8) \<Longrightarrow> runs K c' e st (\<lambda>y. knows K g l h e (P y) (st y)) (k (a, s'))"
  shows "runs K c e st (\<lambda>y. knows K g l h e (P y) (st y)) (Option.bind (word_array n sz ty s) k)"
proof (cases "word_array n sz ty s")
  case (Some as)
  note all = assms(1) [unfolded laying_def]
  have r: "ready K c e s" using all by blast
  obtain a s' where as: "as = (a, s')" by (cases as)
  have "runs K c e st (\<lambda>y. knows K g l h e (P y) (st y)) (Option.bind (word_array n sz ty s) (\<lambda>y. if y = as then k y else None))"
  proof (rule runs_bind_words [OF r assms(2)], goal_cases)
    case (1 a s')
    show ?case
    proof (cases "(a, s') = as")
      case True
      let ?c = "unat a + 4 * unat n + 16"
      have "rel s' = rel s" using Some True rel_array by (auto simp: word_array_def)
      moreover have "?c \<le> 2 ^ 30" using 1(1) by (simp add: ready_def)
      ultimately have "laying g R p q m W V F K ?c e s'" using all 1(1,2) unfolding laying_def by auto
      then show ?thesis using True 1(2-4) by (auto intro: assms(3))
    qed simp
  qed
  then show ?thesis using Some by simp
qed simp

text \<open>A part of the copying that ends with the class object as W', V' and F' say.\<close>

abbreviation lays where
  "lays g p q m W' V' F' K c e r \<equiv> runs K c e (\<lambda>s. s) (\<lambda>s'. knows K g 0 0 e (\<lambda>K'. laying g (rel s') p q m W' V' F' K' (now s') e s') s') r"

lemma lay_bind:
  assumes "lays g p q m W' V' F' K c e r" "ready K c e s"
    "\<And>s' K' c'. r = Some s' \<Longrightarrow> laying g (rel s') p q m W' V' F' K' c' e s' \<Longrightarrow> runs K' c' e st (\<lambda>y. knows K' g l h e (P y) (st y)) (k s')"
  shows "runs K c e st (\<lambda>y. knows K g l h e (P y) (st y)) (Option.bind r k)"
proof (rule know_bind [OF knows_eq [OF assms(1)] assms(2)], goal_cases)
  case (1 K')
  then show ?case by (auto simp: grows_def)
next
  case (2 s' K')
  then show ?case using assms(3) by blast
qed

lemma laying_grows:
  assumes "laying g R p q m W V F K c e s" "grows K c l h K'" "unat q + 32 + 4 * m \<le> l" "ready K' (now s') e s'" "c \<le> now s'"
    "\<And>K''. K' \<subseteq>\<^sub>m K'' \<Longrightarrow> I K''"
  shows "laying g (rel s') p q m W V (\<lambda>K. F K \<and> I K) K' (now s') e s'"
proof -
  note all = assms(1) [unfolded laying_def]
  have b: "block K' x n" if "block K x n" "unat x + n \<le> unat q + 32 + 4 * m" for x n
    using block_grows [OF that(1) assms(2)] that(2) all assms(3) by simp
  have member: "case W d of None \<Rightarrow> block K' (p + d) 4 | Some w \<Rightarrow> has_word K' (p + d) w" if d: "unat d \<le> 60" "4 dvd unat d" for d
  proof -
    have "case W d of None \<Rightarrow> block K (p + d) 4 | Some w \<Rightarrow> has_word K (p + d) w" using all d by blast
    moreover have "unat (p + d) + 4 \<le> unat q" using laying_at [OF assms(1) d(1)] d(1) all by simp
    ultimately show ?thesis using b has_le [OF _ grows_le [OF assms(2)]] by (auto split: option.splits)
  qed
  have "now s' \<le> 2 ^ 30" using assms(4) by (simp add: ready_def)
  moreover have "block K' (q - 12) 36" "block K' (q + 24 + 4 * of_nat m) 8" "V \<longrightarrow> block K' (q + 24) (4 * m)"
    using b all laying_vector [OF assms(1)] by auto
  ultimately show ?thesis
    unfolding laying_def using all member assms(4-6) map_le_trans [OF grows_le [OF assms(2)]] by auto
qed

lemma lay_loop:
  assumes "laying g R p q m W V F K c e s" "runs K c e (\<lambda>s. s) (knows K c l h e I) r" "unat q + 32 + 4 * m \<le> l"
    "\<And>K K'. I K \<Longrightarrow> K \<subseteq>\<^sub>m K' \<Longrightarrow> I K'"
  shows "lays g p q m W V (\<lambda>K. F K \<and> I K) K c e r"
proof (rule runs_mono [OF assms(2)], unfold knows_def, elim exE conjE, goal_cases)
  case (1 s' K')
  have "grows K g 0 0 K'" using grows_inside [OF 1(2)] assms(1,3) by (auto simp: laying_def)
  then show ?case using laying_grows [OF assms(1) 1(2) assms(3) 1(3) ready_floor [OF 1(1)]] 1(3,4) assms(4) by blast
qed

lemma table_bytes: "48 + 4 * unat (w :: u16) < 2 ^ 31" "48 + 4 * unat w < 2 ^ 32"
  using unat_u16(1) [of w] by (simp_all del: unat_u16(1))

lemma lay_hint:
  assumes "ready K c e s" "block K p 64" "unat p + 64 \<le> c" "g \<le> unat p" "\<And>K'. K \<subseteq>\<^sub>m K' \<Longrightarrow> F K'" "m = unat (methodtable_size r)"
    "\<And>q s' K' c'. laying g (rel s) p q m [28 \<mapsto> q - 8] True F K' c' e s' \<Longrightarrow> runs K' c' e st (\<lambda>y. knows K' g l h e (P y) (st y)) (k (q, s'))"
  shows "runs K c e st (\<lambda>y. knows K g l h e (P y) (st y)) (Option.bind (hint_block p r s) k)"
proof -
  have n: "unat (4 + 4 * ARRAY_HEADER + 28 + 4 * (ucast (methodtable_size r) - 1) + 4 * ARRAY_FOOTER :: u32) = 48 + 4 * m"
  proof -
    have eq: "4 + 4 * ARRAY_HEADER + 28 + 4 * (ucast (methodtable_size r) - 1) + 4 * ARRAY_FOOTER = (of_nat (48 + 4 * m) :: u32)"
      by (simp add: ARRAY_HEADER_def ARRAY_FOOTER_def algebra_simps assms(6))
    show ?thesis unfolding eq assms(6) by (rule unat_of_small [OF table_bytes(2)])
  qed
  have at: "unat (p + d) = unat p + unat d" "block K (p + d) 4" if "unat d \<le> 60" for d
    using block_at [OF assms(2)] block_part [OF assms(2)] that by simp_all
  define H where "H = hint_block p r s"
  have rel: "rel s' = rel s" if "H = Some (q, s')" for q s'
    using that by (auto simp: H_def hint_block_def Let_def bind_eq_Some_conv dest!: rel_poke rel_alloc)
  have "runs K c e st (\<lambda>y. knows K g l h e (P y) (st y)) (Option.bind (hint_block p r s) (\<lambda>y. if H = Some y then k y else None))"
    unfolding hint_block_def Let_def bind_assoc case_prod_beta
  proof (rule runs_bind_alloc [OF assms(1)], goal_cases)
    case 1
    then show ?case unfolding n assms(6) by (rule table_bytes(1))
  next
    case (2 a s1)
    define q where "q = (a + 4 * ARRAY_HEADER + 4) AND 0xfffffff8"
    note 2 = 2 [unfolded n]
    have ba: "block K a (48 + 4 * m)"
      using block_mono [OF 2(4)] rounded(1) [of "4 + 4 * ARRAY_HEADER + 28 + 4 * (ucast (methodtable_size r) - 1) + 4 * ARRAY_FOOTER"]
        table_bytes(1) [of "methodtable_size r"] unfolding n assms(6) by blast
    have a16: "unat (a + 16) = unat a + 16" using block_at [OF ba, of 16] by simp
    have "a + 4 * ARRAY_HEADER + 4 = a + 16" by (simp add: ARRAY_HEADER_def)
    then have "q = (a + 16) AND 0xfffffff8" by (simp only: q_def)
    then have uq: "unat q = unat a + 16 - (unat a + 16) mod 8" using round8 [of "a + 16"] a16 by (simp only:)
    have "(unat a + 16) mod 8 = 0 \<or> (unat a + 16) mod 8 = 4" using 2(5) by presburger
    then have q: "unat a + 12 \<le> unat q" "unat q \<le> unat a + 16" unfolding uq by auto
    have q12: "unat (q - 12) = unat q - 12" "unat (q - 8) = unat q - 8"
      using q(1) by (intro unat_sub [THEN trans]; simp add: word_le_nat_alt)+
    have bq: "block K x j" if "unat a \<le> unat x" "unat x + j \<le> unat a + 48 + 4 * m" for x j
      using ba that unfolding block_def by fastforce
    let ?K = "learn_word K (p + 28) (q - 8)" let ?f = "unat a + (48 + 4 * m)"
    have vec: "unat (q + 24) = unat q + 24" "unat (q + 24 + 4 * of_nat m) = unat q + 24 + 4 * m"
    proof -
      have m: "unat q + 32 + 4 * m \<le> 2 ^ 30" using ba q by (simp add: block_def)
      then have w: "unat (4 * of_nat m :: u32) = 4 * m" using unat_of_small [of "4 * m"] by simp
      show 24: "unat (q + 24) = unat q + 24" using m unat_add [of q 24] by simp
      show "unat (q + 24 + 4 * of_nat m) = unat q + 24 + 4 * m" using m w 24 unat_add [of "q + 24" "4 * of_nat m"] by simp
    qed
    have far: "unat p + 64 \<le> unat a" using assms(3) 2(2) by simp
    have lay: "laying g (rel s) p q m [28 \<mapsto> q - 8] True F ?K ?f e s'" if "ready ?K ?f e s'" "rel s' = rel s" for s'
    proof -
      have "case [28 \<mapsto> q - 8] d of None \<Rightarrow> block ?K (p + d) 4 | Some w \<Rightarrow> has_word ?K (p + d) w" if d: "unat d \<le> 60" "4 dvd unat d" for d
      proof (cases "d = 28")
        case False
        then have "unat d \<noteq> unat (28 :: u32)" by (metis word_unat_eq_iff)
        then have "unat d + 4 \<le> 28 \<or> 32 \<le> unat d" using d(2) by simp presburger
        then show ?thesis using False at [OF d(1)] at(1) [of 28] by auto
      qed simp
      moreover have "?f \<le> 2 ^ 30" using that(1) by (simp add: ready_def)
      moreover have "block ?K (q - 12) 36" "block ?K (q + 24 + 4 * of_nat m) 8" "block ?K (q + 24) (4 * m)"
        using q q12 vec far at(1) [of 28] by (auto intro!: block_learn bq)
      moreover have "\<forall>K'. ?K \<subseteq>\<^sub>m K' \<longrightarrow> F K'" using assms(5) map_le_trans [OF learn_le [of K "p + 28" "be_bytes (q - 8)"]] at(2) [of 28] by simp
      ultimately show ?thesis unfolding laying_def using that q q12 far assms(4) by auto
    qed
    have b28: "block K (p + 28) 4" "unat (p + 28) = unat p + 28" using at [of 28] by simp_all
    then have free: "block ?K (q - 12) 4" "block ?K (q - 8) 4"
      using q q12 far by (auto intro!: block_learn bq)
    show ?case
      unfolding prod.sel q_def [symmetric] n bind.simps
    proof (rule know_learn [OF 2(1) b28(1)], use b28(2) far in simp, use b28(2) assms(4) in simp, rule runs_bind_poke, assumption,
        rule free(1), rule runs_bind_poke, assumption, rule free(2), goal_cases)
      case (1 s2 s3 s4)
      then show ?case using rel by (auto intro!: assms(7) lay)
    qed
  qed
  moreover have "Option.bind (hint_block p r s) (\<lambda>y. if H = Some y then k y else None) = Option.bind (hint_block p r s) k"
    by (cases "hint_block p r s") (simp_all add: H_def)
  ultimately show ?thesis by simp
qed

lemma lay_free:
  assumes "laying g R p q m W V F K c e s" "block K b (length bs)" "\<And>s'. laying g R p q m W V F K c e s' \<Longrightarrow> runs K c e st Q (k s')"
  shows "runs K c e st Q (Option.bind (poke_bytes b bs s) k)"
proof (rule runs_bind [OF runs_eq [OF runs_poke_bytes [OF _ assms(2)]]], goal_cases)
  case 1
  show ?case using assms(1) by (simp add: laying_def)
next
  case (2 s')
  then have "rel s' = rel s" using rel_bytes by blast
  then show ?case using assms(1) 2 by (intro assms(3)) (simp add: laying_def)
qed

lemmas lay_free_word = lay_free [where bs = "be_bytes w" for w, folded poke_is_bytes, unfolded length_be_bytes]

lemma lay_done:
  assumes "laying g R p q m W V F K c e s"
  shows "lays g p q m W V F K c e (Some s)"
proof -
  have "laying g (rel s) p q m W V F K (now s) e s"
    using assms ready_now [of K c e s] ready_floor [of K c e s] by (auto simp: laying_def ready_def)
  then show ?thesis using assms by (auto simp: knows_def laying_def intro!: runs_return grows_refl exI [of _ K])
qed

lemma lay_done_bytes:
  assumes "laying g R p q m W V F K c e s" "block K b (length bs)"
  shows "lays g p q m W V F K c e (poke_bytes b bs s)"
proof -
  have "lays g p q m W V F K c e (Option.bind (poke_bytes b bs s) Some)"
    by (rule lay_free [OF assms], rule lay_done)
  then show ?thesis by simp
qed

lemmas lay_done_word = lay_done_bytes [where bs = "be_bytes w" for w, folded poke_is_bytes, unfolded length_be_bytes]

lemma has_concat: "has K a (concat (map be_bytes ws)) \<Longrightarrow> unat a + 4 * length ws < 2 ^ 32 \<Longrightarrow> i < length ws \<Longrightarrow> has_word K (a + 4 * of_nat i) (ws ! i)"
proof (induction ws arbitrary: a i)
  case (Cons w ws)
  have len: "length (concat (map be_bytes ws)) = 4 * length ws" by (simp add: length_concat comp_def sum_list_triv)
  have a: "unat (a + 4) = unat a + 4" using Cons.prems(2) unat_add [of a 4] by simp
  have w: "has_word K a w" "has K (a + 4) (concat (map be_bytes ws))"
    using Cons.prems(1,2) has_append [of a "be_bytes w" "concat (map be_bytes ws)" K] by (simp_all add: len)
  show ?case
  proof (cases i)
    case (Suc j)
    then show ?thesis using Cons.IH [OF w(2), of j] Cons.prems(2,3) a by (simp add: algebra_simps)
  qed (use w in simp)
qed simp

section \<open>The method vector\<close>

text \<open>w points to the method that x stands for, where its entry in an array of methods is known.\<close>

definition points_to :: "(member_ref \<Rightarrow> u32 option) \<Rightarrow> known \<Rightarrow> member_ref option \<Rightarrow> u32 \<Rightarrow> bool" where
  "points_to M K x w \<longleftrightarrow> (\<exists>r b mo. x = Some r \<and> M r = Some b \<and> has_word K b mo \<and> w = mo + 4)"

lemma points_to_le: "points_to M K x w \<Longrightarrow> K \<subseteq>\<^sub>m K' \<Longrightarrow> points_to M K' x w"
  unfolding points_to_def using has_le by blast

lemma vector_is_words:
  "ready K c e s \<Longrightarrow> block K a (4 * length xs) \<Longrightarrow> (\<And>x. x \<in> set xs \<Longrightarrow> points_to (relmb s) K x (f x)) \<Longrightarrow>
   copy_method_vector a xs s = poke_words a (map f xs) s"
proof (induction xs arbitrary: a s)
  case (Cons x xs)
  obtain r b mo where x: "x = Some r" "relmb s r = Some b" "has_word K b mo" "f x = mo + 4"
    using Cons.prems(3) [of x] by (auto simp: points_to_def)
  have p: "method_pointer s x = Some (f x)"
    using peek_known [OF Cons.prems(1) x(3)] x(4) by (simp add: method_pointer_def x(1,2))
  have b: "block K a 4" "block K (a + 4) (4 * length xs)" using block_mono [OF Cons.prems(2)] block_part [OF Cons.prems(2), of 4] by simp_all
  have rest: "copy_method_vector (a + 4) xs s' = poke_words (a + 4) (map f xs) s'" if put: "poke a (f x) s = Some s'" for s'
  proof (rule Cons.IH [OF _ b(2)])
    show "ready K c e s'" using runs_poke [OF Cons.prems(1) b(1), of "f x"] put by (simp add: runs_def)
    show "points_to (relmb s') K y (f y)" if "y \<in> set xs" for y
      using Cons.prems(3) [of y] that rel_poke [OF put] by (simp add: rel_def)
  qed
  then show ?case by (cases "poke a (f x) s") (simp_all add: p)
qed simp

definition vector_image :: "u32 \<Rightarrow> (member_ref \<Rightarrow> u32 option) \<Rightarrow> member_ref option list \<Rightarrow> known \<Rightarrow> bool" where
  "vector_image a M xs K \<longleftrightarrow> (\<forall>i < length xs. \<exists>w. points_to M K (xs ! i) w \<and> has_word K (a + 4 * of_nat i) w)"

lemma vector_image_le: "vector_image a M xs K \<Longrightarrow> K \<subseteq>\<^sub>m K' \<Longrightarrow> vector_image a M xs K'"
  unfolding vector_image_def using points_to_le has_le by meson

lemma runs_vector:
  "ready K c e s \<Longrightarrow> block K a (4 * length xs) \<Longrightarrow> runs K c e (\<lambda>s. s) (\<lambda>s'. rel s' = rel s) (copy_method_vector a xs s)"
proof (induction xs arbitrary: a s)
  case Nil
  then show ?case by (simp add: runs_return)
next
  case (Cons x xs)
  have b: "block K a 4" "block K (a + 4) (4 * length xs)" using block_mono [OF Cons.prems(2)] block_part [OF Cons.prems(2), of 4] by simp_all
  show ?case
    unfolding copy_method_vector.simps
  proof (rule runs_value, rule runs_bind [OF runs_eq [OF runs_poke [OF Cons.prems(1) b(1)]]], goal_cases)
    case (1 w s')
    then show ?case using Cons.IH [OF 1(2) b(2)] rel_poke [of a w s s'] by simp
  qed
qed

lemma lay_vector:
  assumes "laying g R p q m W True F K c e s" "length xs \<le> m" "H \<Longrightarrow> F K \<Longrightarrow> \<forall>x \<in> set xs. \<exists>w. points_to (relmb s) K x w"
  shows "lays g p q m W False (\<lambda>K'. F K' \<and> (H \<longrightarrow> vector_image (q + 24) (relmb s) xs K')) K c e (copy_method_vector (q + 24) xs s)"
proof -
  note all = assms(1) [unfolded laying_def]
  have r: "ready K c e s" and b: "block K (q + 24) (4 * length xs)" using all assms(2) by (auto elim: block_mono)
  note vec = laying_vector [OF assms(1)]
  show ?thesis
  proof (cases H)
    case False
    show ?thesis
    proof (rule runs_mono [OF runs_vector [OF r b]], goal_cases)
      case (1 s')
      then have "laying g (rel s') p q m W False (\<lambda>K'. F K' \<and> (H \<longrightarrow> vector_image (q + 24) (relmb s) xs K')) K (now s') e s'"
        using all False ready_now [OF 1(1)] ready_floor [OF 1(1)] unfolding laying_def by (auto simp: ready_def)
      then show ?case using all ready_now [OF 1(1)] by (auto simp: knows_def intro!: exI [of _ K] grows_refl)
    qed
  next
    case True
    then obtain f where f: "\<And>x. x \<in> set xs \<Longrightarrow> points_to (relmb s) K x (f x)"
      using assms(3) all by (metis map_le_refl)
    let ?bs = "concat (map be_bytes (map f xs))"
    have len: "length ?bs = 4 * length xs" by (simp add: length_concat comp_def sum_list_triv)
    let ?K = "learn K (q + 24) ?bs"
    have le: "K \<subseteq>\<^sub>m ?K" using b len by (intro learn_le) simp
    have words: "vector_image (q + 24) (relmb s) xs ?K"
      unfolding vector_image_def
    proof (intro allI impI exI conjI)
      fix i
      assume i: "i < length xs"
      show "points_to (relmb s) ?K (xs ! i) (f (xs ! i))" using points_to_le [OF f le] i by simp
      have "unat (q + 24) + 4 * length (map f xs) < 2 ^ 32" using b by (simp add: block_def)
      then show "has_word ?K (q + 24 + 4 * of_nat i) (f (xs ! i))"
        using has_concat [OF has_learn, of "q + 24" "map f xs" i K] i by simp
    qed
    have "lays g p q m W False (\<lambda>K'. F K' \<and> (H \<longrightarrow> vector_image (q + 24) (relmb s) xs K')) K c e (Option.bind (poke_bytes (q + 24) ?bs s) Some)"
    proof (rule know_learn_bytes [OF r])
      show "block K (q + 24) (length ?bs)" using b len by simp
      show "unat (q + 24) + length ?bs \<le> c" using all assms(2) len vec by simp
      show "0 \<le> unat (q + 24) \<and> unat (q + 24) + length ?bs \<le> 0 \<or> g \<le> unat (q + 24)" using all vec by simp
      fix s'
      assume r': "ready ?K c e s'"
      show "lays g p q m W False (\<lambda>K'. F K' \<and> (H \<longrightarrow> vector_image (q + 24) (relmb s) xs K')) ?K c e (Some s')"
      proof (rule lay_done [of g "rel s'"])
        have member: "case W d of None \<Rightarrow> block ?K (p + d) 4 | Some w \<Rightarrow> has_word ?K (p + d) w" if d: "unat d \<le> 60" "4 dvd unat d" for d
        proof -
          have "case W d of None \<Rightarrow> block K (p + d) 4 | Some w \<Rightarrow> has_word K (p + d) w" using all d by blast
          moreover have "unat (p + d) + 4 \<le> unat (q + 24)" using laying_at [OF assms(1) d(1)] d(1) all vec by simp
          ultimately show ?thesis by (auto split: option.splits)
        qed
        have "block ?K (q - 12) 36" "block ?K (q + 24 + 4 * of_nat m) 8" using all vec len assms(2) by auto
        moreover have "\<forall>K'. ?K \<subseteq>\<^sub>m K' \<longrightarrow> F K' \<and> (H \<longrightarrow> vector_image (q + 24) (relmb s) xs K')"
          using all map_le_trans [OF le] vector_image_le [OF words] by blast
        ultimately show "laying g (rel s') p q m W False (\<lambda>K'. F K' \<and> (H \<longrightarrow> vector_image (q + 24) (relmb s) xs K')) ?K c e s'"
          unfolding laying_def using all r' member by simp
      qed
    qed
    then show ?thesis by (simp add: vector_is_words [OF r b f] poke_words_is_bytes)
  qed
qed

section \<open>The object hint block\<close>

lemma laying_blocks:
  assumes "laying g R p q m W V F K c e s"
  shows "block K q 4" "block K (q + 4) 4" "block K (q + 8) 4" "block K (q + 12) 4" "block K (q + 16) 4" "block K (q + 20) 4"
    "block K (q - 4) 4" "block K (q + 24 + 4 * of_nat m) 4" "block K (q + 24 + 4 * of_nat m + 4) 4"
proof -
  note b = assms [unfolded laying_def]
  have q: "block K (q - 12) 36" "block K (q + 24 + 4 * of_nat m) 8" using b by simp_all
  have part: "block K (q - 12 + d) 4" if "unat d \<le> 32" for d using block_part [OF q(1), of d 4] that by simp
  have at: "q - 12 + 12 = q" "q - 12 + 16 = q + 4" "q - 12 + 20 = q + 8" "q - 12 + 24 = q + 12" "q - 12 + 28 = q + 16"
    "q - 12 + 32 = q + 20" "q - 12 + 8 = q - 4" by simp_all
  show "block K q 4" using part [of 12, unfolded at] by simp
  show "block K (q + 4) 4" using part [of 16, unfolded at] by simp
  show "block K (q + 8) 4" using part [of 20, unfolded at] by simp
  show "block K (q + 12) 4" using part [of 24, unfolded at] by simp
  show "block K (q + 16) 4" using part [of 28, unfolded at] by simp
  show "block K (q + 20) 4" using part [of 32, unfolded at] by simp
  show "block K (q - 4) 4" using part [of 8, unfolded at] by simp
  show "block K (q + 24 + 4 * of_nat m) 4" by (rule block_mono [OF q(2)]) simp
  show "block K (q + 24 + 4 * of_nat m + 4) 4" by (rule block_part [OF q(2)]) simp
qed

lemma those_len: "those xs = Some ys \<Longrightarrow> length ys = length xs"
  by (induction xs arbitrary: ys) (auto split: option.splits)

lemma laying_ready: "laying g R p q m W V F K c e s \<Longrightarrow> ready K c e s"
  by (simp add: laying_def)

text \<open>The part of copyObjHintBlk that writes the addresses of the fields.\<close>

definition copy_slots :: "u32 \<Rightarrow> resolution \<Rightarrow> loader_state \<Rightarrow> loader_state option" where
  "copy_slots q r s = (if slottbl_size r = 0 then poke (q + 4) 0 s else do {
         (fAptr, s) \<leftarrow> word_array (ucast (slottbl_size r)) SIZEP_OF_OBJREF (classptr_field s) s;
         s \<leftarrow> poke (q + 4) fAptr s;
         ps \<leftarrow> those (map (slot_pointer s) (take (unat (slottbl_size r)) (slottable r)));
         poke_words (fAptr + 8) ps s })"

lemma rel_slots: "copy_slots q r s = Some s' \<Longrightarrow> rel s' = rel s"
  by (auto simp: copy_slots_def word_array_def bind_eq_Some_conv dest!: rel_poke rel_words rel_array split: if_splits)

lemma lay_hint_block:
  assumes "laying g R p q m W True F K c e s" "m = unat (methodtable_size r)"
    "\<And>K'. H \<Longrightarrow> F K' \<Longrightarrow> \<forall>x \<in> set (take m (methodtable r)). \<exists>w. points_to (snd (snd R)) K' x w"
  shows "lays g p q m W False (\<lambda>K'. F K' \<and> (H \<longrightarrow> vector_image (q + 24) (snd (snd R)) (take m (methodtable r)) K')) K c e (copyObjHintBlk cur cA r q s)"
proof -
  have slots: "lays g p q m W True F K c e (copy_slots q r s)" if "laying g R p q m W True F K c e s" for s
    unfolding copy_slots_def
  proof (rule runs_if, rule lay_done_word [OF that laying_blocks(2) [OF that]], rule lay_words [OF that], goal_cases)
    case 1
    show ?case unfolding unat_u16(2) by (rule less_le_trans [OF unat_u16(1)]) simp
  next
    case (2 a s' c')
    show ?case
      unfolding prod.case
    proof (rule lay_free_word [OF 2(2) laying_blocks(2) [OF 2(2)]], rule runs_value, goal_cases)
      case (1 s'' ps)
      have "length ps \<le> unat (slottbl_size r)"
        using 1(2) by (auto dest: those_len)
      then have "block K (a + 8) (4 * length ps)" using 2(3) by (auto elim!: block_mono)
      then show ?case
        using lay_done_bytes [OF 1(1), of "a + 8" "concat (map be_bytes ps)"] by (simp add: poke_words_is_bytes length_concat comp_def sum_list_triv mult.commute)
    qed
  qed
  show ?thesis
    unfolding copyObjHintBlk_def copy_slots_def [symmetric]
  proof (rule lay_free_word [OF assms(1) laying_blocks(1) [OF assms(1)]], rule lay_free_word, assumption, erule laying_blocks(3),
      rule lay_bind, erule slots, erule laying_ready, rule lay_free_word, assumption, erule laying_blocks(4),
      rule lay_free_word, assumption, erule laying_blocks(5), rule lay_free_word, assumption, erule laying_blocks(6), goal_cases)
    case (1 s1 s2 s3 K' c' s4 s5 s6)
    have "rel s2 = R" using 1(2) by (simp add: laying_def)
    then have "rel s6 = R" using rel_slots [OF 1(3)] 1(7) by (simp add: laying_def)
    then have R: "snd (snd R) = relmb s6" by (auto simp: rel_def)
    show ?case
      unfolding assms(2) [symmetric] R by (rule lay_vector [OF 1(7)]) (use assms(3) R in auto)
  qed
qed

section \<open>The class object\<close>

lemma laying_note:
  assumes "laying g R p q m W V F K c e s" "\<And>K'. K \<subseteq>\<^sub>m K' \<Longrightarrow> I K'"
  shows "laying g R p q m W V (\<lambda>K. F K \<and> I K) K c e s"
  using assms unfolding laying_def by blast

lemma laying_member:
  assumes "laying g R p q m W V F K c e s" "W d = Some w" "unat d \<le> 60" "4 dvd unat d"
  shows "has_word K (p + d) w"
  using assms unfolding laying_def by (auto dest!: spec [of _ d])

lemma laying_fact: "laying g R p q m W V F K c e s \<Longrightarrow> F K"
  unfolding laying_def using map_le_refl [of K] by simp

lemma laying_below: "laying g R p q m W V F K c e s \<Longrightarrow> unat q + 32 + 4 * m \<le> c"
  by (simp add: laying_def)

lemma laying_rel: "laying g R p q m W V F K c e s \<Longrightarrow> rel s = R"
  by (simp add: laying_def)

definition interfaces_image :: "u32 \<Rightarrow> u16 list \<Rightarrow> known \<Rightarrow> bool" where
  "interfaces_image a is K \<longleftrightarrow> (\<forall>i < length is. has_word K (a + 8 + 4 * of_nat i) (scast (is ! i)))"

lemma lay_words_bytes:
  assumes "laying g R p q m W V F K c e s" "block K a (4 * length ws)" "unat a + 4 * length ws \<le> c" "unat q + 32 + 4 * m \<le> unat a"
  shows "lays g p q m W V (\<lambda>K. F K \<and> (\<forall>i < length ws. has_word K (a + 4 * of_nat i) (ws ! i))) K c e (poke_words a ws s)"
proof -
  let ?bs = "concat (map be_bytes ws)" let ?I = "\<lambda>K. \<forall>i < length ws. has_word K (a + 4 * of_nat i) (ws ! i)"
  have len: "length ?bs = 4 * length ws" by (simp add: length_concat comp_def sum_list_triv)
  have "unat a + 4 * length ws < 2 ^ 32" using assms(2) by (simp add: block_def)
  then have img: "?I (learn K a ?bs)" using has_concat [OF has_learn] by blast
  have "runs K c e (\<lambda>s. s) (knows K c (unat a) c e ?I) (Option.bind (poke_bytes a ?bs s) Some)"
    by (rule know_learn_bytes [OF laying_ready [OF assms(1)]]) (use assms(2,3) len img in \<open>auto intro!: know_return [where P = "\<lambda>_. ?I"]\<close>)
  then show ?thesis
    unfolding poke_words_is_bytes by (intro lay_loop [OF assms(1) _ assms(4)]) (auto intro: has_le)
qed

lemma lay_poke_done:
  assumes "laying g R p q m W V F K c e s" "W d = None" "unat d \<le> 60" "4 dvd unat d"
  shows "lays g p q m (W(d \<mapsto> w)) V F K c e (poke (p + d) w s)"
proof -
  have "lays g p q m (W(d \<mapsto> w)) V F K c e (Option.bind (poke (p + d) w s) Some)"
    by (rule lay_poke [OF assms], rule lay_done)
  then show ?thesis by simp
qed

lemma lays_mono:
  assumes "lays g p q m W V F K c e r"
    "\<And>s K' c'. r = Some s \<Longrightarrow> laying g (rel s) p q m W V F K' c' e s \<Longrightarrow> laying g (rel s) p q m W' V' F' K' c' e s"
  shows "lays g p q m W' V' F' K c e r"
  by (rule runs_mono [OF runs_eq [OF assms(1)]]) (use assms(2) in \<open>auto simp: knows_def\<close>)

lemma lay_implements:
  assumes "laying g R p q m W V F K c e s" "W 40 = None" "W 44 = None" "length is < 2 ^ 16"
  shows "runs K c e (\<lambda>s. s) (\<lambda>s'. knows K g 0 0 e (\<lambda>K'. \<exists>a. laying g (rel s') p q m (W(44 \<mapsto> of_nat (length is), 40 \<mapsto> a)) V
    (\<lambda>K. F K \<and> interfaces_image a is K) K' (now s') e s') s') (implements_array p is s)"
  unfolding implements_array_def Let_def
proof (rule lay_poke [OF assms(1,3)], simp, simp, rule runs_if, goal_cases)
  case (1 s1)
  have n: "unat (of_nat (length is) :: u32) = length is" using assms(4) by (intro unat_of_small) simp
  show ?case
  proof (rule lay_words [OF 1(1)], use n assms(4) in simp, unfold prod.case n, rule lay_poke, assumption, goal_cases)
    case (4 a s2 c2 s3)
    note below = laying_below [OF assms(1)]
    have far: "unat p + 64 \<le> unat q" "unat q + 32 + 4 * m \<le> unat (a + 8)" "unat (p + 40) = unat p + 40" "unat (p + 44) = unat p + 44"
      using below 4(4) laying_at [OF assms(1)] assms(1) by (simp_all add: laying_def)
    have b: "block (learn_word (learn_word K (p + 44) (of_nat (length is))) (p + 40) a) (a + 8) (4 * length (map scast is :: u32 list))"
      using 4(2) far by simp
    show ?case
      by (rule runs_mono [OF lay_words_bytes [OF 4(5) b]]) (use 4(3) far in \<open>auto simp: interfaces_image_def knows_def\<close>)
  qed (use assms(2) in simp_all)
next
  case (2 s1)
  then have "is = []" by simp
  then show ?case
    by (intro runs_mono [OF lay_poke_done [OF 2(1), of 40 0]]) (use assms(2) in \<open>auto simp: interfaces_image_def knows_def\<close>)
qed

text \<open>The sizes a class file can have, but for the code of a method, which may be up to 1 GB here; names within the constant pool.\<close>

definition class_small :: "class_class \<Rightarrow> bool" where
  "class_small c \<longleftrightarrow> pool_small (pool c) \<and> cp_items (pool c) \<noteq> [] \<and> unat (class_nameIndex c) < length (cp_items (pool c))
     \<and> length (class_fields c) < 2 ^ 16 \<and> list_all (named_within (length (cp_items (pool c)))) (class_fields c)
     \<and> length (class_methods c) < 2 ^ 16 \<and> list_all (method_fits (length (cp_items (pool c)))) (class_methods c)
     \<and> length (implements_list c) < 2 ^ 16"

text \<open>
  What is known of the class object at p with its method vector at v: C, M and the constants in entry are the addresses that
  the loader has in its structures in the end.
\<close>

definition class_image :: "nat \<Rightarrow> class_class \<Rightarrow> resolution \<Rightarrow> loader_state \<Rightarrow> bool \<Rightarrow> (nat \<Rightarrow> u32) \<Rightarrow> u32 \<Rightarrow> u32 \<Rightarrow> loader_state \<Rightarrow> known \<Rightarrow> bool" where
  "class_image k c r e H entry p v s K \<longleftrightarrow> (\<exists>cA fA mA iA su.
     has_word K (p + 16) (of_nat (length (cp_items (pool c)))) \<and> has_word K (p + 4) cA \<and> pool_image p e K (cA + 8) (pool c)
     \<and> (\<forall>i < length (cp_items (pool c)). has_word K (cA + 8 + 4 * of_nat i) (entry i)) \<and> has_word K (p + 32) (entry (unat (class_nameIndex c)))
     \<and> relcb s (super_index r) = Some su \<and> has_word K (p + 36) su
     \<and> has_word K (p + 20) (of_nat (length (class_fields c))) \<and> has_word K (p + 12) fA
     \<and> (\<forall>i < length (class_fields c). field_image p entry e K (fA + 8 + 4 * of_nat i) (class_fields c ! i))
     \<and> has_word K (p + 24) (of_nat (length (class_methods c))) \<and> has_word K (p + 8) mA
     \<and> (\<forall>i < length (class_methods c). method_image p entry e K (mA + 8 + 4 * of_nat i) (class_methods c ! i))
     \<and> (\<forall>i < length (class_methods c). relmb s (k, i) = Some (mA + 8 + 4 * of_nat i))
     \<and> (\<forall>k' i. k' \<noteq> k \<longrightarrow> relmb s (k', i) = relmb e (k', i))
     \<and> has_word K (p + 44) (of_nat (length (implements_list c))) \<and> has_word K (p + 40) iA \<and> interfaces_image iA (implements_list c) K
     \<and> has_word K (p + 28) (v - 32) \<and> (H \<longrightarrow> vector_image v (relmb s) (take (unat (methodtable_size r)) (methodtable r)) K)
     \<and> has_word K (p + 48) (ucast (class_access c)) \<and> has_word K (p + 52) (class_flags (class_methods c)))"

lemma pool_image_le:
  assumes "pool_image p e K a c" "K \<subseteq>\<^sub>m K'"
  shows "pool_image p e K' a c"
  using assms(1) has_le [OF _ assms(2)] image_le_item [OF _ assms(2)] unfolding pool_image_def by blast

lemma rel_items: "copy_cp_items p a xs s = Some s' \<Longrightarrow> rel s' = rel s"
proof (induction xs arbitrary: a s)
  case (Cons x xs)
  obtain t y where x: "x = (t, y)" by (cases x)
  obtain s1 where s1: "copy_cp_item p a t y s = Some s1" "copy_cp_items p (a + 4) xs s1 = Some s'"
    using Cons.prems by (auto simp: x bind_eq_Some_conv)
  have "rel s1 = rel s"
    using s1(1) by (auto simp: copy_cp_item_def copy_string_def bind_eq_Some_conv split: if_splits cp_item.splits
        dest!: rel_poke rel_alloc rel_bytes)
  then show ?case using Cons.IH [OF s1(2)] by simp
qed simp

lemma rel_vector: "copy_method_vector a xs s = Some s' \<Longrightarrow> rel s' = rel s"
  by (induction xs arbitrary: a s) (auto simp: bind_eq_Some_conv dest!: rel_poke)

lemma rel_copies:
  "copyConstantPool p c a s = Some s' \<Longrightarrow> rel s' = rel s"
  "static_value p a f s = Some s' \<Longrightarrow> rel s' = rel s"
  "implements_array p is s = Some s' \<Longrightarrow> rel s' = rel s"
  "copyObjHintBlk p a r q s = Some s' \<Longrightarrow> rel s' = rel s"
  "copyMethodFields p f a s = Some s' \<Longrightarrow> rel s' = rel s"
     apply (auto simp: copyConstantPool_def Let_def bind_eq_Some_conv dest!: rel_poke rel_bytes rel_array rel_items)[1]
    apply (auto simp: static_value_def bind_eq_Some_conv dest!: rel_poke rel_alloc split: if_splits)[1]
   apply (auto simp: implements_array_def Let_def word_array_def bind_eq_Some_conv dest!: rel_poke rel_words rel_array split: if_splits)[1]
  apply (auto simp: copyObjHintBlk_def copy_slots_def [symmetric] bind_eq_Some_conv dest!: rel_poke rel_slots rel_vector)[1]
  apply (auto simp: copyMethodFields_def bind_eq_Some_conv dest!: rel_poke)[1]
  done

lemma rel_exceptions: "copy_exceptions sync acc p a xs s = Some s' \<Longrightarrow> rel s' = rel s"
  by (induction xs arbitrary: p a s) (auto simp: Let_def bind_eq_Some_conv dest!: rel_poke rel_words simp del: poke_words.simps)

lemma rel_table: "copy_exception_table p m s = Some s' \<Longrightarrow> rel s' = rel s"
  by (auto simp: copy_exception_table_def Let_def word_array_def bind_eq_Some_conv
      dest!: rel_poke rel_alloc rel_array rel_exceptions split: if_splits)

lemma rel_field:
  assumes "copy_field p k q a f s = Some s'"
  shows "relcb s' = relcb s \<and> relmb s' = relmb s"
  using assms unfolding copy_field_def Let_def
  by (auto simp: bind_eq_Some_conv dest!: rel_object rel_poke rel_copies(2)) (auto simp: rel_def)

lemma rel_fields: "copyFields p k q a fs s = Some s' \<Longrightarrow> relcb s' = relcb s \<and> relmb s' = relmb s"
  by (induction fs arbitrary: q a s) (auto simp: bind_eq_Some_conv dest!: rel_field)

lemma rel_method:
  assumes "copy_method p k q a m s = Some s'"
  shows "relcb s' = relcb s \<and> relmb s' = (relmb s)((k, q) \<mapsto> a)"
  using assms unfolding copy_method_def Let_def
  by (auto simp: bind_eq_Some_conv dest!: rel_object rel_poke rel_alloc rel_bytes rel_table rel_copies(5)) (auto simp: rel_def)

lemma rel_methods: "copyMethods p k q a ms s = Some s' \<Longrightarrow> relcb s' = relcb s \<and>
   relmb s' = (\<lambda>(k', i). if k' = k \<and> q \<le> i \<and> i < q + length ms then Some (a + 4 * of_nat (i - q)) else relmb s (k', i))"
proof (induction ms arbitrary: q a s)
  case (Cons m ms)
  then obtain s1 where s1: "copy_method p k q a m s = Some s1" "copyMethods p k (Suc q) (a + 4) ms s1 = Some s'"
    by (auto simp: bind_eq_Some_conv)
  have "Some (a + 4 + 4 * of_nat (i - Suc q)) = Some (a + 4 * of_nat (i - q))" if "Suc q \<le> i" for i
  proof -
    have "i - q = Suc (i - Suc q)" using that by simp
    then show ?thesis by (simp only: of_nat_Suc) (simp add: algebra_simps)
  qed
  then show ?case
    using Cons.IH [OF s1(2)] rel_method [OF s1(1)] by (auto simp: fun_eq_iff)
qed (auto simp: fun_eq_iff)

lemma lay_bind_implements:
  assumes "laying g R p q m W V F K c e s" "W 40 = None" "W 44 = None" "length is < 2 ^ 16"
    "\<And>a s' K' c'. laying g R p q m (W(44 \<mapsto> of_nat (length is), 40 \<mapsto> a)) V (\<lambda>K. F K \<and> interfaces_image a is K) K' c' e s' \<Longrightarrow>
       runs K' c' e st (\<lambda>y. knows K' g u h e (P y) (st y)) (k s')"
  shows "runs K c e st (\<lambda>y. knows K g u h e (P y) (st y)) (Option.bind (implements_array p is s) k)"
proof (rule know_bind [OF knows_eq [OF lay_implements [OF assms(1-4)]] laying_ready [OF assms(1)]], goal_cases)
  case (1 K')
  then show ?case by (auto simp: grows_def)
next
  case (2 s' K')
  have "rel s' = R" using 2(4) rel_copies(3) laying_rel [OF assms(1)] by blast
  then show ?case using 2(4) assms(5) by blast
qed

lemma lay_bind_hint_block:
  assumes "laying g R p q m W True F K c e s" "m = unat (methodtable_size r)"
    "\<And>K'. H \<Longrightarrow> F K' \<Longrightarrow> \<forall>x \<in> set (take m (methodtable r)). \<exists>w. points_to (snd (snd R)) K' x w"
    "\<And>s' K' c'. laying g R p q m W False (\<lambda>K'. F K' \<and> (H \<longrightarrow> vector_image (q + 24) (snd (snd R)) (take m (methodtable r)) K')) K' c' e s' \<Longrightarrow>
       runs K' c' e st (\<lambda>y. knows K' g u h e (P y) (st y)) (k s')"
  shows "runs K c e st (\<lambda>y. knows K g u h e (P y) (st y)) (Option.bind (copyObjHintBlk cur cA r q s) k)"
proof (rule lay_bind [OF lay_hint_block [OF assms(1-3)] laying_ready [OF assms(1)]], assumption, assumption, goal_cases)
  case (1 s' K' c')
  have "rel s' = R" using rel_copies(4) [OF 1(1)] laying_rel [OF assms(1)] by simp
  then show ?case using 1(2) by (intro assms(4)) simp
qed

lemma bind_also: "Option.bind r k = Option.bind r (\<lambda>y. if r = Some y then k y else None)"
  by (cases r) simp_all

lemma choose_entries:
  assumes "pool_image p e K a c" "cp_items c \<noteq> []"
  obtains entry where "\<And>i. i < length (cp_items c) \<Longrightarrow> has_word K (a + 4 * of_nat i) (entry i)"
proof -
  have "\<exists>w. has_word K (a + 4 * of_nat i) w" if "i < length (cp_items c)" for i
    using assms that by (cases "i = 0") (auto simp: pool_image_def item_image_def split: if_splits)
  then show ?thesis using that by metis
qed

text \<open>A member of the class object that points to an array whose elements a loop fills in.\<close>

lemma lay_array:
  assumes "laying g R p q m W V F K c e s" "W d = None" "unat d \<le> 60" "4 dvd unat d" "n = of_nat l" "l < 2 ^ 16"
    "\<And>a s' K' c'. laying g R p q m (W(d \<mapsto> a)) V F K' c' e s' \<Longrightarrow> block K' (a + 8) (4 * l) \<Longrightarrow> unat (a + 8) + 4 * l \<le> c' \<Longrightarrow>
       runs K' c' e (\<lambda>s. s) (knows K' c' (unat (a + 8)) (unat (a + 8) + 4 * l) e (I a)) (body a s')"
    "\<And>a K K'. I a K \<Longrightarrow> K \<subseteq>\<^sub>m K' \<Longrightarrow> I a K'"
    "\<And>a s1 s' K' c'. rel s1 = R \<Longrightarrow> body a s1 = Some s' \<Longrightarrow> laying g (rel s') p q m (W(d \<mapsto> a)) V (\<lambda>K. F K \<and> I a K) K' c' e s' \<Longrightarrow>
       runs K' c' e st (\<lambda>y. knows K' g u h e (P y) (st y)) (k a s')"
  shows "runs K c e st (\<lambda>y. knows K g u h e (P y) (st y)) (do { (a, s) \<leftarrow> word_array n sz ty s; s \<leftarrow> poke (p + d) a s; s \<leftarrow> body a s; k a s })"
proof -
  have n: "unat n = l" "unat n < 2 ^ 24" using unat_of_small [of l] assms(5,6) by simp_all
  show ?thesis
  proof (rule lay_words [OF assms(1) n(2)], unfold prod.case n(1), rule lay_poke, assumption, rule assms(2), rule assms(3), rule assms(4), goal_cases)
    case (1 a s1 c1 s2)
    have pos: "unat q + 32 + 4 * m \<le> unat (a + 8)" using laying_below [OF assms(1)] 1(4) by simp
    have "unat (p + d) + 4 \<le> unat (a + 8)" using laying_at [OF assms(1,3)] pos assms(1,3) by (simp add: laying_def)
    then have b: "block (learn_word K (p + d) a) (a + 8) (4 * l)" using 1(2) by simp
    show ?case
      by (rule lay_bind [OF lay_loop [OF 1(5) assms(7) [OF 1(5) b 1(3)] pos assms(8)] laying_ready [OF 1(5)]], assumption, assumption,
          rule assms(9) [OF laying_rel [OF 1(5)]])
  qed
qed

lemma class_object_law:
  assumes "ready K b e s" "class_small c" "rel s = rel e"
    "H \<Longrightarrow> \<forall>x \<in> set (take (unat (methodtable_size r)) (methodtable r)). \<exists>k' i. x = Some (k', i) \<and>
       (if k' = k then i < length (class_methods c) else \<exists>a w. relmb e (k', i) = Some a \<and> has_word K a w)"
  shows "runs K b e snd (\<lambda>y. knows K b 0 0 e (\<lambda>K'. b \<le> unat (fst (fst y)) \<and>
      (\<exists>entry. class_image k c r e H entry (fst (fst y)) (snd (fst y)) (snd y) K')) (snd y)) (class_object k c r s)"
proof -
  let ?n = "length (cp_items (pool c))" let ?m = "unat (methodtable_size r)"
  have small: "pool_small (pool c)" "cp_items (pool c) \<noteq> []" "unat (class_nameIndex c) < ?n" "?n < 2 ^ 16"
    "length (class_fields c) < 2 ^ 16" "length (class_methods c) < 2 ^ 16"
    "list_all (named_within ?n) (class_fields c)" "list_all (method_fits ?n) (class_methods c)" "length (implements_list c) < 2 ^ 16"
    using assms(2) by (simp_all add: class_small_def pool_small_def)
  have u: "unat (of_nat j :: u32) = j" if "j < 2 ^ 16" for j using that by (intro unat_of_small) simp
  then have u24: "unat (of_nat j :: u32) < 2 ^ 24" if "j < 2 ^ 16" for j using that by fastforce
  define P where "P y K' \<longleftrightarrow> b \<le> unat (fst (fst y)) \<and> (\<exists>entry. class_image k c r e H entry (fst (fst y)) (snd (fst y)) (snd y) K')"
    for y :: "(u32 \<times> u32) \<times> loader_state" and K'
  show ?thesis
    unfolding class_object_def Let_def P_def [symmetric]
  proof (subst bind_also, rule runs_bind_OBJ [OF assms(1)], simp, simp, unfold prod.case, rule runs_if, goal_cases)
    case (1 p s1)
    then have b: "block K p 64" "ready K (unat p + 64) e s1" "b \<le> unat p" by simp_all
    have rel1: "relcb s1 = relcb e" "relmb s1 = relmb e" using rel_object [OF 1(5)] assms(3) by (simp_all add: rel_def)
    let ?s = "s1\<lparr>relcb := (relcb s1)(k \<mapsto> p)\<rparr>"
    have c64: "unat p + (unat (68 :: u32) - 4) = unat p + 64" by simp
    show ?case
      unfolding c64
    proof (rule lay_hint [where F = "\<lambda>K'. K \<subseteq>\<^sub>m K'" and m = ?m and c = "unat p + 64" and p = p], goal_cases)
      case (7 q s2 K2 c2)
      note L = 7
      have far: "unat p + 64 \<le> unat q" "unat q + 32 + 4 * ?m \<le> c2" using L by (simp_all add: laying_def)
      note at = laying_at [OF L]
      show ?case
        unfolding prod.case
      proof (rule lay_poke [OF L], simp, simp, simp, rule lay_array [where body = "\<lambda>a. copyConstantPool p (pool c) (a + 8)" and
          I = "\<lambda>a K. pool_image p e K (a + 8) (pool c)"], assumption, simp, simp, simp, rule refl, rule small(4), rule constants_law,
          erule laying_ready, rule small(1), assumption, assumption, rule small(2), erule pool_image_le, assumption, goal_cases)
        case (1 s3 cA s4 s6 K6 c6)
        note 6 = 1
        obtain entry where entry: "\<And>i. i < ?n \<Longrightarrow> has_word K6 (cA + 8 + 4 * of_nat i) (entry i)"
          using choose_entries laying_fact [OF 1(4)] small(2) by metis
        let ?F = "\<lambda>K'. K \<subseteq>\<^sub>m K' \<and> pool_image p e K' (cA + 8) (pool c) \<and> (\<forall>i < ?n. has_word K' (cA + 8 + 4 * of_nat i) (entry i))"
        let ?W = "[28 \<mapsto> q - 8, 16 \<mapsto> of_nat ?n, 4 \<mapsto> cA]"
        have L6: "laying b (rel s6) p q ?m ?W True ?F K6 c6 e s6"
          using laying_note [OF 1(4), of "\<lambda>K'. \<forall>i < ?n. has_word K' (cA + 8 + 4 * of_nat i) (entry i)"] has_le [OF entry]
          by (simp add: conj_assoc)
        have nm: "peek s6 (cA + 8 + 4 * ucast (class_nameIndex c)) = Some (entry (unat (class_nameIndex c)))"
          using peek_known [OF laying_ready [OF L6] entry [OF small(3)]] by simp
        have entries: "entries_known p ?n entry K'" if "laying b R p q ?m W V F K' c' e s'" "\<And>K'. F K' \<Longrightarrow> ?F K'" "W 4 = Some cA" for R W V F K' c' s'
          using that(2) [OF laying_fact [OF that(1)]] laying_member [OF that(1,3)] by (auto simp: entries_known_def)
        have fields: "runs K' c' e (\<lambda>s. s) (knows K' c' (unat (a + 8)) (unat (a + 8) + 4 * length (class_fields c)) e
             (\<lambda>K'. \<forall>i < length (class_fields c). field_image p entry e K' (a + 8 + 4 * of_nat i) (class_fields c ! i)))
            (copyFields p k 0 (a + 8) (class_fields c) s')"
          if "laying b R p q ?m W V F K' c' e s'" "\<And>K'. F K' \<Longrightarrow> ?F K'" "W 4 = Some cA" "block K' (a + 8) (4 * length (class_fields c))"
            "unat (a + 8) + 4 * length (class_fields c) \<le> c'" for R W V F K' c' s' a
          by (rule fields.copies [OF laying_ready [OF that(1)] entries [OF that(1-3)] that(4,5) small(7)])
        have methods: "runs K' c' e (\<lambda>s. s) (knows K' c' (unat (a + 8)) (unat (a + 8) + 4 * length (class_methods c)) e
             (\<lambda>K'. \<forall>i < length (class_methods c). method_image p entry e K' (a + 8 + 4 * of_nat i) (class_methods c ! i)))
            (copyMethods p k 0 (a + 8) (class_methods c) s')"
          if "laying b R p q ?m W V F K' c' e s'" "\<And>K'. F K' \<Longrightarrow> ?F K'" "W 4 = Some cA" "block K' (a + 8) (4 * length (class_methods c))"
            "unat (a + 8) + 4 * length (class_methods c) \<le> c'" for R W V F K' c' s' a
          by (rule methods.copies [OF laying_ready [OF that(1)] entries [OF that(1-3)] that(4,5) small(8)])
        show ?case
          unfolding nm bind.simps
        proof (rule lay_poke [OF L6], simp, simp, simp, rule runs_value, rule lay_poke, assumption, simp, simp, simp,
            rule lay_poke, assumption, simp, simp, simp,
            rule lay_array [where body = "\<lambda>a. copyFields p k 0 (a + 8) (class_fields c)" and
              I = "\<lambda>a K'. \<forall>i < length (class_fields c). field_image p entry e K' (a + 8 + 4 * of_nat i) (class_fields c ! i)"],
            assumption, simp, simp, simp, rule refl, rule small(5), rule fields, assumption, assumption, simp, assumption, assumption, goal_cases)
          case (1 s7 su s8 s9 a K K')
          then show ?case using field_image_le by blast
        next
          case (2 s7 su s8 s9 fA s10 s11 K11 c11)
          note 11 = 2
          show ?case
          proof (rule lay_poke [OF 2(7)], simp, simp, simp,
            rule lay_array [where body = "\<lambda>a. copyMethods p k 0 (a + 8) (class_methods c)" and
              I = "\<lambda>a K'. \<forall>i < length (class_methods c). method_image p entry e K' (a + 8 + 4 * of_nat i) (class_methods c ! i)"],
            assumption, simp, simp, simp, rule refl, rule small(6), rule methods, assumption, blast, simp, assumption, assumption, goal_cases)
            case (1 s12 a K K')
            then show ?case using method_image_le by blast
          next
            case (2 s12 mA s13 s14 K14 c14)
            have relcb: "relcb s14 = (relcb e)(k \<mapsto> p)" and relmb: "relmb s14 (k', i) = (if k' = k \<and> i < length (class_methods c) then
                Some (mA + 8 + 4 * of_nat i) else relmb e (k', i))" and su: "relcb s14 (super_index r) = Some su" for k' i
            proof -
              have s6: "relcb s6 = (relcb e)(k \<mapsto> p)" "relmb s6 = relmb e"
                using rel_copies(1) [OF 6(3)] 6(2) rel1 by (simp_all add: rel_def)
              note s11 = rel_fields [OF 11(6)] and s14 = rel_methods [OF 2(3)]
              show "relcb s14 = (relcb e)(k \<mapsto> p)" "relmb s14 (k', i) = (if k' = k \<and> i < length (class_methods c) then
                Some (mA + 8 + 4 * of_nat i) else relmb e (k', i))" "relcb s14 (super_index r) = Some su"
                using s6 s11 s14 2(2) 11(2,5) laying_rel [OF 11(1)] by (simp_all add: rel_def)
            qed
            have table: "\<forall>x \<in> set (take ?m (methodtable r)). \<exists>w. points_to (relmb s14) K' x w"
              if H: "H" and le: "K \<subseteq>\<^sub>m K'" and ms: "\<forall>i < length (class_methods c). method_image p entry e K' (mA + 8 + 4 * of_nat i) (class_methods c ! i)" for K'
            proof
              fix x
              assume "x \<in> set (take ?m (methodtable r))"
              then obtain k' i where x: "x = Some (k', i)" "if k' = k then i < length (class_methods c) else \<exists>a w. relmb e (k', i) = Some a \<and> has_word K a w"
                using assms(4) [OF H] by blast
              show "\<exists>w. points_to (relmb s14) K' x w"
              proof (cases "k' = k")
                case True
                then have i: "i < length (class_methods c)" using x(2) by simp
                obtain mo where "has_word K' (mA + 8 + 4 * of_nat i) mo" using ms i by (auto simp: method_image_def)
                then show ?thesis using x(1) relmb [of k' i] True i by (auto simp: points_to_def)
              next
                case False
                then obtain a w where "relmb e (k', i) = Some a" "has_word K a w" using x(2) by auto
                then show ?thesis using x(1) relmb [of k' i] False has_le [OF _ le] by (auto simp: points_to_def)
              qed
            qed
            show ?case
            proof (rule lay_bind_implements [OF 2(4)], simp, simp, rule small(9), rule lay_bind_hint_block [where H = H], assumption, rule refl, goal_cases)
              case (1 iA s15 K15 c15 K')
              then show ?case using table by (simp add: rel_def)
            next
              case (2 iA s15 K15 c15 s16 K16 c16)
              have foot: "q + (ucast (methodtable_size r) + 6) * 4 = q + 24 + 4 * of_nat ?m"
                "q + (ucast (methodtable_size r) + 6) * 4 + 4 = q + 24 + 4 * of_nat ?m + 4" by (simp_all add: algebra_simps)
              show ?case
                unfolding foot
              proof (rule lay_free_word, rule 2(2), rule laying_blocks(7) [OF 2(2)], rule lay_free_word, assumption, erule laying_blocks(8),
                  rule lay_free_word, assumption, erule laying_blocks(9), rule lay_poke, assumption, simp, simp, simp, rule lay_poke,
                  assumption, simp, simp, simp, rule lay_poke, assumption, simp, simp, simp, rule lay_poke, assumption, simp, simp, simp,
                  rule know_return [where st = snd], unfold prod.sel, erule laying_ready, goal_cases)
                case (1 s17 s18 s19 s20 s21 s22 s23)
                note L = 1(7)
                note at = laying_member [OF L]
                have bp: "b \<le> unat p" using L by (simp add: laying_def)
                have R: "rel s23 = rel s14" by (rule laying_rel [OF L])
                then have R': "relcb s23 = relcb s14" "relmb s23 = relmb s14" by (simp_all add: rel_def)
                show ?case
                  unfolding P_def prod.sel class_image_def
                proof (rule conjI [OF bp], rule exI [of _ entry], rule exI [of _ cA], rule exI [of _ fA], rule exI [of _ mA], rule exI [of _ iA], rule exI [of _ su], intro conjI)
                  show "relcb s23 (super_index r) = Some su" using R' su by simp
                  show "\<forall>i < length (class_methods c). relmb s23 (k, i) = Some (mA + 8 + 4 * of_nat i)" using R' relmb by simp
                  show "\<forall>k' i. k' \<noteq> k \<longrightarrow> relmb s23 (k', i) = relmb e (k', i)" using R' relmb by simp
                qed (use R' at [of 28] at [of 16] at [of 4] at [of 32] at [of 36] at [of 20] at [of 12] at [of 24] at [of 8] at [of 44] at [of 40] at [of 48] at [of 52]
                    laying_fact [OF L] in \<open>simp_all add: rel_def\<close>)
              qed
            qed
          qed
        qed
      qed
    qed (use b in simp_all)
  qed simp
qed

end
