(* ===== verification/Copier_Properties.thy ===== *)
theory Copier_Properties
  imports Copier_Layout
begin

text \<open>
  What copyOneBinClass leaves in the memory: the class object with its constants, fields and methods, the vector of
  method pointers through which virtual calls go, and the table of classes. Everything else stays as it was.
\<close>

section \<open>What the copier leaves in the memory\<close>

text \<open>Everything allocated before.\<close>

definition contents :: "loader_state \<Rightarrow> known" where
  "contents s x = (if x < now s then Some (commonMemory (memory s) (of_nat x)) else None)"

definition loader_ready :: "loader_state \<Rightarrow> bool" where
  "loader_ready s \<longleftrightarrow> unat (CM_SIZE (memory s)) \<le> 2 ^ 30 \<and> currentAddress (memory s) \<le> CM_SIZE (memory s) \<and> 4 dvd now s"

lemma ready_contents: "loader_ready s \<Longrightarrow> ready (contents s) (now s) s s"
  unfolding ready_def loader_ready_def contents_def same_env_def by (auto simp: word_le_nat_alt split: if_splits)

lemma contents_word:
  assumes "unat a + 4 \<le> now s"
  shows "\<exists>w. has_word (contents s) a w"
proof -
  let ?bs = "map (\<lambda>i. commonMemory (memory s) (of_nat (unat a + i))) [0..<4]"
  have "has (contents s) a ?bs" using assms by (simp add: has_def contents_def)
  moreover have "be_bytes (be_word ?bs) = ?bs" by (rule be_bytes_be_word) simp
  ultimately show ?thesis by metis
qed

text \<open>Every entry of the method table is a method of the class or one whose class was copied before.\<close>

definition methods_placed :: "nat \<Rightarrow> class_class \<Rightarrow> resolution \<Rightarrow> loader_state \<Rightarrow> bool" where
  "methods_placed k c r s \<longleftrightarrow> (\<forall>x \<in> set (take (unat (methodtable_size r)) (methodtable r)). \<exists>k' i. x = Some (k', i) \<and>
     (if k' = k then i < length (class_methods c) else \<exists>a. relmb s (k', i) = Some a \<and> unat a + 4 \<le> now s))"

lemma class_object_image:
  assumes "loader_ready s" "class_small c" "class_object k c r s = Some ((p, v), s')"
  obtains K entry where "contents s \<subseteq>\<^sub>m K" "ready K (now s') s s'" "now s \<le> unat p" "now s \<le> now s'"
    "class_image k c r s (methods_placed k c r s) entry p v s' K"
proof -
  let ?H = "methods_placed k c r s"
  have "runs (contents s) (now s) s snd (\<lambda>y. knows (contents s) (now s) 0 0 s (\<lambda>K'. now s \<le> unat (fst (fst y)) \<and>
      (\<exists>entry. class_image k c r s ?H entry (fst (fst y)) (snd (fst y)) (snd y) K')) (snd y)) (class_object k c r s)"
    by (rule class_object_law [OF ready_contents [OF assms(1)] assms(2) refl])
      (use contents_word in \<open>unfold methods_placed_def, fastforce\<close>)
  then show ?thesis
    using assms(3) that by (auto simp: runs_def knows_def dest: grows_le ready_floor)
qed


text \<open>The element i of the array that a class object has at offset d, and a string with key as the code compares it.\<close>

definition class_element :: "loader_state \<Rightarrow> u32 \<Rightarrow> u32 \<Rightarrow> nat \<Rightarrow> u32 option" where
  "class_element s p d i = do { a \<leftarrow> peek s (p + d); peek s (a + 8 + 4 * of_nat i) }"

definition named_at :: "loader_state \<Rightarrow> u32 \<Rightarrow> u8 list \<Rightarrow> bool" where
  "named_at s a str \<longleftrightarrow> (\<exists>nm. peek s a = Some nm \<and> (\<forall>t. 0 \<notin> set t \<longrightarrow> string_at (memory s) (nm + 4) t = Some (t = c_str str)))"

lemma string_known:
  "ready K c e s \<Longrightarrow> has K a (bs @ [0]) \<Longrightarrow> 0 \<notin> set bs \<Longrightarrow> 0 \<notin> set t \<Longrightarrow> string_at (memory s) a t = Some (t = bs)"
proof (induction t arbitrary: a bs)
  case Nil
  then show ?case using has_nth [of K c e s a "bs @ [0]" 0] by (cases bs) auto
next
  case (Cons x t)
  have get: "block_get (memory s) MainBlock a = Some ((bs @ [0]) ! 0)"
    using has_nth [of K c e s a "bs @ [0]" 0] Cons.prems by simp
  show ?case
  proof (cases bs)
    case (Cons y ys)
    have "unat a + length (bs @ [0]) < 2 ^ 32" using has_bound [OF Cons.prems(1,2)] by simp
    then have "has K (a + 1) (ys @ [0])" using has_append [of a "[y]" "ys @ [0]" K] Cons.prems(2) Cons by simp
    then show ?thesis using Cons.IH [of "a + 1" ys] Cons.prems Cons get by auto
  qed (use get Cons.prems in auto)
qed

lemma named_known:
  assumes "ready K c e s" "pool_image p e K (cA + 8) q" "\<forall>i < length (cp_items q). has_word K (cA + 8 + 4 * of_nat i) (entry i)"
    "pool_wf q" "named q str i" "has_word K a (entry (unat i))"
  shows "named_at s a str"
proof -
  let ?a = "cA + 8 + 4 * of_nat (unat i)"
  have i: "0 < unat i" "unat i < length (cp_items q)" "type_table q ! unat i = 1 OR RESOLVED" "cp_items q ! unat i = CpUtf8 str"
    using assms(4,5) by (simp_all add: named_def str_ok_def pool_wf_def unat_gt_0)
  have "(1 OR RESOLVED :: u8) AND 0x7F = 1" by (simp add: RESOLVED_def)
  moreover have "item_image p e K ?a (type_table q ! unat i, cp_items q ! unat i)" using assms(2) i(1,2) unfolding pool_image_def by blast
  ultimately obtain nm where nm: "has_word K ?a nm" "has K (nm + 4) (c_str str @ [0])"
    unfolding item_image_def i(3,4) by (auto simp del: of_nat_unat)
  have "entry (unat i) = nm"
    using peek_known [OF assms(1) nm(1)] peek_known [OF assms(1) assms(3) [rule_format, OF i(2)]] by simp
  moreover have "0 \<notin> set (c_str str)" by (auto simp: c_str_def dest: set_takeWhileD)
  ultimately show ?thesis
    using peek_known [OF assms(1,6)] string_known [OF assms(1) nm(2)] by (simp add: named_at_def)
qed

text \<open>Property C15: the fields of a class that was copied can be found from its class object: element i of the array at its
  offset 12 is the object of field i, with the name, the signature, the access flags of the field, its class and, for an
  instance variable, its slot.\<close>
theorem class_fields_copied:
  assumes "loader_ready s" "class_small c" "class_wf c" "class_object k c r s = Some ((p, v), s')"
  shows "\<forall>i < length (class_fields c). \<exists>f. class_element s' p 12 i = Some f
    \<and> named_at s' (f + 20) (name (class_fields c ! i)) \<and> named_at s' (f + 12) (signature (class_fields c ! i))
    \<and> peek s' (f + 16) = Some (ucast (access (class_fields c ! i))) \<and> peek s' (f + 8) = Some p
    \<and> (\<not> is_static_member (class_fields c ! i) \<longrightarrow> peek s' (f + 4) = Some (offset (class_fields c ! i)))"
proof (intro allI impI)
  fix i
  assume i: "i < length (class_fields c)"
  let ?f = "class_fields c ! i"
  obtain K entry where r: "ready K (now s') s s'" and img: "class_image k c r s (methods_placed k c r s) entry p v s' K"
    using class_object_image [OF assms(1,2,4)] by metis
  note peek = peek_known [OF r]
  obtain cA fA where pool: "pool_image p s K (cA + 8) (pool c)" "\<forall>i < length (cp_items (pool c)). has_word K (cA + 8 + 4 * of_nat i) (entry i)"
    and fA: "has_word K (p + 12) fA" "field_image p entry s K (fA + 8 + 4 * of_nat i) ?f"
    using img i unfolding class_image_def by blast
  obtain f where f: "has_word K (fA + 8 + 4 * of_nat i) f" "has_word K (f + 12) (entry (unat (sigIndex ?f)))" "has_word K (f + 8) p"
     "has_word K (f + 16) (ucast (access ?f))" "\<not> is_static_member ?f \<longrightarrow> has_word K (f + 4) (offset ?f)"
     "has_word K (f + 20) (entry (unat (nameIndex ?f)))"
    using fA(2) unfolding field_image_def by blast
  have names: "named (pool c) (name ?f) (nameIndex ?f)" "named (pool c) (signature ?f) (sigIndex ?f)" "pool_wf (pool c)"
    using assms(3) i by (auto simp: class_wf_def list_all_length field_wf_def member_wf_def)
  show "\<exists>f. class_element s' p 12 i = Some f \<and> named_at s' (f + 20) (name ?f) \<and> named_at s' (f + 12) (signature ?f)
    \<and> peek s' (f + 16) = Some (ucast (access ?f)) \<and> peek s' (f + 8) = Some p \<and> (\<not> is_static_member ?f \<longrightarrow> peek s' (f + 4) = Some (offset ?f))"
    using named_known [OF r pool names(3,1) f(6)] named_known [OF r pool names(3,2) f(2)]
      peek [OF fA(1)] peek [OF f(1)] peek [OF f(3)] peek [OF f(4)] f(5) peek
    by (intro exI [of _ f]) (auto simp: class_element_def)
qed

lemma peek_concat:
  assumes "ready K c e s" "has K a (concat (map be_bytes ws))" "i < length ws"
  shows "peek s (a + 4 * of_nat i) = Some (ws ! i)"
proof -
  have "length (concat (map be_bytes ws)) = 4 * length ws" by (simp add: length_concat comp_def sum_list_triv)
  then have "unat a + 4 * length ws < 2 ^ 32" using has_bound [OF assms(1,2)] assms(3) by fastforce
  then show ?thesis using peek_known [OF assms(1) has_concat [OF assms(2) _ assms(3)]] by simp
qed

text \<open>The object of method number i of class c, with the method object at mo.\<close>

definition exceptions_at :: "loader_state \<Rightarrow> u32 \<Rightarrow> methodblock \<Rightarrow> bool" where
  "exceptions_at s mo m \<longleftrightarrow> peek s (mo + 28) = Some (of_nat (exception_table_length m)) \<and>
     (\<forall>j < exception_table_length m. \<exists>a x. let c = copied_catch (sync_methods s) (access (fb m)) (exception_table m ! j) in
        peek s (mo + 24) = Some a \<and> peek s (a + 8 + 4 * of_nat j) = Some x \<and> peek s (x + 4) = Some (start_pc c)
        \<and> peek s (x + 8) = Some (end_pc c) \<and> peek s (x + 12) = Some (handler_pc c) \<and> peek s (x + 16) = Some (scast (catchType (exception_table m ! j))))"

definition method_object_at :: "loader_state \<Rightarrow> u32 \<Rightarrow> u32 \<Rightarrow> methodblock \<Rightarrow> bool" where
  "method_object_at s p mo m \<longleftrightarrow> (\<exists>q bs. peek s (mo + 4) = Some q \<and> method_code (sync_methods s) m = Some bs
     \<and> (\<forall>j < length bs. block_get (memory s) MainBlock (q + of_nat j) = Some (bs ! j)) \<and> peek s (mo + 20) = Some (of_nat (length bs)))
     \<and> exceptions_at s mo m \<and> peek s (mo + 36) = Some p \<and> named_at s (mo + 48) (name (fb m)) \<and> named_at s (mo + 40) (signature (fb m))
     \<and> peek s (mo + 44) = Some (ucast (access (fb m)))
     \<and> peek s (mo + 12) = Some (push_bit 16 (offset (fb m)) OR push_bit 2 (ucast (args_size m)))
     \<and> peek s (mo + 16) = Some (push_bit 2 (ucast (maxstack m) + (if is_sync s m then 1 else 0)))
     \<and> peek s (mo + 8) = Some (push_bit 2 (ucast (nlocals m)))"

lemma exceptions_known:
  assumes "ready K c e s" "table_image e K mo m"
  shows "exceptions_at s mo m"
  unfolding exceptions_at_def
proof (intro conjI allI impI)
  show "peek s (mo + 28) = Some (of_nat (exception_table_length m))"
    using peek_known [OF assms(1)] assms(2) by (auto simp: table_image_def split: if_splits)
  fix j
  assume j: "j < exception_table_length m"
  let ?c = "copied_catch (sync_methods e) (access (fb m)) (exception_table m ! j)"
  obtain ea x where x: "has_word K (mo + 24) ea" "has_word K (ea + 8 + 4 * of_nat j) x"
    "has K x (concat (map be_bytes [mvb_exceptionBlk e, start_pc ?c, end_pc ?c, handler_pc ?c, scast (catchType (exception_table m ! j))]))"
    using assms(2) j by (auto simp: table_image_def exception_image_def Let_def split: if_splits)
  have w: "peek s (x + 4) = Some (start_pc ?c)" "peek s (x + 8) = Some (end_pc ?c)" "peek s (x + 12) = Some (handler_pc ?c)"
    "peek s (x + 16) = Some (scast (catchType (exception_table m ! j)))"
    using peek_concat [OF assms(1) x(3), of 1] peek_concat [OF assms(1) x(3), of 2] peek_concat [OF assms(1) x(3), of 3]
      peek_concat [OF assms(1) x(3), of 4] by simp_all
  show "\<exists>a x. let c = copied_catch (sync_methods s) (access (fb m)) (exception_table m ! j) in
        peek s (mo + 24) = Some a \<and> peek s (a + 8 + 4 * of_nat j) = Some x \<and> peek s (x + 4) = Some (start_pc c)
        \<and> peek s (x + 8) = Some (end_pc c) \<and> peek s (x + 12) = Some (handler_pc c) \<and> peek s (x + 16) = Some (scast (catchType (exception_table m ! j)))"
    unfolding Let_def ready_env(2) [OF assms(1)]
    by (rule exI [of _ ea], rule exI [of _ x], intro conjI peek_known [OF assms(1) x(1)] peek_known [OF assms(1) x(2)] w)
qed

lemma class_methods_known:
  assumes "loader_ready s" "class_small c" "class_wf c" "class_object k c r s = Some ((p, v), s')" "i < length (class_methods c)"
  shows "\<exists>mo. class_element s' p 8 i = Some mo \<and> method_object_at s' p mo (class_methods c ! i)"
proof -
  let ?m = "class_methods c ! i"
  obtain K entry where r: "ready K (now s') s s'" and img: "class_image k c r s (methods_placed k c r s) entry p v s' K"
    using class_object_image [OF assms(1,2,4)] by metis
  note peek = peek_known [OF r]
  obtain cA mA where pool: "pool_image p s K (cA + 8) (pool c)" "\<forall>i < length (cp_items (pool c)). has_word K (cA + 8 + 4 * of_nat i) (entry i)"
    and mA: "has_word K (p + 8) mA" "method_image p entry s K (mA + 8 + 4 * of_nat i) ?m"
    using img assms(5) unfolding class_image_def by blast
  obtain mo q bs where m: "has_word K (mA + 8 + 4 * of_nat i) mo" "has_word K (mo + 4) q" "method_code (sync_methods s) ?m = Some bs"
    "has K q bs" "has_word K (mo + 20) (of_nat (length bs))" "table_image s K mo ?m" "header_image p entry K (mo + 32) (fb ?m)"
    "has_word K (mo + 12) (push_bit 16 (offset (fb ?m)) OR push_bit 2 (ucast (args_size ?m)))"
    "has_word K (mo + 16) (push_bit 2 (ucast (maxstack ?m) + (if is_sync s ?m then 1 else 0)))"
    "has_word K (mo + 8) (push_bit 2 (ucast (nlocals ?m)))"
    using mA(2) unfolding method_image_def by blast
  have names: "named (pool c) (name (fb ?m)) (nameIndex (fb ?m))" "named (pool c) (signature (fb ?m)) (sigIndex (fb ?m))" "pool_wf (pool c)"
    using assms(3,5) by (auto simp: class_wf_def list_all_length method_wf_def member_wf_def)
  have h: "has_word K (mo + 36) p" "has_word K (mo + 40) (entry (unat (sigIndex (fb ?m))))" "has_word K (mo + 44) (ucast (access (fb ?m)))"
    "has_word K (mo + 48) (entry (unat (nameIndex (fb ?m))))"
    using m(7) by (simp_all add: header_image_def add.assoc)
  have "class_element s' p 8 i = Some mo" using peek [OF mA(1)] peek [OF m(1)] by (simp add: class_element_def)
  moreover have "method_object_at s' p mo ?m"
    unfolding method_object_at_def ready_env(2) [OF r] is_sync_env [OF r]
    by (intro conjI exI [of _ q] exI [of _ bs] peek m(2,3,5,8-) h(1,3) exceptions_known [OF r m(6)] allI impI has_nth [OF r m(4)]
        named_known [OF r pool names(3,1) h(4)] named_known [OF r pool names(3,2) h(2)])
  ultimately show ?thesis by blast
qed

text \<open>Property C14: the methods of a class that was copied can be found from its class object: element i of the array at its
  offset 8 is the object of method i, with its name, its signature, its access flags, the sizes of its frame, its
  code, which for a synchronized method is the rewritten one, and its exception table.\<close>
theorem class_methods_copied:
  assumes "loader_ready s" "class_small c" "class_wf c" "class_object k c r s = Some ((p, v), s')"
  shows "\<forall>i < length (class_methods c). \<exists>mo. class_element s' p 8 i = Some mo \<and> method_object_at s' p mo (class_methods c ! i)"
  using class_methods_known [OF assms] by blast

lemma find_upt_Suc: "find P [0..<Suc n] = (if P 0 then Some 0 else map_option Suc (find (\<lambda>i. P (Suc i)) [0..<n]))"
proof -
  have "find Q (map Suc xs) = map_option Suc (find (\<lambda>i. Q (Suc i)) xs)" for Q xs by (induction xs) simp_all
  then show ?thesis unfolding upt_conv_Cons [OF zero_less_Suc] map_Suc_upt [symmetric] by simp
qed

lemma search_finds:
  assumes "0 \<notin> set str"
  shows "(\<And>i. i < n \<Longrightarrow> peek s (a + 4 * of_nat i) = Some (f i) \<and> named_at s (f i + 48) (nm i)) \<Longrightarrow>
    search_methods str a n s = Some (case find (\<lambda>i. c_str (nm i) = str) [0..<n] of None \<Rightarrow> 0 | Some i \<Rightarrow> f i)"
proof (induction n arbitrary: a f nm)
  case (Suc n)
  have rest: "search_methods str (a + 4) n s = Some (case find (\<lambda>i. c_str (nm (Suc i)) = str) [0..<n] of None \<Rightarrow> 0 | Some i \<Rightarrow> f (Suc i))"
  proof (rule Suc.IH)
    show "peek s (a + 4 + 4 * of_nat i) = Some (f (Suc i)) \<and> named_at s (f (Suc i) + 48) (nm (Suc i))" if "i < n" for i
      using Suc.prems [of "Suc i"] that by (simp add: algebra_simps)
  qed
  obtain t where t: "peek s (f 0 + 48) = Some t" "string_at (memory s) (t + 4) str = Some (str = c_str (nm 0))"
    using Suc.prems [of 0] assms by (auto simp: named_at_def)
  have "peek s a = Some (f 0)" using Suc.prems [of 0] by simp
  then show ?case
    using rest t unfolding find_upt_Suc by (cases "c_str (nm 0) = str") (auto split: option.splits)
qed simp

text \<open>Looking a method up by name in a class that was copied finds the first of its methods with that name: cmFindMethod
  returns the method object, and 0 where no method has the name.\<close>
lemma class_method_found:
  assumes "loader_ready s" "class_small c" "class_wf c" "class_object k c r s = Some ((p, v), s')" "0 \<notin> set str"
  shows "cmFindMethod p str s' = (case find (\<lambda>i. c_str (name (fb (class_methods c ! i))) = str) [0..<length (class_methods c)] of
    None \<Rightarrow> Some 0 | Some i \<Rightarrow> class_element s' p 8 i)"
proof -
  let ?n = "length (class_methods c)"
  obtain f where f: "\<And>i. i < ?n \<Longrightarrow> class_element s' p 8 i = Some (f i) \<and> method_object_at s' p (f i) (class_methods c ! i)"
  proof -
    have "\<forall>i. \<exists>mo. i < ?n \<longrightarrow> class_element s' p 8 i = Some mo \<and> method_object_at s' p mo (class_methods c ! i)"
      using class_methods_known [OF assms(1-4)] by blast
    from choice [OF this] show ?thesis using that by blast
  qed
  obtain K entry where r: "ready K (now s') s s'" and img: "class_image k c r s (methods_placed k c r s) entry p v s' K"
    using class_object_image [OF assms(1,2,4)] by metis
  obtain mA where mA: "has_word K (p + 8) mA" "has_word K (p + 24) (of_nat ?n)" using img unfolding class_image_def by blast
  note mA = mA [THEN peek_known [OF r]]
  have n: "unat (of_nat ?n :: u32) = ?n" using assms(2) by (intro unat_of_small) (simp add: class_small_def)
  have "search_methods str (mA + 8) ?n s' = Some (case find (\<lambda>i. c_str (name (fb (class_methods c ! i))) = str) [0..<?n] of None \<Rightarrow> 0 | Some i \<Rightarrow> f i)"
    by (rule search_finds [OF assms(5)]) (use f mA(1) in \<open>auto simp: class_element_def method_object_at_def\<close>)
  moreover have "i < ?n" if "find (\<lambda>i. c_str (name (fb (class_methods c ! i))) = str) [0..<?n] = Some i" for i
    using that by (auto simp: find_Some_iff)
  ultimately show ?thesis
    using f by (simp add: cmFindMethod_def mA n split: option.split)
qed

text \<open>Property C13: virtual calls reach the right code. Entry j of the method vector that copying a class returns points 4 bytes
  into the method object that entry j of the method table stands for, where that object has the address of its code. For a
  method of the class itself it is the object the class has for it, for an inherited one the object of the class
  copied before. The class object at its offset 28 points to the hint block that the vector is part of.\<close>
theorem class_dispatch:
  assumes "loader_ready s" "class_small c" "methods_placed k c r s" "class_object k c r s = Some ((p, v), s')"
    "j < unat (methodtable_size r)" "j < length (methodtable r)" "methodtable r ! j = Some (k', i)"
  shows "peek s' (p + 28) = Some (v - 32) \<and> (\<exists>mo. peek s' (v + 4 * of_nat j) = Some (mo + 4)
    \<and> (if k' = k then class_element s' p 8 i = Some mo else \<exists>a. relmb s (k', i) = Some a \<and> peek s a = Some mo))"
proof -
  obtain K entry where K: "contents s \<subseteq>\<^sub>m K" "ready K (now s') s s'" and img: "class_image k c r s (methods_placed k c r s) entry p v s' K"
    using class_object_image [OF assms(1,2,4)] by metis
  note peek = peek_known [OF K(2)]
  let ?xs = "take (unat (methodtable_size r)) (methodtable r)"
  obtain mA where at: "has_word K (p + 28) (v - 32)" "vector_image v (relmb s') ?xs K" "has_word K (p + 8) mA"
    "\<forall>i < length (class_methods c). relmb s' (k, i) = Some (mA + 8 + 4 * of_nat i)" "\<forall>k' i. k' \<noteq> k \<longrightarrow> relmb s' (k', i) = relmb s (k', i)"
    using img assms(3) unfolding class_image_def by blast
  have j: "j < length ?xs" "?xs ! j = Some (k', i)" using assms(5-7) by simp_all
  obtain w where w: "points_to (relmb s') K (Some (k', i)) w" "has_word K (v + 4 * of_nat j) w"
    using at(2) [unfolded vector_image_def, rule_format, OF j(1)] j(2) by auto
  obtain a mo where mo: "relmb s' (k', i) = Some a" "has_word K a mo" "w = mo + 4"
    using w(1) by (auto simp: points_to_def)
  obtain k'' i' where placed: "Some (k', i) = Some (k'', i')" "if k'' = k then i' < length (class_methods c) else \<exists>a. relmb s (k'', i') = Some a \<and> unat a + 4 \<le> now s"
    using assms(3) j nth_mem [OF j(1)] unfolding methods_placed_def by metis
  show ?thesis
  proof (rule conjI [OF peek [OF at(1)]], rule exI [of _ mo], rule conjI, goal_cases)
    case 1
    show ?case using peek [OF w(2)] mo(3) by simp
  next
    case 2
    show ?case
    proof (cases "k' = k")
      case True
      then have "a = mA + 8 + 4 * of_nat i" using at(4) placed mo(1) by simp
      then show ?thesis using True peek [OF at(3)] peek [OF mo(2)] by (simp add: class_element_def)
    next
      case False
      then have a: "relmb s (k', i) = Some a" "unat a + 4 \<le> now s" using at(5) placed mo(1) by auto
      obtain w' where w': "has_word (contents s) a w'" using contents_word [OF a(2)] by blast
      have "w' = mo" using peek [OF has_le [OF w' K(1)]] peek [OF mo(2)] by simp
      then show ?thesis using False a(1) peek_known [OF ready_contents [OF assms(1)] w'] by simp
    qed
  qed
qed

section \<open>An example\<close>

text \<open>A class A with one field and one method that only returns.\<close>

definition tiny_field :: fieldblock where
  "tiny_field = \<lparr>access = 0, name = [65], nameIndex = 1, signature = [73], sigIndex = 2, offset = 0\<rparr>"

definition tiny_method :: methodblock where
  "tiny_method = (new_method \<lparr>access = 1, name = [65], nameIndex = 1, signature = [40, 41, 86], sigIndex = 3, offset = 0\<rparr> 0)
     \<lparr>code := [0xB1], code_length := 1\<rparr>"

definition tiny_class :: class_class where
  "tiny_class = \<lparr>major_version = 45, minor_version = 3, class_name = [65], class_nameIndex = 1, super_name = [65],
     superNameIndex = 1, source_name = None, pool = \<lparr>type_table = [0, 0x81, 0x81, 0x81],
     cp_items = [CpTypeTable, CpUtf8 [65], CpUtf8 [73], CpUtf8 [40, 41, 86]]\<rparr>,
     class_access = 0, implements_list = [], class_fields = [tiny_field], class_methods = [tiny_method], has_clinit = False\<rparr>"

definition tiny_members :: resolution where
  "tiny_members = (unresolved 0)\<lparr>methodtable_size := 1, methodtable := [Some (0, 0)]\<rparr>"

lemma tiny_small: "class_small tiny_class"
  by (simp add: class_small_def tiny_class_def tiny_field_def tiny_method_def new_method_def pool_small_def short_string_def
      named_within_def method_fits_def method_small_def)

lemma tiny_named:
  "named (pool tiny_class) [65] 1" "named (pool tiny_class) [73] 2" "named (pool tiny_class) [40, 41, 86] 3"
  by (simp_all add: named_def str_ok_def tiny_class_def RESOLVED_def)

lemma tiny_wf: "class_wf tiny_class"
proof -
  have "Signature2ArgsSize [40, 41, 86] = Some 0" by (simp add: Signature2ArgsSize_def chr_def)
  then have "method_wf (pool tiny_class) tiny_method"
    using tiny_named by (simp add: method_wf_def member_wf_def tiny_method_def new_method_def has_code_def is_static_def
      ACC_STATIC_def ACC_NATIVE_def ACC_ABSTRACT_def)
  moreover have "field_wf (pool tiny_class) tiny_field"
    using tiny_named by (simp add: field_wf_def member_wf_def tiny_field_def ACC_VALKNOWN_def)
  ultimately show ?thesis
    using tiny_named(1) by (simp add: class_wf_def source_wf_def pool_wf_def) (simp add: tiny_class_def)
qed

lemma tiny_placed: "methods_placed 0 tiny_class tiny_members s"
  by (simp add: methods_placed_def tiny_members_def tiny_class_def)

definition empty_loader :: loader_state where
  "empty_loader = \<lparr>memory = \<lparr>CM_SIZE = 0x100000, commonMemory = (\<lambda>_. 0), scratchMemory = (\<lambda>_. 0), startingAddress = 0x30000,
       currentAddress = 0x30000, inputBuffer = [], iBufferReadIndex = 0, stdin = [], stdout = [], syscall_handler = None\<rparr>,
     relcb = Map.empty, relfb = Map.empty, relmb = Map.empty, decafClassTableCount = 0, bsdone = False, mvb_object = 0,
     mvb_class = 0, mvb_field = 0, mvb_method = 0, mvb_exceptionBlk = 0, classptr_field = 0, classptr_method = 0,
     classptr_exceptionBlk = 0, sync_methods = False, host_shift = (\<lambda>w i. 0)\<rparr>"

lemma tiny_ready: "loader_ready empty_loader"
  by (simp add: loader_ready_def empty_loader_def)

declare walk.simps [code]

lemma tiny_copied: "case class_object 0 tiny_class tiny_members empty_loader of None \<Rightarrow> False | Some _ \<Rightarrow> True"
  by code_simp

lemma tiny_object:
  obtains p v s' where "class_object 0 tiny_class tiny_members empty_loader = Some ((p, v), s')"
  using tiny_copied by (cases "class_object 0 tiny_class tiny_members empty_loader") (auto simp del: not_None_eq)


theorem class_fields_copied_witness:
  "\<exists>p v s' f. class_object 0 tiny_class tiny_members empty_loader = Some ((p, v), s') \<and> class_element s' p 12 0 = Some f
     \<and> named_at s' (f + 20) [65] \<and> named_at s' (f + 12) [73] \<and> peek s' (f + 8) = Some p"
proof -
  obtain p v s' where r: "class_object 0 tiny_class tiny_members empty_loader = Some ((p, v), s')" by (rule tiny_object)
  show ?thesis
    using r class_fields_copied [OF tiny_ready tiny_small tiny_wf r] by (auto simp: tiny_class_def tiny_field_def)
qed

theorem class_methods_copied_witness:
  "\<exists>p v s' mo q. class_object 0 tiny_class tiny_members empty_loader = Some ((p, v), s') \<and> class_element s' p 8 0 = Some mo
     \<and> peek s' (mo + 4) = Some q \<and> block_get (memory s') MainBlock q = Some 0xB1 \<and> peek s' (mo + 20) = Some 1"
proof -
  obtain p v s' where r: "class_object 0 tiny_class tiny_members empty_loader = Some ((p, v), s')" by (rule tiny_object)
  obtain mo where mo: "class_element s' p 8 0 = Some mo" "method_object_at s' p mo tiny_method"
    using class_methods_copied [OF tiny_ready tiny_small tiny_wf r] by (auto simp: tiny_class_def)
  obtain q bs where q: "peek s' (mo + 4) = Some q" "method_code (sync_methods s') tiny_method = Some bs"
    "\<forall>j < length bs. block_get (memory s') MainBlock (q + of_nat j) = Some (bs ! j)" "peek s' (mo + 20) = Some (of_nat (length bs))"
    using mo(2) unfolding method_object_at_def by blast
  have "bs = [0xB1]"
    using q(2) by (auto simp: method_code_def copied_code_def tiny_method_def new_method_def ACC_SYNCHRONIZED_def split: if_splits)
  then show ?thesis using r mo(1) q by (intro exI conjI) auto
qed

theorem class_method_found_witness:
  "\<exists>p v s'. class_object 0 tiny_class tiny_members empty_loader = Some ((p, v), s') \<and> cmFindMethod p [65] s' = class_element s' p 8 0
     \<and> cmFindMethod p [66] s' = Some 0"
proof -
  obtain p v s' where r: "class_object 0 tiny_class tiny_members empty_loader = Some ((p, v), s')" by (rule tiny_object)
  show ?thesis
    using r class_method_found [OF tiny_ready tiny_small tiny_wf r, of "[65]"] class_method_found [OF tiny_ready tiny_small tiny_wf r, of "[66]"]
    by (auto simp: tiny_class_def tiny_method_def new_method_def c_str_def)
qed

theorem class_dispatch_witness:
  "\<exists>p v s' mo. class_object 0 tiny_class tiny_members empty_loader = Some ((p, v), s') \<and> peek s' v = Some (mo + 4)
     \<and> class_element s' p 8 0 = Some mo"
proof -
  obtain p v s' where r: "class_object 0 tiny_class tiny_members empty_loader = Some ((p, v), s')" by (rule tiny_object)
  show ?thesis
    using r class_dispatch [OF tiny_ready tiny_small tiny_placed r, of 0 0 0] by (auto simp: tiny_members_def)
qed

end
