(* ===== verification/Checkpoint_Format.thy ===== *)
theory Checkpoint_Format
  imports Prelude
begin

text \<open>
  How the checkpoint functions put variables into a file: CHECKING\_FWRITE and CHECKING\_FREAD of
  iam/src/checkpoint\_types.h. A file is a list of bytes. A variable is written as the bytes that
  hold it on the target: big-endian, 4 bytes for an int, an enum or a pointer, structures with
  their padding (zeros here), bit fields from the most significant bit on. Writing succeeds.
\<close>

section \<open>Outcomes\<close>

text \<open>
  Undefined is what C does not define, Failed the return of 1 in the middle of the work: what the
  variable being read then holds is indeterminate, so that no state goes with it.
\<close>

datatype 'a outcome = Undefined | Failed | Returned 'a

fun obind :: "'a outcome \<Rightarrow> ('a \<Rightarrow> 'b outcome) \<Rightarrow> 'b outcome" where
  "obind Undefined k = Undefined"
| "obind Failed k = Failed"
| "obind (Returned x) k = k x"

type_synonym 's restarter = "u8 list \<Rightarrow> 's \<Rightarrow> (u8 list \<times> 's) outcome"

definition then_read :: "'s restarter \<Rightarrow> 's restarter \<Rightarrow> 's restarter" where
  "then_read r r' fp s = obind (r fp s) (\<lambda>(fp, s). r' fp s)"

text \<open>An unsigned int read into a local variable, and one compared with a constant.\<close>

definition read_word :: "(u32 \<Rightarrow> 's restarter) \<Rightarrow> 's restarter" where
  "read_word k fp s = (if length fp < 4 then Failed else k (be_word (take 4 fp)) (drop 4 fp) s)"

definition expect :: "u32 \<Rightarrow> 's restarter" where
  "expect w = read_word (\<lambda>i fp s. if i = w then Returned (fp, s) else Failed)"

section \<open>Values as bytes\<close>

text \<open>of\_bytes gives None for bytes that hold no value of the model's type (the code takes them as they are).\<close>

record 'a codec =
  width :: nat
  to_bytes :: "'a \<Rightarrow> u8 list"
  of_bytes :: "u8 list \<Rightarrow> 'a option"

definition word_codec :: "u32 codec" where
  "word_codec = \<lparr>width = 4, to_bytes = be_bytes, of_bytes = (\<lambda>bs. Some (be_word bs))\<rparr>"

definition be_bytes64 :: "u64 \<Rightarrow> u8 list" where
  "be_bytes64 w = be_bytes (ucast (drop_bit 32 w)) @ be_bytes (ucast w)"

definition be_word64 :: "u8 list \<Rightarrow> u64" where
  "be_word64 bs = push_bit 32 (ucast (be_word (take 4 bs))) OR ucast (be_word (drop 4 bs))"

definition long_codec :: "u64 codec" where
  "long_codec = \<lparr>width = 8, to_bytes = be_bytes64, of_bytes = (\<lambda>bs. Some (be_word64 bs))\<rparr>"

definition int_codec :: "int codec" where
  "int_codec = \<lparr>width = 4, to_bytes = (\<lambda>i. be_bytes (word_of_int i)), of_bytes = (\<lambda>bs. Some (sint (be_word bs)))\<rparr>"

definition nat_codec :: "nat codec" where
  "nat_codec = \<lparr>width = 4, to_bytes = (\<lambda>n. be_bytes (of_nat n)),
     of_bytes = (\<lambda>bs. if sint (be_word bs) < 0 then None else Some (unat (be_word bs)))\<rparr>"

definition bool_codec :: "bool codec" where
  "bool_codec = \<lparr>width = 4, to_bytes = (\<lambda>b. be_bytes (if b then 1 else 0)), of_bytes = (\<lambda>bs. Some (be_word bs \<noteq> 0))\<rparr>"

text \<open>Padding of n bytes after a value, two members of a structure, and an array of n elements.\<close>

definition padded :: "nat \<Rightarrow> 'a codec \<Rightarrow> 'a codec" where
  "padded n c = \<lparr>width = width c + n, to_bytes = (\<lambda>x. to_bytes c x @ replicate n 0), of_bytes = (\<lambda>bs. of_bytes c (take (width c) bs))\<rparr>"

definition pair_codec :: "'a codec \<Rightarrow> 'b codec \<Rightarrow> ('a \<times> 'b) codec" where
  "pair_codec c d = \<lparr>width = width c + width d, to_bytes = (\<lambda>(x, y). to_bytes c x @ to_bytes d y),
     of_bytes = (\<lambda>bs. case (of_bytes c (take (width c) bs), of_bytes d (drop (width c) bs)) of
       (Some x, Some y) \<Rightarrow> Some (x, y) | _ \<Rightarrow> None)\<rparr>"

fun decode_array :: "'a codec \<Rightarrow> nat \<Rightarrow> u8 list \<Rightarrow> 'a list option" where
  "decode_array c 0 bs = Some []"
| "decode_array c (Suc n) bs = (case (of_bytes c (take (width c) bs), decode_array c n (drop (width c) bs)) of
       (Some x, Some xs) \<Rightarrow> Some (x # xs) | _ \<Rightarrow> None)"

definition array_codec :: "nat \<Rightarrow> 'a codec \<Rightarrow> 'a list codec" where
  "array_codec n c = \<lparr>width = n * width c, to_bytes = (\<lambda>xs. concat (map (to_bytes c) xs)), of_bytes = decode_array c n\<rparr>"

text \<open>A structure whose members are the parts g x of its value.\<close>

definition struct_codec :: "('b \<Rightarrow> 'a) \<Rightarrow> ('a \<Rightarrow> 'b) \<Rightarrow> 'a codec \<Rightarrow> 'b codec" where
  "struct_codec g f c = \<lparr>width = width c, to_bytes = (\<lambda>x. to_bytes c (g x)), of_bytes = (\<lambda>bs. map_option f (of_bytes c bs))\<rparr>"

definition enum_codec :: "(u32 \<times> 'a) list \<Rightarrow> 'a codec" where
  "enum_codec vs = \<lparr>width = 4, to_bytes = (\<lambda>x. be_bytes (the (map_of (map prod.swap vs) x))), of_bytes = (\<lambda>bs. map_of vs (be_word bs))\<rparr>"

definition bytes_codec :: "nat \<Rightarrow> u8 list codec" where
  "bytes_codec n = \<lparr>width = n, to_bytes = (\<lambda>bs. bs), of_bytes = Some\<rparr>"

section \<open>Variables in a file\<close>

record 's item =
  item_size :: nat
  item_bytes :: "'s \<Rightarrow> u8 list"
  item_into :: "u8 list \<Rightarrow> 's \<Rightarrow> 's option"

definition item_of :: "'a codec \<Rightarrow> ('s \<Rightarrow> 'a) \<Rightarrow> ('a \<Rightarrow> 's \<Rightarrow> 's) \<Rightarrow> 's item" where
  "item_of c g f = \<lparr>item_size = width c, item_bytes = (\<lambda>s. to_bytes c (g s)), item_into = (\<lambda>bs s. map_option (\<lambda>x. f x s) (of_bytes c bs))\<rparr>"

text \<open>CHECKING\_FREAD of one variable after the other.\<close>

fun read_items :: "'s item list \<Rightarrow> 's restarter" where
  "read_items [] fp s = Returned (fp, s)"
| "read_items (i # is) fp s =
     (if length fp < item_size i then Failed
      else case item_into i (take (item_size i) fp) s of None \<Rightarrow> Undefined | Some s \<Rightarrow> read_items is (drop (item_size i) fp) s)"

definition write_items :: "'s item list \<Rightarrow> 's \<Rightarrow> u8 list" where
  "write_items is s = concat (map (\<lambda>i. item_bytes i s) is)"

text \<open>The first n elements of an array that has been allocated: past it, fread and fwrite are undefined.\<close>

definition write_array :: "'a codec \<Rightarrow> int \<Rightarrow> 'a list \<Rightarrow> u8 list outcome" where
  "write_array c n xs = (if n < 0 \<or> int (length xs) < n then Undefined else Returned (to_bytes (array_codec (nat n) c) (take (nat n) xs)))"

definition read_array :: "'a codec \<Rightarrow> ('s \<Rightarrow> int) \<Rightarrow> ('s \<Rightarrow> 'a list) \<Rightarrow> ('a list \<Rightarrow> 's \<Rightarrow> 's) \<Rightarrow> 's restarter" where
  "read_array c num g f fp s =
     (let n = nat (num s); xs = g s; k = n * width c in
      if num s < 0 \<or> length xs * width c < min k (length fp) then Undefined
      else if length fp < k then Failed
      else case decode_array c n (take k fp) of None \<Rightarrow> Undefined | Some ys \<Rightarrow> Returned (drop k fp, f (ys @ drop n xs) s))"

section \<open>Reading what was written\<close>

locale codec_law =
  fixes c :: "'a codec" and valid :: "'a \<Rightarrow> bool"
  assumes encode_width: "valid x \<Longrightarrow> length (to_bytes c x) = width c"
    and decode_encode: "valid x \<Longrightarrow> of_bytes c (to_bytes c x) = Some x"
begin

lemma decode_array_encode:
  "list_all valid xs \<Longrightarrow> decode_array c (length xs) (concat (map (to_bytes c) xs)) = Some xs"
  by (induction xs) (simp_all add: encode_width decode_encode)

lemma array_width: "list_all valid xs \<Longrightarrow> length (concat (map (to_bytes c) xs)) = length xs * width c"
  by (induction xs) (simp_all add: encode_width)

lemma array: "codec_law (array_codec n c) (\<lambda>xs. length xs = n \<and> list_all valid xs)"
  by unfold_locales (auto simp: array_codec_def array_width decode_array_encode)

lemma pad: "codec_law (padded n c) valid"
  by unfold_locales (simp_all add: padded_def encode_width decode_encode)

lemma struct: "(\<And>x. f (g x) = x) \<Longrightarrow> codec_law (struct_codec g f c) (\<lambda>x. valid (g x))"
  by unfold_locales (simp_all add: struct_codec_def encode_width decode_encode)

lemma pair:
  assumes "codec_law d valid'"
  shows "codec_law (pair_codec c d) (\<lambda>(x, y). valid x \<and> valid' y)"
  using assms by unfold_locales (auto simp: pair_codec_def encode_width decode_encode codec_law_def split: prod.splits)

end

interpretation word: codec_law word_codec "\<lambda>_. True"
  by unfold_locales (simp_all add: word_codec_def)

lemma be_word64_be_bytes64 [simp]: "be_word64 (be_bytes64 w) = w"
  by (rule bit_word_eqI) (auto simp: be_word64_def be_bytes64_def bit_simps)

interpretation long: codec_law long_codec "\<lambda>_. True"
  by unfold_locales (simp_all add: long_codec_def, simp add: be_bytes64_def)

definition int32 :: "int \<Rightarrow> bool" where
  "int32 i \<longleftrightarrow> -(2 ^ 31) \<le> i \<and> i < 2 ^ 31"

lemma sint_word_of_int32: "int32 i \<Longrightarrow> sint (word_of_int i :: u32) = i"
  by (simp add: int32_def sint_sbintrunc' signed_take_bit_int_eq_self)

interpretation int: codec_law int_codec int32
  by unfold_locales (simp_all add: int_codec_def sint_word_of_int32)

interpretation nat: codec_law nat_codec "\<lambda>n. n < 2 ^ 31"
proof
  fix n :: nat
  assume n: "n < 2 ^ 31"
  show "length (to_bytes nat_codec n) = width nat_codec" by (simp add: nat_codec_def)
  have "sint (of_nat n :: u32) = int n" using sint_word_of_int32 [of "int n"] n by (simp add: int32_def)
  moreover have "unat (of_nat n :: u32) = n" using n by (simp add: unsigned_of_nat take_bit_nat_eq_self)
  ultimately show "of_bytes nat_codec (to_bytes nat_codec n) = Some n" by (simp add: nat_codec_def)
qed

interpretation bool: codec_law bool_codec "\<lambda>_. True"
  by unfold_locales (simp_all add: bool_codec_def)

interpretation bytes: codec_law "bytes_codec n" "\<lambda>bs. length bs = n" for n
  by unfold_locales (simp_all add: bytes_codec_def)

text \<open>The bytes bs, read into any state, lead to the state f gives.\<close>

definition restores :: "'s restarter \<Rightarrow> u8 list \<Rightarrow> ('s \<Rightarrow> bool) \<Rightarrow> ('s \<Rightarrow> 's) \<Rightarrow> bool" where
  "restores r bs P f \<longleftrightarrow> (\<forall>rest t. P t \<longrightarrow> r (bs @ rest) t = Returned (rest, f t))"

lemma restores_then:
  assumes "restores r bs P f" "restores r' bs' Q g" "\<And>t. P t \<Longrightarrow> Q (f t)"
  shows "restores (then_read r r') (bs @ bs') P (\<lambda>t. g (f t))"
  using assms by (simp add: restores_def then_read_def)

lemma restores_expect: "restores (expect w) (be_bytes w) (\<lambda>_. True) (\<lambda>t. t)"
  by (simp add: restores_def expect_def read_word_def)

lemma restores_mono: "restores r bs P f \<Longrightarrow> (\<And>t. Q t \<Longrightarrow> P t) \<Longrightarrow> (\<And>t. Q t \<Longrightarrow> f t = g t) \<Longrightarrow> restores r bs Q g"
  by (simp add: restores_def)

text \<open>An item that can be read back, and the state after reading what it wrote in the state s.\<close>

definition item_ok :: "'s item \<Rightarrow> 's \<Rightarrow> bool" where
  "item_ok i s \<longleftrightarrow> length (item_bytes i s) = item_size i \<and> (\<forall>t. item_into i (item_bytes i s) t \<noteq> None)"

definition settle :: "'s \<Rightarrow> 's item \<Rightarrow> 's \<Rightarrow> 's" where
  "settle s i t = the (item_into i (item_bytes i s) t)"

context codec_law begin

lemma item_ok: "valid (g s) \<Longrightarrow> item_ok (item_of c g f) s"
  by (simp add: item_ok_def item_of_def encode_width decode_encode)

lemma settle: "valid (g s) \<Longrightarrow> settle s (item_of c g f) t = f (g s) t"
  by (simp add: settle_def item_of_def encode_width decode_encode)

lemma array_read:
  assumes "list_all valid xs" "\<And>t. P t \<Longrightarrow> num t = int (length xs) \<and> length (g t) = length xs"
  shows "restores (read_array c num g f) (concat (map (to_bytes c) xs)) P (f xs)"
  using assms array_width [of xs] decode_array_encode [of xs]
  by (simp add: restores_def read_array_def Let_def)

end

lemma read_written_items:
  "list_all (\<lambda>i. item_ok i s) is \<Longrightarrow> read_items is (write_items is s @ rest) t = Returned (rest, fold (settle s) is t)"
proof (induction "is" arbitrary: t)
  case Nil
  then show ?case by (simp add: write_items_def)
next
  case (Cons i "is")
  then obtain u where u: "item_into i (item_bytes i s) t = Some u" by (auto simp: item_ok_def)
  then show ?case using Cons by (simp add: write_items_def item_ok_def settle_def)
qed

lemma items_restore:
  "list_all (\<lambda>i. item_ok i s) is \<Longrightarrow> (\<And>t. fold (settle s) is t = f t) \<Longrightarrow> restores (read_items is) (write_items is s) P f"
  by (simp add: restores_def read_written_items)

lemma read_items_append: "read_items (is @ js) = then_read (read_items is) (read_items js)"
proof (intro ext)
  fix fp s
  show "read_items (is @ js) fp s = then_read (read_items is) (read_items js) fp s"
    by (induction "is" arbitrary: fp s) (auto simp: then_read_def split: option.splits)
qed

lemma restores_append:
  assumes "restores (read_items is) (write_items is s) P f" "restores (read_items js) (write_items js s) (\<lambda>_. True) g"
    "\<And>t. g (f t) = h t"
  shows "restores (read_items (is @ js)) (write_items (is @ js) s) P h"
  using restores_then [OF assms(1,2)] by (simp add: read_items_append write_items_def assms(3))

end
