(* ===== verification/Statistics.thy ===== *)
theory Statistics
  imports Fp_Ops
begin

text \<open>
  Statistics of samples, iam/src/statistics.c: doubles are bit patterns, with the arithmetic of Soft\_Float. The host's
  pattern for a NaN that an operation makes is taken to be the processor's.
\<close>

record StatisticsObject =
  average :: u64
  min_sample :: u64
  max_sample :: u64
  nSamples :: u32
  which_max :: u32
  which_min :: u32

abbreviation (input) "DBL_MAX \<equiv> 0x7fefffffffffffff :: u64"
abbreviation (input) "minus_DBL_MIN \<equiv> 0x8010000000000000 :: u64"

definition vInitStatistics :: "StatisticsObject \<Rightarrow> StatisticsObject" where
  "vInitStatistics ps = ps\<lparr>min_sample := DBL_MAX, max_sample := minus_DBL_MIN, average := 0, nSamples := 0, which_max := 0, which_min := 0\<rparr>"

definition d_arith :: "(fp \<Rightarrow> fp \<Rightarrow> nat option) \<Rightarrow> u64 \<Rightarrow> u64 \<Rightarrow> u64" where
  "d_arith f x y = (case f (d_of x) (d_of y) of None \<Rightarrow> if d_of x = FNaN then x else if d_of y = FNaN then y else DINanPattern | Some n \<Rightarrow> of_nat n)"

definition d_of_int :: "u32 \<Rightarrow> u64" where
  "d_of_int i = of_nat (fp_of_int double_fmt (sint i))"

definition getSum :: "StatisticsObject \<Rightarrow> u64" where
  "getSum ps = d_arith (fp_mul double_fmt) (average ps) (d_of_int (nSamples ps))"

definition vNewSample :: "StatisticsObject \<Rightarrow> u64 \<Rightarrow> StatisticsObject" where
  "vNewSample ps x =
     (let ps = (if fp_less (d_of x) (d_of (min_sample ps)) then ps\<lparr>min_sample := x, which_min := nSamples ps + 1\<rparr> else ps);
          ps = (if fp_less (d_of (max_sample ps)) (d_of x) then ps\<lparr>max_sample := x, which_max := nSamples ps + 1\<rparr> else ps)
      in ps\<lparr>average := d_arith (fp_div double_fmt) (d_arith (fp_add double_fmt) (getSum ps) x) (d_of_int (nSamples ps + 1)),
            nSamples := nSamples ps + 1\<rparr>)"

end
