(* ===== verification/Checkpoint.thy ===== *)
theory Checkpoint
  imports Checkpoint_Format Statistics Pico_Init
begin

text \<open>
  Checkpoint and restart: checkpoint.c and the checkpoint functions of cm.c, global\_regs.c, cache.c, iam.c, scache.c,
  breakpoints.c and interrupts.c. The requests CPR\_CHECKPOINT and CPR\_RESTART are two definitions; CPR\_QUERY always
  answers 0. Allocations succeed.

  The memory goes through the library zlib, a parameter: compress and uncompress are given the room of the destination and give
  None when they report an error.
\<close>

section \<open>The state of the simulator\<close>

record simulator =
  mach :: machine
  ias_trace :: u32
  InterruptStatistics :: StatisticsObject
  AllTrapsStatistics :: StatisticsObject

record zlib =
  compress :: "nat \<Rightarrow> u8 list \<Rightarrow> u8 list option"
  uncompress :: "nat \<Rightarrow> u8 list \<Rightarrow> u8 list option"

definition on_mach :: "(machine \<Rightarrow> machine) \<Rightarrow> simulator \<Rightarrow> simulator" where
  "on_mach f s = s\<lparr>mach := f (mach s)\<rparr>"

definition mach_item :: "'a codec \<Rightarrow> (machine \<Rightarrow> 'a) \<Rightarrow> (('a \<Rightarrow> 'a) \<Rightarrow> machine \<Rightarrow> machine) \<Rightarrow> simulator item" where
  "mach_item c g f = item_of c (\<lambda>s. g (mach s)) (\<lambda>x. on_mach (f (\<lambda>_. x)))"

definition count :: "(counters \<Rightarrow> i64) \<Rightarrow> ((i64 \<Rightarrow> i64) \<Rightarrow> counters \<Rightarrow> counters) \<Rightarrow> simulator item" where
  "count g f = item_of long_codec (\<lambda>s. g (cnt (mach s))) (\<lambda>x. on_mach (cnt_update (f (\<lambda>_. x))))"

definition ic_item :: "'a codec \<Rightarrow> (icache \<Rightarrow> 'a) \<Rightarrow> (('a \<Rightarrow> 'a) \<Rightarrow> icache \<Rightarrow> icache) \<Rightarrow> simulator item" where
  "ic_item c g f = item_of c (\<lambda>s. g (ic (mach s))) (\<lambda>x. on_mach (ic_update (f (\<lambda>_. x))))"

definition dc_item :: "'a codec \<Rightarrow> (dcache \<Rightarrow> 'a) \<Rightarrow> (('a \<Rightarrow> 'a) \<Rightarrow> dcache \<Rightarrow> dcache) \<Rightarrow> simulator item" where
  "dc_item c g f = item_of c (\<lambda>s. g (dc (mach s))) (\<lambda>x. on_mach (dc_update (f (\<lambda>_. x))))"

section \<open>The common memory\<close>

definition z_room :: "u32 \<Rightarrow> u32" where
  "z_room n = n + n div 1000 + 13"

definition common_bytes :: "cmem \<Rightarrow> u8 list" where
  "common_bytes m = map (\<lambda>i. commonMemory m (of_nat i)) [0..<unat (CM_SIZE m)]"

definition scratch_bytes :: "cmem \<Rightarrow> u8 list" where
  "scratch_bytes m = map (\<lambda>i. scratchMemory m (SCRATCH_START + of_nat i)) [0..<unat SCRATCH_SIZE]"

definition cm_checkpoint_write :: "zlib \<Rightarrow> simulator \<Rightarrow> u8 list outcome" where
  "cm_checkpoint_write z s = (let m = cm (mach s) in
     case compress z (unat (z_room (CM_SIZE m))) (common_bytes m) of None \<Rightarrow> Failed
     | Some buf \<Rightarrow> Returned (be_bytes 2 @ be_bytes (of_nat (length buf)) @ buf @ be_bytes SCRATCH_SIZE @ scratch_bytes m))"

text \<open>The bytes bs at consecutive addresses from a on.\<close>

definition overwrite :: "(u32 \<Rightarrow> u8) \<Rightarrow> u32 \<Rightarrow> u8 list \<Rightarrow> u32 \<Rightarrow> u8" where
  "overwrite mem a bs x = (if unat (x - a) < length bs then bs ! unat (x - a) else mem x)"

definition set_common :: "u8 list \<Rightarrow> simulator \<Rightarrow> simulator" where
  "set_common bs = on_mach (cm_update (\<lambda>m. m\<lparr>commonMemory := overwrite (commonMemory m) 0 bs\<rparr>))"

definition set_scratch :: "u8 list \<Rightarrow> simulator \<Rightarrow> simulator" where
  "set_scratch bs = on_mach (cm_update (\<lambda>m. m\<lparr>scratchMemory := overwrite (scratchMemory m) SCRATCH_START bs\<rparr>))"

definition read_common :: "zlib \<Rightarrow> u32 \<Rightarrow> simulator restarter" where
  "read_common z srcLen fp s =
     (if length fp < unat srcLen then Failed
      else let n = unat (CM_SIZE (cm (mach s))) in
        case uncompress z n (take (unat srcLen) fp) of None \<Rightarrow> Failed
        | Some bs \<Rightarrow> if length bs \<noteq> n then Failed else Returned (drop (unat srcLen) fp, set_common bs s))"

definition cm_checkpoint_read :: "zlib \<Rightarrow> simulator restarter" where
  "cm_checkpoint_read z = then_read (expect 2) (then_read (read_word (read_common z)) (then_read (expect SCRATCH_SIZE)
     (read_items [item_of (bytes_codec (unat SCRATCH_SIZE)) (\<lambda>s. scratch_bytes (cm (mach s))) set_scratch])))"

section \<open>Registers\<close>

definition inline_array :: "counters \<Rightarrow> i64 list" where
  "inline_array c = map (\<lambda>k. inlineStats c (k div 8) (k mod 8)) [0..<40]"

definition set_inline :: "i64 list \<Rightarrow> counters \<Rightarrow> counters" where
  "set_inline xs c = c\<lparr>inlineStats := (\<lambda>i j. if i < 5 \<and> j < 8 then xs ! (8 * i + j) else inlineStats c i j)\<rparr>"

definition counter_items :: "simulator item list" where
  "counter_items = [mach_item long_codec icount icount_update,
     count checkcast_quick_insns checkcast_quick_insns_update, count checkcast_quick_traps checkcast_quick_traps_update,
     count instanceof_quick_insns instanceof_quick_insns_update, count instanceof_quick_traps instanceof_quick_traps_update,
     count monitorenter_insns monitorenter_insns_update, count monitorenter_misses monitorenter_misses_update,
     count monitorenter_overflows monitorenter_overflows_update, count monitorexit_insns monitorexit_insns_update,
     count monitorexit_misses monitorexit_misses_update, count monitorexit_overflows monitorexit_overflows_update,
     count monitorexit_releases monitorexit_releases_update,
     dc_item long_codec dcache_reads dcache_reads_update, dc_item long_codec dcache_writes dcache_writes_update,
     dc_item long_codec dcache_read_misses dcache_read_misses_update, dc_item long_codec dcache_write_misses dcache_write_misses_update,
     dc_item long_codec dcache_read_misses_causing_wb dcache_read_misses_causing_wb_update,
     dc_item long_codec dcache_write_misses_causing_wb dcache_write_misses_causing_wb_update,
     count acmp_branches acmp_branches_update, count icmp_branches icmp_branches_update,
     item_of (array_codec 40 long_codec) (\<lambda>s. inline_array (cnt (mach s))) (\<lambda>xs. on_mach (cnt_update (set_inline xs)))]"

definition reg :: "(machine \<Rightarrow> u32) \<Rightarrow> ((u32 \<Rightarrow> u32) \<Rightarrow> machine \<Rightarrow> machine) \<Rightarrow> simulator item" where
  "reg g f = mach_item word_codec g f"

definition reg_of :: "(machine \<Rightarrow> nat \<Rightarrow> u32) \<Rightarrow> (((nat \<Rightarrow> u32) \<Rightarrow> nat \<Rightarrow> u32) \<Rightarrow> machine \<Rightarrow> machine) \<Rightarrow> nat \<Rightarrow> simulator item" where
  "reg_of g f i = item_of word_codec (\<lambda>s. g (mach s) i) (\<lambda>w. on_mach (f (\<lambda>r. r(i := w))))"

definition register_items :: "simulator item list" where
  "register_items = [reg pc pc_update, reg vars vars_update, reg frame frame_update, reg optop optop_update, reg oplim oplim_update,
     reg const_pool const_pool_update, reg psr psr_update, reg trapbase trapbase_update, reg_of lockCount lockCount_update 0,
     reg_of lockCount lockCount_update 1, reg_of lockAddr lockAddr_update 0, reg_of lockAddr lockAddr_update 1,
     reg userrange1 userrange1_update, reg userrange2 userrange2_update, reg gcConfig gcConfig_update, reg brk1a brk1a_update,
     reg brk2a brk2a_update, reg brk12c brk12c_update, reg versionId versionId_update, reg hcr hcr_update, reg scBottom scBottom_update,
     reg global0 global0_update, reg global1 global1_update, reg global2 global2_update, reg global3 global3_update]"

text \<open>A StatisticsObject: three doubles, three ints and four bytes of padding.\<close>

definition statistics_codec :: "StatisticsObject codec" where
  "statistics_codec = struct_codec
     (\<lambda>x. ([average x, min_sample x, max_sample x], [nSamples x, which_max x, which_min x]))
     (\<lambda>(ds, ws). \<lparr>average = ds ! 0, min_sample = ds ! 1, max_sample = ds ! 2, nSamples = ws ! 0, which_max = ws ! 1, which_min = ws ! 2\<rparr>)
     (padded 4 (pair_codec (array_codec 3 long_codec) (array_codec 3 word_codec)))"

definition global_regs_items :: "simulator item list" where
  "global_regs_items = counter_items @ register_items @
     [item_of statistics_codec InterruptStatistics (\<lambda>x s. s\<lparr>InterruptStatistics := x\<rparr>),
      item_of statistics_codec AllTrapsStatistics (\<lambda>x s. s\<lparr>AllTrapsStatistics := x\<rparr>)]"

section \<open>Caches\<close>

definition ientry_codec :: "iCacheEntry codec" where
  "ientry_codec = struct_codec
     (\<lambda>e. (ent_line e, push_bit 10 (ucast (ent_tag e)) OR (if ent_valid e then 0x200 else 0)))
     (\<lambda>(l, w). \<lparr>ent_line = l, ent_tag = ucast (drop_bit 10 w), ent_valid = bit w 9\<rparr>)
     (pair_codec (bytes_codec 16) word_codec)"

definition dset_codec :: "dCacheSet codec" where
  "dset_codec = struct_codec
     (\<lambda>x. (set_line x, push_bit 9 (ucast (set_tag x)) OR (if set_valid x then 0x100 else 0) OR (if set_dirty x then 0x80 else 0)))
     (\<lambda>(l, w). \<lparr>set_line = l, set_tag = ucast (drop_bit 9 w), set_valid = bit w 8, set_dirty = bit w 7\<rparr>)
     (pair_codec (bytes_codec 16) word_codec)"

definition way_codec :: "way codec" where
  "way_codec = \<lparr>width = 1, to_bytes = (\<lambda>w. [if w = Way0 then 0 else 1]),
     of_bytes = (\<lambda>bs. if bs = [0] then Some Way0 else if bs = [1] then Some Way1 else None)\<rparr>"

definition dentry_codec :: "dCacheEntry codec" where
  "dentry_codec = struct_codec (\<lambda>e. (dSet e Way0, dSet e Way1, lru e))
     (\<lambda>(a, b, l). \<lparr>dSet = (\<lambda>w. if w = Way0 then a else b), lru = l\<rparr>)
     (pair_codec dset_codec (pair_codec dset_codec (padded 3 way_codec)))"

definition size_items :: "simulator item list" where
  "size_items = [ic_item word_codec currentISize currentISize_update, dc_item word_codec currentDSize currentDSize_update]"

definition geometry_items :: "simulator item list" where
  "geometry_items = [ic_item int_codec numOfIcacheEntries numOfIcacheEntries_update,
     dc_item int_codec numOfDcacheEntries numOfDcacheEntries_update,
     ic_item nat_codec iCacheLineSize iCacheLineSize_update, dc_item nat_codec dCacheLineSize dCacheLineSize_update,
     ic_item nat_codec iSizeK iSizeK_update, dc_item nat_codec dSizeK dSizeK_update]"

text \<open>A cache of size 0 has -1 entries: the count becomes a huge size\_t.\<close>

definition cache_write :: "simulator \<Rightarrow> u8 list outcome" where
  "cache_write s =
     obind (write_array ientry_codec (numOfIcacheEntries (ic (mach s))) (I (ic (mach s)))) (\<lambda>is.
     obind (write_array dentry_codec (numOfDcacheEntries (dc (mach s))) (D (dc (mach s)))) (\<lambda>ds.
       Returned (write_items size_items s @ write_items geometry_items s @ is @ ds)))"

text \<open>The caches get arrays of the sizes read. An unknown size of the data cache leaves an array that is freed.\<close>

definition reinit_caches :: "simulator restarter" where
  "reinit_caches fp s =
     (let m = mach s in
      case icacheInit (proc_type m) (ic m) (currentISize (ic m)) of None \<Rightarrow> Undefined
      | Some (_, i) \<Rightarrow> (case dcacheInit (dc m) (currentDSize (dc m)) of None \<Rightarrow> Undefined
        | Some (r, d) \<Rightarrow> if r = DSV_FAIL \<and> D d \<noteq> [] then Undefined else Returned (fp, s\<lparr>mach := m\<lparr>ic := i, dc := d\<rparr>\<rparr>)))"

definition cache_read :: "simulator restarter" where
  "cache_read = then_read (read_items size_items) (then_read reinit_caches (then_read (read_items geometry_items) (then_read
     (read_array ientry_codec (\<lambda>s. numOfIcacheEntries (ic (mach s))) (\<lambda>s. I (ic (mach s))) (\<lambda>xs. on_mach (ic_update (I_update (\<lambda>_. xs)))))
     (read_array dentry_codec (\<lambda>s. numOfDcacheEntries (dc (mach s))) (\<lambda>s. D (dc (mach s))) (\<lambda>xs. on_mach (dc_update (D_update (\<lambda>_. xs))))))))"

section \<open>Simulation control, the stack cache, breakpoints and interrupts\<close>

definition iam_items :: "simulator item list" where
  "iam_items = [item_of word_codec ias_trace (\<lambda>x s. s\<lparr>ias_trace := x\<rparr>), mach_item bool_codec ias_scache ias_scache_update,
     item_of word_codec (\<lambda>_. 0) (\<lambda>_ s. s), reg sc_bottom_min sc_bottom_min_update, reg sc_bottom_max sc_bottom_max_update]"

definition vSCacheRead :: "machine \<Rightarrow> nat \<Rightarrow> u32" where
  "vSCacheRead m i = sCacheMem m (of_nat i)"

definition vSCacheWrite :: "machine \<Rightarrow> nat \<Rightarrow> u32 \<Rightarrow> machine" where
  "vSCacheWrite m i w = m\<lparr>sCacheMem := (sCacheMem m)(of_nat i := w)\<rparr>"

definition scache_items :: "simulator item list" where
  "scache_items = map (\<lambda>i. item_of word_codec (\<lambda>s. vSCacheRead (mach s) i) (\<lambda>w. on_mach (\<lambda>m. vSCacheWrite m i w))) [0..<64]"

definition access_codec :: "BRKPT_ACCESS_T codec" where
  "access_codec = \<lparr>width = 4, to_bytes = (\<lambda>t. be_bytes (case t of BRKPT_EXEC \<Rightarrow> 0 | BRKPT_READ \<Rightarrow> 1 | BRKPT_WRITE \<Rightarrow> 2)),
     of_bytes = (\<lambda>bs. let w = be_word bs in if w = 0 then Some BRKPT_EXEC else if w = 1 then Some BRKPT_READ
       else if w = 2 then Some BRKPT_WRITE else None)\<rparr>"

definition breakpoint_codec :: "breakpoint_t codec" where
  "breakpoint_codec = struct_codec (\<lambda>b. (brkpt_addr b, brkpt_type b, ignore_count b, is_enabled b))
     (\<lambda>(a, t, n, e). \<lparr>brkpt_addr = a, brkpt_type = t, ignore_count = n, is_enabled = e\<rparr>)
     (pair_codec word_codec (pair_codec access_codec (pair_codec int_codec bool_codec)))"

definition brk_item :: "'a codec \<Rightarrow> (brkpt_table \<Rightarrow> 'a) \<Rightarrow> (('a \<Rightarrow> 'a) \<Rightarrow> brkpt_table \<Rightarrow> brkpt_table) \<Rightarrow> simulator item" where
  "brk_item c g f = item_of c (\<lambda>s. g (brk (mach s))) (\<lambda>x. on_mach (brk_update (f (\<lambda>_. x))))"

definition brkpt_counts :: "simulator item list" where
  "brkpt_counts = [brk_item nat_codec nbrkpts_set nbrkpts_set_update, brk_item int_codec nbrkpts_enabled nbrkpts_enabled_update]"

definition brkpt_array :: "simulator item list" where
  "brkpt_array = [brk_item (array_codec MAX_BRKPTS breakpoint_codec) brkpts brkpts_update]"

definition brkpt_write :: "simulator \<Rightarrow> u8 list" where
  "brkpt_write s = write_items brkpt_counts s @ be_bytes (of_nat MAX_BRKPTS) @ write_items brkpt_array s"

definition brkpt_read :: "simulator restarter" where
  "brkpt_read = then_read (read_items brkpt_counts) (then_read (expect (of_nat MAX_BRKPTS)) (read_items brkpt_array))"

definition interrupt_codec :: "interrupt_t codec" where
  "interrupt_codec = struct_codec (\<lambda>x. (intr_irl x, next_intr_at x, intr_enabled x, is_repeating x, repeat_count x))
     (\<lambda>(l, a, e, r, n). \<lparr>intr_irl = l, next_intr_at = a, intr_enabled = e, is_repeating = r, repeat_count = n\<rparr>)
     (pair_codec (padded 4 int_codec) (pair_codec long_codec (pair_codec bool_codec (pair_codec bool_codec long_codec))))"

definition intr_item :: "'a codec \<Rightarrow> (intr_state \<Rightarrow> 'a) \<Rightarrow> (('a \<Rightarrow> 'a) \<Rightarrow> intr_state \<Rightarrow> intr_state) \<Rightarrow> simulator item" where
  "intr_item c g f = item_of c (\<lambda>s. g (intr (mach s))) (\<lambda>x. on_mach (intr_update (f (\<lambda>_. x))))"

definition intr_ids :: "simulator item list" where
  "intr_ids = [intr_item int_codec last_intr_set last_intr_set_update, intr_item int_codec next_intr_id next_intr_id_update]"

definition intr_array :: "simulator item list" where
  "intr_array = [intr_item (array_codec MAX_INTRS interrupt_codec) intrs intrs_update]"

definition intr_write :: "simulator \<Rightarrow> u8 list" where
  "intr_write s = write_items intr_ids s @ be_bytes (of_nat MAX_INTRS) @ write_items intr_array s"

definition intr_read :: "simulator restarter" where
  "intr_read = then_read (read_items intr_ids) (then_read (expect (of_nat MAX_INTRS)) (read_items intr_array))"

section \<open>Checkpoint files\<close>

abbreviation (input) "CHECKPOINT_FILE_SIGNATURE \<equiv> 0x43484b50 :: u32"
abbreviation (input) "THIS_MAJOR_VERSION \<equiv> 1 :: u32"
abbreviation (input) "THIS_MINOR_VERSION \<equiv> 5 :: u32"

text \<open>The file, or None where checkpoint returns 1; opened tells whether it could be opened for writing.\<close>

definition checkpoint :: "zlib \<Rightarrow> bool \<Rightarrow> simulator \<Rightarrow> u8 list outcome" where
  "checkpoint z opened s =
     (if \<not> opened then Failed
      else obind (cm_checkpoint_write z s) (\<lambda>memory. obind (cache_write s) (\<lambda>caches.
        Returned (be_bytes CHECKPOINT_FILE_SIGNATURE @ be_bytes THIS_MAJOR_VERSION @ be_bytes THIS_MINOR_VERSION
          @ memory @ write_items global_regs_items s @ caches @ write_items iam_items s @ write_items scache_items s
          @ brkpt_write s @ intr_write s))))"

definition read_modules :: "zlib \<Rightarrow> simulator restarter" where
  "read_modules z = then_read (cm_checkpoint_read z) (then_read (read_items global_regs_items) (then_read cache_read (then_read (read_items iam_items)
     (then_read (read_items scache_items) (then_read brkpt_read intr_read)))))"

text \<open>Refused is the return of 1 before anything is changed, Partial the return of 1 in the middle.\<close>

datatype restarted = Unknown | Refused | Partial | Restarted simulator

text \<open>initPico, with the statistics it initialises the first time.\<close>

definition init_simulator :: "simulator \<Rightarrow> simulator option" where
  "init_simulator s = (case initPico (mach s) of None \<Rightarrow> None
     | Some m \<Rightarrow> Some ((if once_inited (mach s) then s else s\<lparr>InterruptStatistics := vInitStatistics (InterruptStatistics s),
         AllTrapsStatistics := vInitStatistics (AllTrapsStatistics s)\<rparr>)\<lparr>mach := m\<rparr>))"

definition restart :: "zlib \<Rightarrow> u8 list option \<Rightarrow> simulator \<Rightarrow> restarted" where
  "restart z f s = (case f of None \<Rightarrow> Refused | Some fp \<Rightarrow>
     if length fp < 4 \<or> be_word (take 4 fp) \<noteq> CHECKPOINT_FILE_SIGNATURE then Refused
     else if length fp < 12 \<or> be_word (take 4 (drop 4 fp)) \<noteq> THIS_MAJOR_VERSION \<or> be_word (take 4 (drop 8 fp)) \<noteq> THIS_MINOR_VERSION
     then Refused
     else case init_simulator s of None \<Rightarrow> Unknown
       | Some s \<Rightarrow> (case read_modules z (drop 12 fp) s of
           Undefined \<Rightarrow> Unknown | Failed \<Rightarrow> Partial | Returned (_, s) \<Rightarrow> Restarted s))"

end
