(* ===== verification/Checkpoint_Laws.thy ===== *)
theory Checkpoint_Laws
  imports Checkpoint
begin

text \<open>
  What each checkpoint function writes, its restart function reads back: the laws of the codecs as interpretations of codec\_law,
  and for every module the state it restores.
\<close>

section \<open>Codecs\<close>

lemma codec_mono: "codec_law c v \<Longrightarrow> (\<And>x. v' x \<Longrightarrow> v x) \<Longrightarrow> codec_law c v'"
  by (simp add: codec_law_def)

interpretation way: codec_law way_codec "\<lambda>_. True"
proof
  fix w :: way
  show "length (to_bytes way_codec w) = width way_codec" by (simp add: way_codec_def)
  show "of_bytes way_codec (to_bytes way_codec w) = Some w" by (cases w) (simp_all add: way_codec_def)
qed

interpretation access: codec_law access_codec "\<lambda>_. True"
proof
  fix t :: BRKPT_ACCESS_T
  show "length (to_bytes access_codec t) = width access_codec" by (simp add: access_codec_def)
  show "of_bytes access_codec (to_bytes access_codec t) = Some t" by (cases t) (simp_all add: access_codec_def)
qed

interpretation ientry: codec_law ientry_codec "\<lambda>e. length (ent_line e) = 16"
  unfolding ientry_codec_def
proof (rule codec_mono [OF codec_law.struct [OF bytes.pair [OF word.codec_law_axioms]]], goal_cases)
  case (1 e)
  then show ?case by (cases e) (auto intro!: bit_word_eqI simp: bit_simps)
qed simp

interpretation dset: codec_law dset_codec "\<lambda>x. length (set_line x) = 16"
  unfolding dset_codec_def
proof (rule codec_mono [OF codec_law.struct [OF bytes.pair [OF word.codec_law_axioms]]], goal_cases)
  case (1 e)
  then show ?case by (cases e) (auto intro!: bit_word_eqI simp: bit_simps)
qed simp

definition dentry_valid :: "dCacheEntry \<Rightarrow> bool" where
  "dentry_valid e \<longleftrightarrow> length (set_line (dSet e Way0)) = 16 \<and> length (set_line (dSet e Way1)) = 16"

interpretation dentry: codec_law dentry_codec dentry_valid
  unfolding dentry_codec_def
proof (rule codec_mono [OF codec_law.struct [OF dset.pair [OF dset.pair [OF way.pad]]]], goal_cases)
  case (1 e)
  then show ?case by (cases e) (auto simp: fun_eq_iff dest: way.exhaust, metis way.exhaust)
qed (simp add: dentry_valid_def)

interpretation statistics: codec_law statistics_codec "\<lambda>_. True"
  unfolding statistics_codec_def
  by (rule codec_mono [OF codec_law.struct [OF codec_law.pad [OF codec_law.pair [OF long.array word.array]]]]) simp_all

interpretation breakpoint: codec_law breakpoint_codec "\<lambda>b. int32 (ignore_count b)"
  unfolding breakpoint_codec_def
  by (rule codec_mono [OF codec_law.struct [OF word.pair [OF access.pair [OF int.pair [OF bool.codec_law_axioms]]]]]) simp_all

interpretation interrupt: codec_law interrupt_codec "\<lambda>x. int32 (intr_irl x)"
  unfolding interrupt_codec_def
  by (rule codec_mono [OF codec_law.struct [OF codec_law.pair [OF int.pad long.pair [OF bool.pair [OF bool.pair [OF long.codec_law_axioms]]]]]]) simp_all

interpretation inline: codec_law "array_codec 40 long_codec" "\<lambda>xs. length xs = 40"
  by (rule codec_mono [OF long.array]) (simp add: list_all_iff)

interpretation breakpoints: codec_law "array_codec MAX_BRKPTS breakpoint_codec"
  "\<lambda>bs. length bs = MAX_BRKPTS \<and> list_all (\<lambda>b. int32 (ignore_count b)) bs"
  by (rule breakpoint.array)

interpretation interrupts: codec_law "array_codec MAX_INTRS interrupt_codec"
  "\<lambda>xs. length xs = MAX_INTRS \<and> list_all (\<lambda>x. int32 (intr_irl x)) xs"
  by (rule interrupt.array)

lemmas item_unfolds = mach_item_def count_def reg_def reg_of_def ic_item_def dc_item_def brk_item_def intr_item_def

lemmas item_oks = word.item_ok long.item_ok int.item_ok nat.item_ok bool.item_ok bytes.item_ok statistics.item_ok
  inline.item_ok breakpoints.item_ok interrupts.item_ok

lemmas settles = word.settle long.settle int.settle nat.settle bool.settle bytes.settle statistics.settle
  inline.settle breakpoints.settle interrupts.settle

section \<open>The common memory\<close>

text \<open>What zlib documents: compress keeps to its room, and uncompress with enough room gives back what went in.\<close>

definition zlib_law :: "zlib \<Rightarrow> bool" where
  "zlib_law z \<longleftrightarrow> (\<forall>n bs buf. compress z n bs = Some buf \<longrightarrow> length buf \<le> n \<and> (\<forall>k. length bs \<le> k \<longrightarrow> uncompress z k buf = Some bs))"

lemma restores_read_word: "restores (k w) bs P f \<Longrightarrow> restores (read_word k) (be_bytes w @ bs) P f"
  by (simp add: restores_def read_word_def)

lemma restores_then_any:
  "restores r bs P f \<Longrightarrow> restores r' bs' (\<lambda>_. True) g \<Longrightarrow> restores (then_read r r') (bs @ bs') P (\<lambda>t. g (f t))"
  by (rule restores_then) simp_all

lemma restores_after_expect: "restores r bs P f \<Longrightarrow> restores (then_read (expect w) r) (be_bytes w @ bs) P f"
  by (simp add: restores_def then_read_def expect_def read_word_def)

lemma common_bytes_length [simp]: "length (common_bytes m) = unat (CM_SIZE m)"
  by (simp add: common_bytes_def)

lemma scratch_bytes_length [simp]: "length (scratch_bytes m) = unat SCRATCH_SIZE"
  by (simp add: scratch_bytes_def)

lemma cm_restores:
  assumes "cm_checkpoint_write z s = Returned bs" "zlib_law z"
  shows "restores (cm_checkpoint_read z) bs (\<lambda>t. CM_SIZE (cm (mach t)) = CM_SIZE (cm (mach s)))
     (\<lambda>t. set_scratch (scratch_bytes (cm (mach s))) (set_common (common_bytes (cm (mach s))) t))"
proof -
  let ?m = "cm (mach s)"
  obtain buf where buf: "compress z (unat (z_room (CM_SIZE ?m))) (common_bytes ?m) = Some buf"
    and bs: "bs = be_bytes 2 @ (be_bytes (of_nat (length buf)) @ buf) @ be_bytes SCRATCH_SIZE @ scratch_bytes ?m"
    using assms(1) by (auto simp: cm_checkpoint_write_def Let_def split: option.splits)
  have le: "length buf \<le> unat (z_room (CM_SIZE ?m))" and u: "uncompress z (unat (CM_SIZE ?m)) buf = Some (common_bytes ?m)"
    using assms(2) buf by (auto simp: zlib_law_def)
  have "length buf < 2 ^ 32" using le unsigned_less [of "z_room (CM_SIZE ?m)", where ?'a = nat] by simp
  then have l: "unat (of_nat (length buf) :: u32) = length buf" by (simp add: unsigned_of_nat take_bit_nat_eq_self)
  have c: "restores (read_common z (of_nat (length buf))) buf (\<lambda>t. CM_SIZE (cm (mach t)) = CM_SIZE ?m) (set_common (common_bytes ?m))"
    by (simp add: restores_def read_common_def l u)
  have r: "restores (read_items [item_of (bytes_codec (unat SCRATCH_SIZE)) (\<lambda>s. scratch_bytes (cm (mach s))) set_scratch]) (scratch_bytes ?m)
      (\<lambda>_. True) (set_scratch (scratch_bytes ?m))"
    by (simp add: restores_def item_of_def bytes_codec_def)
  show ?thesis unfolding cm_checkpoint_read_def bs append_assoc
    by (rule restores_after_expect [OF restores_then_any [OF restores_read_word [where k = "read_common z", OF c]
          restores_after_expect [OF r], unfolded append_assoc]])
qed


section \<open>Registers and counters\<close>

definition restored_counters :: "counters \<Rightarrow> counters \<Rightarrow> counters" where
  "restored_counters c t = t\<lparr>checkcast_quick_insns := checkcast_quick_insns c, checkcast_quick_traps := checkcast_quick_traps c,
     instanceof_quick_insns := instanceof_quick_insns c, instanceof_quick_traps := instanceof_quick_traps c,
     monitorenter_insns := monitorenter_insns c, monitorenter_misses := monitorenter_misses c,
     monitorenter_overflows := monitorenter_overflows c, monitorexit_insns := monitorexit_insns c,
     monitorexit_misses := monitorexit_misses c, monitorexit_overflows := monitorexit_overflows c,
     monitorexit_releases := monitorexit_releases c, acmp_branches := acmp_branches c, icmp_branches := icmp_branches c,
     inlineStats := (\<lambda>i j. if i < 5 \<and> j < 8 then inlineStats c i j else inlineStats t i j)\<rparr>"

definition restored_reads :: "dcache \<Rightarrow> dcache \<Rightarrow> dcache" where
  "restored_reads d t = t\<lparr>dcache_reads := dcache_reads d, dcache_writes := dcache_writes d, dcache_read_misses := dcache_read_misses d,
     dcache_write_misses := dcache_write_misses d, dcache_read_misses_causing_wb := dcache_read_misses_causing_wb d,
     dcache_write_misses_causing_wb := dcache_write_misses_causing_wb d\<rparr>"

definition restored_regs :: "machine \<Rightarrow> machine \<Rightarrow> machine" where
  "restored_regs m t = t\<lparr>pc := pc m, vars := vars m, frame := frame m, optop := optop m, oplim := oplim m, const_pool := const_pool m,
     psr := psr m, trapbase := trapbase m, lockCount := (lockCount t)(0 := lockCount m 0, 1 := lockCount m 1),
     lockAddr := (lockAddr t)(0 := lockAddr m 0, 1 := lockAddr m 1), userrange1 := userrange1 m, userrange2 := userrange2 m,
     gcConfig := gcConfig m, brk1a := brk1a m, brk2a := brk2a m, brk12c := brk12c m, versionId := versionId m, hcr := hcr m,
     scBottom := scBottom m, global0 := global0 m, global1 := global1 m, global2 := global2 m, global3 := global3 m\<rparr>"

lemma on_mach_on_mach: "on_mach f (on_mach g t) = on_mach (\<lambda>m. f (g m)) t"
  by (simp add: on_mach_def)

lemma on_mach_cong: "(\<And>m. f m = g m) \<Longrightarrow> on_mach f t = on_mach g t"
  by (simp add: on_mach_def)

lemma set_inline_array:
  "set_inline (inline_array c) = inlineStats_update (\<lambda>t i j. if i < 5 \<and> j < 8 then inlineStats c i j else t i j)"
proof -
  have "map (\<lambda>k. inlineStats c (k div 8) (k mod 8)) [0..<40] ! (8 * i + j) = inlineStats c i j" if "i < 5" "j < 8" for i j
  proof -
    have "8 * i + j < 40" using that by simp
    moreover have "(8 * i + j) div 8 = i" "(8 * i + j) mod 8 = j" using that(2) by simp_all
    ultimately show ?thesis by (simp del: upt_conv_Cons)
  qed
  then show ?thesis unfolding set_inline_def inline_array_def by (intro ext counters.equality) (auto simp: fun_eq_iff)
qed

lemma inline_array_length: "length (inline_array c) = 40"
  by (simp add: inline_array_def)

lemma counters_restore:
  "restores (read_items counter_items) (write_items counter_items s) P (on_mach (\<lambda>t. t\<lparr>icount := icount (mach s),
     cnt := restored_counters (cnt (mach s)) (cnt t), dc := restored_reads (dc (mach s)) (dc t)\<rparr>))"
  unfolding counter_items_def item_unfolds
  apply (rule items_restore)
   apply (simp add: item_oks inline_array_def)
  apply (simp only: fold_simps settles inline_array_length simp_thms comp_apply id_apply on_mach_on_mach)
  apply (rule on_mach_cong)
  apply (simp only: set_inline_array restored_counters_def restored_reads_def)
  apply (intro machine.equality counters.equality dcache.equality)
  apply simp_all
  done


lemmas settle_items = fold_simps settles inline_array_length simp_thms comp_apply id_apply on_mach_on_mach

lemma registers_restore:
  "restores (read_items register_items) (write_items register_items s) P (on_mach (restored_regs (mach s)))"
  unfolding register_items_def item_unfolds
  apply (rule items_restore)
   apply (simp add: item_oks)
  apply (simp only: settle_items)
  apply (rule on_mach_cong)
  apply (simp only: restored_regs_def)
  apply (intro machine.equality)
  apply (simp_all add: fun_eq_iff)
  done

definition restored_globals :: "simulator \<Rightarrow> simulator \<Rightarrow> simulator" where
  "restored_globals s t = t\<lparr>mach := restored_regs (mach s) ((mach t)\<lparr>icount := icount (mach s),
     cnt := restored_counters (cnt (mach s)) (cnt (mach t)), dc := restored_reads (dc (mach s)) (dc (mach t))\<rparr>),
     InterruptStatistics := InterruptStatistics s, AllTrapsStatistics := AllTrapsStatistics s\<rparr>"

lemma globals_restore: "restores (read_items global_regs_items) (write_items global_regs_items s) P (restored_globals s)"
  unfolding global_regs_items_def
proof (rule restores_append [OF counters_restore restores_append [OF registers_restore items_restore]])
  let ?is = "[item_of statistics_codec InterruptStatistics (\<lambda>x s. s\<lparr>InterruptStatistics := x\<rparr>),
      item_of statistics_codec AllTrapsStatistics (\<lambda>x s. s\<lparr>AllTrapsStatistics := x\<rparr>)]"
  show "list_all (\<lambda>i. item_ok i s) ?is" by (simp add: item_oks)
  show "fold (settle s) ?is t = t\<lparr>InterruptStatistics := InterruptStatistics s, AllTrapsStatistics := AllTrapsStatistics s\<rparr>" for t
    by (simp add: settles)
qed (rule refl, simp add: on_mach_def restored_globals_def)

section \<open>Simulation control, the stack cache, breakpoints and interrupts\<close>

lemma iam_restores:
  "restores (read_items iam_items) (write_items iam_items s) P (\<lambda>t. t\<lparr>ias_trace := ias_trace s, mach := (mach t)\<lparr>ias_scache := ias_scache (mach s),
     sc_bottom_min := sc_bottom_min (mach s), sc_bottom_max := sc_bottom_max (mach s)\<rparr>\<rparr>)"
  unfolding iam_items_def item_unfolds
  by (rule items_restore) (simp_all add: item_oks settles on_mach_def)

lemma scache_restores:
  "restores (read_items scache_items) (write_items scache_items s) P (on_mach (\<lambda>m. m\<lparr>sCacheMem := sCacheMem (mach s)\<rparr>))"
proof (rule items_restore)
  show "list_all (\<lambda>i. item_ok i s) scache_items" by (simp add: scache_items_def list_all_iff item_oks)
  fix t
  have "fold (settle s) (map (\<lambda>i. item_of word_codec (\<lambda>s. vSCacheRead (mach s) i) (\<lambda>w. on_mach (\<lambda>m. vSCacheWrite m i w))) [0..<n]) t
      = on_mach (\<lambda>m. m\<lparr>sCacheMem := (\<lambda>k. if unat k < n then sCacheMem (mach s) k else sCacheMem m k)\<rparr>) t" if "n \<le> 64" for n
    using that
  proof (induction n)
    case (Suc n)
    have "unat k < Suc n \<longleftrightarrow> unat k < n \<or> k = of_nat n" for k :: "6 word"
      using Suc.prems by (auto simp: less_Suc_eq word_unat_eq_iff unsigned_of_nat take_bit_nat_eq_self)
    with Suc show ?case
      by (simp add: settles on_mach_def vSCacheRead_def vSCacheWrite_def fun_upd_def) (auto intro!: machine.equality simp: fun_eq_iff)
  qed (simp add: on_mach_def)
  from this [of 64] show "fold (settle s) scache_items t = on_mach (\<lambda>m. m\<lparr>sCacheMem := sCacheMem (mach s)\<rparr>) t"
    using unsigned_less [where ?'b = 6 and ?'a = nat] by (simp add: scache_items_def del: upt_conv_Cons)
qed

definition table_valid :: "brkpt_table \<Rightarrow> bool" where
  "table_valid b \<longleftrightarrow> nbrkpts_set b < 2 ^ 31 \<and> int32 (nbrkpts_enabled b) \<and> length (brkpts b) = MAX_BRKPTS \<and>
     list_all (\<lambda>x. int32 (ignore_count x)) (brkpts b)"

lemma brkpt_restores:
  assumes "table_valid (brk (mach s))"
  shows "restores brkpt_read (brkpt_write s) P (on_mach (\<lambda>m. m\<lparr>brk := brk (mach s)\<rparr>))"
proof -
  have c: "restores (read_items brkpt_counts) (write_items brkpt_counts s) P
      (on_mach (\<lambda>m. m\<lparr>brk := (brk m)\<lparr>nbrkpts_set := nbrkpts_set (brk (mach s)), nbrkpts_enabled := nbrkpts_enabled (brk (mach s))\<rparr>\<rparr>))"
    unfolding brkpt_counts_def item_unfolds using assms
    by (intro items_restore) (simp_all add: item_oks settles on_mach_def table_valid_def)
  have a: "restores (read_items brkpt_array) (write_items brkpt_array s) (\<lambda>_. True)
      (on_mach (\<lambda>m. m\<lparr>brk := (brk m)\<lparr>brkpts := brkpts (brk (mach s))\<rparr>\<rparr>))"
    unfolding brkpt_array_def item_unfolds using assms
    by (intro items_restore) (simp_all add: item_oks settles on_mach_def table_valid_def)
  show ?thesis unfolding brkpt_read_def brkpt_write_def
    by (rule restores_mono [OF restores_then_any [OF c restores_after_expect [OF a]]]) (simp_all add: on_mach_def)
qed

definition schedule_valid :: "intr_state \<Rightarrow> bool" where
  "schedule_valid t \<longleftrightarrow> int32 (last_intr_set t) \<and> int32 (next_intr_id t) \<and> length (intrs t) = MAX_INTRS \<and>
     list_all (\<lambda>x. int32 (intr_irl x)) (intrs t)"

lemma intr_restores:
  assumes "schedule_valid (intr (mach s))"
  shows "restores intr_read (intr_write s) P
     (on_mach (\<lambda>m. m\<lparr>intr := (intr (mach s))\<lparr>next_sched_intr_icount := next_sched_intr_icount (intr m)\<rparr>\<rparr>))"
proof -
  have c: "restores (read_items intr_ids) (write_items intr_ids s) P
      (on_mach (\<lambda>m. m\<lparr>intr := (intr m)\<lparr>last_intr_set := last_intr_set (intr (mach s)), next_intr_id := next_intr_id (intr (mach s))\<rparr>\<rparr>))"
    unfolding intr_ids_def item_unfolds using assms
    by (intro items_restore) (simp_all add: item_oks settles on_mach_def schedule_valid_def)
  have a: "restores (read_items intr_array) (write_items intr_array s) (\<lambda>_. True)
      (on_mach (\<lambda>m. m\<lparr>intr := (intr m)\<lparr>intrs := intrs (intr (mach s))\<rparr>\<rparr>))"
    unfolding intr_array_def item_unfolds using assms
    by (intro items_restore) (simp_all add: item_oks settles on_mach_def schedule_valid_def)
  show ?thesis unfolding intr_read_def intr_write_def
    by (rule restores_mono [OF restores_then_any [OF c restores_after_expect [OF a]]]) (simp_all add: on_mach_def)
qed


section \<open>Caches\<close>

text \<open>
  The caches as icacheInit and dcacheInit left them when they were set to their present sizes, which are not zero: only the
  entries have changed since.
\<close>

definition caches_valid :: "machine \<Rightarrow> bool" where
  "caches_valid m \<longleftrightarrow> currentISize (ic m) \<in> {1, 2, 3, 4, 5} \<and> currentDSize (dc m) \<in> {1, 2, 3, 4, 5} \<and>
     icacheInit (proc_type m) (ic m) (currentISize (ic m)) = Some (DSV_SUCCESS, (ic m)\<lparr>I := replicate (length (I (ic m))) empty_ientry\<rparr>) \<and>
     dcacheInit (dc m) (currentDSize (dc m))
       = Some (DSV_SUCCESS, (dc m)\<lparr>D := replicate (length (D (dc m))) \<lparr>dSet = (\<lambda>_. empty_dset), lru = Way0\<rparr>\<rparr>) \<and>
     list_all (\<lambda>e. length (ent_line e) = 16) (I (ic m)) \<and> list_all dentry_valid (D (dc m))"

text \<open>Both routines set every field but the counters, from the size alone.\<close>

lemma icacheInit_size:
  assumes "n \<in> {1, 2, 3, 4, 5}" shows "icacheInit p i n = icacheInit p j n"
  using assms by (cases i; cases j) (auto simp: icacheInit_def Let_def)

lemma dcacheInit_size:
  assumes "n \<in> {1, 2, 3, 4, 5}" "dcacheInit d n = Some (r, d')"
  shows "dcacheInit e n = Some (r, restored_reads e d')"
  using assms by (cases d; cases e) (auto simp: dcacheInit_def restored_reads_def Let_def)

lemma restored_reads_same: "restored_reads d t = t \<Longrightarrow> restored_reads d x = x \<Longrightarrow> restored_reads t x = x"
  by (cases d; cases t; cases x) (simp add: restored_reads_def)

lemma restored_reads_self: "restored_reads d (d\<lparr>D := es\<rparr>) = d\<lparr>D := es\<rparr>"
  by (simp add: restored_reads_def)

lemma restored_reads_size: "restored_reads d (t\<lparr>currentDSize := n\<rparr>) = (restored_reads d t)\<lparr>currentDSize := n\<rparr>"
  by (simp add: restored_reads_def)

lemma icacheInit_entries:
  assumes "n \<in> {1, 2, 3, 4, 5}" "icacheInit p i n = Some (r, j)"
  shows "numOfIcacheEntries j = int (length (I j)) \<and> currentISize j = n \<and> iCacheLineSize j < 2 ^ 31 \<and> iSizeK j < 2 ^ 31 \<and>
    length (I j) < 2 ^ 31"
  using assms by (cases "p = maya") (auto simp: icacheInit_def Let_def)

lemma dcacheInit_entries:
  assumes "n \<in> {1, 2, 3, 4, 5}" "dcacheInit i n = Some (r, j)"
  shows "numOfDcacheEntries j = int (length (D j)) \<and> currentDSize j = n \<and> dCacheLineSize j < 2 ^ 31 \<and> dSizeK j < 2 ^ 31 \<and>
    length (D j) < 2 ^ 31"
  using assms by (auto simp: dcacheInit_def Let_def)

lemma caches_restore:
  assumes valid: "caches_valid (mach s)" and w: "cache_write s = Returned bs"
  shows "restores cache_read bs
     (\<lambda>t. proc_type (mach t) = proc_type (mach s) \<and> restored_reads (dc (mach s)) (dc (mach t)) = dc (mach t))
     (on_mach (\<lambda>m. m\<lparr>ic := ic (mach s), dc := dc (mach s)\<rparr>))"
proof -
  let ?i = "ic (mach s)" and ?d = "dc (mach s)"
  let ?fresh = "?i\<lparr>I := replicate (length (I ?i)) empty_ientry\<rparr>" and ?clean = "?d\<lparr>D := replicate (length (D ?d)) \<lparr>dSet = (\<lambda>_. empty_dset), lru = Way0\<rparr>\<rparr>"
  have I: "icacheInit (proc_type (mach s)) ?i (currentISize ?i) = Some (DSV_SUCCESS, ?fresh)"
    and D: "dcacheInit ?d (currentDSize ?d) = Some (DSV_SUCCESS, ?clean)"
    and ni: "currentISize ?i \<in> {1, 2, 3, 4, 5}" and nd: "currentDSize ?d \<in> {1, 2, 3, 4, 5}"
    and vi: "list_all (\<lambda>e. length (ent_line e) = 16) (I ?i)" and vd: "list_all dentry_valid (D ?d)"
    using valid unfolding caches_valid_def by blast+
  note i = icacheInit_entries [OF ni I, simplified] note d = dcacheInit_entries [OF nd D, simplified]
  have bs: "bs = write_items size_items s @ write_items geometry_items s @ concat (map (to_bytes ientry_codec) (I ?i))
      @ concat (map (to_bytes dentry_codec) (D ?d))"
    using w i d by (simp add: cache_write_def write_array_def array_codec_def)
  let ?P = "\<lambda>t. proc_type (mach t) = proc_type (mach s) \<and> restored_reads ?d (dc (mach t)) = dc (mach t)"
  let ?Q = "\<lambda>t. currentISize (ic (mach t)) = currentISize ?i \<and> currentDSize (dc (mach t)) = currentDSize ?d \<and> ?P t"
  let ?R = "\<lambda>t. ic (mach t) = ?fresh \<and> dc (mach t) = ?clean"
  have 1: "restores (read_items size_items) (write_items size_items s) ?P
      (on_mach (\<lambda>m. m\<lparr>ic := (ic m)\<lparr>currentISize := currentISize ?i\<rparr>, dc := (dc m)\<lparr>currentDSize := currentDSize ?d\<rparr>\<rparr>))"
    unfolding size_items_def item_unfolds
    by (rule items_restore) (simp_all add: item_oks settles on_mach_def)
  have 2: "restores reinit_caches [] ?Q (on_mach (\<lambda>m. m\<lparr>ic := ?fresh, dc := ?clean\<rparr>))"
  proof (unfold restores_def, intro allI impI)
    fix rest and t :: simulator
    assume Q: "?Q t"
    have "icacheInit (proc_type (mach t)) (ic (mach t)) (currentISize (ic (mach t))) = Some (DSV_SUCCESS, ?fresh)"
      using icacheInit_size [OF ni, of "proc_type (mach s)" "ic (mach t)" ?i] Q I by simp
    moreover have "dcacheInit (dc (mach t)) (currentDSize (dc (mach t))) = Some (DSV_SUCCESS, ?clean)"
      using dcacheInit_size [OF nd D, of "dc (mach t)"] Q restored_reads_same [of ?d "dc (mach t)" ?clean] by (simp add: restored_reads_self)
    ultimately show "reinit_caches ([] @ rest) t = Returned (rest, on_mach (\<lambda>m. m\<lparr>ic := ?fresh, dc := ?clean\<rparr>) t)"
      by (simp add: reinit_caches_def Let_def on_mach_def)
  qed
  have 3: "restores (read_items geometry_items) (write_items geometry_items s) ?R (\<lambda>t. t)"
  proof (rule restores_mono)
    show "restores (read_items geometry_items) (write_items geometry_items s) (\<lambda>_. True)
      (on_mach (\<lambda>m. m\<lparr>ic := (ic m)\<lparr>numOfIcacheEntries := numOfIcacheEntries ?i, iCacheLineSize := iCacheLineSize ?i, iSizeK := iSizeK ?i\<rparr>,
        dc := (dc m)\<lparr>numOfDcacheEntries := numOfDcacheEntries ?d, dCacheLineSize := dCacheLineSize ?d, dSizeK := dSizeK ?d\<rparr>\<rparr>))"
      unfolding geometry_items_def item_unfolds using i d
      by (intro items_restore) (simp_all add: item_oks settles on_mach_def int32_def comp_def)
  qed (simp_all add: on_mach_def)
  have 4: "restores (read_array ientry_codec (\<lambda>s. numOfIcacheEntries (ic (mach s))) (\<lambda>s. I (ic (mach s))) (\<lambda>xs. on_mach (ic_update (I_update (\<lambda>_. xs)))))
     (concat (map (to_bytes ientry_codec) (I ?i))) ?R (on_mach (ic_update (I_update (\<lambda>_. I ?i))))"
    by (rule ientry.array_read [OF vi]) (simp add: i)
  have 5: "restores (read_array dentry_codec (\<lambda>s. numOfDcacheEntries (dc (mach s))) (\<lambda>s. D (dc (mach s))) (\<lambda>xs. on_mach (dc_update (D_update (\<lambda>_. xs)))))
     (concat (map (to_bytes dentry_codec) (D ?d))) (\<lambda>t. dc (mach t) = ?clean) (on_mach (dc_update (D_update (\<lambda>_. D ?d))))"
    by (rule dentry.array_read [OF vd]) (simp add: d)
  show ?thesis
    unfolding cache_read_def bs
    by (rule restores_mono [OF restores_then [OF 1 restores_then [where bs = "[]", OF 2 restores_then [OF 3 restores_then [OF 4 5]],
          unfolded append_Nil]]]) (simp_all add: on_mach_def restored_reads_size)
qed

end
