(* ===== verification/Reset_Properties.thy ===== *)
theory Reset_Properties
  imports Example_Machines Pico_Init
begin

text \<open>
  The state after initPico: it always comes to an end, with the reset values of the processor, an empty stack cache, both
  caches and the dribbler off and the memory as it was; the first call also initialises the caches and the simulator's tables.
\<close>


definition at_reset :: "machine \<Rightarrow> bool" where
  "at_reset t \<longleftrightarrow> pc t = 0 \<and> vars t = 0x3ffffc \<and> frame t = 0 \<and> optop t = 0x3ffffc \<and> scBottom t = 0x3ffffc \<and> oplim t = 0 \<and>
     const_pool t = 0 \<and> trapbase t = 0 \<and> psr t = (if ias_boot8 t then 0x4020 else 0x20) \<and> gcConfig t = 0 \<and> brk12c t = 0 \<and>
     versionId t = 0xffffffff \<and> hcr_srn (hcr t) = (if proc_type t = pico then 0x10 else if proc_type t = maya then 0x20 else 0x21) \<and> \<not> bPowerDownState t \<and> \<not> bNMIState t \<and> uIRLState t = 0 \<and>
     ias_scache t \<and> once_inited t"

text \<open>A first call leaves the tables of the simulator and the caches it sets up empty; a later one does not touch them.\<close>

definition first_init :: "machine \<Rightarrow> machine \<Rightarrow> bool" where
  "first_init s t \<longleftrightarrow> exc t = NO_EXCEPTION \<and> sCacheMem t = (\<lambda>_. 0xdeadbeef) \<and> intr t = intr_init_module (intr s) \<and>
     brk t = brkpt_init_module (brk s) \<and>
     (if flag_icache_once_inited s then ic t = ic s
      else ic_ok (ic t) \<and> currentISize (ic t) = (if proc_type s = pico then 3 else 5) \<and> (\<forall>e\<in>set (I (ic t)). \<not> ent_valid e)) \<and>
     (if flag_dcache_once_inited s then dc t = dc s
      else dc_inv (CM_SIZE (cm t)) (dc t) (cm t) \<and> currentDSize (dc t) = (if proc_type s = pico then 4 else 5) \<and>
        (\<forall>a. dc_view (dc t) (cm t) a = cm_word (cm t) a))"

definition later_init :: "machine \<Rightarrow> machine \<Rightarrow> bool" where
  "later_init s t \<longleftrightarrow> exc t = exc s \<and> sCacheMem t = sCacheMem s \<and> intr t = intr s \<and> brk t = brk s \<and> ic t = ic s \<and> dc t = dc s \<and>
     icount t = icount s"

lemma init_icache_default:
  assumes "n \<in> {3, 5}"
  obtains r c where "icacheInit p i n = Some (r, c)" "ic_ok c" "\<forall>e\<in>set (I c). \<not> ent_valid e" "currentISize c = n"
  using assms icacheInit_ok [of p i n] that by (auto simp: icacheInit_def Let_def empty_ientry_def)

lemma init_dcache_default:
  assumes "n \<in> {4, 5}"
  obtains r c where "dcacheInit i n = Some (r, c)" "\<And>m. dc_inv (CM_SIZE m) c m" "\<And>m a. dc_view c m a = cm_word m a" "currentDSize c = n"
proof -
  obtain c where c: "dcacheInit i n = Some (DSV_SUCCESS, c)" "currentDSize c = n"
    using assms by (auto simp: dcacheInit_def Let_def)
  then show thesis using that dcacheInit_law [OF c(1)] by blast
qed

text \<open>The environment changes none of these fields.\<close>

lemmas selector_distribs =
 
  if_distrib [of cm] option.case_distrib [of cm]
  if_distrib [of proc_type] option.case_distrib [of proc_type]
  if_distrib [of exc] option.case_distrib [of exc]
  if_distrib [of sCacheMem] option.case_distrib [of sCacheMem]
  if_distrib [of intr] option.case_distrib [of intr]
  if_distrib [of brk] option.case_distrib [of brk]
  if_distrib [of ic] option.case_distrib [of ic]
  if_distrib [of dc] option.case_distrib [of dc]
  if_distrib [of bPowerDownState] option.case_distrib [of bPowerDownState]
  if_distrib [of bNMIState] option.case_distrib [of bNMIState]
  if_distrib [of uIRLState] option.case_distrib [of uIRLState]

lemma case_option_same [simp]: "(case x of None \<Rightarrow> y | Some _ \<Rightarrow> y) = y"
  by (cases x) simp_all

lemma init_once_first: "\<exists>t. init_once s = Some t \<and> first_init s t \<and> cm t = cm s \<and> proc_type t = proc_type s \<and> bPowerDownState t = bPowerDownState s \<and>
    bNMIState t = bNMIState s \<and> uIRLState t = uIRLState s"
proof -
  let ?i = "if proc_type s = pico then 3 else 5" and ?d = "if proc_type s = pico then 4 else 5"
  obtain ri ci where i: "icacheInit (proc_type s) (ic s) ?i = Some (ri, ci)" "ic_ok ci" "\<forall>e\<in>set (I ci). \<not> ent_valid e" "currentISize ci = ?i"
    by (rule init_icache_default [of ?i "proc_type s" "ic s"]) auto
  obtain rd cd where d: "dcacheInit (dc s) ?d = Some (rd, cd)" "\<And>m. dc_inv (CM_SIZE m) cd m" "\<And>m a. dc_view cd m a = cm_word m a"
      "currentDSize cd = ?d"
    by (rule init_dcache_default [of ?d "dc s"]) auto
  show ?thesis
    using i d
    by (cases "flag_icache_once_inited s"; cases "flag_dcache_once_inited s")
      (simp_all add: init_once_def init_icache_def init_dcache_def set_hcr_def vSCacheInit_def vClearAllExceptions_def first_init_def
        Let_def selector_distribs cong: if_cong option.case_cong)
qed

lemma hcr_srn_set: "v < 256 \<Longrightarrow> hcr_srn (set_field w 0 8 v) = v"
  using take_bit_small [of v 8] by (simp add: field_def set_field_def bit_eq_iff bit_simps) (auto simp: bit_simps word_less_nat_alt)

text \<open>What follows the part that runs once: u is the state it leaves.\<close>

lemma initPico_tail:
  assumes "(if once_inited s then Some u else init_once (s\<lparr>bPowerDownState := False, bNMIState := False, uIRLState := 0,
      sc_bottom_min := 0xffffffff, sc_bottom_max := 0\<rparr>)) = Some u"
    and "once_inited s \<Longrightarrow> u = s\<lparr>bPowerDownState := False, bNMIState := False, uIRLState := 0, sc_bottom_min := 0xffffffff, sc_bottom_max := 0\<rparr>"
    and "\<not> bPowerDownState u" "\<not> bNMIState u" "uIRLState u = 0"
  shows "\<exists>t. initPico s = Some t \<and> at_reset t \<and> nValidEntries t = 0 \<and> cm t = cm u \<and> proc_type t = proc_type u \<and>
     exc t = exc u \<and> sCacheMem t = sCacheMem u \<and> intr t = intr u \<and> brk t = brk u \<and> ic t = ic u \<and> dc t = dc u \<and> icount t = icount u"
proof -
  let ?v = "u\<lparr>vars := 0x3ffffc, oplim := 0, trapbase := 0, frame := 0, const_pool := 0, versionId := 0xffffffff, pc := 0, gcConfig := 0,
      brk12c := 0, psr := (if ias_boot8 u then 0x4020 else 0x20), optop := 0x3ffffc, scBottom := 0x3ffffc, ias_scache := True,
      opc_first_unused_index := (if proc_type u = pico then 238 else 247),
      hcr := set_field (hcr u) 0 8 (if proc_type u = pico then 0x10 else if proc_type u = maya then 0x20 else 0x21), once_inited := True\<rparr>"
  have "initPico s = Some ?v"
    using assms(1,2) by (cases "once_inited s"; cases "ias_boot8 u")
      (simp_all add: initPico_def Let_def update_psr_def set_optop_def oplim_violated_def update_sc_bottom_def set_hcr_def)
  then show ?thesis using assms(3-5) by (simp add: at_reset_def nValidEntries_def c_div_def hcr_srn_set)
qed

lemma initPico_exists: "\<exists>t. initPico s = Some t \<and> at_reset t \<and> nValidEntries t = 0 \<and> cm t = cm s \<and> proc_type t = proc_type s \<and>
     (if once_inited s then later_init s t else first_init s t)"
proof (cases "once_inited s")
  case True
  then show ?thesis
    using initPico_tail [of s "s\<lparr>bPowerDownState := False, bNMIState := False, uIRLState := 0, sc_bottom_min := 0xffffffff, sc_bottom_max := 0\<rparr>"]
    by (simp add: later_init_def)
next
  case False
  let ?s = "s\<lparr>bPowerDownState := False, bNMIState := False, uIRLState := 0, sc_bottom_min := 0xffffffff, sc_bottom_max := 0\<rparr>"
  obtain u where u: "init_once ?s = Some u" "first_init ?s u" "cm u = cm s" "proc_type u = proc_type s" "\<not> bPowerDownState u" "\<not> bNMIState u" "uIRLState u = 0"
    using init_once_first [of ?s] by auto
  obtain t where t: "initPico s = Some t" "at_reset t" "nValidEntries t = 0" "cm t = cm u" "proc_type t = proc_type u"
     "exc t = exc u" "sCacheMem t = sCacheMem u" "intr t = intr u" "brk t = brk u" "ic t = ic u" "dc t = dc u"
    using initPico_tail [of s u] False u by auto
  then have "first_init s t" using u(2,3)
    by (cases "flag_icache_once_inited s"; cases "flag_dcache_once_inited s") (simp_all add: first_init_def)
  then show ?thesis using t u False by simp
qed

text \<open>
  Property C18: initPico always comes to an end; the registers then hold their reset values, the stack cache is empty, the
  memory is as it was, and only the first call sets up the caches (empty, the data cache showing what the memory holds), the
  stack cache array, the interrupts and the breakpoints.
\<close>
theorem initPico_reset:
  "\<exists>t. initPico s = Some t \<and> at_reset t \<and> nValidEntries t = 0 \<and> cm t = cm s \<and> proc_type t = proc_type s \<and>
     (if once_inited s then later_init s t else first_init s t)"
  by (rule initPico_exists)

end
