(* ===== verification/Checkpoint_Properties.thy ===== *)
theory Checkpoint_Properties
  imports Checkpoint_Laws Reset_Properties
begin

text \<open>
  A simulator restarted from a checkpoint file: what is as it was, what is as initPico left it, and what becomes of a file that is
  not a checkpoint, of another version, or cut short.
\<close>

section \<open>The state after a restart\<close>

text \<open>The machine m was checkpointed; t is the machine initPico leaves before the modules are read.\<close>

definition resumed :: "machine \<Rightarrow> machine \<Rightarrow> machine" where
  "resumed m t = restored_regs m (t\<lparr>icount := icount m, cnt := restored_counters (cnt m) (cnt t),
     cm := (cm t)\<lparr>commonMemory := (\<lambda>a. if a < CM_SIZE (cm m) then commonMemory (cm m) a else commonMemory (cm t) a),
       scratchMemory := (\<lambda>a. if a - SCRATCH_START < SCRATCH_SIZE then scratchMemory (cm m) a else scratchMemory (cm t) a)\<rparr>,
     ic := ic m, dc := dc m, ias_scache := ias_scache m, sc_bottom_min := sc_bottom_min m, sc_bottom_max := sc_bottom_max m,
     sCacheMem := sCacheMem m, brk := brk m,
     intr := (intr m)\<lparr>next_sched_intr_icount := next_sched_intr_icount (intr t)\<rparr>\<rparr>)"

definition saveable :: "machine \<Rightarrow> bool" where
  "saveable m \<longleftrightarrow> caches_valid m \<and> table_valid (brk m) \<and> schedule_valid (intr m)"

lemma overwrite_common:
  "overwrite mem 0 (common_bytes m) = (\<lambda>a. if a < CM_SIZE m then commonMemory m a else mem a)"
  by (rule ext) (simp add: overwrite_def common_bytes_def word_less_nat_alt del: upt_conv_Cons)

lemma overwrite_scratch:
  "overwrite mem SCRATCH_START (scratch_bytes m) = (\<lambda>a. if a - SCRATCH_START < SCRATCH_SIZE then scratchMemory m a else mem a)"
  by (rule ext) (simp add: overwrite_def scratch_bytes_def word_less_nat_alt del: upt_conv_Cons)

lemma mach_selectors:
  "mach (on_mach f t) = f (mach t)" "ias_trace (on_mach f t) = ias_trace t" "InterruptStatistics (on_mach f t) = InterruptStatistics t"
  "AllTrapsStatistics (on_mach f t) = AllTrapsStatistics t"
  by (simp_all add: on_mach_def)

lemma modules_restore:
  assumes "cm_checkpoint_write z s = Returned memory" "cache_write s = Returned caches" "zlib_law z" "saveable (mach s)"
  shows "restores (read_modules z) (memory @ write_items global_regs_items s @ caches @ write_items iam_items s @
       write_items scache_items s @ brkpt_write s @ intr_write s)
     (\<lambda>t. CM_SIZE (cm (mach t)) = CM_SIZE (cm (mach s)) \<and> proc_type (mach t) = proc_type (mach s))
     (\<lambda>t. s\<lparr>mach := resumed (mach s) (mach t)\<rparr>)"
proof -
  let ?same = "\<lambda>t. CM_SIZE (cm (mach t)) = CM_SIZE (cm (mach s)) \<and> proc_type (mach t) = proc_type (mach s)"
  have valid: "caches_valid (mach s)" "table_valid (brk (mach s))" "schedule_valid (intr (mach s))"
    using assms(4) by (simp_all add: saveable_def)
  note tail = restores_then_any [OF iam_restores restores_then_any [OF scache_restores restores_then_any [OF
      brkpt_restores [OF valid(2)] intr_restores [OF valid(3)]]]]
  note caches = restores_then_any [OF caches_restore [OF valid(1) assms(2)] tail]
  have c: "restores (cm_checkpoint_read z) memory ?same (\<lambda>t. set_scratch (scratch_bytes (cm (mach s))) (set_common (common_bytes (cm (mach s))) t))"
    by (rule restores_mono [OF cm_restores [OF assms(1,3)]]) simp_all
  have q: "proc_type (mach (restored_globals s t)) = proc_type (mach t)"
      "restored_reads (dc (mach s)) (dc (mach (restored_globals s t))) = dc (mach (restored_globals s t))" for t
    by (simp_all add: restored_globals_def restored_regs_def restored_reads_def)
  note globals = restores_then [OF globals_restore [where P = "\<lambda>t. proc_type (mach t) = proc_type (mach s)"] caches]
  show ?thesis unfolding read_modules_def
  proof (rule restores_mono [OF restores_then [OF c globals]], goal_cases)
    case (4 t)
    show ?case
      apply (intro simulator.equality)
          apply (simp_all only: mach_selectors simulator.simps restored_globals_def set_scratch_def set_common_def)
      apply (simp only: overwrite_common overwrite_scratch resumed_def restored_regs_def)
      apply (intro machine.equality)
      apply (simp_all add: mach_selectors cong: if_cong)
      done
  qed (simp_all add: q mach_selectors set_scratch_def set_common_def)
qed


lemma checkpoint_parts:
  assumes "checkpoint z True s = Returned f"
  obtains memory caches where "cm_checkpoint_write z s = Returned memory" "cache_write s = Returned caches"
    "f = be_bytes 0x43484b50 @ be_bytes 1 @ be_bytes 5 @ memory @ write_items global_regs_items s @ caches @
       write_items iam_items s @ write_items scache_items s @ brkpt_write s @ intr_write s"
  using assms by (cases "cm_checkpoint_write z s"; cases "cache_write s") (auto simp: checkpoint_def)

lemma init_simulator_init: "initPico (mach s) = Some m \<Longrightarrow> \<exists>u. init_simulator s = Some u \<and> mach u = m"
  by (simp add: init_simulator_def)

lemma be_bytes_eq: "length (be_bytes w) = 4" "take 4 (be_bytes w @ bs) = be_bytes w" "drop 4 (be_bytes w @ bs) = bs"
  by simp_all

lemma checkpoint_restarts:
  assumes "checkpoint z True s = Returned f" "zlib_law z" "saveable (mach s)"
    and "proc_type (mach s0) = proc_type (mach s)" "CM_SIZE (cm (mach s0)) = CM_SIZE (cm (mach s))"
  shows "\<exists>t. initPico (mach s0) = Some t \<and> restart z (Some (f @ extra)) s0 = Restarted (s\<lparr>mach := resumed (mach s) t\<rparr>)"
proof -
  obtain t where t: "initPico (mach s0) = Some t" "cm t = cm (mach s0)" "proc_type t = proc_type (mach s0)"
    using initPico_exists by blast
  obtain u where u: "init_simulator s0 = Some u" "mach u = t" using init_simulator_init [OF t(1)] by blast
  obtain memory caches where p: "cm_checkpoint_write z s = Returned memory" "cache_write s = Returned caches"
    and f: "f = be_bytes 0x43484b50 @ be_bytes 1 @ be_bytes 5 @ memory @ write_items global_regs_items s @ caches @
       write_items iam_items s @ write_items scache_items s @ brkpt_write s @ intr_write s"
    by (rule checkpoint_parts [OF assms(1)])
  have "read_modules z (drop 12 (f @ extra)) u = Returned (extra, s\<lparr>mach := resumed (mach s) t\<rparr>)"
    using modules_restore [OF p assms(2,3)] t(2,3) u(2) assms(4,5) unfolding restores_def by (simp add: f)
  then show ?thesis using t(1) u(1) by (intro exI [of _ t]) (simp add: restart_def f)
qed

text \<open>
  Property C16: a checkpoint file, read back by a simulator of the same processor and memory size, whatever its state, restores
  the memories, the registers, the counters and statistics, both caches, the stack cache, the breakpoints and the table of
  interrupts; the rest of the machine is as initPico leaves it, the time of the next scheduled interrupt included.
\<close>
theorem checkpoint_restart:
  assumes "checkpoint z True s = Returned f" "zlib_law z" "saveable (mach s)"
    and "proc_type (mach s0) = proc_type (mach s)" "CM_SIZE (cm (mach s0)) = CM_SIZE (cm (mach s))"
  shows "\<exists>t. initPico (mach s0) = Some t \<and> restart z (Some (f @ extra)) s0 = Restarted (s\<lparr>mach := resumed (mach s) t\<rparr>)"
  by (rule checkpoint_restarts [OF assms])

section \<open>Files that are no checkpoints\<close>

text \<open>A reader that ends well takes the same steps when more bytes follow.\<close>

definition extends :: "'s restarter \<Rightarrow> bool" where
  "extends r \<longleftrightarrow> (\<forall>fp s rest u extra. r fp s = Returned (rest, u) \<longrightarrow> r (fp @ extra) s = Returned (rest @ extra, u))"

lemma obind_returned: "obind x k = Returned y \<longleftrightarrow> (\<exists>v. x = Returned v \<and> k v = Returned y)"
  by (cases x) simp_all

lemma extends_then: "extends r \<Longrightarrow> extends r' \<Longrightarrow> extends (then_read r r')"
  unfolding extends_def then_read_def by (fastforce simp: obind_returned)

lemma extends_word: "(\<And>w. extends (k w)) \<Longrightarrow> extends (read_word k)"
  by (simp add: extends_def read_word_def)

lemma extends_expect: "extends (expect w)"
  unfolding expect_def by (rule extends_word) (simp add: extends_def)

lemma extends_items: "extends (read_items is)"
proof -
  have "read_items is (fp @ extra) s = Returned (rest @ extra, u)" if "read_items is fp s = Returned (rest, u)" for fp s rest u extra
    using that by (induction "is" arbitrary: fp s) (auto split: if_splits option.splits)
  then show ?thesis by (simp add: extends_def)
qed

lemma extends_array: "extends (read_array c num g f)"
  by (auto simp: extends_def read_array_def Let_def min_def simp del: mult_less_cancel2 mult_le_cancel2 split: if_splits option.splits)

lemma extends_common: "extends (read_common z w)"
  by (auto simp: extends_def read_common_def Let_def split: if_splits option.splits)

lemma extends_reinit: "extends reinit_caches"
  by (auto simp: extends_def reinit_caches_def Let_def split: if_splits option.splits prod.splits)

lemma extends_modules: "extends (read_modules z)"
  unfolding read_modules_def cm_checkpoint_read_def cache_read_def brkpt_read_def intr_read_def
  by (intro extends_then extends_word extends_expect extends_items extends_array extends_common extends_reinit)

lemma restart_header:
  "restart z None s0 = Refused"
  "w \<noteq> 0x43484b50 \<Longrightarrow> restart z (Some (be_bytes w @ bs)) s0 = Refused"
  "(v, v') \<noteq> (1, 5) \<Longrightarrow> restart z (Some (be_bytes 0x43484b50 @ be_bytes v @ be_bytes v' @ bs)) s0 = Refused"
  by (auto simp: restart_def)

lemma restart_accepts:
  assumes "restart z (Some g) s0 = Restarted r"
  obtains u rest where "init_simulator s0 = Some u" "read_modules z (drop 12 g) u = Returned (rest, r)" "12 \<le> length g"
  using assms by (auto simp: restart_def split: if_splits option.splits outcome.splits)

text \<open>
  Property C17: restart returns 1 before it changes anything when the file cannot be opened, is no checkpoint file or one of
  another version, and never accepts a checkpoint file that has lost its last bytes.
\<close>
theorem restart_rejects:
  assumes "checkpoint z True s = Returned f" "zlib_law z" "saveable (mach s)"
    and "proc_type (mach s0) = proc_type (mach s)" "CM_SIZE (cm (mach s0)) = CM_SIZE (cm (mach s))" and k: "k < length f"
  shows "restart z (Some (take k f)) s0 \<noteq> Restarted r \<and> restart z None s0 = Refused \<and>
    (w \<noteq> 0x43484b50 \<longrightarrow> restart z (Some (be_bytes w @ bs)) s0 = Refused) \<and>
    ((v, v') \<noteq> (1, 5) \<longrightarrow> restart z (Some (be_bytes 0x43484b50 @ be_bytes v @ be_bytes v' @ bs)) s0 = Refused)"
proof -
  have "restart z (Some (take k f)) s0 \<noteq> Restarted r"
  proof
    assume "restart z (Some (take k f)) s0 = Restarted r"
    then obtain u rest where u: "init_simulator s0 = Some u" "read_modules z (drop 12 (take k f)) u = Returned (rest, r)" "12 \<le> length (take k f)"
      by (rule restart_accepts)
    obtain memory caches where p: "cm_checkpoint_write z s = Returned memory" "cache_write s = Returned caches"
      and f: "f = be_bytes 0x43484b50 @ be_bytes 1 @ be_bytes 5 @ memory @ write_items global_regs_items s @ caches @
         write_items iam_items s @ write_items scache_items s @ brkpt_write s @ intr_write s"
      by (rule checkpoint_parts [OF assms(1)])
    have "CM_SIZE (cm (mach u)) = CM_SIZE (cm (mach s))" "proc_type (mach u) = proc_type (mach s)"
      using initPico_exists [of "mach s0"] u(1) assms(4,5) by (auto simp: init_simulator_def)
    then have "read_modules z (drop 12 f @ []) u = Returned ([], s\<lparr>mach := resumed (mach s) (mach u)\<rparr>)"
      using modules_restore [OF p assms(2,3), unfolded restores_def, rule_format, of u "[]"] by (simp add: f)
    moreover have "read_modules z (drop 12 (take k f) @ drop k f) u = Returned (rest @ drop k f, r)"
      using extends_modules [of z] u(2) unfolding extends_def by blast
    moreover have "drop 12 (take k f) @ drop k f = drop 12 f"
      using u(3) append_take_drop_id [of k f] by (metis drop_append diff_is_0_eq drop_0)
    ultimately show False using k by simp
  qed
  then show ?thesis using restart_header by blast
qed

section \<open>Scheduled interrupts\<close>

text \<open>
  Property C33: intr\_checkpoint does not save the time of the next scheduled interrupt. In a simulator that has just been
  started, a restart leaves it at -1 although the table says which interrupt is next: no interrupt is dispatched.
\<close>
theorem restart_forgets_next_interrupt:
  assumes "checkpoint z True s = Returned f" "zlib_law z" "saveable (mach s)"
    and "proc_type (mach s0) = proc_type (mach s)" "CM_SIZE (cm (mach s0)) = CM_SIZE (cm (mach s))" "\<not> once_inited (mach s0)"
  shows "\<exists>r. restart z (Some f) s0 = Restarted r \<and> intrs (intr (mach r)) = intrs (intr (mach s)) \<and>
    next_intr_id (intr (mach r)) = next_intr_id (intr (mach s)) \<and> next_sched_intr_icount (intr (mach r)) = -1"
proof -
  obtain t where t: "initPico (mach s0) = Some t" "restart z (Some f) s0 = Restarted (s\<lparr>mach := resumed (mach s) t\<rparr>)"
    using checkpoint_restarts [OF assms(1-5), of "[]"] by auto
  have "next_sched_intr_icount (intr t) = -1"
    using initPico_exists [of "mach s0"] t(1) assms(6) by (auto simp: first_init_def intr_init_module_def)
  then show ?thesis using t(2) by (simp add: resumed_def restored_regs_def)
qed


section \<open>Examples\<close>

text \<open>
  A library that stores the bytes as they are, and simulators around machine0: one with an interrupt of level 3 scheduled at
  instruction 50, and one that has not been initialised.
\<close>

definition store_zlib :: zlib where
  "store_zlib = \<lparr>compress = (\<lambda>n bs. if length bs \<le> n then Some bs else None), uncompress = (\<lambda>n bs. if length bs \<le> n then Some bs else None)\<rparr>"

lemma store_zlib_law: "zlib_law store_zlib"
  by (simp add: zlib_law_def store_zlib_def)

definition no_statistics :: StatisticsObject where
  "no_statistics = \<lparr>average = 0, min_sample = DBL_MAX, max_sample = minus_DBL_MIN, nSamples = 0, which_max = 0, which_min = 0\<rparr>"

definition simulator_of :: "machine \<Rightarrow> simulator" where
  "simulator_of m = \<lparr>mach = m, ias_trace = 0, InterruptStatistics = no_statistics, AllTrapsStatistics = no_statistics\<rparr>"

definition pending0 :: intr_state where
  "pending0 = \<lparr>last_intr_set = 0, next_intr_id = 0,
     intrs = \<lparr>intr_irl = 3, next_intr_at = 50, intr_enabled = True, is_repeating = False, repeat_count = 50\<rparr> #
       replicate 999 \<lparr>intr_irl = 0, next_intr_at = 0, intr_enabled = False, is_repeating = False, repeat_count = 0\<rparr>,
     next_sched_intr_icount = 50\<rparr>"

definition scheduled0 :: simulator where "scheduled0 = simulator_of (machine0\<lparr>intr := pending0\<rparr>)"
definition fresh0 :: simulator where "fresh0 = simulator_of (machine0\<lparr>once_inited := False\<rparr>)"

lemma scheduled0_saveable: "saveable (mach scheduled0)"
proof -
  have "caches_valid (machine0\<lparr>intr := pending0\<rparr>)"
    by (simp add: caches_valid_def machine0_def icache1k_def dcache1k_def icacheInit_def dcacheInit_def Let_def list_all_iff
        dentry_valid_def empty_ientry_def empty_dset_def)
  then show ?thesis
    by (simp add: saveable_def scheduled0_def simulator_of_def table_valid_def schedule_valid_def int32_def MAX_BRKPTS_def MAX_INTRS_def
        list_all_iff) (simp add: machine0_def brkpt_table0_def pending0_def)
qed

lemma scheduled0_checkpoint: "\<exists>f. checkpoint store_zlib True scheduled0 = Returned f"
proof -
  have c: "\<exists>bs. cm_checkpoint_write store_zlib scheduled0 = Returned bs"
    by (simp add: cm_checkpoint_write_def Let_def store_zlib_def scheduled0_def simulator_of_def z_room_def mem64k_def)
  have i: "ic (mach scheduled0) = icache1k" "dc (mach scheduled0) = dcache1k"
    by (simp_all add: scheduled0_def simulator_of_def machine0_def)
  have "\<exists>bs. cache_write scheduled0 = Returned bs"
    by (simp add: cache_write_def i write_array_def) (simp add: icache1k_def dcache1k_def icacheInit_def dcacheInit_def Let_def)
  then show ?thesis using c by (auto simp: checkpoint_def)
qed

lemma fresh0_fields: "proc_type (mach fresh0) = proc_type (mach scheduled0)" "CM_SIZE (cm (mach fresh0)) = CM_SIZE (cm (mach scheduled0))"
    "\<not> once_inited (mach fresh0)"
  by (simp_all add: fresh0_def scheduled0_def simulator_of_def)

lemmas scheduled0_facts = store_zlib_law scheduled0_saveable fresh0_fields(1,2)

lemma checkpoint_restart_witness:
  "\<exists>f t. checkpoint store_zlib True scheduled0 = Returned f \<and> initPico (mach fresh0) = Some t \<and>
     restart store_zlib (Some (f @ [7])) fresh0 = Restarted (scheduled0\<lparr>mach := resumed (mach scheduled0) t\<rparr>)"
  using scheduled0_checkpoint checkpoint_restart [OF _ scheduled0_facts, of _ "[7]"] by blast

lemma restart_rejects_witness:
  "\<exists>f. checkpoint store_zlib True scheduled0 = Returned f \<and> restart store_zlib (Some (take (length f - 1) f)) fresh0 \<noteq> Restarted scheduled0 \<and>
     restart store_zlib (Some (be_bytes 0x43484b51)) fresh0 = Refused"
proof -
  obtain f where f: "checkpoint store_zlib True scheduled0 = Returned f" using scheduled0_checkpoint by blast
  then have "length f - 1 < length f" by (rule checkpoint_parts) simp
  then show ?thesis using f restart_rejects [OF f scheduled0_facts, of "length f - 1" scheduled0 "0x43484b51" "[]" 1 5] by auto
qed

lemma restart_forgets_next_interrupt_witness:
  "\<exists>f r. checkpoint store_zlib True scheduled0 = Returned f \<and> next_sched_intr_icount (intr (mach scheduled0)) = 50 \<and>
     restart store_zlib (Some f) fresh0 = Restarted r \<and> next_intr_id (intr (mach r)) = 0 \<and> next_sched_intr_icount (intr (mach r)) = -1"
proof -
  have "next_sched_intr_icount (intr (mach scheduled0)) = 50" "next_intr_id (intr (mach scheduled0)) = 0"
    by (simp_all add: scheduled0_def simulator_of_def pending0_def)
  then show ?thesis
    using scheduled0_checkpoint restart_forgets_next_interrupt [OF _ scheduled0_facts fresh0_fields(3)] by metis
qed

end
