(* ===== verification/Spec2Isabelle.thy ===== *)
theory Spec2Isabelle
  imports Jvm_Properties Array_Properties Loop_Properties Gdb_Properties Class_Invariant Class_Layout Class_Linker Copier_Properties
    Checkpoint_Properties
begin

text \<open>
  The instruction set simulator of picoJava-II and its class loader, verified. The repository holds
  the RTL of the processor and, under src/tools, the C programs around it; this library models the
  C code that decides what a Java program does: the memory hierarchy, the processor, the debugger's
  interface, and the loader that turns class files into linked classes.

  How the parts fit together. The simulator (iam/src) executes one instruction after another
  (executeBytecode of iam.c). Instructions work on an operand stack whose top lies in the stack
  cache (scache.c); all other accesses go through javamem.c, which checks permissions and
  breakpoints and passes them to the data cache (cache/src/cache.c) and on to the common memory
  (ldr/src/cm.c). Errors are exceptions, raised by priority, that end in a trap (exception.c,
  traps.c). A trap pushes a frame and enters a handler in the memory. Interrupts are scheduled by
  instruction counts (interrupts.c). The debugger (gdb\_interface.c) reads and writes the same state. The
  loader (ldr/src/loader.c, res.c, copy.c) reads class files, loads their super classes, lays out
  fields and method tables and rewrites the code.

  Conventions. C's 32-bit ints and pointers are words and wrap around; signed comparisons and
  divisions are written with sint. The host is big-endian, as initPico checks. A C struct is a record with
  the code's member names, an enum or union a datatype, an array a list or a function on addresses. A
  result None of an operation means that the process does not continue: exit, assert, an access outside
  an array, or another operation that C leaves undefined; each place says which. Where a function may also not
  return (partial\_function in Iam, Code\_Rewriting and Class\_Linker), the outer None stands for
  that, and termination is proved. Output to the terminal is left out, and statistics where they are
  only printed. Variables that C reads before they are set take their values from an
  argument (indet) about which nothing is assumed.

  Memory. Common\_Memory: cm.c with its main block, scratch area, console and system call register.
  Cache\_Geometry: the address fields of util.c. Data\_Cache, Instr\_Cache: the two caches of cache.c with fill,
  write-back, flush, invalidate and diagnostic accesses. Store\_Interface is the contract between the
  levels: the locale word\_store, interpreted for the common memory (cms), the data cache (dcs)
  and the processor's data port (port). Cache\_Transparency proves that no program can see the data cache:
  dc\_inv is kept and dc\_view, the memory as a program sees it, changes by the stores alone, so every
  sequence of loads and stores behaves as on a flat memory. Cache\_Maintenance and Cache\_Properties: what
  initialisation, flushing, zeroing and invalidating lines do to that view, and store-flush-fetch.

  Processor. Machine\_State: registers, flags, stack cache and nested components. Java\_Memory,
  Memory\_Port: loads and stores with all checks, and their contract when nothing intervenes. Stack\_Cache, Dribbler:
  spill and fill; moving optop keeps every word of the stack. Traps, Trap\_Properties: exceptions and trap
  entry; the exception of the highest priority wins with the registers of the first, and return from trap undoes
  entry around any well-behaved handler. Opcodes; Array\_Ops, Object\_Ops, Method\_Ops, Jvm\_Int\_Ops, Fp\_Ops (over
  Soft\_Float, IEEE 754 on bit patterns), Jvm\_Ops, Ext\_Ops: every instruction of array\_ops.c,
  object\_ops.c, jvm\_ops.c and ext\_ops.c, composed in vDoJVMOp and vDoExtOp as the switches of the code.
  Stack\_Access, Operand\_Stack: the technique of the instruction proofs, the operand stack as a
  list. Jvm\_Properties: 52 integer, constant and stack opcodes and 26 floating point ones refine functions on that list.
  Array\_Properties: checks before accesses, loads and stores. Pico\_Init, Iam: reset, configuration and the interpreter
  loop. Loop\_Properties: runs with and without a limit, interrupts, power-down. Breakpoints, Interrupts:
  the two tables of the simulator. Gdb\_Interface, Gdb\_Properties: the debugger's accesses. Example\_Machines:
  states on which hypotheses are shown to hold.

  Loader. Class\_Loader: createInternalClass and every reader it calls, as a parser with a
  position. Class\_Codec has the locales codec and update\_codec, the contract between a piece of the format and
  its reader; Class\_File and Class\_Format interpret them for every structure of a class file, which gives the
  round trip and the rejection of truncated files (Class\_Properties). Class\_Invariant: what holds of
  every class read, from any bytes. Class\_Resolver: binclasses, resolveFields, resolveMethods.
  Class\_Layout: slots and method tables, the latter as override of finite maps. Code\_Rewriting,
  Code\_Properties: changeOpcodeToQuick and xreturnReplace, two instances of the locale code\_pass. Class\_Linker:
  loadClassFile with its recursion on super classes, the invariant of the class table, and termination.
  Class\_Copier: copyOneBinClass, which lays a class out in the common memory, the class tables there (cm.c) and the
  bootstrapping of the fundamental classes; C structs are given by the offsets of their members.
  Copier\_Frame: reasoning about its steps, with what is known of the memory; the locale array\_copy is the contract of a
  loop that copies a list into an array. Class\_Image: what is known of constants, fields and methods
  afterwards, three interpretations of that locale. Copier\_Layout: the class object while it is laid out. Copier\_Properties: all of
  it goes to fresh memory, and the class can be read back: fields, methods, code, exception tables, the lookup
  by name, and the method vector of virtual calls.

  Checkpoints. Statistics: the samples of statistics.c. Checkpoint\_Format: variables in a file as items, each with a codec;
  the locale codec\_law is the contract of a codec, that it reads what it wrote, and is interpreted for every type that
  occurs (Checkpoint\_Laws). Checkpoint: the checkpoint function of every module, checkpoint and restart. The library zlib is a
  parameter; zlib\_law is what it documents. Reset\_Properties: the state after initPico. Checkpoint\_Properties: the state after a
  restart, written out field by field, the files restart refuses, and the scheduled interrupt it loses.

  Bounds. No proof assumes a size of the memory or caches other than what initialisation accepts: the
  memory size n and the cache sizes are variables. Fuel occurs in run\_steps only, where it is the
  program's own limit; unlimited\_run relates it to the run without a limit. Soft\_Float is executable and
  is trusted as the meaning of the host's arithmetic.

  Not modelled. Output: disassembler, dumps, reports, tracing, listing of breakpoints and
  interrupts. The profiler, which does not influence the machine. Cache preload files. Loading of single methods and of init files. Co-simulation, Verilog PLI and Tcl
  glue, and third-party headers. The RTL is not C and is not modelled either.
\<close>

end
